(* ===== verification/Prelude.thy ===== *)
theory Prelude
  imports "HOL-Library.Word" "HOL-Library.Multiset" "HOL-Library.Product_Lexorder"
    "HOL-Library.List_Lexorder" "HOL-Library.Char_ord"
begin

text \<open>
  Shared vocabulary of the development.

  A fallible Rust function returns \<open>error + 'a\<close>, \<open>Inl\<close> being the \<open>Err\<close> branch; \<open>bindE\<close> is the
  \<open>?\<close> operator, \<open>foldE\<close> a \<open>for\<close> loop whose body may leave the function with an error and
  \<open>mapE\<close> the collection of an iterator of results into one result.  A byte string and an ASCII
  text are lists of \<open>8 word\<close> and of \<open>char\<close>.  \<open>u64_max\<close>, \<open>sat_add\<close> and \<open>sat_sub\<close> are the saturating
  64-bit operations the caches and the planners of the program use, on naturals.
\<close>

named_theorems err_simps "evaluation of the error-propagating combinators"
named_theorems sat_simps "facts about saturating 64-bit arithmetic"

type_synonym byte = "8 word"
type_synonym bytes = "byte list"

subsection \<open>Results\<close>

primrec bindE :: "'e + 'a \<Rightarrow> ('a \<Rightarrow> 'e + 'b) \<Rightarrow> 'e + 'b" where
  "bindE (Inl e) f = Inl e"
| "bindE (Inr x) f = f x"

primrec foldE :: "('a \<Rightarrow> 's \<Rightarrow> 'e + 's) \<Rightarrow> 'a list \<Rightarrow> 's \<Rightarrow> 'e + 's" where
  "foldE f [] s = Inr s"
| "foldE f (x # xs) s = bindE (f x s) (foldE f xs)"

primrec mapE :: "('a \<Rightarrow> 'e + 'b) \<Rightarrow> 'a list \<Rightarrow> 'e + 'b list" where
  "mapE f [] = Inr []"
| "mapE f (x # xs) = bindE (f x) (\<lambda>y. bindE (mapE f xs) (\<lambda>ys. Inr (y # ys)))"

declare bindE.simps [err_simps] foldE.simps [err_simps] mapE.simps [err_simps]

lemma bindE_Inr_iff [err_simps]: "bindE r f = Inr y \<longleftrightarrow> (\<exists>x. r = Inr x \<and> f x = Inr y)"
  by (cases r) auto

lemma bindE_Inl_iff: "bindE r f = Inl e \<longleftrightarrow> r = Inl e \<or> (\<exists>x. r = Inr x \<and> f x = Inl e)"
  by (cases r) auto

lemma map_sum_Inr_iff [err_simps]: "map_sum f g r = Inr y \<longleftrightarrow> (\<exists>x. r = Inr x \<and> y = g x)"
  by (cases r) auto

lemma bindE_assoc: "bindE (bindE r f) g = bindE r (\<lambda>x. bindE (f x) g)"
  by (cases r) auto

lemma foldE_append: "foldE f (xs @ ys) s = bindE (foldE f xs s) (foldE f ys)"
proof (induction xs arbitrary: s)
  case (Cons x xs)
  then show ?case by (cases "f x s") simp_all
qed simp

lemma foldE_invariant:
  assumes "foldE f xs s = Inr s'" and "P s"
    and "\<And>x s s'. \<lbrakk>x \<in> set xs; P s; f x s = Inr s'\<rbrakk> \<Longrightarrow> P s'"
  shows "P s'"
  using assms by (induction xs arbitrary: s) (auto simp: err_simps)

lemma mapE_Inr_iff: "mapE f xs = Inr ys \<longleftrightarrow> list_all2 (\<lambda>x y. f x = Inr y) xs ys"
  by (induction xs arbitrary: ys) (auto simp: err_simps list_all2_Cons1)

lemma mapE_Inr_length: "mapE f xs = Inr ys \<Longrightarrow> length ys = length xs"
  by (simp add: mapE_Inr_iff list_all2_lengthD)

lemma mapE_all_ok: "(\<And>x. x \<in> set xs \<Longrightarrow> f x = Inr (g x)) \<Longrightarrow> mapE f xs = Inr (map g xs)"
  by (induction xs) (auto simp: err_simps)

lemma mapE_Inl: "mapE f xs = Inl e \<Longrightarrow> \<exists>x \<in> set xs. f x = Inl e"
  by (induction xs) (auto simp: bindE_Inl_iff)

subsection \<open>Saturating 64-bit arithmetic\<close>

definition u64_max :: nat where
  "u64_max = 18446744073709551615"

definition sat_add :: "nat \<Rightarrow> nat \<Rightarrow> nat" where
  "sat_add a b = min (a + b) u64_max"

definition sat_sub :: "nat \<Rightarrow> nat \<Rightarrow> nat" where
  "sat_sub a b = a - b"

lemma sat_add_le [sat_simps]: "sat_add a b \<le> u64_max"
  by (simp add: sat_add_def)

lemma sat_add_exact [sat_simps]: "a + b \<le> u64_max \<Longrightarrow> sat_add a b = a + b"
  by (simp add: sat_add_def)

lemma sat_add_0 [sat_simps]: "a \<le> u64_max \<Longrightarrow> sat_add a 0 = a" "a \<le> u64_max \<Longrightarrow> sat_add 0 a = a"
  by (simp_all add: sat_add_def)

lemma sat_add_mono: "a \<le> a' \<Longrightarrow> b \<le> b' \<Longrightarrow> sat_add a b \<le> sat_add a' b'"
  by (simp add: sat_add_def)

lemma fold_sat_add:
  "a \<le> u64_max \<Longrightarrow> foldl sat_add a xs = min (a + sum_list xs) u64_max"
  by (induction xs arbitrary: a) (auto simp: sat_add_def min_def)

subsection \<open>Lists and stable sorting\<close>

lemma sort_key_filter_commute: "filter P (sort_key f xs) = sort_key f (filter P xs)"
  by (simp add: filter_sort)

lemma sort_key_distinct_map:
  "distinct (map f xs) \<Longrightarrow> distinct (map f (sort_key g xs))"
  by (metis distinct_map distinct_sort mset_sort set_sort)

lemma sorted_wrt_sort_key: "sorted_wrt (\<lambda>x y. f x \<le> f y) (sort_key f xs)"
  using sorted_sort_key[of f xs] by (simp add: sorted_map)

lemma sort_key_Cons_min:
  assumes "y \<in> set xs"
  shows "f (hd (sort_key f xs)) \<le> f y"
proof (cases "sort_key f xs")
  case Nil
  then have "set xs = {}" by (metis list.set(1) set_sort)
  with assms show ?thesis by simp
next
  case (Cons z zs)
  moreover have "y \<in> set (sort_key f xs)" using assms by simp
  ultimately show ?thesis using sorted_sort_key[of f xs] by auto
qed

lemma insort_key_map: "insort_key k (f x) (map f xs) = map f (insort_key (\<lambda>x. k (f x)) x xs)"
  by (induction xs) auto

lemma sort_key_map: "sort_key k (map f xs) = map f (sort_key (\<lambda>x. k (f x)) xs)"
  by (induction xs) (simp_all add: insort_key_map)

text \<open>Sorting in descending order and stably, as \<open>sort_by(|a, b| b.cmp(a))\<close> does.\<close>

definition sort_desc :: "('a \<Rightarrow> 'k::linorder) \<Rightarrow> 'a list \<Rightarrow> 'a list" where
  "sort_desc f xs = rev (sort_key f (rev xs))"

lemma mset_sort_desc [simp]: "mset (sort_desc f xs) = mset xs"
  and set_sort_desc [simp]: "set (sort_desc f xs) = set xs"
  and length_sort_desc [simp]: "length (sort_desc f xs) = length xs"
  and sort_desc_Nil [simp]: "sort_desc f [] = []"
  and sorted_wrt_sort_desc: "sorted_wrt (\<lambda>x y. f y \<le> f x) (sort_desc f xs)"
  using sorted_wrt_sort_key[of f "rev xs"] by (simp_all add: sort_desc_def sorted_wrt_rev)

lemma sort_desc_stable:
  "filter (\<lambda>y. f y = k) (sort_desc f xs) = filter (\<lambda>y. f y = k) xs"
  by (simp add: sort_desc_def rev_filter [symmetric] sort_key_stable)

lemma filter_below_sorted:
  assumes "sorted_wrt (\<lambda>x y. c y < (c x :: 'k :: linorder)) xs" and "k < length xs"
  shows "filter (\<lambda>x. c x < c (xs ! k)) xs = drop (Suc k) xs"
  using assms
proof (induction xs arbitrary: k)
  case (Cons x xs)
  show ?case
  proof (cases k)
    case 0
    have "\<forall>y \<in> set xs. c y < c x" using Cons.prems by simp
    then show ?thesis using 0 by (simp add: filter_id_conv)
  next
    case (Suc j)
    then have "c (xs ! j) < c x" using Cons.prems by simp
    then have "\<not> c x < c (xs ! j)" by (rule less_not_sym)
    then show ?thesis using Cons.IH[of j] Cons.prems Suc by simp
  qed
qed simp

lemma filter_length_less:
  assumes "x \<in> set xs" "Q x" "\<not> P x" "\<And>y. P y \<Longrightarrow> Q y"
  shows "length (filter P xs) < length (filter Q xs)"
proof -
  have "filter P xs = filter P (filter Q xs)" using assms(4) by (auto intro: filter_cong)
  moreover have "length (filter P (filter Q xs)) < length (filter Q xs)"
    using assms(1-3) by (intro length_filter_less[of x]) auto
  ultimately show ?thesis by simp
qed

lemma sorted_wrt_strict:
  "sorted_wrt (\<lambda>x y. - c x \<le> - (c y :: int)) xs \<Longrightarrow> distinct (map c xs) \<Longrightarrow>
     sorted_wrt (\<lambda>x y. c y < c x) xs"
  by (induction xs) (auto simp: order_less_le image_iff)

lemma distinct_map_filter_key: "distinct (map f xs) \<Longrightarrow> distinct (map f (filter P xs))"
  by (simp add: distinct_map inj_on_def)

subsection \<open>Tables\<close>

text \<open>\<open>UPDATE ... WHERE\<close>, \<open>DELETE ... WHERE\<close> and \<open>SELECT ... WHERE key = k\<close> on a table kept as the list of
  its rows; \<open>row_count\<close> is the number of rows a statement reports as changed.\<close>

named_theorems table_simps "facts about statements on tables"

definition update_where :: "('r \<Rightarrow> bool) \<Rightarrow> ('r \<Rightarrow> 'r) \<Rightarrow> 'r list \<Rightarrow> 'r list" where
  "update_where P f rows = map (\<lambda>r. if P r then f r else r) rows"

definition delete_where :: "('r \<Rightarrow> bool) \<Rightarrow> 'r list \<Rightarrow> 'r list" where
  "delete_where P rows = filter (\<lambda>r. \<not> P r) rows"

definition row_count :: "('r \<Rightarrow> bool) \<Rightarrow> 'r list \<Rightarrow> nat" where
  "row_count P rows = length (filter P rows)"

definition select_one :: "('r \<Rightarrow> 'k) \<Rightarrow> 'k \<Rightarrow> 'r list \<Rightarrow> 'r option" where
  "select_one key k rows = find (\<lambda>r. key r = k) rows"

lemma map_update_where [table_simps]:
  "(\<And>r. key (f r) = key r) \<Longrightarrow> map key (update_where P f rows) = map key rows"
  by (simp add: update_where_def)

lemma set_update_where: "set (update_where P f rows) = (\<lambda>r. if P r then f r else r) ` set rows"
  by (simp add: update_where_def)

lemma update_where_Nil [simp]: "update_where P f [] = []"
  and update_where_Cons [simp]:
    "update_where P f (r # rows) = (if P r then f r else r) # update_where P f rows"
  and update_where_append [simp]:
    "update_where P f (rows @ rows') = update_where P f rows @ update_where P f rows'"
  by (simp_all add: update_where_def)

lemma update_where_none: "(\<And>r. r \<in> set rows \<Longrightarrow> \<not> P r) \<Longrightarrow> update_where P f rows = rows"
  by (induction rows) auto

lemma set_delete_where [simp]: "set (delete_where P rows) = {r \<in> set rows. \<not> P r}"
  by (auto simp: delete_where_def)

lemma delete_where_none: "(\<And>r. r \<in> set rows \<Longrightarrow> \<not> P r) \<Longrightarrow> delete_where P rows = rows"
  by (induction rows) (auto simp: delete_where_def)

lemma distinct_delete_where [table_simps]:
  "distinct (map key rows) \<Longrightarrow> distinct (map key (delete_where P rows))"
  by (simp add: delete_where_def distinct_map_filter_key)

lemma select_one_Some_iff:
  assumes "distinct (map key rows)"
  shows "select_one key k rows = Some r \<longleftrightarrow> r \<in> set rows \<and> key r = k"
  using assms by (induction rows) (auto simp: select_one_def)

lemma select_one_SomeD: "select_one key k rows = Some r \<Longrightarrow> r \<in> set rows \<and> key r = k"
  by (auto simp: select_one_def find_Some_iff)

lemma select_one_None_iff: "select_one key k rows = None \<longleftrightarrow> k \<notin> key ` set rows"
  by (auto simp: select_one_def find_None_iff)

lemma select_one_append:
  "select_one key k (xs @ ys) =
     (case select_one key k xs of None \<Rightarrow> select_one key k ys | Some r \<Rightarrow> Some r)"
  by (induction xs) (simp_all add: select_one_def)

lemma select_one_Cons:
  "select_one key k (x # xs) = (if key x = k then Some x else select_one key k xs)"
  by (simp add: select_one_def)

lemma select_one_update_where:
  assumes "\<And>r. key (f r) = key r"
  shows "select_one key k (update_where P f rows) =
           map_option (\<lambda>r. if P r then f r else r) (select_one key k rows)"
  using assms by (induction rows) (auto simp: select_one_def)

lemma concat_map_key:
  assumes "distinct (map key xs)"
  shows "concat (map (\<lambda>x. if key x = k then g x else []) xs) =
           (case select_one key k xs of None \<Rightarrow> [] | Some x \<Rightarrow> g x)"
  using assms
proof (induction xs)
  case (Cons x xs)
  show ?case
  proof (cases "key x = k")
    case True
    then have "select_one key k xs = None" using Cons.prems by (auto simp: select_one_None_iff)
    then show ?thesis using True Cons by (simp add: select_one_Cons)
  next
    case False
    then show ?thesis using Cons by (simp add: select_one_Cons)
  qed
qed (simp add: select_one_def)

lemma map_fst_concat_singletons:
  assumes "\<And>x. h x = [] \<or> (\<exists>y. h x = [(x, y)])"
  shows "map fst (concat (map h xs)) = filter (\<lambda>x. h x \<noteq> []) xs"
proof (induction xs)
  case (Cons x xs)
  then show ?case using assms[of x] by auto
qed simp

lemma distinct_submset:
  assumes "mset xs \<subseteq># mset ys" "distinct ys"
  shows "distinct xs"
  unfolding distinct_count_atmost_1
proof
  fix a
  have "count (mset xs) a \<le> count (mset ys) a" using assms(1) by (rule mset_subset_eq_count)
  also have "\<dots> \<le> 1" using assms(2) by (simp add: distinct_count_atmost_1)
  finally have le: "count (mset xs) a \<le> 1" .
  show "count (mset xs) a = (if a \<in> set xs then 1 else 0)"
  proof (cases "a \<in> set xs")
    case True
    then have "0 < count (mset xs) a" by (metis count_greater_zero_iff set_mset_mset)
    then have "count (mset xs) a = 1" using le by linarith
    then show ?thesis using True by (simp only: if_True)
  next
    case False
    then have "count (mset xs) a = 0" by (metis count_eq_zero_iff set_mset_mset)
    then show ?thesis using False by (simp only: if_False)
  qed
qed

lemma row_count_key:
  "distinct (map key rows) \<Longrightarrow>
     row_count (\<lambda>r. key r = k) rows = (if k \<in> key ` set rows then 1 else 0)"
proof (induction rows)
  case (Cons r rows)
  then show ?case
    by (cases "key r = k") (auto simp: row_count_def filter_empty_conv)
qed (simp add: row_count_def)

text \<open>References from one table to the keys of another survive a deletion of unreferenced rows.\<close>

lemma refs_delete_parent:
  assumes "f ` S \<subseteq> g ` T" and "\<And>y. y \<in> T \<Longrightarrow> P y \<Longrightarrow> g y \<notin> f ` S"
  shows "f ` S \<subseteq> g ` {y \<in> T. \<not> P y}"
proof
  fix z assume z: "z \<in> f ` S"
  then obtain y where "y \<in> T" "z = g y" using assms(1) by blast
  moreover have "\<not> P y" using assms(2) z calculation by metis
  ultimately show "z \<in> g ` {y \<in> T. \<not> P y}" by blast
qed

lemma refs_delete_child: "f ` S \<subseteq> A \<Longrightarrow> f ` {x \<in> S. P x} \<subseteq> A"
  by blast

text \<open>A savepoint: the statements run on the database, an error puts the old database back.\<close>

definition savepoint :: "('d \<Rightarrow> 'e + 'd \<times> 'a) \<Rightarrow> 'd \<Rightarrow> ('e + 'a) \<times> 'd" where
  "savepoint f d = (case f d of Inl e \<Rightarrow> (Inl e, d) | Inr (d', x) \<Rightarrow> (Inr x, d'))"

lemma savepoint_Inl: "savepoint f d = (Inl e, d') \<longleftrightarrow> f d = Inl e \<and> d' = d"
  by (auto simp: savepoint_def split: sum.splits)

lemma savepoint_Inr: "savepoint f d = (Inr x, d') \<longleftrightarrow> f d = Inr (d', x)"
  by (auto simp: savepoint_def split: sum.splits)

end
