(* ===== verification/State_Machines.thy ===== *)
theory State_Machines
  imports Prelude "HOL-Library.Sublist"
begin

text \<open>
  The five lifecycle state machines of \<open>local_store/state_machines.rs\<close>: the enums, the canonical
  strings \<open>Display\<close> writes and \<open>FromStr\<close> reads, and \<open>try_transition\<close>.  The state diagrams of
  \<open>docs/ARCHITECTURE.md\<close> section 5 are the step relations \<open>body_step\<close>, \<open>media_step\<close> and the ranks
  of the three linear machines; \<open>transition_system\<close> is the contract every machine meets and
  \<open>linear_machine\<close> the contract of the forward-only ones.  The last section is the single-row
  table of \<open>restore/state_machine.rs\<close> and every history of calls on it.
\<close>

datatype state_transition_error =
    Illegal string string
  | Unknown string

subsection \<open>The machines\<close>

datatype body_state =
    LocalPlainAvailable
  | LocalEncryptedAvailable
  | RemoteArchiveOnly
  | DeliveryStoreOnly
  | DeletedForMe
  | DeletedForEveryone
  | Unavailable

primrec show_body :: "body_state \<Rightarrow> string" where
  "show_body LocalPlainAvailable = ''local_plain_available''"
| "show_body LocalEncryptedAvailable = ''local_encrypted_available''"
| "show_body RemoteArchiveOnly = ''remote_archive_only''"
| "show_body DeliveryStoreOnly = ''delivery_store_only''"
| "show_body DeletedForMe = ''deleted_for_me''"
| "show_body DeletedForEveryone = ''deleted_for_everyone''"
| "show_body Unavailable = ''unavailable''"

definition parse_body :: "string \<Rightarrow> state_transition_error + body_state" where
  "parse_body s =
    (if s = ''local_plain_available'' then Inr LocalPlainAvailable
     else if s = ''local_encrypted_available'' then Inr LocalEncryptedAvailable
     else if s = ''remote_archive_only'' then Inr RemoteArchiveOnly
     else if s = ''delivery_store_only'' then Inr DeliveryStoreOnly
     else if s = ''deleted_for_me'' then Inr DeletedForMe
     else if s = ''deleted_for_everyone'' then Inr DeletedForEveryone
     else if s = ''unavailable'' then Inr Unavailable
     else Inl (Unknown s))"

definition body_try_transition ::
  "body_state \<Rightarrow> body_state \<Rightarrow> state_transition_error + body_state" where
  "body_try_transition f t =
    (if (f, t) \<in> set
          [(LocalPlainAvailable, LocalEncryptedAvailable),
           (LocalEncryptedAvailable, LocalPlainAvailable),
           (LocalPlainAvailable, RemoteArchiveOnly),
           (RemoteArchiveOnly, LocalPlainAvailable),
           (LocalPlainAvailable, DeletedForMe),
           (LocalPlainAvailable, DeletedForEveryone),
           (DeliveryStoreOnly, LocalPlainAvailable),
           (RemoteArchiveOnly, Unavailable)]
     then Inr t
     else Inl (Illegal (show_body f) (show_body t)))"

datatype media_state =
    ThumbnailOnly
  | OriginalLocal
  | RemoteOriginal
  | DownloadInProgress
  | Evicted
  | Deleted

primrec show_media :: "media_state \<Rightarrow> string" where
  "show_media ThumbnailOnly = ''thumbnail_only''"
| "show_media OriginalLocal = ''original_local''"
| "show_media RemoteOriginal = ''remote_original''"
| "show_media DownloadInProgress = ''download_in_progress''"
| "show_media Evicted = ''evicted''"
| "show_media Deleted = ''deleted''"

definition parse_media :: "string \<Rightarrow> state_transition_error + media_state" where
  "parse_media s =
    (if s = ''thumbnail_only'' then Inr ThumbnailOnly
     else if s = ''original_local'' then Inr OriginalLocal
     else if s = ''remote_original'' then Inr RemoteOriginal
     else if s = ''download_in_progress'' then Inr DownloadInProgress
     else if s = ''evicted'' then Inr Evicted
     else if s = ''deleted'' then Inr Deleted
     else Inl (Unknown s))"

definition media_try_transition ::
  "media_state \<Rightarrow> media_state \<Rightarrow> state_transition_error + media_state" where
  "media_try_transition f t =
    (if (f, t) \<in> set
          [(ThumbnailOnly, OriginalLocal),
           (ThumbnailOnly, RemoteOriginal),
           (OriginalLocal, Evicted),
           (OriginalLocal, Deleted),
           (Evicted, DownloadInProgress),
           (RemoteOriginal, DownloadInProgress),
           (DownloadInProgress, OriginalLocal)]
     then Inr t
     else Inl (Illegal (show_media f) (show_media t)))"

datatype archive_state =
    NotArchived
  | ArchivePending
  | ArchiveUploaded
  | ArchiveVerified
  | ArchiveCompacted

primrec show_archive :: "archive_state \<Rightarrow> string" where
  "show_archive NotArchived = ''not_archived''"
| "show_archive ArchivePending = ''archive_pending''"
| "show_archive ArchiveUploaded = ''archive_uploaded''"
| "show_archive ArchiveVerified = ''archive_verified''"
| "show_archive ArchiveCompacted = ''archive_compacted''"

definition parse_archive :: "string \<Rightarrow> state_transition_error + archive_state" where
  "parse_archive s =
    (if s = ''not_archived'' then Inr NotArchived
     else if s = ''archive_pending'' then Inr ArchivePending
     else if s = ''archive_uploaded'' then Inr ArchiveUploaded
     else if s = ''archive_verified'' then Inr ArchiveVerified
     else if s = ''archive_compacted'' then Inr ArchiveCompacted
     else Inl (Unknown s))"

definition archive_try_transition ::
  "archive_state \<Rightarrow> archive_state \<Rightarrow> state_transition_error + archive_state" where
  "archive_try_transition f t =
    (if (f, t) \<in> set
          [(NotArchived, ArchivePending),
           (ArchivePending, ArchiveUploaded),
           (ArchiveUploaded, ArchiveVerified),
           (ArchiveVerified, ArchiveCompacted)]
     then Inr t
     else Inl (Illegal (show_archive f) (show_archive t)))"

datatype backup_state =
    NotBackedUp
  | BackupPending
  | BackupUploaded
  | BackupManifestCommitted
  | BackupExpired

primrec show_backup :: "backup_state \<Rightarrow> string" where
  "show_backup NotBackedUp = ''not_backed_up''"
| "show_backup BackupPending = ''backup_pending''"
| "show_backup BackupUploaded = ''backup_uploaded''"
| "show_backup BackupManifestCommitted = ''backup_manifest_committed''"
| "show_backup BackupExpired = ''backup_expired''"

definition parse_backup :: "string \<Rightarrow> state_transition_error + backup_state" where
  "parse_backup s =
    (if s = ''not_backed_up'' then Inr NotBackedUp
     else if s = ''backup_pending'' then Inr BackupPending
     else if s = ''backup_uploaded'' then Inr BackupUploaded
     else if s = ''backup_manifest_committed'' then Inr BackupManifestCommitted
     else if s = ''backup_expired'' then Inr BackupExpired
     else Inl (Unknown s))"

definition backup_try_transition ::
  "backup_state \<Rightarrow> backup_state \<Rightarrow> state_transition_error + backup_state" where
  "backup_try_transition f t =
    (if (f, t) \<in> set
          [(NotBackedUp, BackupPending),
           (BackupPending, BackupUploaded),
           (BackupUploaded, BackupManifestCommitted),
           (BackupManifestCommitted, BackupExpired)]
     then Inr t
     else Inl (Illegal (show_backup f) (show_backup t)))"

datatype restore_state =
    IdentityRestored
  | RootKeysUnwrapped
  | ManifestVerified
  | SkeletonRestored
  | SearchRestored
  | RecentMessagesRestored
  | MediaLazyRestoreEnabled
  | FullRestoreComplete

primrec show_restore :: "restore_state \<Rightarrow> string" where
  "show_restore IdentityRestored = ''identity_restored''"
| "show_restore RootKeysUnwrapped = ''root_keys_unwrapped''"
| "show_restore ManifestVerified = ''manifest_verified''"
| "show_restore SkeletonRestored = ''skeleton_restored''"
| "show_restore SearchRestored = ''search_restored''"
| "show_restore RecentMessagesRestored = ''recent_messages_restored''"
| "show_restore MediaLazyRestoreEnabled = ''media_lazy_restore_enabled''"
| "show_restore FullRestoreComplete = ''full_restore_complete''"

definition parse_restore :: "string \<Rightarrow> state_transition_error + restore_state" where
  "parse_restore s =
    (if s = ''identity_restored'' then Inr IdentityRestored
     else if s = ''root_keys_unwrapped'' then Inr RootKeysUnwrapped
     else if s = ''manifest_verified'' then Inr ManifestVerified
     else if s = ''skeleton_restored'' then Inr SkeletonRestored
     else if s = ''search_restored'' then Inr SearchRestored
     else if s = ''recent_messages_restored'' then Inr RecentMessagesRestored
     else if s = ''media_lazy_restore_enabled'' then Inr MediaLazyRestoreEnabled
     else if s = ''full_restore_complete'' then Inr FullRestoreComplete
     else Inl (Unknown s))"

definition restore_try_transition ::
  "restore_state \<Rightarrow> restore_state \<Rightarrow> state_transition_error + restore_state" where
  "restore_try_transition f t =
    (if (f, t) \<in> set
          [(IdentityRestored, RootKeysUnwrapped),
           (RootKeysUnwrapped, ManifestVerified),
           (ManifestVerified, SkeletonRestored),
           (SkeletonRestored, SearchRestored),
           (SearchRestored, RecentMessagesRestored),
           (RecentMessagesRestored, MediaLazyRestoreEnabled),
           (MediaLazyRestoreEnabled, FullRestoreComplete)]
     then Inr t
     else Inl (Illegal (show_restore f) (show_restore t)))"

subsection \<open>The contract of a machine\<close>

locale transition_system =
  fixes tr :: "'s \<Rightarrow> 's \<Rightarrow> state_transition_error + 's"
    and disp :: "'s \<Rightarrow> string"
    and parse :: "string \<Rightarrow> state_transition_error + 's"
  assumes tr_target: "tr f t = Inr u \<Longrightarrow> u = t"
    and tr_error: "tr f t = Inl e \<Longrightarrow> e = Illegal (disp f) (disp t)"
    and parse_disp: "parse (disp s) = Inr s"
    and parse_ok: "parse x = Inr s \<Longrightarrow> x = disp s"
    and parse_error: "parse x = Inl e \<Longrightarrow> e = Unknown x"
begin

lemma disp_inj: "disp s = disp t \<longleftrightarrow> s = t"
  by (metis parse_disp sum.inject(2))

lemma parse_iff: "parse x = Inr s \<longleftrightarrow> x = disp s"
  using parse_disp parse_ok by blast

lemma parse_fails_iff: "parse x = Inl e \<longleftrightarrow> (\<forall>s. x \<noteq> disp s) \<and> e = Unknown x"
  by (metis parse_error parse_iff sum.exhaust_sel sum.distinct(1))

lemma error_names_states: "tr f t = Inl (Illegal (disp f') (disp t')) \<Longrightarrow> f' = f \<and> t' = t"
  using tr_error disp_inj by blast

text \<open>Driving the machine through a list of targets succeeds exactly along legal edges.\<close>

lemma run_iff:
  "foldE (\<lambda>t s. tr s t) ts s = Inr s' \<longleftrightarrow>
     successively (\<lambda>f t. tr f t = Inr t) (s # ts) \<and> s' = last (s # ts)"
proof (induction ts arbitrary: s)
  case (Cons t ts)
  show ?case
  proof (cases "tr s t")
    case (Inr u)
    then have "u = t" by (rule tr_target)
    then show ?thesis using Cons Inr by simp
  qed simp
qed auto

end

locale linear_machine = transition_system tr disp parse
  for tr :: "'s \<Rightarrow> 's \<Rightarrow> state_transition_error + 's" and disp parse +
  fixes rank :: "'s \<Rightarrow> nat" and top :: nat
  assumes tr_rank: "tr f t = Inr t \<longleftrightarrow> rank t = Suc (rank f)"
    and rank_le: "rank s \<le> top"
    and rank_inj: "rank s = rank t \<Longrightarrow> s = t"
begin

lemma run_rank: "foldE (\<lambda>t s. tr s t) ts s = Inr s' \<Longrightarrow> rank s' = rank s + length ts"
proof (induction ts arbitrary: s)
  case (Cons t ts)
  then obtain u where u: "tr s t = Inr u" "foldE (\<lambda>t s. tr s t) ts u = Inr s'"
    by (auto simp: err_simps)
  then have "u = t" using tr_target by blast
  then have "rank t = Suc (rank s)" using u tr_rank by simp
  moreover have "rank s' = rank u + length ts" using Cons.IH u(2) by blast
  ultimately show ?case using \<open>u = t\<close> by simp
qed simp

lemma run_length: "foldE (\<lambda>t s. tr s t) ts s = Inr s' \<Longrightarrow> length ts \<le> top - rank s"
  using run_rank rank_le[of s'] by fastforce

lemma run_ranks:
  "foldE (\<lambda>t s. tr s t) ts s = Inr s' \<longleftrightarrow>
     map rank ts = [Suc (rank s)..<Suc (rank s + length ts)] \<and> s' = last (s # ts)"
proof (induction ts arbitrary: s)
  case (Cons t ts)
  show ?case
  proof (cases "tr s t")
    case (Inl e)
    then have "rank t \<noteq> Suc (rank s)" by (metis sum.distinct(1) tr_rank)
    then show ?thesis using Inl by (simp add: upt_rec)
  next
    case (Inr u)
    then have "u = t" by (rule tr_target)
    then have r: "rank t = Suc (rank s)" using Inr tr_rank by simp
    show ?thesis
      using Cons[of t] Inr \<open>u = t\<close> r
      by (simp add: upt_rec[of "Suc (rank s)"])
  qed
qed auto

lemma run_distinct: "foldE (\<lambda>t s. tr s t) ts s = Inr s' \<Longrightarrow> distinct (s # ts)"
proof -
  assume "foldE (\<lambda>t s. tr s t) ts s = Inr s'"
  then have "map rank (s # ts) = rank s # [Suc (rank s)..<Suc (rank s + length ts)]"
    by (simp add: run_ranks del: upt_Suc)
  then have "map rank (s # ts) = [rank s..<Suc (rank s + length ts)]"
    by (simp add: upt_conv_Cons del: upt_Suc)
  then have "distinct (map rank (s # ts))" by (metis distinct_upt)
  then show ?thesis using distinct_map by blast
qed

lemma run_unique:
  assumes "foldE (\<lambda>t s. tr s t) ts s = Inr s'" and "foldE (\<lambda>t s. tr s t) us s = Inr u'"
    and "length ts = length us"
  shows "ts = us"
proof (rule map_injective)
  show "map rank ts = map rank us" using assms by (simp add: run_ranks)
  show "inj rank" by (simp add: injI rank_inj)
qed

lemma run_append_top:
  "rank s = top \<Longrightarrow> foldE (\<lambda>t s. tr s t) ts s = Inr s' \<longleftrightarrow> ts = [] \<and> s' = s"
  using run_length by fastforce

end

subsection \<open>The state diagrams\<close>

inductive body_step :: "body_state \<Rightarrow> body_state \<Rightarrow> bool" where
  lock: "body_step LocalPlainAvailable LocalEncryptedAvailable"
| unlock: "body_step LocalEncryptedAvailable LocalPlainAvailable"
| offload: "body_step LocalPlainAvailable RemoteArchiveOnly"
| rehydrate: "body_step RemoteArchiveOnly LocalPlainAvailable"
| delete_local: "body_step LocalPlainAvailable DeletedForMe"
| delete_everyone: "body_step LocalPlainAvailable DeletedForEveryone"
| ingest: "body_step DeliveryStoreOnly LocalPlainAvailable"
| lost: "body_step RemoteArchiveOnly Unavailable"

inductive media_step :: "media_state \<Rightarrow> media_state \<Rightarrow> bool" where
  tap_download: "media_step ThumbnailOnly OriginalLocal"
| remote_only: "media_step ThumbnailOnly RemoteOriginal"
| evict: "media_step OriginalLocal Evicted"
| hard_delete: "media_step OriginalLocal Deleted"
| tap_evicted: "media_step Evicted DownloadInProgress"
| tap_remote: "media_step RemoteOriginal DownloadInProgress"
| download_done: "media_step DownloadInProgress OriginalLocal"

code_pred body_step .
code_pred media_step .

inductive_cases body_stepE: "body_step f t"
inductive_cases media_stepE: "media_step f t"
inductive_simps body_step_simps [simp]:
  "body_step LocalPlainAvailable t" "body_step LocalEncryptedAvailable t"
  "body_step RemoteArchiveOnly t" "body_step DeliveryStoreOnly t" "body_step DeletedForMe t"
  "body_step DeletedForEveryone t" "body_step Unavailable t"
inductive_simps media_step_simps [simp]:
  "media_step ThumbnailOnly t" "media_step OriginalLocal t" "media_step RemoteOriginal t"
  "media_step DownloadInProgress t" "media_step Evicted t" "media_step Deleted t"

primrec archive_rank :: "archive_state \<Rightarrow> nat" where
  "archive_rank NotArchived = 0"
| "archive_rank ArchivePending = 1"
| "archive_rank ArchiveUploaded = 2"
| "archive_rank ArchiveVerified = 3"
| "archive_rank ArchiveCompacted = 4"

primrec backup_rank :: "backup_state \<Rightarrow> nat" where
  "backup_rank NotBackedUp = 0"
| "backup_rank BackupPending = 1"
| "backup_rank BackupUploaded = 2"
| "backup_rank BackupManifestCommitted = 3"
| "backup_rank BackupExpired = 4"

primrec restore_rank :: "restore_state \<Rightarrow> nat" where
  "restore_rank IdentityRestored = 0"
| "restore_rank RootKeysUnwrapped = 1"
| "restore_rank ManifestVerified = 2"
| "restore_rank SkeletonRestored = 3"
| "restore_rank SearchRestored = 4"
| "restore_rank RecentMessagesRestored = 5"
| "restore_rank MediaLazyRestoreEnabled = 6"
| "restore_rank FullRestoreComplete = 7"

interpretation body_machine: transition_system body_try_transition show_body parse_body
proof (unfold_locales, goal_cases)
  case (3 s) show ?case by (cases s) (simp_all add: parse_body_def)
qed (auto simp: body_try_transition_def parse_body_def split: if_splits)

interpretation media_machine: transition_system media_try_transition show_media parse_media
proof (unfold_locales, goal_cases)
  case (3 s) show ?case by (cases s) (simp_all add: parse_media_def)
qed (auto simp: media_try_transition_def parse_media_def split: if_splits)

interpretation archive_machine:
  linear_machine archive_try_transition show_archive parse_archive archive_rank 4
proof (unfold_locales, goal_cases)
  case (3 s) show ?case by (cases s) (simp_all add: parse_archive_def)
next
  case (6 f t) show ?case by (cases f; cases t) (simp_all add: archive_try_transition_def)
next
  case (7 s) show ?case by (cases s) simp_all
next
  case (8 s t) then show ?case by (cases s; cases t) simp_all
qed (auto simp: archive_try_transition_def parse_archive_def split: if_splits)

interpretation backup_machine:
  linear_machine backup_try_transition show_backup parse_backup backup_rank 4
proof (unfold_locales, goal_cases)
  case (3 s) show ?case by (cases s) (simp_all add: parse_backup_def)
next
  case (6 f t) show ?case by (cases f; cases t) (simp_all add: backup_try_transition_def)
next
  case (7 s) show ?case by (cases s) simp_all
next
  case (8 s t) then show ?case by (cases s; cases t) simp_all
qed (auto simp: backup_try_transition_def parse_backup_def split: if_splits)

interpretation restore_machine:
  linear_machine restore_try_transition show_restore parse_restore restore_rank 7
proof (unfold_locales, goal_cases)
  case (3 s) show ?case by (cases s) (simp_all add: parse_restore_def)
next
  case (6 f t) show ?case by (cases f; cases t) (simp_all add: restore_try_transition_def)
next
  case (7 s) show ?case by (cases s) simp_all
next
  case (8 s t) then show ?case by (cases s; cases t) simp_all
qed (auto simp: restore_try_transition_def parse_restore_def split: if_splits)

lemma body_try_transition_step: "body_try_transition f t = Inr u \<longleftrightarrow> body_step f t \<and> u = t"
  by (cases f; cases t) (auto simp: body_try_transition_def)

lemma media_try_transition_step: "media_try_transition f t = Inr u \<longleftrightarrow> media_step f t \<and> u = t"
  by (cases f; cases t) (auto simp: media_try_transition_def)

lemma body_step_rtrancl_closed:
  assumes "body_step\<^sup>*\<^sup>* s t" and "s \<noteq> t"
  shows "s \<notin> {DeletedForMe, DeletedForEveryone, Unavailable} \<and> t \<noteq> DeliveryStoreOnly"
  using assms
proof (induction rule: rtranclp_induct)
  case (step t u)
  then show ?case by (cases s) (auto elim!: body_stepE)
qed simp

lemma body_hub:
  "s \<notin> {DeletedForMe, DeletedForEveryone, Unavailable} \<Longrightarrow> body_step\<^sup>*\<^sup>* s LocalPlainAvailable"
  by (cases s) (auto intro: body_step.intros)

lemma body_from_hub: "t \<noteq> DeliveryStoreOnly \<Longrightarrow> body_step\<^sup>*\<^sup>* LocalPlainAvailable t"
  by (cases t) (auto intro: body_step.intros rtranclp.rtrancl_into_rtrancl)

lemma media_step_rtrancl_closed:
  assumes "media_step\<^sup>*\<^sup>* s t" and "s \<noteq> t"
  shows "s \<noteq> Deleted \<and> t \<noteq> ThumbnailOnly \<and> (t = RemoteOriginal \<longrightarrow> s = ThumbnailOnly)"
  using assms
proof (induction rule: rtranclp_induct)
  case (step t u)
  then show ?case by (cases s) (auto elim!: media_stepE)
qed simp

lemma media_hub: "s \<noteq> Deleted \<Longrightarrow> media_step\<^sup>*\<^sup>* s OriginalLocal"
proof (cases s)
  case RemoteOriginal
  then show ?thesis
    by (metis media_step.download_done media_step.tap_remote r_into_rtranclp rtranclp_trans)
next
  case Evicted
  then show ?thesis
    by (metis media_step.download_done media_step.tap_evicted r_into_rtranclp rtranclp_trans)
qed (auto intro: media_step.intros)

lemma media_from_hub:
  "t \<notin> {ThumbnailOnly, RemoteOriginal} \<Longrightarrow> media_step\<^sup>*\<^sup>* OriginalLocal t"
proof (cases t)
  case DownloadInProgress
  then show ?thesis
    by (metis media_step.evict media_step.tap_evicted r_into_rtranclp rtranclp_trans)
qed (auto intro: media_step.intros)

subsection \<open>The persisted restore state\<close>

text \<open>
  The table \<open>restore_state\<close> holds at most one row, its state column is text.  The error messages
  of the code carry the data the constructors carry; a failing SQL statement is not modelled.
\<close>

type_synonym restore_row = "(string \<times> string option) option"

datatype restore_error =
    RowMissing restore_state
  | IllegalMove state_transition_error
  | InvalidRow state_transition_error

definition load_row :: "restore_row \<Rightarrow> restore_error + (restore_state \<times> string option) option" where
  "load_row row = (case row of
      None \<Rightarrow> Inr None
    | Some (txt, notes) \<Rightarrow> (case parse_restore txt of
          Inl e \<Rightarrow> Inl (InvalidRow e)
        | Inr st \<Rightarrow> Inr (Some (st, notes))))"

definition save_row :: "restore_state \<Rightarrow> string option \<Rightarrow> restore_row \<Rightarrow> restore_row" where
  "save_row st notes row = Some (show_restore st, notes)"

definition transition_row ::
  "restore_row \<Rightarrow> restore_state \<Rightarrow> string option \<Rightarrow> restore_error + (restore_state \<times> restore_row)" where
  "transition_row row to notes = bindE (load_row row) (\<lambda>current. case current of
      None \<Rightarrow> (if to \<noteq> IdentityRestored then Inl (RowMissing to)
               else Inr (to, save_row to notes row))
    | Some (from, _) \<Rightarrow> (case restore_try_transition from to of
          Inl e \<Rightarrow> Inl (IllegalMove e)
        | Inr nxt \<Rightarrow> Inr (nxt, save_row nxt notes row)))"

definition reset_row :: "restore_row \<Rightarrow> restore_row" where
  "reset_row row = None"

text \<open>Histories of calls: a failed call leaves the row as it was.\<close>

datatype restore_call = Advance restore_state "string option" | Reset

primrec exec_call :: "restore_call \<Rightarrow> restore_row \<Rightarrow> restore_row" where
  "exec_call (Advance to notes) row =
     (case transition_row row to notes of Inl e \<Rightarrow> row | Inr (_, row') \<Rightarrow> row')"
| "exec_call Reset row = reset_row row"

definition advance_targets :: "restore_call list \<Rightarrow> restore_state list" where
  "advance_targets cs = concat (map (\<lambda>c. case c of Advance to _ \<Rightarrow> [to] | Reset \<Rightarrow> []) cs)"

abbreviation restore_order :: "restore_state list" where
  "restore_order \<equiv> [IdentityRestored, RootKeysUnwrapped, ManifestVerified, SkeletonRestored,
     SearchRestored, RecentMessagesRestored, MediaLazyRestoreEnabled, FullRestoreComplete]"

lemma advance_targets_snoc [simp]:
  "advance_targets (cs @ [Advance to n]) = advance_targets cs @ [to]"
  "advance_targets (cs @ [Reset]) = advance_targets cs"
  by (simp_all add: advance_targets_def)

lemma load_row_show [simp]: "load_row (Some (show_restore st, n)) = Inr (Some (st, n))"
  by (simp add: load_row_def restore_machine.parse_disp)

lemma load_row_None [simp]: "load_row None = Inr None"
  by (simp add: load_row_def)

lemma transition_row_None:
  "transition_row None to n =
     (if to = IdentityRestored then Inr (to, Some (show_restore to, n)) else Inl (RowMissing to))"
  by (simp add: transition_row_def save_row_def)

lemma transition_row_Some:
  "transition_row (Some (show_restore st, m)) to n =
     (if restore_rank to = Suc (restore_rank st) then Inr (to, Some (show_restore to, n))
      else Inl (IllegalMove (Illegal (show_restore st) (show_restore to))))"
proof (cases "restore_try_transition st to")
  case (Inl e)
  then have "restore_rank to \<noteq> Suc (restore_rank st)" "e = Illegal (show_restore st) (show_restore to)"
    using restore_machine.tr_rank[of st to] restore_machine.tr_error[of st to] by auto
  then show ?thesis using Inl by (simp add: transition_row_def)
next
  case (Inr u)
  then have "u = to" "restore_rank to = Suc (restore_rank st)"
    using restore_machine.tr_rank[of st to] restore_machine.tr_target[of st to] by auto
  then show ?thesis using Inr by (simp add: transition_row_def save_row_def)
qed

definition restore_progress :: "restore_call list \<Rightarrow> restore_row \<Rightarrow> bool" where
  "restore_progress cs row \<longleftrightarrow> row = None \<or>
     (\<exists>st n. row = Some (show_restore st, n) \<and>
        subseq (take (Suc (restore_rank st)) restore_order) (advance_targets cs))"

lemma restore_order_take:
  "restore_rank to = Suc (restore_rank st) \<Longrightarrow>
     take (Suc (restore_rank to)) restore_order = take (Suc (restore_rank st)) restore_order @ [to]"
  by (cases st; cases to) simp_all

lemma restore_progress_step:
  assumes "restore_progress cs row"
  shows "restore_progress (cs @ [c]) (exec_call c row)"
proof (cases c)
  case [simp]: (Advance to n)
  show ?thesis
  proof (cases row)
    case None
    have "subseq (take (Suc (restore_rank IdentityRestored)) restore_order)
            (advance_targets cs @ [IdentityRestored])"
      by (simp add: list_emb_append2)
    with None show ?thesis
      unfolding restore_progress_def
      by (auto simp: transition_row_None simp del: show_restore.simps restore_rank.simps)
  next
    case (Some r)
    then obtain st m where r: "row = Some (show_restore st, m)"
      and sub: "subseq (take (Suc (restore_rank st)) restore_order) (advance_targets cs)"
      using assms by (auto simp: restore_progress_def)
    show ?thesis
    proof (cases "restore_rank to = Suc (restore_rank st)")
      case True
      then show ?thesis
        using r sub restore_order_take[OF True]
        by (auto simp: restore_progress_def transition_row_Some simp del: take_Suc_Cons
            intro!: list_emb_append_mono)
    next
      case False
      then show ?thesis
        using r sub
        by (auto simp: restore_progress_def transition_row_Some intro: list_emb_prefix list_emb_append2)
    qed
  qed
next
  case Reset
  then show ?thesis by (simp add: restore_progress_def reset_row_def)
qed

lemma restore_progress_exec: "restore_progress cs (fold exec_call cs None)"
proof (induction cs rule: rev_induct)
  case Nil then show ?case by (simp add: restore_progress_def)
next
  case (snoc c cs) then show ?case by (simp add: restore_progress_step)
qed

subsection \<open>Properties\<close>

lemma body_run_reach:
  "(\<exists>ts. foldE (\<lambda>t s. body_try_transition s t) ts s = Inr s') \<longleftrightarrow> body_step\<^sup>*\<^sup>* s s'"
proof
  assume "\<exists>ts. foldE (\<lambda>t s. body_try_transition s t) ts s = Inr s'"
  then obtain ts where "foldE (\<lambda>t s. body_try_transition s t) ts s = Inr s'" by blast
  then show "body_step\<^sup>*\<^sup>* s s'"
    by (induction ts arbitrary: s)
      (auto simp: err_simps body_try_transition_step intro: converse_rtranclp_into_rtranclp)
next
  assume "body_step\<^sup>*\<^sup>* s s'"
  then show "\<exists>ts. foldE (\<lambda>t s. body_try_transition s t) ts s = Inr s'"
  proof (induction rule: converse_rtranclp_induct)
    case base
    have "foldE (\<lambda>t s. body_try_transition s t) [] s' = Inr s'" by simp
    then show ?case by blast
  next
    case (step s t)
    then obtain ts where "foldE (\<lambda>t s. body_try_transition s t) ts t = Inr s'" by blast
    then have "foldE (\<lambda>t s. body_try_transition s t) (t # ts) s = Inr s'"
      using step.hyps(1) by (auto simp: err_simps body_try_transition_step)
    then show ?case by blast
  qed
qed

lemma media_run_reach:
  "(\<exists>ts. foldE (\<lambda>t s. media_try_transition s t) ts s = Inr s') \<longleftrightarrow> media_step\<^sup>*\<^sup>* s s'"
proof
  assume "\<exists>ts. foldE (\<lambda>t s. media_try_transition s t) ts s = Inr s'"
  then obtain ts where "foldE (\<lambda>t s. media_try_transition s t) ts s = Inr s'" by blast
  then show "media_step\<^sup>*\<^sup>* s s'"
    by (induction ts arbitrary: s)
      (auto simp: err_simps media_try_transition_step intro: converse_rtranclp_into_rtranclp)
next
  assume "media_step\<^sup>*\<^sup>* s s'"
  then show "\<exists>ts. foldE (\<lambda>t s. media_try_transition s t) ts s = Inr s'"
  proof (induction rule: converse_rtranclp_induct)
    case base
    have "foldE (\<lambda>t s. media_try_transition s t) [] s' = Inr s'" by simp
    then show ?case by blast
  next
    case (step s t)
    then obtain ts where "foldE (\<lambda>t s. media_try_transition s t) ts t = Inr s'" by blast
    then have "foldE (\<lambda>t s. media_try_transition s t) (t # ts) s = Inr s'"
      using step.hyps(1) by (auto simp: err_simps media_try_transition_step)
    then show ?case by blast
  qed
qed

lemma body_reach_iff:
  "body_step\<^sup>*\<^sup>* s t \<longleftrightarrow>
     s = t \<or> s \<notin> {DeletedForMe, DeletedForEveryone, Unavailable} \<and> t \<noteq> DeliveryStoreOnly"
  using body_step_rtrancl_closed body_hub body_from_hub rtranclp_trans by (metis rtranclp.rtrancl_refl)

lemma media_reach_iff:
  "media_step\<^sup>*\<^sup>* s t \<longleftrightarrow>
     s = t \<or> s \<noteq> Deleted \<and> t \<noteq> ThumbnailOnly \<and> (t = RemoteOriginal \<longrightarrow> s = ThumbnailOnly)"
proof (cases "t = RemoteOriginal")
  case True
  then show ?thesis using media_step_rtrancl_closed[of s t] by (auto intro: media_step.intros)
next
  case False
  then show ?thesis
    using media_step_rtrancl_closed[of s t] media_hub[of s] media_from_hub[of t] rtranclp_trans[of media_step s]
    by (metis insertE empty_iff rtranclp.rtrancl_refl)
qed

lemma transition_row_from_reachable:
  "transition_row (Some (show_restore st, m)) to n = Inr (st', row') \<longleftrightarrow>
     restore_rank to = Suc (restore_rank st) \<and> st' = to \<and> row' = Some (show_restore to, n)"
  by (auto simp: transition_row_Some split: if_splits)

lemma restore_advance_from:
  "foldE (\<lambda>(to, n) row. map_sum id snd (transition_row row to n)) calls
      (Some (show_restore st, m)) = Inr row \<longleftrightarrow>
     map (restore_rank \<circ> fst) calls = [Suc (restore_rank st)..<Suc (restore_rank st + length calls)] \<and>
     row = (if calls = [] then Some (show_restore st, m)
            else Some (show_restore (fst (last calls)), snd (last calls)))"
proof (induction calls arbitrary: st m)
  case (Cons c calls)
  obtain to n where c: "c = (to, n)" by (cases c)
  show ?case
  proof (cases "restore_rank to = Suc (restore_rank st)")
    case True
    then show ?thesis
      using Cons[of to n] c by (auto simp: transition_row_Some upt_conv_Cons simp del: upt_Suc)
  next
    case False
    then show ?thesis using c by (simp add: transition_row_Some upt_conv_Cons del: upt_Suc)
  qed
qed auto

text \<open>Every lifecycle machine writes its state as a text that its parser reads back, and its
  parser accepts no other text: the columns of the local store determine the state.\<close>

theorem state_names_roundtrip:
  "(parse_body x = Inr b \<longleftrightarrow> x = show_body b) \<and> (parse_media x = Inr m \<longleftrightarrow> x = show_media m) \<and>
   (parse_archive x = Inr a \<longleftrightarrow> x = show_archive a) \<and>
   (parse_backup x = Inr k \<longleftrightarrow> x = show_backup k) \<and>
   (parse_restore x = Inr r \<longleftrightarrow> x = show_restore r)"
  by (intro conjI body_machine.parse_iff media_machine.parse_iff archive_machine.parse_iff
      backup_machine.parse_iff restore_machine.parse_iff)

text \<open>Which body states a sequence of accepted transitions can reach, exactly: the three
  deleted or lost states are left by no sequence, no sequence returns to the delivery store, and
  from every other state every other state is reachable.\<close>

theorem body_reachability:
  "(\<exists>ts. foldE (\<lambda>t s. body_try_transition s t) ts s = Inr s') \<longleftrightarrow>
     s = s' \<or> s \<notin> {DeletedForMe, DeletedForEveryone, Unavailable} \<and> s' \<noteq> DeliveryStoreOnly"
  by (simp only: body_run_reach body_reach_iff)

text \<open>The same for media: a deleted asset stays deleted, no asset returns to having only its
  thumbnail, an asset is \<open>remote_original\<close> only at its start, and every other pair of states is
  connected by accepted transitions.\<close>

theorem media_reachability:
  "(\<exists>ts. foldE (\<lambda>t s. media_try_transition s t) ts s = Inr s') \<longleftrightarrow>
     s = s' \<or> s \<noteq> Deleted \<and> s' \<noteq> ThumbnailOnly \<and> \<not> (s' = RemoteOriginal \<and> s \<noteq> ThumbnailOnly)"
  by (simp only: media_run_reach media_reach_iff) blast

text \<open>On a database with no restore row, a sequence of \<open>transition\<close> calls succeeds exactly when
  its targets are the first states of the documented order, one after the other; the row then
  holds the last target and its notes.\<close>

theorem restore_transitions_in_order:
  "foldE (\<lambda>(to, n) row. map_sum id snd (transition_row row to n)) calls None = Inr row \<longleftrightarrow>
     map (restore_rank \<circ> fst) calls = [0..<length calls] \<and>
     row = (if calls = [] then None
            else Some (show_restore (fst (last calls)), snd (last calls)))"
proof (cases calls)
  case (Cons c cs)
  obtain to n where c: "c = (to, n)" by (cases c)
  have rank0: "restore_rank to = 0 \<longleftrightarrow> to = IdentityRestored" by (cases to) simp_all
  show ?thesis
  proof (cases "to = IdentityRestored")
    case True
    then show ?thesis
      using restore_advance_from[of cs IdentityRestored n row] Cons c
      by (simp add: transition_row_None upt_conv_Cons del: upt_Suc)
  next
    case False
    then show ?thesis
      using Cons c rank0 by (simp add: transition_row_None upt_conv_Cons del: upt_Suc)
  qed
qed auto

text \<open>C35: Whatever the orchestrator does with the table - calls that fail, calls in any order,
  resets - the row says \<open>full_restore_complete\<close> only after the eight states have been asked for in
  the documented order.\<close>

theorem restore_complete_needs_all_stages:
  assumes "fold exec_call calls None = Some (show_restore FullRestoreComplete, nt)"
  shows "subseq [IdentityRestored, RootKeysUnwrapped, ManifestVerified, SkeletonRestored,
      SearchRestored, RecentMessagesRestored, MediaLazyRestoreEnabled, FullRestoreComplete]
     (advance_targets calls)"
proof -
  have "restore_progress calls (Some (show_restore FullRestoreComplete, nt))"
    using restore_progress_exec[of calls] by (simp only: assms)
  then have "\<exists>st n. Some (show_restore FullRestoreComplete, nt) = Some (show_restore st, n) \<and>
      subseq (take (Suc (restore_rank st)) restore_order) (advance_targets calls)"
    unfolding restore_progress_def by blast
  then obtain st where same: "show_restore FullRestoreComplete = show_restore st"
    and sub: "subseq (take (Suc (restore_rank st)) restore_order) (advance_targets calls)"
    by blast
  have "st = FullRestoreComplete" using same by (simp only: restore_machine.disp_inj)
  then show ?thesis using sub by simp
qed

theorem restore_complete_needs_all_stages_witness:
  "subseq restore_order (advance_targets
     [Advance IdentityRestored None, Reset, Advance IdentityRestored None,
      Advance ManifestVerified None, Advance RootKeysUnwrapped None,
      Advance ManifestVerified None, Advance SkeletonRestored None, Advance SearchRestored None,
      Advance RecentMessagesRestored None, Advance MediaLazyRestoreEnabled None,
      Advance FullRestoreComplete (Some ''done'')])"
  by (rule restore_complete_needs_all_stages[where nt = "Some ''done''"], code_simp)

end
