(* ===== verification/Schema.thy ===== *)
theory Schema
  imports State_Machines
begin

text \<open>
  The tables of the local store (\<open>local_store/schema.rs\<close>): the row structs as records, the two closed
  text columns with their parsers, and \<open>local_db\<close>, the database as one list of rows per table.  A
  timestamp or counter column is an \<open>int\<close>, an id is a \<open>string\<close>, a message text is a list of Unicode
  code points.  The state columns hold the typed states: \<open>row_to_skeleton\<close> is the decoding the code does
  on every read, and \<open>row_roundtrip\<close> shows that it inverts the encoding done on every write.
\<close>

type_synonym utext = "nat list"

datatype message_kind = TextKind | MediaKind | SystemKind

primrec kind_str :: "message_kind \<Rightarrow> string" where
  "kind_str TextKind = ''text''"
| "kind_str MediaKind = ''media''"
| "kind_str SystemKind = ''system''"

datatype storage_backend = KChatBackend | ZkObjectFabric

primrec backend_str :: "storage_backend \<Rightarrow> string" where
  "backend_str KChatBackend = ''kchat_backend''"
| "backend_str ZkObjectFabric = ''zk_object_fabric''"

definition parse_backend :: "string \<Rightarrow> string + storage_backend" where
  "parse_backend s =
    (if s = ''kchat_backend'' then Inr KChatBackend
     else if s = ''zk_object_fabric'' then Inr ZkObjectFabric
     else Inl s)"

datatype archive_backend = KChat | Zkof

primrec backend_of_archive :: "archive_backend \<Rightarrow> storage_backend" where
  "backend_of_archive KChat = KChatBackend"
| "backend_of_archive Zkof = ZkObjectFabric"

record conversation =
  cv_id :: string
  cv_title_cipher :: "bytes option"
  cv_pinned :: bool
  cv_muted :: bool
  cv_last_message_id :: "string option"
  cv_last_activity_ms :: int
  cv_type :: string
  cv_scope :: string
  cv_tenant_id :: string
  cv_community_id :: string
  cv_domain_id :: string

definition legacy_conversation ::
  "string \<Rightarrow> bytes option \<Rightarrow> bool \<Rightarrow> bool \<Rightarrow> string option \<Rightarrow> int \<Rightarrow> conversation" where
  "legacy_conversation cid title pin mute last_id activity =
     \<lparr>cv_id = cid, cv_title_cipher = title, cv_pinned = pin, cv_muted = mute,
      cv_last_message_id = last_id, cv_last_activity_ms = activity, cv_type = ''dm'',
      cv_scope = ''b2c'', cv_tenant_id = '''', cv_community_id = '''', cv_domain_id = ''''\<rparr>"

record message_skeleton =
  sk_message_id :: string
  sk_conversation_id :: string
  sk_sender_id :: string
  sk_created_at_ms :: int
  sk_received_at_ms :: int
  sk_kind :: message_kind
  sk_body_state :: body_state
  sk_media_state :: "media_state option"
  sk_archive_state :: archive_state
  sk_backup_state :: backup_state
  sk_reply_to :: "string option"
  sk_edited_at_ms :: "int option"
  sk_deleted_at_ms :: "int option"

record message_body =
  bd_message_id :: string
  bd_text :: "utext option"
  bd_language :: "string option"
  bd_rich_meta :: "bytes option"

record media_asset =
  ma_asset_id :: string
  ma_message_id :: string
  ma_mime_type :: string
  ma_bytes_total :: int
  ma_bytes_local :: int
  ma_media_state :: media_state
  ma_wrapped_k_asset :: bytes
  ma_chunk_count :: int
  ma_merkle_root :: bytes
  ma_blob_id :: string
  ma_storage_sink :: string

record backup_event =
  be_event_seq :: int
  be_event_type :: string
  be_conversation_id :: "string option"
  be_message_id :: "string option"
  be_payload :: bytes
  be_created_at_ms :: int

record segment_map_row =
  sm_segment_id :: string
  sm_conversation_id :: string
  sm_time_bucket :: string
  sm_segment_type :: string
  sm_blob_id :: string
  sm_storage_backend :: string
  sm_merkle_root :: bytes
  sm_state :: archive_state

record timeline_row =
  tl_message_id :: string
  tl_conversation_id :: string
  tl_sender_id :: string
  tl_created_at_ms :: int
  tl_kind :: message_kind
  tl_body_state :: body_state
  tl_text :: "utext option"
  tl_reply_to :: "string option"
  tl_edited_at_ms :: "int option"
  tl_deleted_at_ms :: "int option"

record fts_row =
  ft_message_id :: string
  ft_conversation_id :: string
  ft_sender_id :: string
  ft_created_at_ms :: int
  ft_text :: utext

record fuzzy_row =
  fz_token :: utext
  fz_script :: string
  fz_message_id :: string

record vector_row =
  vr_message_id :: string
  vr_embedding :: bytes
  vr_model_version :: string

record media_search_row =
  ms_asset_id :: string
  ms_kind :: string
  ms_text :: utext
  ms_language :: "string option"

record ledger_row =
  lg_segment_id :: string
  lg_segment_type :: string
  lg_nonce :: bytes
  lg_ciphertext :: bytes
  lg_merkle_root :: bytes
  lg_event_count :: int
  lg_tier :: string
  lg_min_event_ms :: int
  lg_max_event_ms :: int
  lg_wrapped_k_segment :: bytes
  lg_created_at_ms :: int

text \<open>The database.  \<open>db_event_seq\<close> is the \<open>AUTOINCREMENT\<close> counter of the backup journal, the
  manifest row is \<open>(generation, cbor, updated_at_ms)\<close>.\<close>

record local_db =
  db_conversations :: "conversation list"
  db_skeletons :: "message_skeleton list"
  db_bodies :: "message_body list"
  db_media :: "media_asset list"
  db_fts :: "fts_row list"
  db_fuzzy :: "fuzzy_row list"
  db_vectors :: "vector_row list"
  db_media_search :: "media_search_row list"
  db_segment_map :: "segment_map_row list"
  db_events :: "backup_event list"
  db_event_seq :: int
  db_cursor :: "int option"
  db_manifest :: "(int \<times> bytes \<times> int) option"
  db_ledger :: "ledger_row list"

definition empty_db :: local_db where
  "empty_db =
     \<lparr>db_conversations = [], db_skeletons = [], db_bodies = [], db_media = [], db_fts = [],
      db_fuzzy = [], db_vectors = [], db_media_search = [], db_segment_map = [], db_events = [],
      db_event_seq = 0, db_cursor = None, db_manifest = None, db_ledger = []\<rparr>"

subsection \<open>Decoding a skeleton row\<close>

record skeleton_raw =
  rw_message_id :: string
  rw_conversation_id :: string
  rw_sender_id :: string
  rw_created_at_ms :: int
  rw_received_at_ms :: int
  rw_kind :: string
  rw_body_state :: string
  rw_media_state :: "string option"
  rw_archive_state :: string
  rw_backup_state :: string
  rw_reply_to :: "string option"
  rw_edited_at_ms :: "int option"
  rw_deleted_at_ms :: "int option"

definition skeleton_to_row :: "message_skeleton \<Rightarrow> skeleton_raw" where
  "skeleton_to_row s =
     \<lparr>rw_message_id = sk_message_id s, rw_conversation_id = sk_conversation_id s,
      rw_sender_id = sk_sender_id s, rw_created_at_ms = sk_created_at_ms s,
      rw_received_at_ms = sk_received_at_ms s, rw_kind = kind_str (sk_kind s),
      rw_body_state = show_body (sk_body_state s),
      rw_media_state = map_option show_media (sk_media_state s),
      rw_archive_state = show_archive (sk_archive_state s),
      rw_backup_state = show_backup (sk_backup_state s), rw_reply_to = sk_reply_to s,
      rw_edited_at_ms = sk_edited_at_ms s, rw_deleted_at_ms = sk_deleted_at_ms s\<rparr>"

datatype db_error =
    Constraint string
  | InvalidState string
  | InvariantViolation string

definition parse_kind :: "string \<Rightarrow> db_error + message_kind" where
  "parse_kind s =
    (if s = ''text'' then Inr TextKind
     else if s = ''media'' then Inr MediaKind
     else if s = ''system'' then Inr SystemKind
     else Inl (InvalidState (''kind='' @ s)))"

definition column :: "string \<Rightarrow> (string \<Rightarrow> state_transition_error + 's) \<Rightarrow> string \<Rightarrow> db_error + 's" where
  "column name parse s = (case parse s of
      Inl _ \<Rightarrow> Inl (InvalidState (name @ ''='' @ s)) | Inr st \<Rightarrow> Inr st)"

definition row_to_skeleton :: "skeleton_raw \<Rightarrow> db_error + message_skeleton" where
  "row_to_skeleton r =
     bindE (parse_kind (rw_kind r)) (\<lambda>kind.
     bindE (column ''body_state'' parse_body (rw_body_state r)) (\<lambda>body_st.
     bindE (case rw_media_state r of
              None \<Rightarrow> Inr None
            | Some s \<Rightarrow> bindE (column ''media_state'' parse_media s) (\<lambda>m. Inr (Some m))) (\<lambda>media_st.
     bindE (column ''archive_state'' parse_archive (rw_archive_state r)) (\<lambda>archive_st.
     bindE (column ''backup_state'' parse_backup (rw_backup_state r)) (\<lambda>backup_st.
     Inr \<lparr>sk_message_id = rw_message_id r, sk_conversation_id = rw_conversation_id r,
          sk_sender_id = rw_sender_id r, sk_created_at_ms = rw_created_at_ms r,
          sk_received_at_ms = rw_received_at_ms r, sk_kind = kind, sk_body_state = body_st,
          sk_media_state = media_st, sk_archive_state = archive_st, sk_backup_state = backup_st,
          sk_reply_to = rw_reply_to r, sk_edited_at_ms = rw_edited_at_ms r,
          sk_deleted_at_ms = rw_deleted_at_ms r\<rparr>)))))"

lemma column_Inr_iff: "column name parse s = Inr st \<longleftrightarrow> parse s = Inr st"
  by (auto simp: column_def split: sum.splits)

lemma parse_kind_iff: "parse_kind s = Inr k \<longleftrightarrow> s = kind_str k"
  by (cases k) (auto simp: parse_kind_def)

lemma parse_backend_iff: "parse_backend s = Inr b \<longleftrightarrow> s = backend_str b"
  by (cases b) (auto simp: parse_backend_def)

lemmas column_parsers = column_Inr_iff parse_kind_iff body_machine.parse_iff
  media_machine.parse_iff archive_machine.parse_iff backup_machine.parse_iff

lemma column_written:
  "parse_kind (kind_str k) = Inr k" "column c parse_body (show_body b) = Inr b"
  "column c parse_media (show_media m) = Inr m" "column c parse_archive (show_archive a) = Inr a"
  "column c parse_backup (show_backup u) = Inr u"
  by (simp_all only: column_parsers)

lemma media_column_iff:
  "(case m of None \<Rightarrow> Inr None
    | Some s \<Rightarrow> bindE (column ''media_state'' parse_media s) (\<lambda>m. Inr (Some m))) = Inr x \<longleftrightarrow>
   m = map_option show_media x"
  by (cases m; cases x) (auto simp: bindE_Inr_iff column_parsers)

text \<open>Reading back the text row a skeleton is stored as gives the skeleton, and only the rows so
  written decode: no two skeletons share a row and a row with a foreign state text is an error.\<close>

theorem row_roundtrip:
  "row_to_skeleton r = Inr s \<longleftrightarrow> r = skeleton_to_row s"
proof
  assume "row_to_skeleton r = Inr s"
  then show "r = skeleton_to_row s"
    unfolding row_to_skeleton_def bindE_Inr_iff media_column_iff column_parsers
    by (auto simp: skeleton_to_row_def)
next
  assume r: "r = skeleton_to_row s"
  show "row_to_skeleton r = Inr s"
    unfolding r by (cases s) (simp add: row_to_skeleton_def skeleton_to_row_def column_written
        del: kind_str.simps show_body.simps show_media.simps show_archive.simps show_backup.simps
        split: option.splits)
qed

end
