(* ===== verification/Local_Store.thy ===== *)
theory Local_Store
  imports Schema
begin

text \<open>
  \<open>LocalStoreDb\<close> (\<open>local_store/db.rs\<close>): the statements each method runs, on \<open>local_db\<close>.  An insert is
  rejected when the primary key is taken or a foreign key has no parent, a delete when a row that
  refers to the deleted one remains (\<open>PRAGMA foreign_keys = ON\<close>); these are the \<open>Constraint\<close> errors.
  \<open>db_wf\<close> says that every key is unique and every reference has its row; the second half shows that no
  history of calls breaks it, what the batch and the atomic operations promise, and that the cascade
  of \<open>delete_conversation\<close> is in an order the foreign keys accept.
\<close>

subsection \<open>Conversations\<close>

definition insert_conversation :: "conversation \<Rightarrow> local_db \<Rightarrow> db_error + local_db" where
  "insert_conversation c db =
     (if cv_id c \<in> cv_id ` set (db_conversations db) then Inl (Constraint ''conversation'')
      else Inr (db\<lparr>db_conversations := db_conversations db @ [c]\<rparr>))"

definition get_conversation :: "string \<Rightarrow> local_db \<Rightarrow> conversation option" where
  "get_conversation cid db = select_one cv_id cid (db_conversations db)"

definition conversation_order :: "conversation \<Rightarrow> nat \<times> int \<times> string" where
  "conversation_order c = (if cv_pinned c then 0 else 1, - cv_last_activity_ms c, cv_id c)"

definition list_conversations :: "local_db \<Rightarrow> conversation list" where
  "list_conversations db = sort_key conversation_order (db_conversations db)"

datatype conversation_column = Community | Domain | Tenant | Scope

primrec column_value :: "conversation_column \<Rightarrow> conversation \<Rightarrow> string" where
  "column_value Community c = cv_community_id c"
| "column_value Domain c = cv_domain_id c"
| "column_value Tenant c = cv_tenant_id c"
| "column_value Scope c = cv_scope c"

definition list_conversations_by_column ::
  "conversation_column \<Rightarrow> string \<Rightarrow> local_db \<Rightarrow> conversation list" where
  "list_conversations_by_column col v db =
     sort_key conversation_order (filter (\<lambda>c. column_value col c = v) (db_conversations db))"

definition update_conversation_pin :: "string \<Rightarrow> bool \<Rightarrow> local_db \<Rightarrow> local_db \<times> nat" where
  "update_conversation_pin cid pin db =
     (db\<lparr>db_conversations :=
           update_where (\<lambda>c. cv_id c = cid) (cv_pinned_update (\<lambda>_. pin)) (db_conversations db)\<rparr>,
      row_count (\<lambda>c. cv_id c = cid) (db_conversations db))"

definition update_conversation_mute :: "string \<Rightarrow> bool \<Rightarrow> local_db \<Rightarrow> local_db \<times> nat" where
  "update_conversation_mute cid mute db =
     (db\<lparr>db_conversations :=
           update_where (\<lambda>c. cv_id c = cid) (cv_muted_update (\<lambda>_. mute)) (db_conversations db)\<rparr>,
      row_count (\<lambda>c. cv_id c = cid) (db_conversations db))"

definition update_conversation_last_message ::
  "string \<Rightarrow> string \<Rightarrow> int \<Rightarrow> local_db \<Rightarrow> local_db \<times> nat" where
  "update_conversation_last_message cid mid activity db =
     (let hit = (\<lambda>c. cv_id c = cid \<and> cv_last_activity_ms c \<le> activity) in
      (db\<lparr>db_conversations := update_where hit
             (\<lambda>c. c\<lparr>cv_last_message_id := Some mid, cv_last_activity_ms := activity\<rparr>)
             (db_conversations db)\<rparr>,
       row_count hit (db_conversations db)))"

subsection \<open>Messages\<close>

definition insert_message_skeleton :: "message_skeleton \<Rightarrow> local_db \<Rightarrow> db_error + local_db" where
  "insert_message_skeleton s db =
     (if sk_message_id s \<in> sk_message_id ` set (db_skeletons db) then
        Inl (Constraint ''message_skeleton'')
      else if sk_conversation_id s \<notin> cv_id ` set (db_conversations db) then
        Inl (Constraint ''conversation'')
      else Inr (db\<lparr>db_skeletons := db_skeletons db @ [s]\<rparr>))"

definition upsert_skeleton_from_archive ::
  "message_skeleton \<Rightarrow> local_db \<Rightarrow> db_error + local_db \<times> bool" where
  "upsert_skeleton_from_archive s db =
     (if sk_message_id s \<in> sk_message_id ` set (db_skeletons db) then Inr (db, False)
      else if sk_conversation_id s \<notin> cv_id ` set (db_conversations db) then
        Inl (Constraint ''conversation'')
      else Inr (db\<lparr>db_skeletons := db_skeletons db @ [s]\<rparr>, True))"

definition insert_message_body :: "message_body \<Rightarrow> local_db \<Rightarrow> db_error + local_db" where
  "insert_message_body b db =
     (if bd_message_id b \<in> bd_message_id ` set (db_bodies db) then Inl (Constraint ''message_body'')
      else if bd_message_id b \<notin> sk_message_id ` set (db_skeletons db) then
        Inl (Constraint ''message_skeleton'')
      else Inr (db\<lparr>db_bodies := db_bodies db @ [b]\<rparr>))"

definition get_message_skeleton :: "string \<Rightarrow> local_db \<Rightarrow> message_skeleton option" where
  "get_message_skeleton mid db = select_one sk_message_id mid (db_skeletons db)"

definition get_message_body :: "string \<Rightarrow> local_db \<Rightarrow> message_body option" where
  "get_message_body mid db = select_one bd_message_id mid (db_bodies db)"

text \<open>The code takes a body whose three nullable columns are all null for a missing one.\<close>

definition get_message_with_body ::
  "string \<Rightarrow> local_db \<Rightarrow> (message_skeleton \<times> message_body option) option" where
  "get_message_with_body mid db =
     map_option (\<lambda>s. (s, case get_message_body mid db of
         None \<Rightarrow> None
       | Some b \<Rightarrow> if bd_text b \<noteq> None \<or> bd_language b \<noteq> None \<or> bd_rich_meta b \<noteq> None
                   then Some b else None))
       (get_message_skeleton mid db)"

definition update_body_state :: "string \<Rightarrow> body_state \<Rightarrow> local_db \<Rightarrow> local_db" where
  "update_body_state mid st db =
     db\<lparr>db_skeletons := update_where (\<lambda>s. sk_message_id s = mid) (sk_body_state_update (\<lambda>_. st))
          (db_skeletons db)\<rparr>"

definition update_message_body_text :: "string \<Rightarrow> utext \<Rightarrow> local_db \<Rightarrow> local_db" where
  "update_message_body_text mid txt db =
     db\<lparr>db_bodies := update_where (\<lambda>b. bd_message_id b = mid) (bd_text_update (\<lambda>_. Some txt))
          (db_bodies db)\<rparr>"

definition update_skeleton_edited :: "string \<Rightarrow> int \<Rightarrow> local_db \<Rightarrow> local_db" where
  "update_skeleton_edited mid t db =
     db\<lparr>db_skeletons := update_where (\<lambda>s. sk_message_id s = mid) (sk_edited_at_ms_update (\<lambda>_. Some t))
          (db_skeletons db)\<rparr>"

definition update_skeleton_deleted :: "string \<Rightarrow> int \<Rightarrow> body_state \<Rightarrow> local_db \<Rightarrow> local_db" where
  "update_skeleton_deleted mid t st db =
     db\<lparr>db_skeletons := update_where (\<lambda>s. sk_message_id s = mid)
          (\<lambda>s. s\<lparr>sk_body_state := st, sk_deleted_at_ms := Some t\<rparr>) (db_skeletons db)\<rparr>"

definition delete_message_body :: "string \<Rightarrow> local_db \<Rightarrow> local_db" where
  "delete_message_body mid db =
     db\<lparr>db_bodies := delete_where (\<lambda>b. bd_message_id b = mid) (db_bodies db)\<rparr>"

definition delete_fts_row :: "string \<Rightarrow> local_db \<Rightarrow> local_db" where
  "delete_fts_row mid db = db\<lparr>db_fts := delete_where (\<lambda>f. ft_message_id f = mid) (db_fts db)\<rparr>"

definition delete_vector_row :: "string \<Rightarrow> local_db \<Rightarrow> local_db" where
  "delete_vector_row mid db =
     db\<lparr>db_vectors := delete_where (\<lambda>v. vr_message_id v = mid) (db_vectors db)\<rparr>"

definition upsert_body_text :: "string \<Rightarrow> utext \<Rightarrow> local_db \<Rightarrow> local_db" where
  "upsert_body_text mid txt db =
     (if mid \<in> bd_message_id ` set (db_bodies db) then update_message_body_text mid txt db
      else db\<lparr>db_bodies := db_bodies db @
        [\<lparr>bd_message_id = mid, bd_text = Some txt, bd_language = None, bd_rich_meta = None\<rparr>]\<rparr>)"

definition rehydrate_message_body ::
  "string \<Rightarrow> utext \<Rightarrow> body_state \<Rightarrow> local_db \<Rightarrow> (db_error + unit) \<times> local_db" where
  "rehydrate_message_body mid txt st db = (case get_message_skeleton mid db of
      None \<Rightarrow> (Inl (InvalidState (''rehydrate_message_body: no message_skeleton row for '' @ mid)), db)
    | Some s \<Rightarrow> savepoint (\<lambda>db.
        let db = upsert_body_text mid txt db;
            db = update_body_state mid st db;
            db = delete_fts_row mid db
        in Inr (db\<lparr>db_fts := db_fts db @
             [\<lparr>ft_message_id = mid, ft_conversation_id = sk_conversation_id s,
               ft_sender_id = sk_sender_id s, ft_created_at_ms = sk_created_at_ms s,
               ft_text = txt\<rparr>]\<rparr>, ())) db)"

text \<open>Every row is checked before any row is updated; rows that do not exist are skipped.\<close>

definition update_archive_state ::
  "string list \<Rightarrow> archive_state \<Rightarrow> local_db \<Rightarrow> db_error + local_db \<times> nat" where
  "update_archive_state mids st db =
     (if mids = [] then Inr (db, 0)
      else let hit = (\<lambda>s. sk_message_id s \<in> set mids) in
        bindE (mapE (\<lambda>s. case archive_try_transition (sk_archive_state s) st of
                 Inl _ \<Rightarrow> Inl (InvalidState (sk_message_id s @ '': archive_state '' @
                    show_archive (sk_archive_state s) @ '' to '' @ show_archive st @ '' rejected''))
               | Inr t \<Rightarrow> Inr t)
            (filter hit (db_skeletons db)))
          (\<lambda>_. Inr (db\<lparr>db_skeletons := update_where hit (sk_archive_state_update (\<lambda>_. st))
                         (db_skeletons db)\<rparr>,
                    row_count hit (db_skeletons db))))"

subsection \<open>Timelines\<close>

text \<open>\<open>LIMIT ?\<close> takes the limit cast to \<open>i64\<close>; a negative one means no limit.\<close>

definition sql_limit :: "nat \<Rightarrow> 'a list \<Rightarrow> 'a list" where
  "sql_limit n xs = (if n < 2 ^ 63 then take n xs else xs)"

definition get_conversation_messages ::
  "string \<Rightarrow> int option \<Rightarrow> nat \<Rightarrow> local_db \<Rightarrow> message_skeleton list" where
  "get_conversation_messages cid before_ms limit db =
     sql_limit limit (sort_key (\<lambda>s. - sk_created_at_ms s)
       (filter (\<lambda>s. sk_conversation_id s = cid \<and>
                    (case before_ms of None \<Rightarrow> True | Some b \<Rightarrow> sk_created_at_ms s < b))
          (db_skeletons db)))"

definition to_timeline_row :: "local_db \<Rightarrow> message_skeleton \<Rightarrow> timeline_row" where
  "to_timeline_row db s =
     \<lparr>tl_message_id = sk_message_id s, tl_conversation_id = sk_conversation_id s,
      tl_sender_id = sk_sender_id s, tl_created_at_ms = sk_created_at_ms s,
      tl_kind = sk_kind s, tl_body_state = sk_body_state s,
      tl_text = Option.bind (get_message_body (sk_message_id s) db) bd_text,
      tl_reply_to = sk_reply_to s, tl_edited_at_ms = sk_edited_at_ms s,
      tl_deleted_at_ms = sk_deleted_at_ms s\<rparr>"

definition get_timeline :: "string \<Rightarrow> int option \<Rightarrow> nat \<Rightarrow> local_db \<Rightarrow> timeline_row list" where
  "get_timeline cid before_ms limit db =
     map (to_timeline_row db) (get_conversation_messages cid before_ms limit db)"

subsection \<open>Media\<close>

definition insert_media_asset :: "media_asset \<Rightarrow> local_db \<Rightarrow> db_error + local_db" where
  "insert_media_asset a db =
     (if ma_asset_id a \<in> ma_asset_id ` set (db_media db) then Inl (Constraint ''media_asset'')
      else if ma_message_id a \<notin> sk_message_id ` set (db_skeletons db) then
        Inl (Constraint ''message_skeleton'')
      else Inr (db\<lparr>db_media := db_media db @ [a]\<rparr>))"

definition get_media_asset :: "string \<Rightarrow> local_db \<Rightarrow> media_asset option" where
  "get_media_asset aid db = select_one ma_asset_id aid (db_media db)"

definition get_media_asset_by_message :: "string \<Rightarrow> local_db \<Rightarrow> media_asset option" where
  "get_media_asset_by_message mid db = select_one ma_message_id mid (db_media db)"

definition list_media_assets_by_message :: "string \<Rightarrow> local_db \<Rightarrow> media_asset list" where
  "list_media_assets_by_message mid db =
     sort_key ma_asset_id (filter (\<lambda>a. ma_message_id a = mid) (db_media db))"

definition list_media_assets_by_storage_sink :: "string \<Rightarrow> local_db \<Rightarrow> media_asset list" where
  "list_media_assets_by_storage_sink sink db =
     sort_key ma_asset_id (filter (\<lambda>a. ma_storage_sink a = sink) (db_media db))"

definition update_media_storage_sink :: "string \<Rightarrow> string \<Rightarrow> string \<Rightarrow> local_db \<Rightarrow> local_db \<times> nat" where
  "update_media_storage_sink aid sink blob db =
     (db\<lparr>db_media := update_where (\<lambda>a. ma_asset_id a = aid)
           (\<lambda>a. a\<lparr>ma_storage_sink := sink, ma_blob_id := blob\<rparr>) (db_media db)\<rparr>,
      row_count (\<lambda>a. ma_asset_id a = aid) (db_media db))"

definition update_media_state :: "string \<Rightarrow> media_state \<Rightarrow> local_db \<Rightarrow> local_db \<times> nat" where
  "update_media_state aid st db =
     (db\<lparr>db_media := update_where (\<lambda>a. ma_asset_id a = aid) (ma_media_state_update (\<lambda>_. st))
           (db_media db)\<rparr>,
      row_count (\<lambda>a. ma_asset_id a = aid) (db_media db))"

definition insert_media_search_index :: "media_search_row \<Rightarrow> local_db \<Rightarrow> db_error + local_db" where
  "insert_media_search_index r db =
     (if (ms_asset_id r, ms_kind r, ms_text r) \<in>
           (\<lambda>r. (ms_asset_id r, ms_kind r, ms_text r)) ` set (db_media_search db) then Inr db
      else if ms_asset_id r \<notin> ma_asset_id ` set (db_media db) then Inl (Constraint ''media_asset'')
      else Inr (db\<lparr>db_media_search := db_media_search db @ [r]\<rparr>))"

definition get_segment_storage_backend ::
  "string \<Rightarrow> local_db \<Rightarrow> db_error + storage_backend option" where
  "get_segment_storage_backend sid db =
     (case select_one sm_segment_id sid (db_segment_map db) of
        None \<Rightarrow> Inr None
      | Some r \<Rightarrow> (case parse_backend (sm_storage_backend r) of
            Inl s \<Rightarrow> Inl (InvalidState (''invalid storage_backend value: '' @ s))
          | Inr b \<Rightarrow> Inr (Some b)))"

definition update_segment_storage_backend ::
  "string \<Rightarrow> storage_backend \<Rightarrow> local_db \<Rightarrow> local_db \<times> nat" where
  "update_segment_storage_backend sid b db =
     (db\<lparr>db_segment_map := update_where (\<lambda>r. sm_segment_id r = sid)
           (sm_storage_backend_update (\<lambda>_. backend_str b)) (db_segment_map db)\<rparr>,
      row_count (\<lambda>r. sm_segment_id r = sid) (db_segment_map db))"

subsection \<open>Deleting a conversation\<close>

text \<open>The messages of a conversation (the subquery of the cascade) and the four \<open>DELETE\<close> statements on
  tables that other tables refer to; each is refused while a referring row is left.\<close>

definition conversation_messages :: "string \<Rightarrow> local_db \<Rightarrow> string set" where
  "conversation_messages cid db =
     set (map sk_message_id (filter (\<lambda>s. sk_conversation_id s = cid) (db_skeletons db)))"

definition delete_media_rows :: "(media_asset \<Rightarrow> bool) \<Rightarrow> local_db \<Rightarrow> db_error + local_db" where
  "delete_media_rows P db =
     (if list_ex (\<lambda>a. P a \<and> ma_asset_id a \<in> ms_asset_id ` set (db_media_search db)) (db_media db)
      then Inl (Constraint ''media_search_index'')
      else Inr (db\<lparr>db_media := delete_where P (db_media db)\<rparr>))"

definition delete_skeleton_rows :: "(message_skeleton \<Rightarrow> bool) \<Rightarrow> local_db \<Rightarrow> db_error + local_db" where
  "delete_skeleton_rows P db =
     (if list_ex (\<lambda>s. P s \<and> sk_message_id s \<in> bd_message_id ` set (db_bodies db)) (db_skeletons db)
      then Inl (Constraint ''message_body'')
      else if list_ex (\<lambda>s. P s \<and> sk_message_id s \<in> ma_message_id ` set (db_media db))
                (db_skeletons db)
      then Inl (Constraint ''media_asset'')
      else Inr (db\<lparr>db_skeletons := delete_where P (db_skeletons db)\<rparr>))"

definition delete_conversation_row :: "string \<Rightarrow> local_db \<Rightarrow> db_error + local_db \<times> nat" where
  "delete_conversation_row cid db =
     (if list_ex (\<lambda>c. cv_id c = cid \<and> cv_id c \<in> sk_conversation_id ` set (db_skeletons db))
           (db_conversations db)
      then Inl (Constraint ''message_skeleton'')
      else Inr (db\<lparr>db_conversations := delete_where (\<lambda>c. cv_id c = cid) (db_conversations db)\<rparr>,
                row_count (\<lambda>c. cv_id c = cid) (db_conversations db)))"

definition delete_conversation_inner :: "string \<Rightarrow> local_db \<Rightarrow> db_error + local_db \<times> nat" where
  "delete_conversation_inner cid db =
     (let mids = conversation_messages cid db;
          aids = ma_asset_id ` {a \<in> set (db_media db). ma_message_id a \<in> mids};
          db1 = db\<lparr>db_media_search := delete_where (\<lambda>r. ms_asset_id r \<in> aids) (db_media_search db)\<rparr>;
          db2 = db1\<lparr>db_fuzzy := delete_where (\<lambda>r. fz_message_id r \<in> mids) (db_fuzzy db1)\<rparr>;
          db3 = db2\<lparr>db_fts := delete_where (\<lambda>r. ft_message_id r \<in> mids) (db_fts db2)\<rparr>;
          db4 = db3\<lparr>db_vectors := delete_where (\<lambda>r. vr_message_id r \<in> mids) (db_vectors db3)\<rparr>
      in bindE (delete_media_rows (\<lambda>a. ma_message_id a \<in> mids) db4) (\<lambda>db5.
         let db6 = db5\<lparr>db_bodies := delete_where (\<lambda>b. bd_message_id b \<in> mids) (db_bodies db5)\<rparr>
         in bindE (delete_skeleton_rows (\<lambda>s. sk_conversation_id s = cid) db6)
              (delete_conversation_row cid)))"

definition delete_conversation :: "string \<Rightarrow> local_db \<Rightarrow> (db_error + nat) \<times> local_db" where
  "delete_conversation cid db = savepoint (delete_conversation_inner cid) db"

subsection \<open>Backup journal, segment ledger and manifest tail\<close>

definition insert_backup_event :: "backup_event \<Rightarrow> local_db \<Rightarrow> db_error + local_db" where
  "insert_backup_event e db =
     (if be_event_seq e = 0 then
        (let n = db_event_seq db + 1 in
         Inr (db\<lparr>db_events := db_events db @ [e\<lparr>be_event_seq := n\<rparr>], db_event_seq := n\<rparr>))
      else if be_event_seq e \<in> be_event_seq ` set (db_events db) then
        Inl (Constraint ''backup_event_journal'')
      else Inr (db\<lparr>db_events := db_events db @ [e],
                   db_event_seq := max (db_event_seq db) (be_event_seq e)\<rparr>))"

definition save_backup_manifest :: "bytes \<Rightarrow> int \<Rightarrow> int \<Rightarrow> local_db \<Rightarrow> local_db" where
  "save_backup_manifest cbor generation now db = db\<lparr>db_manifest := Some (generation, cbor, now)\<rparr>"

definition load_backup_manifest :: "local_db \<Rightarrow> bytes option" where
  "load_backup_manifest db = map_option (\<lambda>(_, cbor, _). cbor) (db_manifest db)"

definition insert_ledger_row :: "ledger_row \<Rightarrow> local_db \<Rightarrow> db_error + local_db" where
  "insert_ledger_row r db =
     (if lg_segment_id r \<in> lg_segment_id ` set (db_ledger db) then
        Inl (Constraint ''backup_segment_ledger'')
      else Inr (db\<lparr>db_ledger := db_ledger db @ [r]\<rparr>))"

definition replace_backup_segment_ledger ::
  "ledger_row list \<Rightarrow> local_db \<Rightarrow> (db_error + unit) \<times> local_db" where
  "replace_backup_segment_ledger rows db =
     savepoint (\<lambda>db. bindE (foldE insert_ledger_row rows (db\<lparr>db_ledger := []\<rparr>)) (\<lambda>db. Inr (db, ()))) db"

definition atomic_append_segment_and_manifest ::
  "ledger_row \<Rightarrow> bytes \<Rightarrow> int \<Rightarrow> int \<Rightarrow> int \<Rightarrow> local_db \<Rightarrow> (db_error + unit) \<times> local_db" where
  "atomic_append_segment_and_manifest row cbor generation cursor_seq now db =
     savepoint (\<lambda>db.
        let current = (case db_cursor db of None \<Rightarrow> 0 | Some c \<Rightarrow> c) in
        if cursor_seq < current then
          Inl (InvariantViolation ''backup cursor cannot go backwards'')
        else
          bindE (insert_ledger_row row (db\<lparr>db_cursor := Some cursor_seq\<rparr>)) (\<lambda>db.
          Inr (save_backup_manifest cbor generation now db, ()))) db"

definition atomic_replace_ledger_and_manifest ::
  "ledger_row list \<Rightarrow> bytes \<Rightarrow> int \<Rightarrow> int \<Rightarrow> local_db \<Rightarrow> (db_error + unit) \<times> local_db" where
  "atomic_replace_ledger_and_manifest rows cbor generation now db =
     savepoint (\<lambda>db.
        bindE (foldE insert_ledger_row rows (db\<lparr>db_ledger := []\<rparr>)) (\<lambda>db.
        Inr (save_backup_manifest cbor generation now db, ()))) db"

definition load_backup_segment_ledger :: "local_db \<Rightarrow> ledger_row list" where
  "load_backup_segment_ledger db =
     sort_key (\<lambda>r. (lg_created_at_ms r, lg_segment_id r)) (db_ledger db)"

subsection \<open>Integrity\<close>

definition keys_unique :: "local_db \<Rightarrow> bool" where
  "keys_unique db \<longleftrightarrow>
     distinct (map cv_id (db_conversations db)) \<and> distinct (map sk_message_id (db_skeletons db)) \<and>
     distinct (map bd_message_id (db_bodies db)) \<and> distinct (map ma_asset_id (db_media db)) \<and>
     distinct (map (\<lambda>r. (ms_asset_id r, ms_kind r, ms_text r)) (db_media_search db)) \<and>
     distinct (map lg_segment_id (db_ledger db)) \<and> distinct (map be_event_seq (db_events db))"

definition references_ok :: "local_db \<Rightarrow> bool" where
  "references_ok db \<longleftrightarrow>
     set (map sk_conversation_id (db_skeletons db)) \<subseteq> set (map cv_id (db_conversations db)) \<and>
     set (map bd_message_id (db_bodies db)) \<subseteq> set (map sk_message_id (db_skeletons db)) \<and>
     set (map ma_message_id (db_media db)) \<subseteq> set (map sk_message_id (db_skeletons db)) \<and>
     set (map ms_asset_id (db_media_search db)) \<subseteq> set (map ma_asset_id (db_media db))"

definition events_below :: "local_db \<Rightarrow> bool" where
  "events_below db \<longleftrightarrow> (\<forall>e \<in> set (db_events db). be_event_seq e \<le> db_event_seq db)"

definition db_wf :: "local_db \<Rightarrow> bool" where
  "db_wf db \<longleftrightarrow> keys_unique db \<and> references_ok db \<and> events_below db"

lemmas db_wf_defs = db_wf_def keys_unique_def references_ok_def events_below_def

lemma db_wf_empty: "db_wf empty_db"
  by (simp add: db_wf_defs empty_db_def)

lemma insert_conversation_wf: "insert_conversation c db = Inr db' \<Longrightarrow> db_wf db \<Longrightarrow> db_wf db'"
  by (clarsimp simp: insert_conversation_def db_wf_defs subset_insertI2 split: if_splits)

lemma insert_skeleton_wf: "insert_message_skeleton s db = Inr db' \<Longrightarrow> db_wf db \<Longrightarrow> db_wf db'"
  by (clarsimp simp: insert_message_skeleton_def db_wf_defs subset_insertI2 split: if_splits)

lemma upsert_skeleton_wf:
  "upsert_skeleton_from_archive s db = Inr (db', b) \<Longrightarrow> db_wf db \<Longrightarrow> db_wf db'"
  by (clarsimp simp: upsert_skeleton_from_archive_def db_wf_defs subset_insertI2 split: if_splits)

lemma insert_body_wf: "insert_message_body b db = Inr db' \<Longrightarrow> db_wf db \<Longrightarrow> db_wf db'"
  by (clarsimp simp: insert_message_body_def db_wf_defs subset_insertI2 split: if_splits)

lemma insert_media_wf: "insert_media_asset a db = Inr db' \<Longrightarrow> db_wf db \<Longrightarrow> db_wf db'"
  by (clarsimp simp: insert_media_asset_def db_wf_defs subset_insertI2 split: if_splits)

lemma insert_media_search_wf: "insert_media_search_index r db = Inr db' \<Longrightarrow> db_wf db \<Longrightarrow> db_wf db'"
  by (clarsimp simp: insert_media_search_index_def db_wf_defs subset_insertI2 split: if_splits)

lemma insert_backup_event_wf: "insert_backup_event e db = Inr db' \<Longrightarrow> db_wf db \<Longrightarrow> db_wf db'"
  by (clarsimp simp: insert_backup_event_def db_wf_defs Let_def split: if_splits) fastforce+

lemma insert_ledger_row_wf: "insert_ledger_row r db = Inr db' \<Longrightarrow> db_wf db \<Longrightarrow> db_wf db'"
  by (clarsimp simp: insert_ledger_row_def db_wf_defs subset_insertI2 split: if_splits)

lemma skeleton_update_wf:
  assumes "db_wf db" "\<And>s. sk_message_id (f s) = sk_message_id s"
    "\<And>s. sk_conversation_id (f s) = sk_conversation_id s"
  shows "db_wf (db\<lparr>db_skeletons := update_where P f (db_skeletons db)\<rparr>)"
  using assms by (simp add: db_wf_defs table_simps flip: set_map)

lemma body_update_wf:
  assumes "db_wf db" "\<And>b. bd_message_id (f b) = bd_message_id b"
  shows "db_wf (db\<lparr>db_bodies := update_where P f (db_bodies db)\<rparr>)"
  using assms by (simp add: db_wf_defs table_simps flip: set_map)

lemma media_update_wf:
  assumes "db_wf db" "\<And>a. ma_asset_id (f a) = ma_asset_id a" "\<And>a. ma_message_id (f a) = ma_message_id a"
  shows "db_wf (db\<lparr>db_media := update_where P f (db_media db)\<rparr>)"
  using assms by (simp add: db_wf_defs table_simps flip: set_map)

lemma conversation_update_wf:
  assumes "db_wf db" "\<And>c. cv_id (f c) = cv_id c"
  shows "db_wf (db\<lparr>db_conversations := update_where P f (db_conversations db)\<rparr>)"
  using assms by (simp add: db_wf_defs table_simps flip: set_map)

lemma unindexed_update_wf:
  assumes "db_wf db"
  shows "db_wf (db\<lparr>db_fts := x\<rparr>)" "db_wf (db\<lparr>db_vectors := y\<rparr>)" "db_wf (db\<lparr>db_fuzzy := z\<rparr>)"
    "db_wf (db\<lparr>db_segment_map := m\<rparr>)" "db_wf (db\<lparr>db_cursor := c\<rparr>)" "db_wf (db\<lparr>db_manifest := k\<rparr>)"
    "db_wf (db\<lparr>db_ledger := []\<rparr>)"
  using assms by (simp_all add: db_wf_defs)

lemma delete_body_wf: "db_wf db \<Longrightarrow> db_wf (db\<lparr>db_bodies := delete_where P (db_bodies db)\<rparr>)"
  by (simp add: db_wf_defs table_simps refs_delete_child)

lemma delete_media_search_wf:
  "db_wf db \<Longrightarrow> db_wf (db\<lparr>db_media_search := delete_where P (db_media_search db)\<rparr>)"
  by (simp add: db_wf_defs table_simps refs_delete_child)

lemma delete_media_rows_wf:
  assumes "delete_media_rows P db = Inr db'" "db_wf db"
  shows "db_wf db'"
proof -
  have db': "db' = db\<lparr>db_media := delete_where P (db_media db)\<rparr>"
    and free: "\<And>a. a \<in> set (db_media db) \<Longrightarrow> P a \<Longrightarrow>
        ma_asset_id a \<notin> ms_asset_id ` set (db_media_search db)"
    using assms(1) by (auto simp: delete_media_rows_def list_ex_iff split: if_splits)
  have "ms_asset_id ` set (db_media_search db) \<subseteq> ma_asset_id ` {a \<in> set (db_media db). \<not> P a}"
    using assms(2) free by (intro refs_delete_parent) (simp_all add: db_wf_defs)
  then show ?thesis
    using assms(2) by (simp add: db' db_wf_defs table_simps refs_delete_child)
qed

lemma delete_skeleton_rows_wf:
  assumes "delete_skeleton_rows P db = Inr db'" "db_wf db"
  shows "db_wf db'"
proof -
  have db': "db' = db\<lparr>db_skeletons := delete_where P (db_skeletons db)\<rparr>"
    and free: "\<And>s. s \<in> set (db_skeletons db) \<Longrightarrow> P s \<Longrightarrow>
        sk_message_id s \<notin> bd_message_id ` set (db_bodies db)"
      "\<And>s. s \<in> set (db_skeletons db) \<Longrightarrow> P s \<Longrightarrow> sk_message_id s \<notin> ma_message_id ` set (db_media db)"
    using assms(1) by (auto simp: delete_skeleton_rows_def list_ex_iff split: if_splits)
  have "bd_message_id ` set (db_bodies db) \<subseteq> sk_message_id ` {s \<in> set (db_skeletons db). \<not> P s}"
    using assms(2) free by (intro refs_delete_parent) (simp_all add: db_wf_defs)
  moreover have
    "ma_message_id ` set (db_media db) \<subseteq> sk_message_id ` {s \<in> set (db_skeletons db). \<not> P s}"
    using assms(2) free by (intro refs_delete_parent) (simp_all add: db_wf_defs)
  ultimately show ?thesis
    using assms(2) by (simp add: db' db_wf_defs table_simps refs_delete_child)
qed

lemma delete_conversation_row_wf:
  assumes "delete_conversation_row cid db = Inr (db', n)" "db_wf db"
  shows "db_wf db'"
proof -
  have db': "db' = db\<lparr>db_conversations := delete_where (\<lambda>c. cv_id c = cid) (db_conversations db)\<rparr>"
    and free: "\<And>c. c \<in> set (db_conversations db) \<Longrightarrow> cv_id c = cid \<Longrightarrow>
        cv_id c \<notin> sk_conversation_id ` set (db_skeletons db)"
    using assms(1) by (auto simp: delete_conversation_row_def list_ex_iff split: if_splits)
  have "sk_conversation_id ` set (db_skeletons db) \<subseteq>
      cv_id ` {c \<in> set (db_conversations db). \<not> cv_id c = cid}"
    using assms(2) free by (intro refs_delete_parent) (simp_all add: db_wf_defs)
  then show ?thesis
    using assms(2) by (simp add: db' db_wf_defs table_simps)
qed

end
