(* ===== verification/Store_Traces.thy ===== *)
theory Store_Traces
  imports Local_Store
begin

text \<open>
  Histories of calls on the local store and what holds after every one of them; the exact effect of
  the cascade, of the batch transition and of the rehydration; paging through a timeline.
\<close>

subsection \<open>Histories\<close>

datatype store_op =
    InsertConversation conversation
  | PinConversation string bool
  | MuteConversation string bool
  | TouchConversation string string int
  | InsertSkeleton message_skeleton
  | UpsertSkeleton message_skeleton
  | InsertBody message_body
  | SetBodyState string body_state
  | SetBodyText string utext
  | MarkEdited string int
  | MarkDeleted string int body_state
  | DropBody string
  | DropFts string
  | DropVector string
  | RehydrateBody string utext body_state
  | SetArchiveState "string list" archive_state
  | InsertMedia media_asset
  | SetMediaSink string string string
  | SetMediaState string media_state
  | InsertMediaSearch media_search_row
  | SetSegmentBackend string storage_backend
  | DropConversation string
  | JournalEvent backup_event
  | SaveManifest bytes int int
  | ReplaceLedger "ledger_row list"
  | AppendSegment ledger_row bytes int int int
  | CompactLedger "ledger_row list" bytes int int

definition or_keep :: "local_db \<Rightarrow> db_error + local_db \<Rightarrow> local_db" where
  "or_keep db r = (case r of Inl _ \<Rightarrow> db | Inr db' \<Rightarrow> db')"

fun run_op :: "store_op \<Rightarrow> local_db \<Rightarrow> local_db" where
  "run_op (InsertConversation c) db = or_keep db (insert_conversation c db)"
| "run_op (PinConversation cid b) db = fst (update_conversation_pin cid b db)"
| "run_op (MuteConversation cid b) db = fst (update_conversation_mute cid b db)"
| "run_op (TouchConversation cid mid t) db = fst (update_conversation_last_message cid mid t db)"
| "run_op (InsertSkeleton s) db = or_keep db (insert_message_skeleton s db)"
| "run_op (UpsertSkeleton s) db = or_keep db (map_sum id fst (upsert_skeleton_from_archive s db))"
| "run_op (InsertBody b) db = or_keep db (insert_message_body b db)"
| "run_op (SetBodyState mid st) db = update_body_state mid st db"
| "run_op (SetBodyText mid txt) db = update_message_body_text mid txt db"
| "run_op (MarkEdited mid t) db = update_skeleton_edited mid t db"
| "run_op (MarkDeleted mid t st) db = update_skeleton_deleted mid t st db"
| "run_op (DropBody mid) db = delete_message_body mid db"
| "run_op (DropFts mid) db = delete_fts_row mid db"
| "run_op (DropVector mid) db = delete_vector_row mid db"
| "run_op (RehydrateBody mid txt st) db = snd (rehydrate_message_body mid txt st db)"
| "run_op (SetArchiveState mids st) db = or_keep db (map_sum id fst (update_archive_state mids st db))"
| "run_op (InsertMedia a) db = or_keep db (insert_media_asset a db)"
| "run_op (SetMediaSink aid sink blob) db = fst (update_media_storage_sink aid sink blob db)"
| "run_op (SetMediaState aid st) db = fst (update_media_state aid st db)"
| "run_op (InsertMediaSearch r) db = or_keep db (insert_media_search_index r db)"
| "run_op (SetSegmentBackend sid b) db = fst (update_segment_storage_backend sid b db)"
| "run_op (DropConversation cid) db = snd (delete_conversation cid db)"
| "run_op (JournalEvent e) db = or_keep db (insert_backup_event e db)"
| "run_op (SaveManifest cbor g now) db = save_backup_manifest cbor g now db"
| "run_op (ReplaceLedger rows) db = snd (replace_backup_segment_ledger rows db)"
| "run_op (AppendSegment r cbor g c now) db = snd (atomic_append_segment_and_manifest r cbor g c now db)"
| "run_op (CompactLedger rows cbor g now) db = snd (atomic_replace_ledger_and_manifest rows cbor g now db)"

lemma or_keep_wf:
  "db_wf db \<Longrightarrow> (\<And>db'. r = Inr db' \<Longrightarrow> db_wf db') \<Longrightarrow> db_wf (or_keep db r)"
  by (auto simp: or_keep_def split: sum.splits)

lemma savepoint_wf:
  "db_wf db \<Longrightarrow> (\<And>db' x. f db = Inr (db', x) \<Longrightarrow> db_wf db') \<Longrightarrow> db_wf (snd (savepoint f db))"
  by (auto simp: savepoint_def split: sum.splits)

lemma upsert_body_text_wf:
  "db_wf db \<Longrightarrow> mid \<in> sk_message_id ` set (db_skeletons db) \<Longrightarrow> db_wf (upsert_body_text mid txt db)"
  by (auto simp: upsert_body_text_def update_message_body_text_def body_update_wf)
    (clarsimp simp: db_wf_defs)

lemma rehydrate_wf:
  assumes "db_wf db"
  shows "db_wf (snd (rehydrate_message_body mid txt st db))"
proof (cases "get_message_skeleton mid db")
  case (Some s)
  then have "mid \<in> sk_message_id ` set (db_skeletons db)"
    unfolding get_message_skeleton_def by (metis select_one_None_iff option.distinct(1))
  then have "db_wf (update_body_state mid st (upsert_body_text mid txt db))"
    using assms upsert_body_text_wf by (simp add: update_body_state_def skeleton_update_wf)
  then show ?thesis
    using Some by (simp add: rehydrate_message_body_def savepoint_def Let_def delete_fts_row_def
        unindexed_update_wf)
qed (simp add: rehydrate_message_body_def assms)

lemma update_archive_state_Inr:
  assumes "update_archive_state mids st db = Inr (db', n)"
  shows "db' = db\<lparr>db_skeletons := update_where (\<lambda>s. sk_message_id s \<in> set mids)
            (sk_archive_state_update (\<lambda>_. st)) (db_skeletons db)\<rparr>"
  using assms
  by (cases "mids = []") (auto simp: update_archive_state_def Let_def bindE_Inr_iff update_where_none)

lemma ledger_fold_wf:
  "foldE insert_ledger_row rows db = Inr db' \<Longrightarrow> db_wf db \<Longrightarrow> db_wf db'"
  by (erule foldE_invariant) (auto intro: insert_ledger_row_wf)

lemma delete_conversation_inner_wf:
  "delete_conversation_inner cid db = Inr (db', n) \<Longrightarrow> db_wf db \<Longrightarrow> db_wf db'"
  unfolding delete_conversation_inner_def Let_def bindE_Inr_iff
  by (elim exE conjE, erule delete_conversation_row_wf, erule delete_skeleton_rows_wf,
      rule delete_body_wf, erule delete_media_rows_wf)
    (simp add: unindexed_update_wf delete_media_search_wf)

lemma run_op_wf:
  assumes "db_wf db"
  shows "db_wf (run_op op db)"
proof (cases op)
  case (SetArchiveState mids st)
  then show ?thesis
    using assms update_archive_state_Inr
    by (fastforce intro!: or_keep_wf simp: skeleton_update_wf map_sum_Inr_iff)
next
  case (UpsertSkeleton s)
  then show ?thesis
    using assms upsert_skeleton_wf by (auto intro!: or_keep_wf simp: map_sum_Inr_iff)
next
  case (DropConversation cid)
  then show ?thesis
    using assms by (simp add: delete_conversation_def savepoint_wf delete_conversation_inner_wf)
next
  case (ReplaceLedger rows)
  then show ?thesis
    using assms
    by (auto intro!: savepoint_wf simp: replace_backup_segment_ledger_def bindE_Inr_iff unindexed_update_wf dest!: ledger_fold_wf)
next
  case (CompactLedger rows cbor g now)
  then show ?thesis
    using assms
    by (auto intro!: savepoint_wf simp: atomic_replace_ledger_and_manifest_def bindE_Inr_iff unindexed_update_wf save_backup_manifest_def
        dest!: ledger_fold_wf)
next
  case (AppendSegment r cbor g c now)
  then show ?thesis
    using assms
    by (auto intro!: savepoint_wf simp: atomic_append_segment_and_manifest_def bindE_Inr_iff unindexed_update_wf save_backup_manifest_def
        Let_def dest!: insert_ledger_row_wf split: if_splits)
qed (auto intro!: or_keep_wf simp: assms rehydrate_wf
    update_conversation_pin_def update_conversation_mute_def update_conversation_last_message_def
    update_body_state_def update_message_body_text_def update_skeleton_edited_def
    update_skeleton_deleted_def delete_message_body_def delete_fts_row_def delete_vector_row_def
    update_media_storage_sink_def update_media_state_def update_segment_storage_backend_def
    save_backup_manifest_def Let_def conversation_update_wf skeleton_update_wf body_update_wf
    media_update_wf unindexed_update_wf delete_body_wf
    dest: insert_conversation_wf insert_skeleton_wf insert_body_wf insert_media_wf
      insert_media_search_wf insert_backup_event_wf)

lemma run_ops_wf: "db_wf db \<Longrightarrow> db_wf (fold run_op ops db)"
  by (induction ops arbitrary: db) (simp_all add: run_op_wf)

subsection \<open>The backup cursor\<close>

definition cursor_value :: "local_db \<Rightarrow> int" where
  "cursor_value db = (case db_cursor db of None \<Rightarrow> 0 | Some c \<Rightarrow> c)"

lemma ledger_fold_cursor: "foldE insert_ledger_row rows db = Inr db' \<Longrightarrow> db_cursor db' = db_cursor db"
proof (induction rows arbitrary: db)
  case (Cons r rows)
  then obtain d where d: "insert_ledger_row r db = Inr d" "foldE insert_ledger_row rows d = Inr db'"
    by (auto simp: bindE_Inr_iff)
  then have "db_cursor d = db_cursor db" by (auto simp: insert_ledger_row_def split: if_splits)
  then show ?case using Cons.IH d(2) by simp
qed simp

lemma append_cursor:
  "atomic_append_segment_and_manifest r cbor g c now db = (Inr (), db') \<Longrightarrow>
     db_cursor db' = Some c \<and> cursor_value db \<le> c"
  by (auto simp: atomic_append_segment_and_manifest_def savepoint_Inr bindE_Inr_iff Let_def
      save_backup_manifest_def insert_ledger_row_def cursor_value_def split: if_splits option.splits)

lemma savepoint_cursor:
  "(\<And>db' x. f db = Inr (db', x) \<Longrightarrow> db_cursor db' = db_cursor db) \<Longrightarrow>
     db_cursor (snd (savepoint f db)) = db_cursor db"
  by (auto simp: savepoint_def split: sum.splits)

lemma or_keep_cursor:
  "(\<And>db'. r = Inr db' \<Longrightarrow> db_cursor db' = db_cursor db) \<Longrightarrow> db_cursor (or_keep db r) = db_cursor db"
  by (auto simp: or_keep_def split: sum.splits)

lemma delete_conversation_inner_cursor:
  "delete_conversation_inner cid db = Inr (db', n) \<Longrightarrow> db_cursor db' = db_cursor db"
  by (auto simp: delete_conversation_inner_def Let_def bindE_Inr_iff delete_conversation_row_def
      delete_skeleton_rows_def delete_media_rows_def split: if_splits)

lemma rehydrate_cursor: "db_cursor (snd (rehydrate_message_body mid txt st db)) = db_cursor db"
  by (cases "get_message_skeleton mid db")
    (simp_all add: rehydrate_message_body_def savepoint_def Let_def delete_fts_row_def
      update_body_state_def upsert_body_text_def update_message_body_text_def)

lemma run_op_keeps_cursor:
  assumes "\<And>r cbor g c now. op \<noteq> AppendSegment r cbor g c now"
  shows "db_cursor (run_op op db) = db_cursor db"
proof (cases op)
  case (AppendSegment r cbor g c now)
  then show ?thesis using assms by blast
next
  case (DropConversation cid)
  then show ?thesis
    by (simp add: delete_conversation_def savepoint_cursor delete_conversation_inner_cursor)
next
  case (ReplaceLedger rows)
  then show ?thesis
    by (auto simp: replace_backup_segment_ledger_def bindE_Inr_iff
        dest!: ledger_fold_cursor intro!: savepoint_cursor)
next
  case (CompactLedger rows cbor g now)
  then show ?thesis
    by (auto simp: atomic_replace_ledger_and_manifest_def bindE_Inr_iff save_backup_manifest_def
        dest!: ledger_fold_cursor intro!: savepoint_cursor)
next
  case (SetArchiveState mids st)
  then show ?thesis
    by (auto simp: map_sum_Inr_iff dest!: update_archive_state_Inr intro!: or_keep_cursor)
qed (auto simp: insert_conversation_def insert_message_skeleton_def rehydrate_cursor
    upsert_skeleton_from_archive_def insert_message_body_def insert_media_asset_def
    insert_media_search_index_def insert_backup_event_def Let_def
    update_conversation_pin_def update_conversation_mute_def update_conversation_last_message_def
    update_body_state_def update_message_body_text_def update_skeleton_edited_def
    update_skeleton_deleted_def delete_message_body_def delete_fts_row_def delete_vector_row_def
    update_media_storage_sink_def update_media_state_def update_segment_storage_backend_def
    save_backup_manifest_def map_sum_Inr_iff intro!: or_keep_cursor split: if_splits)

lemma run_op_cursor: "cursor_value db \<le> cursor_value (run_op op db)"
proof (cases "\<exists>r cbor g c now. op = AppendSegment r cbor g c now")
  case False
  then show ?thesis using run_op_keeps_cursor[of op db] by (simp add: cursor_value_def)
next
  case True
  then obtain r cbor g c now where op: "op = AppendSegment r cbor g c now" by blast
  obtain res db' where res: "atomic_append_segment_and_manifest r cbor g c now db = (res, db')"
    by fastforce
  show ?thesis
  proof (cases res)
    case (Inl e)
    then have "db' = db" using res by (simp add: atomic_append_segment_and_manifest_def savepoint_Inl)
    then show ?thesis using res op by simp
  next
    case (Inr u)
    then show ?thesis using append_cursor[of r cbor g c now db db'] res op by (simp add: cursor_value_def)
  qed
qed

lemma run_ops_cursor: "cursor_value db \<le> cursor_value (fold run_op ops db)"
  by (induction ops arbitrary: db) (simp_all, meson order_trans run_op_cursor)

subsection \<open>Paging through a timeline\<close>

text \<open>What a client does that passes the timestamp of the last row it got as the next \<open>before_ms\<close>.\<close>

abbreviation in_page :: "string \<Rightarrow> int option \<Rightarrow> message_skeleton \<Rightarrow> bool" where
  "in_page cid before_ms s \<equiv> sk_conversation_id s = cid \<and>
     (case before_ms of None \<Rightarrow> True | Some b \<Rightarrow> sk_created_at_ms s < b)"

lemma page_subset: "set (get_conversation_messages cid b n db) \<subseteq> {s \<in> set (db_skeletons db). in_page cid b s}"
  by (auto simp: get_conversation_messages_def sql_limit_def dest!: in_set_takeD split: if_splits)

function pages :: "nat \<Rightarrow> string \<Rightarrow> local_db \<Rightarrow> int option \<Rightarrow> message_skeleton list" where
  "pages n cid db b =
     (let p = get_conversation_messages cid b n db in
      if p = [] then [] else p @ pages n cid db (Some (sk_created_at_ms (last p))))"
  by pat_completeness auto

termination
proof (relation "measure (\<lambda>(n, cid, db, b). length (filter (in_page cid b) (db_skeletons db)))")
  fix n cid db b p
  assume p: "p = get_conversation_messages cid b n db" "p \<noteq> []"
  let ?x = "last p"
  have "?x \<in> {s \<in> set (db_skeletons db). in_page cid b s}"
    using page_subset[of cid b n db] last_in_set[OF p(2)] unfolding p(1) by blast
  then have x: "?x \<in> set (db_skeletons db)" "in_page cid b ?x" by simp_all
  have le: "in_page cid b s" if "in_page cid (Some (sk_created_at_ms ?x)) s" for s
    using that x(2) by (auto split: option.splits)
  have "length (filter (in_page cid (Some (sk_created_at_ms ?x))) (db_skeletons db))
      < length (filter (in_page cid b) (db_skeletons db))"
    using x le by (intro filter_length_less[of ?x]) auto
  then show "((n, cid, db, Some (sk_created_at_ms (last p))), n, cid, db, b) \<in>
      measure (\<lambda>(n, cid, db, b). length (filter (in_page cid b) (db_skeletons db)))"
    by simp
qed simp

declare pages.simps [simp del]

lemma pages_in_page: "s \<in> set (pages n cid db b) \<Longrightarrow> s \<in> set (db_skeletons db) \<and> in_page cid b s"
proof (induction n cid db b rule: pages.induct)
  case (1 n cid db b)
  let ?p = "get_conversation_messages cid b n db"
  show ?case
  proof (cases "?p = []")
    case True
    then show ?thesis using 1(2) by (simp add: pages.simps[of n cid db])
  next
    case False
    have here: "\<And>y. y \<in> set ?p \<Longrightarrow> y \<in> set (db_skeletons db) \<and> in_page cid b y"
      using page_subset[of cid b n db] by blast
    then have "in_page cid b (last ?p)" using False by simp
    moreover have "s \<in> set ?p \<or> s \<in> set (pages n cid db (Some (sk_created_at_ms (last ?p))))"
      using 1(2) False by (simp add: pages.simps[of n cid db b] Let_def)
    ultimately show ?thesis
      using here 1(1)[OF refl False] by (auto split: option.splits)
  qed
qed

lemma sorted_page_list:
  assumes "distinct (map sk_created_at_ms (filter (\<lambda>s. sk_conversation_id s = cid) (db_skeletons db)))"
  shows "sorted_wrt (\<lambda>x y. sk_created_at_ms y < sk_created_at_ms x)
    (sort_key (\<lambda>s. - sk_created_at_ms s) (filter (in_page cid b) (db_skeletons db)))"
proof -
  let ?F = "filter (in_page cid b) (db_skeletons db)"
  have "?F = filter (\<lambda>s. case b of None \<Rightarrow> True | Some b \<Rightarrow> sk_created_at_ms s < b)
      (filter (\<lambda>s. sk_conversation_id s = cid) (db_skeletons db))"
    by (simp add: conj_commute)
  then have "distinct (map sk_created_at_ms ?F)"
    using assms by (simp only: distinct_map_filter_key)
  then have "distinct (map sk_created_at_ms (sort_key (\<lambda>s. - sk_created_at_ms s) ?F))"
    by (rule sort_key_distinct_map)
  with sorted_wrt_sort_key[of "\<lambda>s. - sk_created_at_ms s" ?F] show ?thesis
    by (rule sorted_wrt_strict)
qed

lemma pages_eq:
  assumes "distinct (map sk_created_at_ms (filter (\<lambda>s. sk_conversation_id s = cid) (db_skeletons db)))"
    and "0 < n" "n < 2 ^ 63"
  shows "pages n cid db b = sort_key (\<lambda>s. - sk_created_at_ms s) (filter (in_page cid b) (db_skeletons db))"
  using assms
proof (induction n cid db b rule: pages.induct)
  case (1 n cid db b)
  let ?L = "sort_key (\<lambda>s. - sk_created_at_ms s) (filter (in_page cid b) (db_skeletons db))"
  let ?p = "get_conversation_messages cid b n db"
  have p: "?p = take n ?L" using 1(4) by (simp add: get_conversation_messages_def sql_limit_def)
  show ?case
  proof (cases "?L = []")
    case True
    then show ?thesis using p by (simp add: pages.simps[of n cid db b])
  next
    case False
    then have ne: "?p \<noteq> []" using p 1(3) by simp
    let ?k = "length ?p - 1"
    have k: "?k < length ?L" "drop (Suc ?k) ?L = drop n ?L"
      using length_greater_0_conv[THEN iffD2, OF False] p 1(3) by (auto simp: min_def)
    have last: "last ?p = ?L ! ?k" using ne p 1(3) by (simp add: last_conv_nth min_def)
    have strict: "sorted_wrt (\<lambda>x y. sk_created_at_ms y < sk_created_at_ms x) ?L"
      using 1(2) by (rule sorted_page_list)
    have page_last: "in_page cid b (?L ! ?k)"
      using nth_mem[OF k(1)] unfolding set_sort set_filter by blast
    have same: "in_page cid (Some (sk_created_at_ms (?L ! ?k))) s \<longleftrightarrow>
        in_page cid b s \<and> sk_created_at_ms s < sk_created_at_ms (?L ! ?k)" for s
      using page_last by (auto split: option.splits)
    have "pages n cid db (Some (sk_created_at_ms (last ?p))) =
        sort_key (\<lambda>s. - sk_created_at_ms s)
          (filter (in_page cid (Some (sk_created_at_ms (last ?p)))) (db_skeletons db))"
      using 1(1)[OF refl ne] 1(2-4) by blast
    also have "\<dots> = filter (\<lambda>s. sk_created_at_ms s < sk_created_at_ms (?L ! ?k)) ?L"
      unfolding last same sort_key_filter_commute
      by (simp add: conj_commute)
    also have "\<dots> = drop n ?L"
      unfolding k(2) [symmetric] using strict k(1) by (rule filter_below_sorted)
    finally have rest: "pages n cid db (Some (sk_created_at_ms (last ?p))) = drop n ?L" .
    have "pages n cid db b = ?p @ pages n cid db (Some (sk_created_at_ms (last ?p)))"
      using ne by (subst pages.simps) (simp add: Let_def)
    also have "\<dots> = take n ?L @ drop n ?L" unfolding rest unfolding p ..
    finally show ?thesis by simp
  qed
qed

subsection \<open>Single operations\<close>

lemma update_where_same_key:
  "(\<And>r. key (f r) = key r) \<Longrightarrow> map key (update_where P f rows) = map key rows"
  by (simp add: table_simps)

lemma page_order_update:
  assumes "\<And>s. sk_conversation_id (f s) = sk_conversation_id s"
    "\<And>s. sk_created_at_ms (f s) = sk_created_at_ms s" "\<And>s. sk_message_id (f s) = sk_message_id s"
  shows "map sk_message_id (get_conversation_messages cid b n
           (db\<lparr>db_skeletons := update_where P f (db_skeletons db)\<rparr>)) =
         map sk_message_id (get_conversation_messages cid b n db)"
proof -
  let ?g = "\<lambda>s. if P s then f s else s"
  have "in_page cid b (?g s) \<longleftrightarrow> in_page cid b s" for s
    by (cases b) (simp_all add: assms)
  then have c: "filter (in_page cid b) (map ?g xs) = map ?g (filter (in_page cid b) xs)" for xs
    by (simp only: filter_map o_def)
  have id: "map (\<lambda>s. sk_message_id (?g s)) xs = map sk_message_id xs" for xs
    by (simp add: assms)
  have k: "sort_key (\<lambda>s. - sk_created_at_ms (?g s)) xs = sort_key (\<lambda>s. - sk_created_at_ms s) xs" for xs
    by (rule arg_cong[where f = "\<lambda>k. sort_key k xs"]) (simp add: fun_eq_iff assms)
  show ?thesis
    by (simp add: get_conversation_messages_def update_where_def c sort_key_map k sql_limit_def
        take_map id o_def)
qed

lemma get_body_upsert:
  "get_message_body mid (upsert_body_text mid txt db) =
     (case get_message_body mid db of
        None \<Rightarrow> Some \<lparr>bd_message_id = mid, bd_text = Some txt, bd_language = None, bd_rich_meta = None\<rparr>
      | Some b \<Rightarrow> Some (b\<lparr>bd_text := Some txt\<rparr>))"
proof (cases "get_message_body mid db")
  case None
  then have "mid \<notin> bd_message_id ` set (db_bodies db)"
    by (simp add: get_message_body_def select_one_None_iff)
  then show ?thesis
    using None by (simp add: get_message_body_def upsert_body_text_def select_one_append
        select_one_Cons)
next
  case (Some b)
  then have "mid \<in> bd_message_id ` set (db_bodies db)" "bd_message_id b = mid"
    using select_one_SomeD[of bd_message_id mid "db_bodies db" b]
    by (auto simp: get_message_body_def)
  then show ?thesis
    using Some by (simp add: get_message_body_def upsert_body_text_def update_message_body_text_def
        select_one_update_where)
qed

lemma delete_media_rows_ok:
  "(\<And>a. a \<in> set (db_media db) \<Longrightarrow> P a \<Longrightarrow> ma_asset_id a \<notin> ms_asset_id ` set (db_media_search db)) \<Longrightarrow>
     delete_media_rows P db = Inr (db\<lparr>db_media := delete_where P (db_media db)\<rparr>)"
  unfolding delete_media_rows_def list_ex_iff by (rule if_not_P) blast

lemma delete_skeleton_rows_ok:
  assumes "\<And>s. s \<in> set (db_skeletons db) \<Longrightarrow> P s \<Longrightarrow> sk_message_id s \<notin> bd_message_id ` set (db_bodies db)"
    and "\<And>s. s \<in> set (db_skeletons db) \<Longrightarrow> P s \<Longrightarrow> sk_message_id s \<notin> ma_message_id ` set (db_media db)"
  shows "delete_skeleton_rows P db = Inr (db\<lparr>db_skeletons := delete_where P (db_skeletons db)\<rparr>)"
proof -
  have "\<not> list_ex (\<lambda>s. P s \<and> sk_message_id s \<in> bd_message_id ` set (db_bodies db)) (db_skeletons db)"
    "\<not> list_ex (\<lambda>s. P s \<and> sk_message_id s \<in> ma_message_id ` set (db_media db)) (db_skeletons db)"
    unfolding list_ex_iff using assms by blast+
  then show ?thesis by (simp only: delete_skeleton_rows_def if_False)
qed

lemma delete_conversation_row_ok:
  "(\<And>c :: conversation. cv_id c = cid \<Longrightarrow> cv_id c \<notin> sk_conversation_id ` set (db_skeletons db)) \<Longrightarrow>
     delete_conversation_row cid db =
       Inr (db\<lparr>db_conversations := delete_where (\<lambda>c. cv_id c = cid) (db_conversations db)\<rparr>,
            row_count (\<lambda>c. cv_id c = cid) (db_conversations db))"
  unfolding delete_conversation_row_def list_ex_iff by (rule if_not_P) metis

subsection \<open>Properties\<close>

text \<open>C4: No history of calls on the store, failing calls included, breaks its integrity: primary keys
  stay unique, every foreign key has its row and no journal event is past the sequence counter.\<close>

theorem store_history_integrity:
  "db_wf (fold run_op ops empty_db)"
  by (rule run_ops_wf) (rule db_wf_empty)

text \<open>The backup cursor never moves backwards, whatever sequence of calls runs, so a backup run
  never publishes again the events another run has segmented.\<close>

theorem backup_cursor_monotone:
  "cursor_value db \<le> cursor_value (fold run_op ops db)"
  by (rule run_ops_cursor)

text \<open>C12: Deleting a conversation never fails, that is, its eight statements are in an order every
  foreign key accepts, and it removes the conversation, its messages and every row that belongs to
  them in the seven dependent tables, and nothing else; the count says whether it existed.\<close>

theorem delete_conversation_cascade:
  "delete_conversation cid db =
     (Inr (row_count (\<lambda>c. cv_id c = cid) (db_conversations db)),
      db\<lparr>db_conversations := filter (\<lambda>c. cv_id c \<noteq> cid) (db_conversations db),
         db_skeletons := filter (\<lambda>s. sk_conversation_id s \<noteq> cid) (db_skeletons db),
         db_bodies := filter (\<lambda>b. bd_message_id b \<notin> conversation_messages cid db) (db_bodies db),
         db_media := filter (\<lambda>a. ma_message_id a \<notin> conversation_messages cid db) (db_media db),
         db_fts := filter (\<lambda>r. ft_message_id r \<notin> conversation_messages cid db) (db_fts db),
         db_fuzzy := filter (\<lambda>r. fz_message_id r \<notin> conversation_messages cid db) (db_fuzzy db),
         db_vectors := filter (\<lambda>r. vr_message_id r \<notin> conversation_messages cid db) (db_vectors db),
         db_media_search := filter (\<lambda>r. ms_asset_id r \<notin>
            ma_asset_id ` {a \<in> set (db_media db). ma_message_id a \<in> conversation_messages cid db})
            (db_media_search db)\<rparr>)"
proof -
  let ?M = "conversation_messages cid db"
  let ?A = "ma_asset_id ` {a \<in> set (db_media db). ma_message_id a \<in> ?M}"
  have mem: "sk_message_id s \<in> ?M" if "s \<in> set (db_skeletons db)" "sk_conversation_id s = cid" for s
    using that by (auto simp: conversation_messages_def)
  have media: "ma_asset_id a \<notin> ms_asset_id ` {r \<in> set (db_media_search db). ms_asset_id r \<notin> ?A}"
    if "a \<in> set (db_media db)" "ma_message_id a \<in> ?M" for a
  proof -
    have "ma_asset_id a \<in> ?A" using that by blast
    then show ?thesis by (metis (mono_tags, lifting) imageE mem_Collect_eq)
  qed
  have bodies: "sk_message_id s \<notin> bd_message_id ` {b \<in> set (db_bodies db). bd_message_id b \<notin> ?M}"
    "sk_message_id s \<notin> ma_message_id ` {a \<in> set (db_media db). ma_message_id a \<notin> ?M}"
    if "s \<in> set (db_skeletons db)" "sk_conversation_id s = cid" for s
    using mem[OF that] by auto
  have skeletons: "cv_id c \<notin> sk_conversation_id ` {s \<in> set (db_skeletons db). sk_conversation_id s \<noteq> cid}"
    if "cv_id c = cid" for c :: conversation
    using that by auto
  show ?thesis
    unfolding delete_conversation_def savepoint_def delete_conversation_inner_def Let_def
  proof (subst delete_media_rows_ok, goal_cases)
    case (1 a)
    then show ?case using media[of a] by simp
  next
    case 2
    show ?case
      unfolding bindE.simps
    proof (subst delete_skeleton_rows_ok, goal_cases)
      case (1 s)
      then show ?case using bodies(1)[of s] by simp
    next
      case (2 s)
      then show ?case using bodies(2)[of s] by simp
    next
      case 3
      show ?case
        unfolding bindE.simps
      proof (subst delete_conversation_row_ok, goal_cases)
        case (1 c)
        then show ?case using skeletons[of c] by simp
      qed (simp add: delete_where_def)
    qed
  qed
qed

text \<open>A batch archive transition is all or nothing: it succeeds exactly when every row it names is
  one step before the new state, and then every such row, and no other, has the new state.\<close>

theorem archive_batch_all_or_nothing:
  "case update_archive_state mids st db of
     Inr (db', n) \<Rightarrow>
       list_all (\<lambda>s. archive_rank st = Suc (archive_rank (sk_archive_state s)))
         (filter (\<lambda>s. sk_message_id s \<in> set mids) (db_skeletons db)) \<and>
       db' = db\<lparr>db_skeletons := update_where (\<lambda>s. sk_message_id s \<in> set mids)
                 (sk_archive_state_update (\<lambda>_. st)) (db_skeletons db)\<rparr> \<and>
       n = row_count (\<lambda>s. sk_message_id s \<in> set mids) (db_skeletons db)
   | Inl e \<Rightarrow>
       list_ex (\<lambda>s. archive_rank st \<noteq> Suc (archive_rank (sk_archive_state s)))
         (filter (\<lambda>s. sk_message_id s \<in> set mids) (db_skeletons db))"
proof (cases "update_archive_state mids st db")
  case (Inr r)
  obtain db' n where r: "r = (db', n)" by (cases r)
  show ?thesis
  proof (cases "mids = []")
    case True
    then show ?thesis
      using Inr by (auto simp: update_archive_state_def update_where_none row_count_def)
  next
    case False
    then have "list_all (\<lambda>s. archive_rank st = Suc (archive_rank (sk_archive_state s)))
         (filter (\<lambda>s. sk_message_id s \<in> set mids) (db_skeletons db))"
      using Inr
      by (auto simp: update_archive_state_def Let_def bindE_Inr_iff mapE_Inr_iff list_all_iff
          list_all2_iff in_set_zip dest!: archive_machine.tr_target
          simp: archive_machine.tr_rank[symmetric] split: sum.splits elim!: in_set_impl_in_set_zip1)
    then show ?thesis
      using Inr False r by (auto simp: update_archive_state_def Let_def bindE_Inr_iff)
  qed
next
  case (Inl e)
  then have "mids \<noteq> []" by (auto simp: update_archive_state_def)
  then have "\<exists>s \<in> set (filter (\<lambda>s. sk_message_id s \<in> set mids) (db_skeletons db)).
      \<exists>e. archive_try_transition (sk_archive_state s) st = Inl e"
    using Inl by (auto simp: update_archive_state_def Let_def bindE_Inl_iff dest!: mapE_Inl
        split: sum.splits)
  then show ?thesis
    using Inl archive_machine.tr_rank by (auto simp: list_ex_iff) (metis sum.distinct(1))
qed

text \<open>Rehydrating a message whose skeleton is present succeeds, fills in its text (keeping the
  language and metadata of an existing body), leaves it exactly one full-text row, which carries the
  skeleton's timestamp, and moves no message in any page of any timeline.\<close>

theorem rehydrate_in_place:
  assumes "get_message_skeleton mid db = Some s"
  shows "\<exists>db'. rehydrate_message_body mid txt st db = (Inr (), db') \<and>
     get_message_body mid db' = Some (case get_message_body mid db of
        None \<Rightarrow> \<lparr>bd_message_id = mid, bd_text = Some txt, bd_language = None, bd_rich_meta = None\<rparr>
      | Some b \<Rightarrow> b\<lparr>bd_text := Some txt\<rparr>) \<and>
     get_message_skeleton mid db' = Some (s\<lparr>sk_body_state := st\<rparr>) \<and>
     filter (\<lambda>f. ft_message_id f = mid) (db_fts db') =
       [\<lparr>ft_message_id = mid, ft_conversation_id = sk_conversation_id s, ft_sender_id = sk_sender_id s,
         ft_created_at_ms = sk_created_at_ms s, ft_text = txt\<rparr>] \<and>
     filter (\<lambda>f. ft_message_id f \<noteq> mid) (db_fts db') = filter (\<lambda>f. ft_message_id f \<noteq> mid) (db_fts db) \<and>
     (map sk_message_id (get_conversation_messages cid before_ms n db') =
      map sk_message_id (get_conversation_messages cid before_ms n db))"
proof -
  define d where "d = delete_fts_row mid (update_body_state mid st (upsert_body_text mid txt db))"
  define db' where "db' = d\<lparr>db_fts := db_fts d @
      [\<lparr>ft_message_id = mid, ft_conversation_id = sk_conversation_id s, ft_sender_id = sk_sender_id s,
        ft_created_at_ms = sk_created_at_ms s, ft_text = txt\<rparr>]\<rparr>"
  have id: "sk_message_id s = mid"
    using assms select_one_SomeD unfolding get_message_skeleton_def by metis
  have same: "db_skeletons (upsert_body_text mid txt db) = db_skeletons db"
    "db_fts (upsert_body_text mid txt db) = db_fts db"
    by (simp_all add: upsert_body_text_def update_message_body_text_def)
  have res: "rehydrate_message_body mid txt st db = (Inr (), db')"
    using assms by (simp add: rehydrate_message_body_def savepoint_def Let_def db'_def d_def)
  have body: "get_message_body mid db' = get_message_body mid (upsert_body_text mid txt db)"
    by (simp add: db'_def d_def delete_fts_row_def update_body_state_def get_message_body_def)
  have skel: "get_message_skeleton mid db' = Some (s\<lparr>sk_body_state := st\<rparr>)"
    using assms id by (simp add: db'_def d_def delete_fts_row_def update_body_state_def
        get_message_skeleton_def same select_one_update_where)
  have fts: "filter (\<lambda>f. ft_message_id f = mid) (db_fts db') =
       [\<lparr>ft_message_id = mid, ft_conversation_id = sk_conversation_id s, ft_sender_id = sk_sender_id s,
         ft_created_at_ms = sk_created_at_ms s, ft_text = txt\<rparr>]"
    "filter (\<lambda>f. ft_message_id f \<noteq> mid) (db_fts db') = filter (\<lambda>f. ft_message_id f \<noteq> mid) (db_fts db)"
    by (simp_all add: db'_def d_def delete_fts_row_def update_body_state_def same delete_where_def
        filter_empty_conv)
  have "get_conversation_messages cid before_ms n db' = get_conversation_messages cid before_ms n
      (db\<lparr>db_skeletons := update_where (\<lambda>s. sk_message_id s = mid) (sk_body_state_update (\<lambda>_. st))
            (db_skeletons db)\<rparr>)"
    by (simp add: db'_def d_def delete_fts_row_def update_body_state_def same
        get_conversation_messages_def)
  then have order: "map sk_message_id (get_conversation_messages cid before_ms n db') =
      map sk_message_id (get_conversation_messages cid before_ms n db)"
    by (simp add: page_order_update)
  show ?thesis
    using res body skel fts order get_body_upsert[of mid "txt" db]
    by (intro exI[of _ db']) (simp split: option.splits)
qed

definition sample_skeleton :: "string \<Rightarrow> int \<Rightarrow> message_skeleton" where
  "sample_skeleton mid t =
     \<lparr>sk_message_id = mid, sk_conversation_id = ''c'', sk_sender_id = ''u'', sk_created_at_ms = t,
      sk_received_at_ms = t, sk_kind = TextKind, sk_body_state = RemoteArchiveOnly,
      sk_media_state = None, sk_archive_state = ArchiveVerified, sk_backup_state = NotBackedUp,
      sk_reply_to = None, sk_edited_at_ms = None, sk_deleted_at_ms = None\<rparr>"

definition sample_db :: "int list \<Rightarrow> local_db" where
  "sample_db ts = empty_db\<lparr>
     db_conversations := [legacy_conversation ''c'' None False False None 0],
     db_skeletons := map2 (\<lambda>i t. sample_skeleton [i] t) ''abcdefgh'' ts\<rparr>"

lemma sample_fields [simp]:
  "sk_message_id (sample_skeleton i t) = i" "sk_conversation_id (sample_skeleton i t) = ''c''"
  "sk_created_at_ms (sample_skeleton i t) = t"
  by (simp_all add: sample_skeleton_def)

lemma sample_skeletons [simp]:
  "db_skeletons (sample_db ts) = map2 (\<lambda>i t. sample_skeleton [i] t) ''abcdefgh'' ts"
  by (simp add: sample_db_def)

lemma sample_page:
  "get_conversation_messages ''c'' None n (sample_db ts) =
     sql_limit n (sort_key (\<lambda>s. - sk_created_at_ms s)
       (map2 (\<lambda>i t. sample_skeleton [i] t) ''abcdefgh'' ts))"
proof -
  have "filter (\<lambda>s. sk_conversation_id s = ''c'') (map2 (\<lambda>i t. sample_skeleton [i] t) ''abcdefgh'' ts) =
      map2 (\<lambda>i t. sample_skeleton [i] t) ''abcdefgh'' ts"
    by (auto simp: filter_id_conv)
  then show ?thesis by (simp add: get_conversation_messages_def)
qed

theorem rehydrate_in_place_witness:
  "\<exists>db'. rehydrate_message_body ''b'' [104, 105] LocalPlainAvailable (sample_db [10, 20]) = (Inr (), db') \<and>
     map sk_message_id (get_conversation_messages ''c'' None 5 db') = [''b'', ''a'']"
proof -
  have "get_message_skeleton ''b'' (sample_db [10, 20]) = Some (sample_skeleton ''b'' 20)"
    by (simp add: get_message_skeleton_def select_one_Cons)
  from rehydrate_in_place[OF this, of "[104, 105]" LocalPlainAvailable "''c''" None 5]
  obtain db' where r: "rehydrate_message_body ''b'' [104, 105] LocalPlainAvailable (sample_db [10, 20]) = (Inr (), db')"
    and o: "map sk_message_id (get_conversation_messages ''c'' None 5 db') =
      map sk_message_id (get_conversation_messages ''c'' None 5 (sample_db [10, 20]))"
    by blast
  have "map sk_message_id (get_conversation_messages ''c'' None 5 (sample_db [10, 20])) = [''b'', ''a'']"
    by (simp add: sample_page sql_limit_def)
  then show ?thesis using r o by auto
qed

text \<open>Paging through a conversation - asking for the next page with the timestamp of the last row -
  terminates and shows every message exactly once, newest first, when no two messages of the
  conversation have the same timestamp.\<close>

theorem paging_complete:
  assumes "distinct (map sk_created_at_ms (filter (\<lambda>s. sk_conversation_id s = cid) (db_skeletons db)))"
    and "0 < n" "n < 2 ^ 63"
  shows "pages n cid db None =
     sort_key (\<lambda>s. - sk_created_at_ms s) (filter (\<lambda>s. sk_conversation_id s = cid) (db_skeletons db))"
  using pages_eq[OF assms, of None] by simp

theorem paging_complete_witness:
  "map sk_message_id (pages 2 ''c'' (sample_db [30, 10, 50, 20, 40]) None) =
     [''c'', ''e'', ''a'', ''d'', ''b'']"
proof -
  have "distinct (map sk_created_at_ms (filter (\<lambda>s. sk_conversation_id s = ''c'')
      (db_skeletons (sample_db [30, 10, 50, 20, 40]))))" by simp
  then have "pages 2 ''c'' (sample_db [30, 10, 50, 20, 40]) None =
      sort_key (\<lambda>s. - sk_created_at_ms s) (filter (\<lambda>s. sk_conversation_id s = ''c'')
        (db_skeletons (sample_db [30, 10, 50, 20, 40])))"
    by (rule paging_complete) simp_all
  moreover have "map sk_message_id (sort_key (\<lambda>s. - sk_created_at_ms s)
      (filter (\<lambda>s. sk_conversation_id s = ''c'') (db_skeletons (sample_db [30, 10, 50, 20, 40])))) =
      [''c'', ''e'', ''a'', ''d'', ''b'']"
    by simp
  ultimately show ?thesis by simp
qed

text \<open>A message with the timestamp of the last row of a page that is not itself in the page is in
  no later page: the cursor skips it, since it is a timestamp alone and the comparison is strict.\<close>

theorem paging_skips_ties:
  assumes "get_conversation_messages cid before_ms n db \<noteq> []"
    and "s \<notin> set (get_conversation_messages cid before_ms n db)"
    and "sk_created_at_ms s = sk_created_at_ms (last (get_conversation_messages cid before_ms n db))"
  shows "s \<notin> set (pages n cid db before_ms)"
proof
  assume "s \<in> set (pages n cid db before_ms)"
  then have "s \<in> set (pages n cid db (Some (sk_created_at_ms s)))"
    using assms by (simp add: pages.simps[of n cid db before_ms] Let_def)
  then show False using pages_in_page by fastforce
qed

theorem paging_skips_ties_witness:
  "sample_skeleton ''b'' 10 \<notin> set (pages 1 ''c'' (sample_db [10, 10]) None)"
  by (rule paging_skips_ties) (simp_all add: sample_page sql_limit_def sample_skeleton_def)

end
