(* ===== verification/Budget.thy ===== *)
theory Budget
  imports Local_Store
begin

text \<open>
  Storage budget (\<open>offload/budget.rs\<close>).  Byte counts are \<open>u64\<close>, kept as \<open>64 word\<close> so that the product
  \<open>max_bytes * pct\<close> wraps as it does in a release build; the headroom is computed on unbounded
  integers and clamped to \<open>i64\<close>, as the code does through \<open>i128\<close>.
\<close>

record storage_budget =
  sb_max_bytes :: "64 word"
  sb_warning_pct :: "8 word"
  sb_critical_pct :: "8 word"

definition default_recommended :: storage_budget where
  "default_recommended = \<lparr>sb_max_bytes = 8 * 1024 * 1024 * 1024, sb_warning_pct = 75, sb_critical_pct = 90\<rparr>"

definition warning_bytes :: "storage_budget \<Rightarrow> 64 word" where
  "warning_bytes b = sb_max_bytes b * ucast (sb_warning_pct b) div 100"

definition critical_bytes :: "storage_budget \<Rightarrow> 64 word" where
  "critical_bytes b = sb_max_bytes b * ucast (sb_critical_pct b) div 100"

record storage_usage =
  su_total :: "64 word"
  su_message :: "64 word"
  su_media :: "64 word"
  su_index :: "64 word"
  su_cache :: "64 word"

datatype pressure_level = NoPressure | Warning | Critical | Extreme

primrec requires_eviction :: "pressure_level \<Rightarrow> bool" where
  "requires_eviction NoPressure = False"
| "requires_eviction Warning = True"
| "requires_eviction Critical = True"
| "requires_eviction Extreme = True"

record budget_assessment =
  as_usage :: storage_usage
  as_budget :: storage_budget
  as_headroom :: int
  as_pressure :: pressure_level

definition eviction_target_bytes :: "budget_assessment \<Rightarrow> 64 word" where
  "eviction_target_bytes a =
     (let total = su_total (as_usage a);
          sub = (\<lambda>threshold. if total \<le> threshold then 0 else total - threshold) in
      case as_pressure a of
        NoPressure \<Rightarrow> 0
      | Warning \<Rightarrow> sub (warning_bytes (as_budget a))
      | Critical \<Rightarrow> sub (critical_bytes (as_budget a))
      | Extreme \<Rightarrow> sub (sb_max_bytes (as_budget a)))"

definition compute_headroom :: "storage_usage \<Rightarrow> storage_budget \<Rightarrow> int" where
  "compute_headroom u b =
     max (- (2 ^ 63)) (min (2 ^ 63 - 1) (uint (sb_max_bytes b) - uint (su_total u)))"

definition pressure_of :: "storage_usage \<Rightarrow> storage_budget \<Rightarrow> pressure_level" where
  "pressure_of u b =
     (if su_total u > sb_max_bytes b then Extreme
      else if su_total u > critical_bytes b then Critical
      else if su_total u > warning_bytes b then Warning
      else NoPressure)"

definition assess_with_usage :: "storage_usage \<Rightarrow> storage_budget \<Rightarrow> budget_assessment" where
  "assess_with_usage u b =
     \<lparr>as_usage = u, as_budget = b, as_headroom = compute_headroom u b, as_pressure = pressure_of u b\<rparr>"

text \<open>The sums the SQL computes; \<open>LENGTH\<close> counts the characters of a text and the bytes of a blob.\<close>

definition scalar_u64 :: "int \<Rightarrow> 64 word" where
  "scalar_u64 v = word_of_int (max v 0)"

definition message_bytes :: "local_db \<Rightarrow> int" where
  "message_bytes db =
     (\<Sum>b \<leftarrow> db_bodies db. case bd_text b of None \<Rightarrow> 0 | Some t \<Rightarrow> int (length t)) +
     int (length (db_skeletons db)) * 256"

definition media_bytes :: "local_db \<Rightarrow> int" where
  "media_bytes db = (\<Sum>a \<leftarrow> db_media db. ma_bytes_local a)"

definition collect_storage_usage :: "local_db \<Rightarrow> storage_usage" where
  "collect_storage_usage db =
     (let message = scalar_u64 (message_bytes db);
          media = scalar_u64 (media_bytes db);
          fts = scalar_u64 (\<Sum>f \<leftarrow> db_fts db. int (length (ft_text f)));
          fuzzy = scalar_u64 (\<Sum>f \<leftarrow> db_fuzzy db. int (length (fz_token f)) + 8);
          vec = scalar_u64 (\<Sum>v \<leftarrow> db_vectors db. int (length (vr_embedding v)));
          media_search = scalar_u64 (\<Sum>r \<leftarrow> db_media_search db. int (length (ms_text r)));
          index = fts + fuzzy + vec + media_search;
          cache = 0;
          total = message + media + index + cache
      in \<lparr>su_total = total, su_message = message, su_media = media, su_index = index, su_cache = cache\<rparr>)"

definition assess :: "local_db \<Rightarrow> storage_budget \<Rightarrow> budget_assessment" where
  "assess db b = assess_with_usage (collect_storage_usage db) b"

primrec severity :: "pressure_level \<Rightarrow> nat" where
  "severity NoPressure = 0"
| "severity Warning = 1"
| "severity Critical = 2"
| "severity Extreme = 3"

subsection \<open>Thresholds that do not wrap\<close>

text \<open>A sane budget: ordered percentages, and \<open>max_bytes * pct\<close> below \<open>2 ^ 64\<close>.\<close>

definition sane_budget :: "storage_budget \<Rightarrow> bool" where
  "sane_budget b \<longleftrightarrow> sb_warning_pct b < sb_critical_pct b \<and> sb_critical_pct b \<le> 100 \<and>
     unat (sb_max_bytes b) * 100 < 2 ^ 64"

lemma percent_unat:
  fixes m :: "64 word" and p :: "8 word"
  assumes "unat m * 100 < 2 ^ 64" "p \<le> 100"
  shows "unat (m * ucast p div 100) = unat m * unat p div 100"
proof -
  have p: "unat p \<le> 100" using assms(2) by (simp add: word_le_nat_alt)
  have u: "unat (ucast p :: 64 word) = unat p" using p
    by (simp add: unsigned_ucast_eq take_bit_nat_eq_self)
  have "unat m * unat p \<le> unat m * 100" using p by simp
  then have "unat m * unat p < 2 ^ 64" using assms(1) by linarith
  then have "unat (m * ucast p) = unat m * unat p"
    by (subst unat_mult_lem[THEN iffD1]) (simp_all add: u)
  then show ?thesis by (simp add: unat_div)
qed

lemma threshold_order:
  assumes "sane_budget b"
  shows "warning_bytes b \<le> critical_bytes b" "critical_bytes b \<le> sb_max_bytes b"
proof -
  have m: "unat (sb_max_bytes b) * 100 < 2 ^ 64" and c: "sb_critical_pct b \<le> 100"
    and w: "sb_warning_pct b \<le> 100" and wc: "unat (sb_warning_pct b) \<le> unat (sb_critical_pct b)"
    using assms by (auto simp: sane_budget_def word_le_nat_alt word_less_nat_alt)
  have c100: "unat (sb_critical_pct b) \<le> 100" using c by (simp add: word_le_nat_alt)
  show "warning_bytes b \<le> critical_bytes b"
    unfolding warning_bytes_def critical_bytes_def word_le_nat_alt percent_unat[OF m w] percent_unat[OF m c]
    using wc by (intro div_le_mono mult_le_mono2)
  have "unat (sb_max_bytes b) * unat (sb_critical_pct b) div 100 \<le> unat (sb_max_bytes b) * 100 div 100"
    using c100 by (intro div_le_mono mult_le_mono2)
  then show "critical_bytes b \<le> sb_max_bytes b"
    unfolding critical_bytes_def word_le_nat_alt percent_unat[OF m c] by simp
qed

lemma pressure_at:
  "severity (pressure_of u b) \<le> 0 \<longleftrightarrow>
     su_total u \<le> sb_max_bytes b \<and> su_total u \<le> critical_bytes b \<and> su_total u \<le> warning_bytes b"
  by (auto simp: pressure_of_def not_less)

lemma target_value:
  "eviction_target_bytes (assess_with_usage u b) = (case pressure_of u b of
      NoPressure \<Rightarrow> 0 | Warning \<Rightarrow> su_total u - warning_bytes b
    | Critical \<Rightarrow> su_total u - critical_bytes b | Extreme \<Rightarrow> su_total u - sb_max_bytes b)"
  by (auto simp: eviction_target_bytes_def assess_with_usage_def pressure_of_def Let_def not_less
      split: if_splits)

subsection \<open>Properties\<close>

text \<open>C40: For a budget whose percentages are ordered and whose thresholds do not wrap, the eviction
  target is what has to go: it is zero exactly when there is no pressure, it is at most the usage,
  and freeing exactly that many bytes lowers the pressure level.\<close>

theorem eviction_target_relieves:
  assumes "sane_budget b"
  shows "let t = eviction_target_bytes (assess_with_usage u b) in
     (t = 0 \<longleftrightarrow> pressure_of u b = NoPressure) \<and> t \<le> su_total u \<and>
     (if pressure_of u b = NoPressure then True
      else severity (pressure_of (u\<lparr>su_total := su_total u - t\<rparr>) b) < severity (pressure_of u b))"
proof -
  note o = threshold_order[OF assms]
  have above: "pressure_of u b = Warning \<Longrightarrow> warning_bytes b < su_total u"
    "pressure_of u b = Critical \<Longrightarrow> critical_bytes b < su_total u"
    "pressure_of u b = Extreme \<Longrightarrow> sb_max_bytes b < su_total u"
    by (auto simp: pressure_of_def split: if_splits)
  show ?thesis
  proof (cases "pressure_of u b")
    case NoPressure
    then show ?thesis by (simp add: target_value)
  next
    case Warning
    then show ?thesis
      using above(1) o by (auto simp: target_value pressure_of_def[of "u\<lparr>su_total := x\<rparr>" for x] Let_def
          word_sub_le order_less_imp_le)
  next
    case Critical
    then show ?thesis
      using above(2) o by (auto simp: target_value pressure_of_def[of "u\<lparr>su_total := x\<rparr>" for x] Let_def
          word_sub_le order_less_imp_le)
  next
    case Extreme
    then show ?thesis
      using above(3) o by (auto simp: target_value pressure_of_def[of "u\<lparr>su_total := x\<rparr>" for x] Let_def
          word_sub_le order_less_imp_le)
  qed
qed

definition sample_usage :: "64 word \<Rightarrow> storage_usage" where
  "sample_usage t = \<lparr>su_total = t, su_message = 0, su_media = t, su_index = 0, su_cache = 0\<rparr>"

theorem eviction_target_relieves_witness:
  "eviction_target_bytes (assess_with_usage (sample_usage 8000000000) default_recommended) \<le> 8000000000 \<and>
   severity (pressure_of (sample_usage 8000000000) default_recommended) = 2"
proof -
  have "sane_budget default_recommended"
    by (simp add: sane_budget_def default_recommended_def word_less_nat_alt word_le_nat_alt)
  from eviction_target_relieves[OF this, of "sample_usage 8000000000"]
  have "eviction_target_bytes (assess_with_usage (sample_usage 8000000000) default_recommended)
      \<le> su_total (sample_usage 8000000000)"
    by (simp add: Let_def)
  moreover have "severity (pressure_of (sample_usage 8000000000) default_recommended) = 2"
    by (simp add: pressure_of_def critical_bytes_def default_recommended_def sample_usage_def)
  ultimately show ?thesis by (simp add: sample_usage_def)
qed

text \<open>The threshold product wraps: with a ceiling of \<open>2 ^ 63\<close> bytes and the recommended
  percentages the critical threshold is 0, so a single byte of usage is critical pressure and the
  target is to evict it.\<close>

theorem critical_threshold_wraps:
  "critical_bytes (default_recommended\<lparr>sb_max_bytes := 9223372036854775808\<rparr>) = 0 \<and>
   pressure_of (sample_usage 1) (default_recommended\<lparr>sb_max_bytes := 9223372036854775808\<rparr>) = Critical \<and>
   eviction_target_bytes (assess_with_usage (sample_usage 1)
     (default_recommended\<lparr>sb_max_bytes := 9223372036854775808\<rparr>)) = 1"
proof -
  have "critical_bytes (default_recommended\<lparr>sb_max_bytes := 9223372036854775808\<rparr>) = 0"
    by (simp add: critical_bytes_def default_recommended_def)
  then show ?thesis
    by (simp add: target_value pressure_of_def sample_usage_def default_recommended_def word_less_nat_alt)
qed

end
