(* ===== verification/Eviction.thy ===== *)
theory Eviction
  imports Complex_Main Budget
begin

text \<open>
  Offload planning and execution (\<open>offload/scoring.rs\<close>, \<open>offload/eviction.rs\<close>).  A score is a real number
  or minus infinity (\<open>f64\<close> without rounding; no NaN arises), ordered by an instance of \<open>linorder\<close>; the
  planner sorts stably in descending order and takes a prefix.  The 128-bit ids are \<open>nat\<close> and the UUID
  crate's parser and printer are the parameters \<open>parse_uuid\<close> and \<open>show_uuid\<close>.  The last part follows
  one sweep - collect, plan, execute - through the local store.
\<close>

subsection \<open>Scoring\<close>

datatype content_kind = Video | Document | Image | Voice | Thumbnail | Text

primrec weight :: "content_kind \<Rightarrow> real" where
  "weight Video = 1"
| "weight Document = 9 / 10"
| "weight Image = 7 / 10"
| "weight Voice = 5 / 10"
| "weight Thumbnail = 3 / 10"
| "weight Text = 1 / 10"

definition is_eligible_for_pressure :: "content_kind \<Rightarrow> pressure_level \<Rightarrow> bool" where
  "is_eligible_for_pressure k p = (case k of
      Video \<Rightarrow> p \<noteq> NoPressure
    | Document \<Rightarrow> p \<noteq> NoPressure
    | Image \<Rightarrow> p \<noteq> NoPressure
    | Voice \<Rightarrow> p \<noteq> NoPressure
    | Thumbnail \<Rightarrow> p = Critical \<or> p = Extreme
    | Text \<Rightarrow> p = Extreme)"

record eviction_candidate =
  ec_asset_id :: nat
  ec_message_id :: nat
  ec_conversation_id :: nat
  ec_kind :: content_kind
  ec_bytes :: nat
  ec_last_accessed_ms :: int
  ec_pinned :: bool
  ec_archive_state :: archive_state
  ec_storage_sink :: string

datatype score = NegInf | Score real

instantiation score :: linorder
begin

fun less_eq_score :: "score \<Rightarrow> score \<Rightarrow> bool" where
  "less_eq_score NegInf s = True"
| "less_eq_score (Score x) NegInf = False"
| "less_eq_score (Score x) (Score y) = (x \<le> y)"

definition less_score :: "score \<Rightarrow> score \<Rightarrow> bool" where
  "less_score s t = (s \<le> t \<and> \<not> t \<le> s)"

instance
proof
  fix s t u :: score
  show "s < t \<longleftrightarrow> s \<le> t \<and> \<not> t \<le> s" by (rule less_score_def)
  show "s \<le> s" by (cases s) simp_all
  show "s \<le> t \<Longrightarrow> t \<le> u \<Longrightarrow> s \<le> u" by (cases s; cases t; cases u) simp_all
  show "s \<le> t \<Longrightarrow> t \<le> s \<Longrightarrow> s = t" by (cases s; cases t) simp_all
  show "s \<le> t \<or> t \<le> s" by (cases s; cases t) auto
qed

end

definition recency :: "int \<Rightarrow> real" where
  "recency age_ms = 1 - (1 / 2) powr (of_int age_ms / (30 * 24 * 60 * 60 * 1000))"

definition compute_eviction_score :: "eviction_candidate \<Rightarrow> int \<Rightarrow> score" where
  "compute_eviction_score c now_ms =
     (if ec_pinned c then NegInf
      else let age_ms = max (now_ms - ec_last_accessed_ms c) 0;
               size_bonus = real (ec_bytes c) / (16 * 1024 * 1024)
           in Score (weight (ec_kind c) * 1 + recency age_ms * (5 / 10) + size_bonus * (1 / 10)))"

subsection \<open>Planning\<close>

record eviction_plan =
  pl_candidates :: "(eviction_candidate \<times> score) list"
  pl_target_bytes :: nat
  pl_total_bytes :: nat

datatype eviction_tier = CloudOffload | FullEviction

definition classify_tier :: "eviction_candidate \<Rightarrow> eviction_tier" where
  "classify_tier c =
     (if ec_storage_sink c = ''kchat_backend'' \<or> ec_storage_sink c = '''' then FullEviction
      else CloudOffload)"

fun accumulate ::
  "nat \<Rightarrow> nat \<Rightarrow> (eviction_candidate \<times> score) list \<Rightarrow> (eviction_candidate \<times> score) list \<times> nat" where
  "accumulate target acc [] = ([], acc)"
| "accumulate target acc ((c, s) # rest) =
     (if target \<le> acc then ([], acc)
      else let (chosen, total) = accumulate target (sat_add acc (ec_bytes c)) rest
           in ((c, s) # chosen, total))"

definition evictable :: "pressure_level \<Rightarrow> eviction_candidate \<Rightarrow> bool" where
  "evictable p c \<longleftrightarrow> \<not> ec_pinned c \<and> ec_archive_state c = ArchiveVerified \<and>
     is_eligible_for_pressure (ec_kind c) p"

definition plan_eviction_with_pressure ::
  "eviction_candidate list \<Rightarrow> nat \<Rightarrow> int \<Rightarrow> pressure_level \<Rightarrow> eviction_plan" where
  "plan_eviction_with_pressure candidates target now_ms p =
     (let scored = map (\<lambda>c. (c, compute_eviction_score c now_ms)) (filter (evictable p) candidates);
          (chosen, total) = accumulate target 0 (sort_desc snd scored)
      in \<lparr>pl_candidates = chosen, pl_target_bytes = target, pl_total_bytes = total\<rparr>)"

definition plan_eviction :: "eviction_candidate list \<Rightarrow> nat \<Rightarrow> int \<Rightarrow> eviction_plan" where
  "plan_eviction candidates target now_ms = plan_eviction_with_pressure candidates target now_ms Extreme"

record tiered_plan =
  tp_cloud :: eviction_plan
  tp_full :: eviction_plan
  tp_total_bytes :: nat
  tp_target_bytes :: nat

definition plan_tiered_eviction ::
  "eviction_candidate list \<Rightarrow> nat \<Rightarrow> int \<Rightarrow> pressure_level \<Rightarrow> tiered_plan" where
  "plan_tiered_eviction candidates target now_ms p =
     (let (cloud_pool, full_pool) = partition (\<lambda>c. classify_tier c = CloudOffload) candidates;
          cloud = plan_eviction_with_pressure cloud_pool target now_ms p;
          remaining = sat_sub target (pl_total_bytes cloud);
          full = (if remaining = 0
                  then \<lparr>pl_candidates = [], pl_target_bytes = 0, pl_total_bytes = 0\<rparr>
                  else plan_eviction_with_pressure full_pool remaining now_ms p)
      in \<lparr>tp_cloud = cloud, tp_full = full,
          tp_total_bytes = sat_add (pl_total_bytes cloud) (pl_total_bytes full),
          tp_target_bytes = target\<rparr>)"

text \<open>What the policy allows to evict, stated once more as the specification of the planner's filter.\<close>

definition may_evict :: "pressure_level \<Rightarrow> eviction_candidate \<Rightarrow> bool" where
  "may_evict p c \<longleftrightarrow> ec_archive_state c = ArchiveVerified \<and> \<not> ec_pinned c \<and> p \<noteq> NoPressure \<and>
     (ec_kind c = Thumbnail \<longrightarrow> p \<in> {Critical, Extreme}) \<and> (ec_kind c = Text \<longrightarrow> p = Extreme)"

lemma may_evict_eq: "may_evict = evictable"
  by (intro ext)
    (auto simp: may_evict_def evictable_def is_eligible_for_pressure_def split: content_kind.splits)

abbreviation bytes_of :: "(eviction_candidate \<times> score) list \<Rightarrow> nat" where
  "bytes_of xs \<equiv> (\<Sum>(c, _) \<leftarrow> xs. ec_bytes c)"

lemma accumulate_prefix:
  assumes "acc \<le> u64_max"
  shows "\<exists>k \<le> length xs. fst (accumulate target acc xs) = take k xs \<and>
     snd (accumulate target acc xs) = min (acc + bytes_of (take k xs)) u64_max \<and>
     (k = length xs \<or> target \<le> snd (accumulate target acc xs)) \<and>
     (k = 0 \<or> min (acc + bytes_of (take (k - 1) xs)) u64_max < target)"
  using assms
proof (induction target acc xs rule: accumulate.induct)
  case (2 target acc c s rest)
  show ?case
  proof (cases "target \<le> acc")
    case True
    then show ?thesis using 2(2) by (intro exI[of _ 0]) simp
  next
    case False
    obtain k where k: "k \<le> length rest"
      "fst (accumulate target (sat_add acc (ec_bytes c)) rest) = take k rest"
      "snd (accumulate target (sat_add acc (ec_bytes c)) rest) =
         min (sat_add acc (ec_bytes c) + bytes_of (take k rest)) u64_max"
      "k = length rest \<or> target \<le> snd (accumulate target (sat_add acc (ec_bytes c)) rest)"
      "k = 0 \<or> min (sat_add acc (ec_bytes c) + bytes_of (take (k - 1) rest)) u64_max < target"
      using 2(1)[OF False sat_add_le] by blast
    have shift: "min (sat_add acc (ec_bytes c) + n) u64_max = min (acc + ec_bytes c + n) u64_max" for n
      by (simp add: sat_add_def min_def)
    have "min (acc + bytes_of (take k ((c, s) # rest))) u64_max < target"
    proof (cases k)
      case 0
      then show ?thesis using False 2(2) by simp
    next
      case (Suc j)
      then show ?thesis using k(5) by (simp add: shift add.assoc)
    qed
    then show ?thesis
      using k(1-4) False
      by (intro exI[of _ "Suc k"]) (auto simp: shift add.assoc split: prod.splits)
  qed
qed auto

definition ranked :: "eviction_candidate list \<Rightarrow> int \<Rightarrow> pressure_level \<Rightarrow> (eviction_candidate \<times> score) list" where
  "ranked cands now_ms p =
     sort_desc snd (map (\<lambda>c. (c, compute_eviction_score c now_ms)) (filter (evictable p) cands))"

lemma plan_prefix:
  fixes cands now_ms p
  defines "L \<equiv> ranked cands now_ms p"
  shows "\<exists>k \<le> length L. pl_candidates (plan_eviction_with_pressure cands target now_ms p) = take k L \<and>
     pl_total_bytes (plan_eviction_with_pressure cands target now_ms p) = min (bytes_of (take k L)) u64_max \<and>
     (k = length L \<or> target \<le> pl_total_bytes (plan_eviction_with_pressure cands target now_ms p)) \<and>
     (k = 0 \<or> min (bytes_of (take (k - 1) L)) u64_max < target)"
  using accumulate_prefix[of 0 L target]
  by (auto simp: plan_eviction_with_pressure_def L_def ranked_def split: prod.splits)

lemma scored_list:
  fixes cands now_ms p
  defines "L \<equiv> ranked cands now_ms p"
  shows "mset (map fst L) = mset (filter (evictable p) cands)"
    and "\<And>c s. (c, s) \<in> set L \<Longrightarrow> s = compute_eviction_score c now_ms \<and> c \<in> set cands \<and> evictable p c"
    and "sorted_wrt (\<lambda>x y. snd y \<le> snd x) L"
proof -
  show "mset (map fst L) = mset (filter (evictable p) cands)"
    by (simp add: L_def ranked_def image_mset.compositionality o_def)
  show "\<And>c s. (c, s) \<in> set L \<Longrightarrow> s = compute_eviction_score c now_ms \<and> c \<in> set cands \<and> evictable p c"
    by (auto simp: L_def ranked_def)
  show "sorted_wrt (\<lambda>x y. snd y \<le> snd x) L"
    unfolding L_def ranked_def by (rule sorted_wrt_sort_desc)
qed

lemma mset_take_subset: "mset (take k xs) \<subseteq># mset xs"
  by (metis append_take_drop_id mset_append mset_subset_eq_add_left)

lemma plan_safe_and_greedy_aux:
  "mset (map fst (pl_candidates (plan_eviction_with_pressure cands target now_ms p)))
     \<subseteq># mset (filter (evictable p) cands)"
proof -
  obtain k where "pl_candidates (plan_eviction_with_pressure cands target now_ms p) =
      take k (ranked cands now_ms p)"
    using plan_prefix[where cands = cands and now_ms = now_ms and p = p and target = target] by blast
  then show ?thesis
    using mset_take_subset[of k "map fst (ranked cands now_ms p)"] scored_list(1)[where cands = cands and now_ms = now_ms and p = p]
    by (simp only: take_map)
qed

lemma plan_meets_target_aux:
  "target \<le> pl_total_bytes (plan_eviction_with_pressure cands target now_ms p) \<or>
   mset (map fst (pl_candidates (plan_eviction_with_pressure cands target now_ms p))) =
     mset (filter (evictable p) cands)"
proof -
  obtain k where "pl_candidates (plan_eviction_with_pressure cands target now_ms p) =
      take k (ranked cands now_ms p)"
      "k = length (ranked cands now_ms p) \<or>
         target \<le> pl_total_bytes (plan_eviction_with_pressure cands target now_ms p)"
    using plan_prefix[where cands = cands and now_ms = now_ms and p = p and target = target] by blast
  then show ?thesis using scored_list(1)[where cands = cands and now_ms = now_ms and p = p] by auto
qed

lemma plan_safe_and_greedy_core:
  "let P = pl_candidates (plan_eviction_with_pressure cands target now_ms p) in
     mset (map fst P) \<subseteq># mset (filter (evictable p) cands) \<and>
     list_all (\<lambda>(c, s). s = compute_eviction_score c now_ms) P \<and>
     sorted_wrt (\<lambda>x y. snd y \<le> snd x) P \<and>
     list_all (\<lambda>(c, s). list_all (\<lambda>d. d \<in> set (map fst P) \<or> compute_eviction_score d now_ms \<le> s)
       (filter (evictable p) cands)) P"
proof -
  define L where "L = ranked cands now_ms p"
  note L = scored_list[where cands = cands and now_ms = now_ms and p = p, folded L_def]
  obtain k where k: "pl_candidates (plan_eviction_with_pressure cands target now_ms p) = take k L"
    using plan_prefix[where cands = cands and now_ms = now_ms and p = p and target = target, folded L_def] by blast
  have sub: "mset (map fst (take k L)) \<subseteq># mset (filter (evictable p) cands)"
    unfolding L(1)[symmetric] take_map[symmetric] by (rule mset_take_subset)
  have scores: "list_all (\<lambda>(c, s). s = compute_eviction_score c now_ms) (take k L)"
    using L(2) by (auto simp: list_all_iff dest: in_set_takeD)
  have sorted: "sorted_wrt (\<lambda>x y. snd y \<le> snd x) (take k L @ drop k L)" using L(3) by simp
  have rest: "compute_eviction_score d now_ms \<le> s"
    if "(c, s) \<in> set (take k L)" "d \<in> set (filter (evictable p) cands)" "d \<notin> set (map fst (take k L))"
    for c s d
  proof -
    have "set (map fst L) = set (filter (evictable p) cands)"
      using L(1) by (metis set_mset_mset)
    then have "d \<in> fst ` set L" using that(2) by simp
    then obtain t where t: "(d, t) \<in> set L" by force
    have "set L = set (take k L) \<union> set (drop k L)" by (metis append_take_drop_id set_append)
    moreover have "(d, t) \<notin> set (take k L)" using that(3) by force
    ultimately have "(d, t) \<in> set (drop k L)" using t by blast
    then have "t \<le> s" using sorted that(1) unfolding sorted_wrt_append by fastforce
    then show ?thesis using L(2)[OF t] by simp
  qed
  have greedy: "list_all (\<lambda>(c, s). list_all (\<lambda>d. d \<in> set (map fst (take k L)) \<or>
      compute_eviction_score d now_ms \<le> s) (filter (evictable p) cands)) (take k L)"
    unfolding list_all_iff using rest by blast
  show ?thesis
    unfolding Let_def k using sub scores sorted greedy by (simp only: sorted_wrt_append simp_thms)
qed

text \<open>What the planner picks: candidates of the input, each at most as often as it occurs there, none
  pinned, every one verified in the archive and of a kind the pressure level allows, with its own
  score, in descending order, and no candidate left out scores higher than one picked.\<close>

theorem plan_safe_and_greedy:
  "let P = pl_candidates (plan_eviction_with_pressure cands target now_ms p) in
     mset (map fst P) \<subseteq># mset (filter (may_evict p) cands) \<and>
     list_all (\<lambda>(c, s). s = compute_eviction_score c now_ms) P \<and>
     sorted_wrt (\<lambda>x y. snd y \<le> snd x) P \<and>
     list_all (\<lambda>(c, s). list_all (\<lambda>d. d \<in> set (map fst P) \<or> compute_eviction_score d now_ms \<le> s)
       (filter (may_evict p) cands)) P"
  unfolding may_evict_eq
  by (rule plan_safe_and_greedy_core)

lemma plan_meets_target_core:
  "let P = plan_eviction_with_pressure cands target now_ms p in
     pl_total_bytes P = min (bytes_of (pl_candidates P)) u64_max \<and>
     (target \<le> pl_total_bytes P \<or>
      mset (map fst (pl_candidates P)) = mset (filter (evictable p) cands)) \<and>
     (pl_candidates P = [] \<or> min (bytes_of (butlast (pl_candidates P))) u64_max < target)"
proof -
  define L where "L = ranked cands now_ms p"
  obtain k where k: "k \<le> length L"
      "pl_candidates (plan_eviction_with_pressure cands target now_ms p) = take k L"
      "pl_total_bytes (plan_eviction_with_pressure cands target now_ms p) = min (bytes_of (take k L)) u64_max"
      "k = length L \<or> target \<le> pl_total_bytes (plan_eviction_with_pressure cands target now_ms p)"
      "k = 0 \<or> min (bytes_of (take (k - 1) L)) u64_max < target"
    using plan_prefix[where cands = cands and now_ms = now_ms and p = p and target = target, folded L_def] by blast
  have "butlast (take k L) = take (k - 1) L" using k(1) by (simp add: butlast_take)
  moreover have "k = length L \<Longrightarrow> mset (map fst (take k L)) = mset (filter (evictable p) cands)"
    using scored_list(1)[where cands = cands and now_ms = now_ms and p = p, folded L_def] by simp
  ultimately show ?thesis
    unfolding Let_def k(2) using k(3-5) by (auto simp: k(2))
qed

text \<open>How much the planner picks: the total it reports is the bytes of its picks (saturated at the
  \<open>u64\<close> maximum); it reaches the target or takes every candidate it may take; and it stops as soon as
  the target is reached, so without its last pick the target is missed.\<close>

theorem plan_meets_target:
  "let P = plan_eviction_with_pressure cands target now_ms p in
     pl_total_bytes P = min (bytes_of (pl_candidates P)) u64_max \<and>
     (target \<le> pl_total_bytes P \<or>
      mset (map fst (pl_candidates P)) = mset (filter (may_evict p) cands)) \<and>
     (pl_candidates P = [] \<or> min (bytes_of (butlast (pl_candidates P))) u64_max < target)"
  unfolding may_evict_eq
  by (rule plan_meets_target_core)

lemma plan_total_le: "pl_total_bytes (plan_eviction_with_pressure cands target now_ms p) \<le> u64_max"
  using plan_prefix[where cands = cands and now_ms = now_ms and p = p and target = target] by auto

lemma tiered_plan_cloud_first_core:
  "let T = plan_tiered_eviction cands target now_ms p;
       cloud = filter (\<lambda>c. evictable p c \<and> classify_tier c = CloudOffload) cands;
       full = filter (\<lambda>c. evictable p c \<and> classify_tier c = FullEviction) cands
   in (pl_candidates (tp_full T) = [] \<or>
        mset (map fst (pl_candidates (tp_cloud T))) = mset cloud \<and> pl_total_bytes (tp_cloud T) < target) \<and>
      mset (map fst (pl_candidates (tp_cloud T))) \<subseteq># mset cloud \<and>
      mset (map fst (pl_candidates (tp_full T))) \<subseteq># mset full \<and>
      tp_total_bytes T = sat_add (pl_total_bytes (tp_cloud T)) (pl_total_bytes (tp_full T)) \<and>
      (target \<le> tp_total_bytes T \<or> target > u64_max \<or>
        mset (map fst (pl_candidates (tp_cloud T) @ pl_candidates (tp_full T))) = mset (cloud @ full))"
proof -
  let ?cp = "filter (\<lambda>c. classify_tier c = CloudOffload) cands"
  let ?fp = "filter (\<lambda>c. classify_tier c \<noteq> CloudOffload) cands"
  define C where "C = plan_eviction_with_pressure ?cp target now_ms p"
  define R where "R = sat_sub target (pl_total_bytes C)"
  define F where "F = (if R = 0 then \<lparr>pl_candidates = [], pl_target_bytes = 0, pl_total_bytes = 0\<rparr>
                       else plan_eviction_with_pressure ?fp R now_ms p)"
  have T: "plan_tiered_eviction cands target now_ms p = \<lparr>tp_cloud = C, tp_full = F,
      tp_total_bytes = sat_add (pl_total_bytes C) (pl_total_bytes F), tp_target_bytes = target\<rparr>"
    by (simp add: plan_tiered_eviction_def C_def R_def F_def Let_def partition_filter_conv o_def)
  have tier: "classify_tier c \<noteq> CloudOffload \<longleftrightarrow> classify_tier c = FullEviction" for c
    by (cases "classify_tier c") simp_all
  have pools: "filter (evictable p) ?cp = filter (\<lambda>c. evictable p c \<and> classify_tier c = CloudOffload) cands"
    "filter (evictable p) ?fp = filter (\<lambda>c. evictable p c \<and> classify_tier c = FullEviction) cands"
    by (simp_all add: tier conj_commute)
  note Csafe = plan_safe_and_greedy_aux[where cands = "?cp" and target = target and now_ms = now_ms and p = p,
      folded C_def, unfolded pools]
  note Cmeets = plan_meets_target_aux[where cands = "?cp" and target = target and now_ms = now_ms and p = p,
      folded C_def, unfolded pools]
  note Fsafe = plan_safe_and_greedy_aux[where cands = "?fp" and target = R and now_ms = now_ms and p = p,
      unfolded pools]
  note Fmeets = plan_meets_target_aux[where cands = "?fp" and target = R and now_ms = now_ms and p = p,
      unfolded pools]
  have Ftot: "pl_total_bytes F \<le> u64_max" using plan_total_le by (simp add: F_def)
  show ?thesis
  proof (cases "R = 0")
    case True
    then have "target \<le> pl_total_bytes C" by (simp add: R_def sat_sub_def)
    moreover have "pl_total_bytes C \<le> u64_max" using plan_total_le by (simp add: C_def)
    ultimately show ?thesis
      using True Csafe by (simp add: T F_def Let_def sat_add_0)
  next
    case False
    then have short: "pl_total_bytes C < target" by (simp add: R_def sat_sub_def)
    have reach: "target \<le> sat_add (pl_total_bytes C) (pl_total_bytes F) \<or> u64_max < target"
      if "R \<le> pl_total_bytes F"
      using that by (auto simp: sat_add_def R_def sat_sub_def min_def)
    show ?thesis
      using False Csafe Cmeets Fsafe Fmeets short reach
      by (auto simp: T F_def Let_def not_le)
  qed
qed

text \<open>The tiered planner touches the originals that only the KChat backend has only when it must:
  if it picks any, every evictable candidate with a copy in a user cloud is already picked and still
  falls short.  It reports the bytes of both passes, and reaches the target or exhausts both pools.\<close>

theorem tiered_plan_cloud_first:
  "let T = plan_tiered_eviction cands target now_ms p;
       cloud = filter (\<lambda>c. may_evict p c \<and> classify_tier c = CloudOffload) cands;
       full = filter (\<lambda>c. may_evict p c \<and> classify_tier c = FullEviction) cands
   in (pl_candidates (tp_full T) = [] \<or>
        mset (map fst (pl_candidates (tp_cloud T))) = mset cloud \<and> pl_total_bytes (tp_cloud T) < target) \<and>
      mset (map fst (pl_candidates (tp_cloud T))) \<subseteq># mset cloud \<and>
      mset (map fst (pl_candidates (tp_full T))) \<subseteq># mset full \<and>
      tp_total_bytes T = sat_add (pl_total_bytes (tp_cloud T)) (pl_total_bytes (tp_full T)) \<and>
      (target \<le> tp_total_bytes T \<or> target > u64_max \<or>
        mset (map fst (pl_candidates (tp_cloud T) @ pl_candidates (tp_full T))) = mset (cloud @ full))"
  unfolding may_evict_eq
  by (rule tiered_plan_cloud_first_core)

subsection \<open>One sweep over the local store\<close>

definition ascii_lower :: "string \<Rightarrow> string" where
  "ascii_lower s = map (\<lambda>c. if CHR ''A'' \<le> c \<and> c \<le> CHR ''Z'' then char_of (of_char c + 32 :: nat) else c) s"

definition classify_mime_type :: "string \<Rightarrow> content_kind" where
  "classify_mime_type mime =
     (let lower = ascii_lower mime in
      if prefix ''video/'' lower then Video
      else if prefix ''audio/'' lower then Voice
      else if prefix ''image/'' lower then Image
      else if prefix ''application/'' lower then Document
      else if prefix ''text/'' lower then Text
      else Document)"

definition mime_rank :: "string \<Rightarrow> nat" where
  "mime_rank mime =
     (let lower = ascii_lower mime in
      if prefix ''video/'' lower then 1
      else if prefix ''application/'' lower then 2
      else if prefix ''image/'' lower then 3
      else if prefix ''audio/'' lower then 4
      else 5)"

definition i64_saturate :: "int \<Rightarrow> int" where
  "i64_saturate v = max (- (2 ^ 63)) (min (2 ^ 63 - 1) v)"

datatype eviction_error = InvalidId string

definition parse_id :: "(string \<Rightarrow> nat option) \<Rightarrow> string \<Rightarrow> string \<Rightarrow> eviction_error + nat" where
  "parse_id parse_uuid kind s = (case parse_uuid s of None \<Rightarrow> Inl (InvalidId kind) | Some u \<Rightarrow> Inr u)"

definition eviction_rows :: "local_db \<Rightarrow> int \<Rightarrow> int \<Rightarrow> (media_asset \<times> message_skeleton) list" where
  "eviction_rows db min_offload_age_ms now_ms =
     (let cutoff_ms = i64_saturate (now_ms - min_offload_age_ms) in
      sort_key (\<lambda>(a, s). (mime_rank (ma_mime_type a), sk_created_at_ms s))
        [(a, s). a \<leftarrow> db_media db, s \<leftarrow> db_skeletons db, sk_message_id s = ma_message_id a,
                 c \<leftarrow> db_conversations db, cv_id c = sk_conversation_id s,
                 sk_archive_state s = ArchiveVerified \<and> \<not> cv_pinned c \<and>
                 ma_media_state a = OriginalLocal \<and> sk_created_at_ms s < cutoff_ms])"

definition row_candidate ::
  "(string \<Rightarrow> nat option) \<Rightarrow> media_asset \<times> message_skeleton \<Rightarrow> eviction_error + eviction_candidate" where
  "row_candidate parse_uuid = (\<lambda>(a, s).
     bindE (parse_id parse_uuid ''asset_id'' (ma_asset_id a)) (\<lambda>asset.
     bindE (parse_id parse_uuid ''message_id'' (ma_message_id a)) (\<lambda>msg.
     bindE (parse_id parse_uuid ''conversation_id'' (sk_conversation_id s)) (\<lambda>conv.
     Inr \<lparr>ec_asset_id = asset, ec_message_id = msg, ec_conversation_id = conv,
          ec_kind = classify_mime_type (ma_mime_type a), ec_bytes = nat (max (ma_bytes_local a) 0),
          ec_last_accessed_ms = sk_created_at_ms s, ec_pinned = False,
          ec_archive_state = ArchiveVerified, ec_storage_sink = ma_storage_sink a\<rparr>))))"

definition collect_eviction_candidates ::
  "(string \<Rightarrow> nat option) \<Rightarrow> local_db \<Rightarrow> int \<Rightarrow> int \<Rightarrow> eviction_error + eviction_candidate list" where
  "collect_eviction_candidates parse_uuid db min_offload_age_ms now_ms =
     mapE (row_candidate parse_uuid) (eviction_rows db min_offload_age_ms now_ms)"

definition evict_row :: "media_asset \<Rightarrow> media_asset" where
  "evict_row a = a\<lparr>ma_media_state := Evicted, ma_bytes_local := 0\<rparr>"

record eviction_result =
  er_freed_bytes :: nat
  er_evicted_count :: nat

definition evict_one ::
  "(nat \<Rightarrow> string) \<Rightarrow> eviction_candidate \<Rightarrow> local_db \<times> eviction_result \<Rightarrow> local_db \<times> eviction_result" where
  "evict_one show_uuid c = (\<lambda>(db, r).
     let hit = (\<lambda>a. ma_asset_id a = show_uuid (ec_asset_id c));
         updated = row_count hit (db_media db);
         db' = db\<lparr>db_media := update_where hit evict_row (db_media db)\<rparr>
     in if updated > 0
        then (db', \<lparr>er_freed_bytes = sat_add (er_freed_bytes r) (ec_bytes c),
                    er_evicted_count = min (er_evicted_count r + 1) (2 ^ 32 - 1)\<rparr>)
        else (db', r))"

definition execute_eviction ::
  "(nat \<Rightarrow> string) \<Rightarrow> eviction_plan \<Rightarrow> local_db \<Rightarrow> local_db \<times> eviction_result" where
  "execute_eviction show_uuid plan db =
     fold (\<lambda>(c, _). evict_one show_uuid c) (pl_candidates plan)
       (db, \<lparr>er_freed_bytes = 0, er_evicted_count = 0\<rparr>)"

lemma evict_row_id [simp]:
  "ma_asset_id (evict_row a) = ma_asset_id a" "ma_bytes_local (evict_row a) = 0"
  "evict_row (evict_row a) = evict_row a"
  by (simp_all add: evict_row_def)

lemma update_where_map: "update_where P f (map g xs) = map (\<lambda>x. if P (g x) then f (g x) else g x) xs"
  by (simp add: update_where_def)

lemma execute_db:
  "fst (fold (evict_one show_uuid) cs (db, r)) =
     db\<lparr>db_media := map (\<lambda>a. if ma_asset_id a \<in> (\<lambda>c. show_uuid (ec_asset_id c)) ` set cs
                          then evict_row a else a) (db_media db)\<rparr>"
proof (induction cs arbitrary: db r)
  case (Cons c cs)
  let ?db = "db\<lparr>db_media := update_where (\<lambda>a. ma_asset_id a = show_uuid (ec_asset_id c)) evict_row
      (db_media db)\<rparr>"
  obtain r' where "evict_one show_uuid c (db, r) = (?db, r')"
    by (cases "0 < row_count (\<lambda>a. ma_asset_id a = show_uuid (ec_asset_id c)) (db_media db)")
      (simp_all add: evict_one_def Let_def)
  then show ?case by (auto simp: Cons update_where_def)
qed simp

lemma media_sum_update:
  assumes "distinct (map ma_asset_id xs)" "a \<in> set xs"
  shows "(\<Sum>x \<leftarrow> update_where (\<lambda>x. ma_asset_id x = ma_asset_id a) evict_row xs. ma_bytes_local x) =
           (\<Sum>x \<leftarrow> xs. ma_bytes_local x) - ma_bytes_local a"
  using assms
proof (induction xs)
  case (Cons x xs)
  show ?case
  proof (cases "x = a")
    case True
    then have "update_where (\<lambda>x. ma_asset_id x = ma_asset_id a) evict_row xs = xs"
      using Cons.prems by (intro update_where_none) (auto simp: image_iff)
    then show ?thesis using True by simp
  next
    case False
    then have "ma_asset_id x \<noteq> ma_asset_id a" using Cons.prems by (auto simp: image_iff)
    then show ?thesis using Cons False by simp
  qed
qed simp

lemma execute_freed:
  assumes "distinct (map (\<lambda>c. show_uuid (ec_asset_id c)) cs)"
    and "distinct (map ma_asset_id (db_media db))"
    and "\<And>a. a \<in> set (db_media db) \<Longrightarrow> 0 \<le> ma_bytes_local a"
    and "\<And>c. c \<in> set cs \<Longrightarrow> \<exists>a \<in> set (db_media db). ma_asset_id a = show_uuid (ec_asset_id c) \<and>
           ma_bytes_local a = int (ec_bytes c)"
    and "int (er_freed_bytes r) + media_bytes db \<le> int u64_max"
  shows "int (er_freed_bytes (snd (fold (evict_one show_uuid) cs (db, r)))) +
           media_bytes (fst (fold (evict_one show_uuid) cs (db, r))) =
         int (er_freed_bytes r) + media_bytes db"
  using assms
proof (induction cs arbitrary: db r)
  case (Cons c cs)
  let ?hit = "\<lambda>a. ma_asset_id a = show_uuid (ec_asset_id c)"
  let ?db = "db\<lparr>db_media := update_where ?hit evict_row (db_media db)\<rparr>"
  obtain a where a: "a \<in> set (db_media db)" "?hit a" "ma_bytes_local a = int (ec_bytes c)"
    using Cons.prems(4)[of c] by auto
  have "0 < row_count ?hit (db_media db)"
    using a by (auto simp: row_count_def filter_empty_conv)
  then obtain r' where step: "evict_one show_uuid c (db, r) = (?db, r')"
    and freed: "er_freed_bytes r' = sat_add (er_freed_bytes r) (ec_bytes c)"
    by (auto simp: evict_one_def Let_def)
  have sum: "media_bytes ?db = media_bytes db - int (ec_bytes c)"
    using media_sum_update[OF Cons.prems(2) a(1)] a by (simp add: media_bytes_def)
  have rest: "\<And>x. x \<in> set (db_media ?db) \<Longrightarrow> 0 \<le> ma_bytes_local x"
    using Cons.prems(3) by (auto simp: set_update_where)
  then have "0 \<le> media_bytes ?db" unfolding media_bytes_def by (intro sum_list_nonneg) auto
  then have "int (er_freed_bytes r) + int (ec_bytes c) \<le> int u64_max"
    using sum Cons.prems(5) by linarith
  then have exact: "er_freed_bytes r' = er_freed_bytes r + ec_bytes c"
    using freed by (simp add: sat_add_exact)
  have "\<exists>x \<in> set (db_media ?db). ma_asset_id x = show_uuid (ec_asset_id d) \<and>
      ma_bytes_local x = int (ec_bytes d)" if d: "d \<in> set cs" for d
  proof -
    obtain x where x: "x \<in> set (db_media db)" "ma_asset_id x = show_uuid (ec_asset_id d)"
      "ma_bytes_local x = int (ec_bytes d)"
      using Cons.prems(4)[OF list.set_intros(2)[OF d]] by blast
    have "show_uuid (ec_asset_id d) \<noteq> show_uuid (ec_asset_id c)"
      using Cons.prems(1) d by (auto simp: image_iff)
    then have "x \<in> set (db_media ?db)" using x by (auto simp: set_update_where image_iff)
    then show ?thesis using x by blast
  qed
  moreover have "distinct (map ma_asset_id (db_media ?db))" "distinct (map (\<lambda>c. show_uuid (ec_asset_id c)) cs)"
    using Cons.prems(1,2) by (simp_all add: table_simps)
  moreover have "int (er_freed_bytes r') + media_bytes ?db \<le> int u64_max"
    using exact sum Cons.prems(5) by simp
  ultimately have "int (er_freed_bytes (snd (fold (evict_one show_uuid) cs (?db, r')))) +
      media_bytes (fst (fold (evict_one show_uuid) cs (?db, r'))) =
      int (er_freed_bytes r') + media_bytes ?db"
    using rest by (intro Cons.IH)
  then show ?case using step exact sum by simp
qed simp

lemma eviction_rows_unsorted:
  assumes "db_wf db"
  shows "\<exists>h. (\<forall>a. h a = [] \<or> (\<exists>s. h a = [(a, s)])) \<and>
     mset (eviction_rows db min_age now_ms) = mset (concat (map h (db_media db))) \<and>
     (\<forall>a s. h a = [(a, s)] \<longrightarrow> ma_media_state a = OriginalLocal \<and> s \<in> set (db_skeletons db) \<and>
        sk_message_id s = ma_message_id a \<and> sk_archive_state s = ArchiveVerified \<and>
        (\<exists>c \<in> set (db_conversations db). cv_id c = sk_conversation_id s \<and> \<not> cv_pinned c))"
proof -
  define cutoff where "cutoff = i64_saturate (now_ms - min_age)"
  define ok where "ok = (\<lambda>(a :: media_asset) (s :: message_skeleton) (c :: conversation). sk_archive_state s = ArchiveVerified \<and> \<not> cv_pinned c \<and>
      ma_media_state a = OriginalLocal \<and> sk_created_at_ms s < cutoff)"
  define h where "h = (\<lambda>a. case select_one sk_message_id (ma_message_id a) (db_skeletons db) of
      None \<Rightarrow> []
    | Some s \<Rightarrow> (case select_one cv_id (sk_conversation_id s) (db_conversations db) of
          None \<Rightarrow> [] | Some c \<Rightarrow> if ok a s c then [(a, s)] else []))"
  have keys: "distinct (map sk_message_id (db_skeletons db))" "distinct (map cv_id (db_conversations db))"
    using assms by (simp_all add: db_wf_defs)
  have "mset (eviction_rows db min_age now_ms) = mset (concat (map h (db_media db)))"
    unfolding eviction_rows_def Let_def mset_sort
    by (simp add: h_def ok_def cutoff_def concat_map_key[OF keys(1)] concat_map_key[OF keys(2)]
        cong: option.case_cong)
  moreover have "h a = [] \<or> (\<exists>s. h a = [(a, s)])" for a
    by (auto simp: h_def split: option.splits)
  moreover have "ma_media_state a = OriginalLocal \<and> s \<in> set (db_skeletons db) \<and>
        sk_message_id s = ma_message_id a \<and> sk_archive_state s = ArchiveVerified \<and>
        (\<exists>c \<in> set (db_conversations db). cv_id c = sk_conversation_id s \<and> \<not> cv_pinned c)"
    if "h a = [(a, s)]" for a s
    using that by (auto simp: h_def ok_def split: option.splits if_splits dest!: select_one_SomeD)
  ultimately show ?thesis by blast
qed

lemma row_candidate_Inr:
  "row_candidate parse_uuid (a, s) = Inr c \<Longrightarrow>
     parse_uuid (ma_asset_id a) = Some (ec_asset_id c) \<and> ec_bytes c = nat (max (ma_bytes_local a) 0)"
  by (auto simp: row_candidate_def parse_id_def bindE_Inr_iff split: option.splits)

lemma collected_candidates:
  assumes wf: "db_wf db"
    and canon: "\<forall>a \<in> set (db_media db). \<forall>u. parse_uuid (ma_asset_id a) = Some u \<longrightarrow>
        show_uuid u = ma_asset_id a"
    and nonneg: "\<forall>a \<in> set (db_media db). 0 \<le> ma_bytes_local a"
    and collect: "collect_eviction_candidates parse_uuid db min_age now_ms = Inr cs"
  shows "distinct (map (\<lambda>c. show_uuid (ec_asset_id c)) cs)"
    and "\<And>c. c \<in> set cs \<Longrightarrow> \<exists>a s v. a \<in> set (db_media db) \<and> s \<in> set (db_skeletons db) \<and>
      v \<in> set (db_conversations db) \<and> ma_asset_id a = show_uuid (ec_asset_id c) \<and>
      ma_bytes_local a = int (ec_bytes c) \<and> ma_media_state a = OriginalLocal \<and>
      sk_message_id s = ma_message_id a \<and> sk_archive_state s = ArchiveVerified \<and>
      cv_id v = sk_conversation_id s \<and> \<not> cv_pinned v"
proof -
  let ?rows = "eviction_rows db min_age now_ms"
  obtain h where h: "\<And>a. h a = [] \<or> (\<exists>s. h a = [(a, s)])"
    "mset ?rows = mset (concat (map h (db_media db)))"
    "\<And>a s. h a = [(a, s)] \<Longrightarrow> ma_media_state a = OriginalLocal \<and> s \<in> set (db_skeletons db) \<and>
        sk_message_id s = ma_message_id a \<and> sk_archive_state s = ArchiveVerified \<and>
        (\<exists>c \<in> set (db_conversations db). cv_id c = sk_conversation_id s \<and> \<not> cv_pinned c)"
    using eviction_rows_unsorted[OF wf, of min_age now_ms] by blast
  have all2: "list_all2 (\<lambda>x y. row_candidate parse_uuid x = Inr y) ?rows cs"
    using collect by (simp add: collect_eviction_candidates_def mapE_Inr_iff)
  have row: "a \<in> set (db_media db) \<and> h a = [(a, s)]" if "(a, s) \<in> set ?rows" for a s
  proof -
    have "(a, s) \<in> set (concat (map h (db_media db)))" using that h(2) by (metis set_mset_mset)
    then obtain b where "b \<in> set (db_media db)" "(a, s) \<in> set (h b)" by auto
    then show ?thesis using h(1)[of b] by auto
  qed
  have "map fst (concat (map h (db_media db))) = filter (\<lambda>a. h a \<noteq> []) (db_media db)"
    by (rule map_fst_concat_singletons) (rule h(1))
  then have "distinct (map ma_asset_id (map fst (concat (map h (db_media db)))))"
    using wf by (simp only: db_wf_defs distinct_map_filter_key)
  then have "distinct (map (\<lambda>x. ma_asset_id (fst x)) ?rows)"
    using h(2) by (metis (no_types, lifting) list.map_comp comp_apply map_eq_conv mset_eq_imp_distinct_iff mset_map)
  moreover have "map (\<lambda>c. show_uuid (ec_asset_id c)) cs = map (\<lambda>x. ma_asset_id (fst x)) ?rows"
  proof (rule nth_equalityI)
    show "length (map (\<lambda>c. show_uuid (ec_asset_id c)) cs) = length (map (\<lambda>x. ma_asset_id (fst x)) ?rows)"
      using all2 by (simp add: list_all2_lengthD)
    fix i assume i: "i < length (map (\<lambda>c. show_uuid (ec_asset_id c)) cs)"
    then have len: "i < length ?rows" using all2 by (simp add: list_all2_lengthD)
    obtain a s where as: "?rows ! i = (a, s)" by fastforce
    have "row_candidate parse_uuid (a, s) = Inr (cs ! i)"
      using list_all2_nthD[OF all2 len] as by simp
    then have "show_uuid (ec_asset_id (cs ! i)) = ma_asset_id a"
      using canon row[of a s] as len nth_mem[OF len] row_candidate_Inr by metis
    then show "map (\<lambda>c. show_uuid (ec_asset_id c)) cs ! i = map (\<lambda>x. ma_asset_id (fst x)) ?rows ! i"
      using i len as by simp
  qed
  ultimately show "distinct (map (\<lambda>c. show_uuid (ec_asset_id c)) cs)" by simp
  fix c assume "c \<in> set cs"
  then obtain i where i: "i < length cs" "cs ! i = c" by (auto simp: in_set_conv_nth)
  then have len: "i < length ?rows" using all2 by (simp add: list_all2_lengthD)
  obtain a s where as: "?rows ! i = (a, s)" by fastforce
  have cand: "row_candidate parse_uuid (a, s) = Inr c"
    using list_all2_nthD[OF all2 len] as i by simp
  have r: "a \<in> set (db_media db)" "h a = [(a, s)]" using row[of a s] as nth_mem[OF len] by auto
  have "show_uuid (ec_asset_id c) = ma_asset_id a" "ec_bytes c = nat (max (ma_bytes_local a) 0)"
    using canon r(1) row_candidate_Inr[OF cand] by auto
  then show "\<exists>a s v. a \<in> set (db_media db) \<and> s \<in> set (db_skeletons db) \<and>
      v \<in> set (db_conversations db) \<and> ma_asset_id a = show_uuid (ec_asset_id c) \<and>
      ma_bytes_local a = int (ec_bytes c) \<and> ma_media_state a = OriginalLocal \<and>
      sk_message_id s = ma_message_id a \<and> sk_archive_state s = ArchiveVerified \<and>
      cv_id v = sk_conversation_id s \<and> \<not> cv_pinned v"
    using h(3)[OF r(2)] r(1) nonneg by auto
qed

lemma execute_eviction_fold:
  "execute_eviction show_uuid plan db =
     fold (evict_one show_uuid) (map fst (pl_candidates plan)) (db, \<lparr>er_freed_bytes = 0, er_evicted_count = 0\<rparr>)"
  by (simp add: execute_eviction_def fold_map o_def case_prod_unfold)

text \<open>C5: One sweep - collect the candidates, plan, execute - on a store whose ids are in canonical form
  and whose local byte counts are not negative: exactly the planned assets change, each from
  \<open>original_local\<close> to \<open>evicted\<close> (a legal transition) with no local bytes left; each belongs to a
  message verified in the archive and to a conversation that is not pinned; and the bytes reported as
  freed are the bytes by which the local media usage drops.\<close>

theorem eviction_sweep:
  assumes "db_wf db"
    and "\<forall>a \<in> set (db_media db). \<forall>u. parse_uuid (ma_asset_id a) = Some u \<longrightarrow>
          show_uuid u = ma_asset_id a"
    and "\<forall>a \<in> set (db_media db). 0 \<le> ma_bytes_local a"
    and "media_bytes db \<le> int u64_max"
    and "collect_eviction_candidates parse_uuid db min_age now_ms = Inr cs"
  shows "let plan = plan_eviction_with_pressure cs target now_ms p;
             (db', r) = execute_eviction show_uuid plan db;
             ids = (\<lambda>c. show_uuid (ec_asset_id c)) ` set (map fst (pl_candidates plan))
         in db' = db\<lparr>db_media := map (\<lambda>a. if ma_asset_id a \<in> ids then evict_row a else a) (db_media db)\<rparr> \<and>
            int (er_freed_bytes r) = media_bytes db - media_bytes db' \<and>
            (\<forall>a \<in> set (db_media db). ma_asset_id a \<in> ids \<longrightarrow>
               media_try_transition (ma_media_state a) Evicted = Inr Evicted \<and>
               (\<exists>s \<in> set (db_skeletons db). \<exists>v \<in> set (db_conversations db).
                  sk_message_id s = ma_message_id a \<and> sk_archive_state s = ArchiveVerified \<and>
                  cv_id v = sk_conversation_id s \<and> \<not> cv_pinned v))"
proof -
  let ?P = "map fst (pl_candidates (plan_eviction_with_pressure cs target now_ms p))"
  let ?f = "\<lambda>c. show_uuid (ec_asset_id c)"
  let ?e = "fold (evict_one show_uuid) ?P (db, \<lparr>er_freed_bytes = 0, er_evicted_count = 0\<rparr>)"
  note collected = collected_candidates[OF assms(1,2,3,5)]
  have sub: "mset ?P \<subseteq># mset cs"
    using plan_safe_and_greedy_aux by (metis (no_types) mset_filter multiset_filter_subset subset_mset.trans)
  then have mem: "\<And>c. c \<in> set ?P \<Longrightarrow> c \<in> set cs" by (metis mset_subset_eqD set_mset_mset)
  have "mset (map ?f ?P) \<subseteq># mset (map ?f cs)"
    using sub by (simp only: mset_map image_mset_subseteq_mono)
  then have dist: "distinct (map ?f ?P)" using collected(1) by (rule distinct_submset)
  have freed: "int (er_freed_bytes (snd ?e)) + media_bytes (fst ?e) = media_bytes db"
    using execute_freed[of show_uuid ?P db "\<lparr>er_freed_bytes = 0, er_evicted_count = 0\<rparr>"]
      dist assms(1,3,4) collected(2)[OF mem] by (fastforce simp: db_wf_defs)
  have origin: "media_try_transition (ma_media_state a) Evicted = Inr Evicted \<and>
               (\<exists>s \<in> set (db_skeletons db). \<exists>v \<in> set (db_conversations db).
                  sk_message_id s = ma_message_id a \<and> sk_archive_state s = ArchiveVerified \<and>
                  cv_id v = sk_conversation_id s \<and> \<not> cv_pinned v)"
    if a: "a \<in> set (db_media db)" "ma_asset_id a \<in> ?f ` set ?P" for a
  proof -
    obtain c where c: "c \<in> set cs" "ma_asset_id a = ?f c" using a(2) mem by auto
    obtain b s v where b: "b \<in> set (db_media db)" "ma_asset_id b = ?f c"
      "ma_media_state b = OriginalLocal" "s \<in> set (db_skeletons db)" "v \<in> set (db_conversations db)"
      "sk_message_id s = ma_message_id b" "sk_archive_state s = ArchiveVerified"
      "cv_id v = sk_conversation_id s" "\<not> cv_pinned v"
      using collected(2)[OF c(1)] by blast
    have "inj_on ma_asset_id (set (db_media db))" using assms(1) by (simp add: db_wf_defs distinct_map)
    moreover have "ma_asset_id b = ma_asset_id a" using b(2) c(2) by simp
    ultimately have "b = a" using b(1) a(1) by (rule inj_onD)
    then show ?thesis using b by (auto simp: media_try_transition_step)
  qed
  show ?thesis
    unfolding Let_def execute_eviction_fold
    using execute_db[of show_uuid ?P db] freed origin by (auto simp: case_prod_unfold)
qed

definition sample_asset :: media_asset where
  "sample_asset = \<lparr>ma_asset_id = ''x'', ma_message_id = ''a'', ma_mime_type = ''video/mp4'',
     ma_bytes_total = 100, ma_bytes_local = 100, ma_media_state = OriginalLocal,
     ma_wrapped_k_asset = [], ma_chunk_count = 1, ma_merkle_root = [], ma_blob_id = ''b'',
     ma_storage_sink = ''icloud''\<rparr>"

definition sample_store :: local_db where
  "sample_store = empty_db\<lparr>
     db_conversations := [legacy_conversation ''c'' None False False None 0],
     db_skeletons := [\<lparr>sk_message_id = ''a'', sk_conversation_id = ''c'', sk_sender_id = ''u'',
      sk_created_at_ms = 5, sk_received_at_ms = 5, sk_kind = MediaKind,
      sk_body_state = LocalPlainAvailable, sk_media_state = Some OriginalLocal,
      sk_archive_state = ArchiveVerified, sk_backup_state = NotBackedUp,
      sk_reply_to = None, sk_edited_at_ms = None, sk_deleted_at_ms = None\<rparr>],
     db_media := [sample_asset]\<rparr>"

abbreviation char_parse :: "string \<Rightarrow> nat option" where
  "char_parse s \<equiv> (case s of [c] \<Rightarrow> Some (of_char c) | _ \<Rightarrow> None)"

abbreviation char_show :: "nat \<Rightarrow> string" where
  "char_show n \<equiv> [char_of n]"

theorem eviction_sweep_witness:
  "\<exists>cs. collect_eviction_candidates char_parse sample_store 10 100 = Inr cs \<and>
     (let (db', r) = execute_eviction char_show (plan_eviction_with_pressure cs 50 100 Warning) sample_store
      in int (er_freed_bytes r) = media_bytes sample_store - media_bytes db')"
proof -
  let ?c = "\<lparr>ec_asset_id = of_char CHR ''x'', ec_message_id = of_char CHR ''a'',
     ec_conversation_id = of_char CHR ''c'', ec_kind = Video, ec_bytes = 100, ec_last_accessed_ms = 5,
     ec_pinned = False, ec_archive_state = ArchiveVerified, ec_storage_sink = ''icloud''\<rparr>"
  have wf: "db_wf sample_store"
    by (simp add: db_wf_defs sample_store_def empty_db_def sample_asset_def legacy_conversation_def)
  have c: "collect_eviction_candidates char_parse sample_store 10 100 = Inr [?c]"
    by (simp add: collect_eviction_candidates_def eviction_rows_def sample_store_def empty_db_def
        legacy_conversation_def sample_asset_def i64_saturate_def row_candidate_def parse_id_def
        classify_mime_type_def ascii_lower_def)
  have "media_bytes sample_store \<le> int u64_max"
    by (simp add: media_bytes_def sample_store_def sample_asset_def u64_max_def)
  moreover have "char_of (120 :: nat) = CHR ''x''" by code_simp
  then have "\<forall>a \<in> set (db_media sample_store). \<forall>u. char_parse (ma_asset_id a) = Some u \<longrightarrow>
      char_show u = ma_asset_id a"
    by (auto simp: sample_store_def sample_asset_def)
  moreover have "\<forall>a \<in> set (db_media sample_store). 0 \<le> ma_bytes_local a"
    by (simp add: sample_store_def sample_asset_def)
  ultimately have "let (db', r) = execute_eviction char_show (plan_eviction_with_pressure [?c] 50 100 Warning) sample_store
      in int (er_freed_bytes r) = media_bytes sample_store - media_bytes db'"
    using eviction_sweep[where show_uuid = char_show and target = 50 and p = Warning, OF wf _ _ _ c]
    by (simp only: Let_def case_prod_unfold)
  then show ?thesis using c by blast
qed

end
