(* ===== verification/Resource_Gate.thy ===== *)
theory Resource_Gate
  imports Prelude
begin

text \<open>
  The gates of \<open>models/resource_gate.rs\<close> that decide which background work a device may do now.  A
  battery level is an integer number of per cent, the order of the thermal states is the declaration
  order the code derives.
\<close>

datatype thermal_state = Nominal | FairHeat | Serious | CriticalHeat

primrec heat :: "thermal_state \<Rightarrow> nat" where
  "heat Nominal = 0"
| "heat FairHeat = 1"
| "heat Serious = 2"
| "heat CriticalHeat = 3"

instantiation thermal_state :: linorder
begin

definition less_eq_thermal_state :: "thermal_state \<Rightarrow> thermal_state \<Rightarrow> bool" where
  "less_eq_thermal_state s t = (heat s \<le> heat t)"

definition less_thermal_state :: "thermal_state \<Rightarrow> thermal_state \<Rightarrow> bool" where
  "less_thermal_state s t = (heat s < heat t)"

instance
proof
  fix s t :: thermal_state
  show "s \<le> t \<Longrightarrow> t \<le> s \<Longrightarrow> s = t"
    by (cases s; cases t) (simp_all add: less_eq_thermal_state_def)
qed (auto simp: less_eq_thermal_state_def less_thermal_state_def)

end

datatype network_type = NoNetwork | Cellular | WiFi | Ethernet

primrec is_unmetered :: "network_type \<Rightarrow> bool" where
  "is_unmetered NoNetwork = False"
| "is_unmetered Cellular = False"
| "is_unmetered WiFi = True"
| "is_unmetered Ethernet = True"

record device_resources =
  dr_battery_level :: int
  dr_is_charging :: bool
  dr_thermal_state :: thermal_state
  dr_network_type :: network_type

record resource_policy =
  rp_min_battery :: int
  rp_require_charging_for_heavy :: bool
  rp_max_thermal :: thermal_state
  rp_require_wifi_for_download :: bool

definition all_clear :: device_resources where
  "all_clear = \<lparr>dr_battery_level = 100, dr_is_charging = True, dr_thermal_state = Nominal,
     dr_network_type = WiFi\<rparr>"

definition default_policy :: resource_policy where
  "default_policy = \<lparr>rp_min_battery = 20, rp_require_charging_for_heavy = True,
     rp_max_thermal = FairHeat, rp_require_wifi_for_download = True\<rparr>"

definition should_run_embedding :: "resource_policy \<Rightarrow> device_resources \<Rightarrow> bool" where
  "should_run_embedding p r =
     (if dr_thermal_state r \<ge> CriticalHeat then False
      else if \<not> dr_is_charging r \<and> dr_battery_level r < rp_min_battery p then False
      else True)"

definition should_run_ocr :: "resource_policy \<Rightarrow> device_resources \<Rightarrow> bool" where
  "should_run_ocr p r = should_run_embedding p r"

definition should_run_transcription :: "resource_policy \<Rightarrow> device_resources \<Rightarrow> bool" where
  "should_run_transcription p r =
     (if dr_thermal_state r \<ge> Serious then False
      else if rp_require_charging_for_heavy p \<and> \<not> dr_is_charging r then False
      else if dr_battery_level r < rp_min_battery p then False
      else True)"

definition should_warm_shards :: "resource_policy \<Rightarrow> device_resources \<Rightarrow> bool" where
  "should_warm_shards p r =
     (if \<not> dr_is_charging r then False
      else if \<not> is_unmetered (dr_network_type r) then False
      else if dr_thermal_state r > FairHeat then False
      else if dr_battery_level r < rp_min_battery p then False
      else True)"

definition should_download_model :: "resource_policy \<Rightarrow> device_resources \<Rightarrow> bool" where
  "should_download_model p r =
     (if dr_thermal_state r > rp_max_thermal p then False
      else if rp_require_charging_for_heavy p \<and> \<not> dr_is_charging r then False
      else if rp_require_wifi_for_download p \<and> \<not> is_unmetered (dr_network_type r) then False
      else if dr_network_type r = NoNetwork then False
      else True)"

text \<open>A device that is at least as well off: no less battery, still charging if it was, no hotter, and
  on an unmetered network if it was, connected if it was.\<close>

definition better_off :: "device_resources \<Rightarrow> device_resources \<Rightarrow> bool" where
  "better_off r r' \<longleftrightarrow> dr_battery_level r \<le> dr_battery_level r' \<and> dr_thermal_state r' \<le> dr_thermal_state r \<and>
     (dr_is_charging r \<longrightarrow> dr_is_charging r') \<and>
     (is_unmetered (dr_network_type r) \<longrightarrow> is_unmetered (dr_network_type r')) \<and>
     (dr_network_type r \<noteq> NoNetwork \<longrightarrow> dr_network_type r' \<noteq> NoNetwork)"

text \<open>The gates are monotone and ordered by strictness: a device that is better off is refused
  nothing it was allowed before, and a device allowed to transcribe or to warm shards may also embed
  and recognise text, under any policy.\<close>

theorem gates_monotone:
  assumes "better_off r r'"
  shows "should_run_embedding p r \<le> should_run_embedding p r' \<and>
     should_run_transcription p r \<le> should_run_transcription p r' \<and>
     should_warm_shards p r \<le> should_warm_shards p r' \<and>
     should_download_model p r \<le> should_download_model p r' \<and>
     should_run_transcription p r \<le> should_run_ocr p r \<and>
     should_warm_shards p r \<le> should_run_ocr p r"
  using assms
  by (auto simp: better_off_def should_run_embedding_def should_run_ocr_def
      should_run_transcription_def should_warm_shards_def should_download_model_def
      less_eq_thermal_state_def less_thermal_state_def split: if_splits)

theorem gates_monotone_witness:
  "should_run_transcription default_policy (all_clear\<lparr>dr_battery_level := 30\<rparr>) \<le>
   should_run_transcription default_policy all_clear"
proof -
  have "better_off (all_clear\<lparr>dr_battery_level := 30\<rparr>) all_clear"
    by (simp add: better_off_def all_clear_def)
  from gates_monotone[OF this, of default_policy] show ?thesis by blast
qed

end
