(* ===== verification/Lru_Cache.thy ===== *)
theory Lru_Cache
  imports Prelude
begin

text \<open>
  The contract of the two byte-budgeted caches of the program.  The specification is a list of entries,
  least recently used first: \<open>lru_get\<close> moves an entry to the end, \<open>lru_put\<close> adds at the end and drops from
  the front until the sizes fit the budget.  \<open>lru_cache\<close> is the interface an implementation offers: an
  invariant, an abstraction to such a list, and the two operations, which act on the list as the
  specification does.  What follows inside the locale holds of both caches.
\<close>

subsection \<open>The specification\<close>

definition lru_total :: "('v \<Rightarrow> nat) \<Rightarrow> ('k \<times> 'v) list \<Rightarrow> nat" where
  "lru_total sz xs = (\<Sum>(_, v) \<leftarrow> xs. sz v)"

fun lru_trim :: "('v \<Rightarrow> nat) \<Rightarrow> nat \<Rightarrow> ('k \<times> 'v) list \<Rightarrow> ('k \<times> 'v) list" where
  "lru_trim sz budget [] = []"
| "lru_trim sz budget (x # xs) =
     (if lru_total sz (x # xs) \<le> budget then x # xs else lru_trim sz budget xs)"

definition lru_drop :: "'k \<Rightarrow> ('k \<times> 'v) list \<Rightarrow> ('k \<times> 'v) list" where
  "lru_drop k xs = filter (\<lambda>(j, _). j \<noteq> k) xs"

definition lru_put :: "('v \<Rightarrow> nat) \<Rightarrow> nat \<Rightarrow> 'k \<Rightarrow> 'v \<Rightarrow> ('k \<times> 'v) list \<Rightarrow> ('k \<times> 'v) list" where
  "lru_put sz budget k v xs = lru_trim sz budget (lru_drop k xs @ [(k, v)])"

definition lru_get :: "'k \<Rightarrow> ('k \<times> 'v) list \<Rightarrow> ('k \<times> 'v) list" where
  "lru_get k xs = (case map_of xs k of None \<Rightarrow> xs | Some v \<Rightarrow> lru_drop k xs @ [(k, v)])"

lemma lru_total_simps [simp]:
  "lru_total sz [] = 0" "lru_total sz ((k, v) # xs) = sz v + lru_total sz xs"
  "lru_total sz (xs @ ys) = lru_total sz xs + lru_total sz ys"
  by (simp_all add: lru_total_def)

lemma lru_drop_simps [simp]:
  "lru_drop k [] = []"
  "lru_drop k ((j, v) # xs) = (if j = k then lru_drop k xs else (j, v) # lru_drop k xs)"
  "lru_drop k (xs @ ys) = lru_drop k xs @ lru_drop k ys"
  by (simp_all add: lru_drop_def)

lemma lru_drop_fresh: "k \<notin> fst ` set xs \<Longrightarrow> lru_drop k xs = xs"
  by (induction xs) auto

lemma lru_drop_keys: "map fst (lru_drop k xs) = filter (\<lambda>j. j \<noteq> k) (map fst xs)"
  by (induction xs) auto

lemma lru_drop_total:
  "distinct (map fst xs) \<Longrightarrow>
     lru_total sz (lru_drop k xs) + (case map_of xs k of None \<Rightarrow> 0 | Some v \<Rightarrow> sz v) = lru_total sz xs"
proof (induction xs)
  case (Cons x xs)
  then show ?case
    by (cases x) (auto simp: lru_drop_fresh split: option.splits dest!: map_of_SomeD
        intro: rev_image_eqI)
qed simp

lemma lru_trim_total: "lru_total sz (lru_trim sz budget xs) \<le> budget"
  by (induction xs) auto

lemma lru_trim_suffix: "\<exists>n. lru_trim sz budget xs = drop n xs"
proof (induction xs)
  case (Cons x xs)
  then obtain n where n: "lru_trim sz budget xs = drop n xs" by blast
  show ?case
  proof (cases "lru_total sz (x # xs) \<le> budget")
    case True
    then show ?thesis by (intro exI[of _ 0]) simp
  next
    case False
    then show ?thesis using n by (intro exI[of _ "Suc n"]) simp
  qed
qed simp

lemma lru_trim_last:
  "sz v \<le> budget \<Longrightarrow> \<exists>ys. lru_trim sz budget (xs @ [(k, v)]) = ys @ [(k, v)]"
  by (induction xs) auto

lemma lru_trim_id: "lru_total sz xs \<le> budget \<Longrightarrow> lru_trim sz budget xs = xs"
  by (cases xs) auto

lemma map_of_notin: "k \<notin> fst ` set xs \<Longrightarrow> map_of xs k = None"
  by (simp add: map_of_eq_None_iff)

lemma lru_distinct:
  assumes "distinct (map fst xs)"
  shows "distinct (map fst (lru_drop k xs @ [(k, v)]))" "distinct (map fst (lru_put sz budget k v xs))"
    "distinct (map fst (lru_get k xs))"
proof -
  show d: "distinct (map fst (lru_drop k xs @ [(k, v)]))" for v
    using assms by (simp add: lru_drop_keys flip: set_map)
  obtain n where "lru_put sz budget k v xs = drop n (lru_drop k xs @ [(k, v)])"
    unfolding lru_put_def using lru_trim_suffix by blast
  then show "distinct (map fst (lru_put sz budget k v xs))"
    using d[of v] by (metis drop_map distinct_drop)
  show "distinct (map fst (lru_get k xs))"
    using assms d by (simp add: lru_get_def split: option.splits)
qed

subsection \<open>The interface\<close>

text \<open>\<open>room c\<close> bounds how many more operations the recency counter of \<open>c\<close> can tell apart.\<close>

locale lru_cache =
  fixes inv :: "'c \<Rightarrow> bool"
    and abs :: "'c \<Rightarrow> ('k \<times> 'v) list"
    and put :: "'k \<Rightarrow> 'v \<Rightarrow> 'c \<Rightarrow> 'c"
    and get :: "'k \<Rightarrow> 'c \<Rightarrow> 'c"
    and bytes :: "'c \<Rightarrow> nat"
    and budget :: "'c \<Rightarrow> nat"
    and sz :: "'v \<Rightarrow> nat"
    and room :: "'c \<Rightarrow> nat"
  assumes keys: "inv c \<Longrightarrow> distinct (map fst (abs c))"
    and bytes_total: "inv c \<Longrightarrow> bytes c = lru_total sz (abs c)"
    and within: "inv c \<Longrightarrow> bytes c \<le> budget c"
    and put_abs: "inv c \<Longrightarrow> 0 < room c \<Longrightarrow> budget c + sz v \<le> u64_max \<Longrightarrow>
        inv (put k v c) \<and> abs (put k v c) = lru_put sz (budget c) k v (abs c) \<and>
        budget (put k v c) = budget c \<and> room c \<le> Suc (room (put k v c))"
    and get_abs: "inv c \<Longrightarrow> 0 < room c \<Longrightarrow>
        inv (get k c) \<and> abs (get k c) = lru_get k (abs c) \<and>
        budget (get k c) = budget c \<and> room c \<le> Suc (room (get k c))"

text \<open>Uses of a cache, and what they do to the specification and to an implementation.\<close>

datatype ('k, 'v) cache_use = Put 'k 'v | Get 'k

primrec spec_use :: "('v \<Rightarrow> nat) \<Rightarrow> nat \<Rightarrow> ('k, 'v) cache_use \<Rightarrow> ('k \<times> 'v) list \<Rightarrow> ('k \<times> 'v) list" where
  "spec_use sz budget (Put k v) xs = lru_put sz budget k v xs"
| "spec_use sz budget (Get k) xs = lru_get k xs"

primrec run_use ::
  "('k \<Rightarrow> 'v \<Rightarrow> 'c \<Rightarrow> 'c) \<Rightarrow> ('k \<Rightarrow> 'c \<Rightarrow> 'c) \<Rightarrow> ('k, 'v) cache_use \<Rightarrow> 'c \<Rightarrow> 'c" where
  "run_use put get (Put k v) c = put k v c"
| "run_use put get (Get k) c = get k c"

definition fits :: "('v \<Rightarrow> nat) \<Rightarrow> nat \<Rightarrow> ('k, 'v) cache_use \<Rightarrow> bool" where
  "fits sz budget u = (case u of Put k v \<Rightarrow> budget + sz v \<le> u64_max | Get k \<Rightarrow> True)"

context lru_cache
begin

lemma use_abs:
  assumes "inv c" "0 < room c" "fits sz (budget c) u"
  shows "inv (run_use put get u c)"
    and "abs (run_use put get u c) = spec_use sz (budget c) u (abs c)"
    and "budget (run_use put get u c) = budget c"
    and "room c \<le> Suc (room (run_use put get u c))"
  using assms put_abs get_abs by (cases u; simp add: fits_def)+

lemma uses_abs:
  assumes "inv c" "length us \<le> room c" "list_all (fits sz (budget c)) us"
  shows "inv (fold (run_use put get) us c) \<and>
     abs (fold (run_use put get) us c) = fold (spec_use sz (budget c)) us (abs c) \<and>
     budget (fold (run_use put get) us c) = budget c"
  using assms
proof (induction us arbitrary: c)
  case (Cons u us)
  have "0 < room c" using Cons.prems(2) by simp
  note step = use_abs[OF Cons.prems(1) this, of u]
  show ?case
    using step Cons.prems(2,3) Cons.IH[of "run_use put get u c"] by auto
qed simp

lemma uses_budget:
  assumes "inv c" "length us \<le> room c" "list_all (fits sz (budget c)) us"
  shows "bytes (fold (run_use put get) us c) = lru_total sz (fold (spec_use sz (budget c)) us (abs c))"
    and "bytes (fold (run_use put get) us c) \<le> budget c"
  using uses_abs[OF assms] bytes_total within by metis+

lemma put_resident:
  assumes "inv c" "0 < room c" "sz v \<le> budget c" "budget c + sz v \<le> u64_max"
  shows "map_of (abs (put k v c)) k = Some v"
proof -
  obtain ys where "abs (put k v c) = ys @ [(k, v)]"
    using put_abs[OF assms(1,2,4)] lru_trim_last[of sz v "budget c", OF assms(3)] by (metis lru_put_def)
  moreover have "distinct (map fst (abs (put k v c)))"
    using put_abs[OF assms(1,2,4)] keys by blast
  ultimately show ?thesis by (metis in_set_conv_decomp map_of_is_SomeI)
qed

end

end
