(* ===== verification/Media_Cache.thy ===== *)
theory Media_Cache
  imports Lru_Cache
begin

text \<open>
  The cache of decrypted media originals (\<open>media/cache.rs\<close>): the sizes by asset id (a hash map), the
  order as a queue of ids, oldest first, and the running total, all updated separately as in the code.
  The interpretation shows that the three stay consistent and together are the LRU list.
\<close>

record 'k media_cache =
  mc_entries :: "'k \<Rightarrow> nat option"
  mc_order :: "'k list"
  mc_current_bytes :: nat
  mc_max_bytes :: nat

definition new_media_cache :: "nat \<Rightarrow> 'k media_cache" where
  "new_media_cache max_bytes =
     \<lparr>mc_entries = Map.empty, mc_order = [], mc_current_bytes = 0, mc_max_bytes = max_bytes\<rparr>"

text \<open>\<open>remove_from_order\<close> drops the first occurrence of the id.\<close>

definition remove_from_order :: "'k \<Rightarrow> 'k media_cache \<Rightarrow> 'k media_cache" where
  "remove_from_order k c = c\<lparr>mc_order := remove1 k (mc_order c)\<rparr>"

text \<open>The loop of \<open>evict_to_budget\<close>, over the ids left in the queue.\<close>

fun evict_from ::
  "'k list \<Rightarrow> 'k media_cache \<Rightarrow> 'k list \<Rightarrow> 'k media_cache \<times> 'k list" where
  "evict_from [] c evicted = (c\<lparr>mc_order := []\<rparr>, evicted)"
| "evict_from (k # ks) c evicted =
     (if mc_current_bytes c > mc_max_bytes c then
        (case mc_entries c k of
           Some n \<Rightarrow> evict_from ks
             (c\<lparr>mc_entries := (mc_entries c)(k := None),
                mc_current_bytes := sat_sub (mc_current_bytes c) n\<rparr>) (evicted @ [k])
         | None \<Rightarrow> evict_from ks c evicted)
      else (c\<lparr>mc_order := k # ks\<rparr>, evicted))"

definition evict_to_budget :: "'k media_cache \<Rightarrow> 'k media_cache \<times> 'k list" where
  "evict_to_budget c = evict_from (mc_order c) c []"

definition cache_insert :: "'k \<Rightarrow> nat \<Rightarrow> 'k media_cache \<Rightarrow> 'k media_cache \<times> 'k list" where
  "cache_insert k n c =
     (let c = (case mc_entries c k of
                 Some prev \<Rightarrow> remove_from_order k
                   (c\<lparr>mc_entries := (mc_entries c)(k := None),
                      mc_current_bytes := sat_sub (mc_current_bytes c) prev\<rparr>)
               | None \<Rightarrow> c);
          c = c\<lparr>mc_entries := (mc_entries c)(k \<mapsto> n), mc_order := mc_order c @ [k],
                mc_current_bytes := sat_add (mc_current_bytes c) n\<rparr>
      in evict_to_budget c)"

definition cache_touch :: "'k \<Rightarrow> 'k media_cache \<Rightarrow> 'k media_cache" where
  "cache_touch k c =
     (if mc_entries c k = None then c
      else (let c = remove_from_order k c in c\<lparr>mc_order := mc_order c @ [k]\<rparr>))"

definition cache_remove :: "'k \<Rightarrow> 'k media_cache \<Rightarrow> 'k media_cache \<times> nat" where
  "cache_remove k c = (case mc_entries c k of
      Some n \<Rightarrow> (remove_from_order k
         (c\<lparr>mc_entries := (mc_entries c)(k := None),
            mc_current_bytes := sat_sub (mc_current_bytes c) n\<rparr>), n)
    | None \<Rightarrow> (c, 0))"

definition iter_lru :: "'k media_cache \<Rightarrow> ('k \<times> nat) list" where
  "iter_lru c = List.map_filter (\<lambda>k. map_option (\<lambda>n. (k, n)) (mc_entries c k)) (mc_order c)"

subsection \<open>The cache as an LRU list\<close>

definition mc_consistent :: "'k media_cache \<Rightarrow> bool" where
  "mc_consistent c \<longleftrightarrow> distinct (mc_order c) \<and> dom (mc_entries c) = set (mc_order c) \<and>
     mc_current_bytes c = lru_total (\<lambda>n. n) (iter_lru c)"

definition mc_inv :: "'k media_cache \<Rightarrow> bool" where
  "mc_inv c \<longleftrightarrow> mc_consistent c \<and> mc_current_bytes c \<le> mc_max_bytes c"

lemma iter_lru_eq:
  "dom (mc_entries c) = set (mc_order c) \<Longrightarrow>
     iter_lru c = map (\<lambda>k. (k, the (mc_entries c k))) (mc_order c)"
  unfolding iter_lru_def
proof -
  assume d: "dom (mc_entries c) = set (mc_order c)"
  have "List.map_filter (\<lambda>k. map_option (\<lambda>n. (k, n)) (mc_entries c k)) ks =
      map (\<lambda>k. (k, the (mc_entries c k))) ks" if "set ks \<subseteq> dom (mc_entries c)" for ks
    using that by (induction ks) (auto simp: List.map_filter_simps)
  then show "List.map_filter (\<lambda>k. map_option (\<lambda>n. (k, n)) (mc_entries c k)) (mc_order c) =
      map (\<lambda>k. (k, the (mc_entries c k))) (mc_order c)" using d by simp
qed

lemma evict_from_trim:
  assumes "distinct ks" "dom (mc_entries c) = set ks"
    "mc_current_bytes c = lru_total (\<lambda>n. n) (map (\<lambda>k. (k, the (mc_entries c k))) ks)"
  shows "mc_inv (fst (evict_from ks c ev)) \<and>
     iter_lru (fst (evict_from ks c ev)) =
       lru_trim (\<lambda>n. n) (mc_max_bytes c) (map (\<lambda>k. (k, the (mc_entries c k))) ks) \<and>
     mc_max_bytes (fst (evict_from ks c ev)) = mc_max_bytes c"
  using assms
proof (induction ks c ev rule: evict_from.induct)
  case (1 c ev)
  then show ?case
    by (auto simp: mc_inv_def mc_consistent_def iter_lru_def List.map_filter_simps)
next
  case (2 k ks c ev)
  show ?case
  proof (cases "mc_current_bytes c > mc_max_bytes c")
    case False
    then show ?thesis
      using 2(3-5) iter_lru_eq[of "c\<lparr>mc_order := k # ks\<rparr>"]
      by (auto simp: mc_inv_def mc_consistent_def)
  next
    case True
    obtain n where n: "mc_entries c k = Some n" using 2(4) by auto
    let ?c = "c\<lparr>mc_entries := (mc_entries c)(k := None),
                mc_current_bytes := sat_sub (mc_current_bytes c) n\<rparr>"
    have same: "map (\<lambda>j. (j, the (mc_entries ?c j))) ks = map (\<lambda>j. (j, the (mc_entries c j))) ks"
      using 2(3) by auto
    have "distinct ks" "dom (mc_entries ?c) = set ks" using 2(3,4) by auto
    moreover have "mc_current_bytes ?c = lru_total (\<lambda>n. n) (map (\<lambda>j. (j, the (mc_entries ?c j))) ks)"
      unfolding same using 2(5) n by (simp add: sat_sub_def)
    ultimately have IH: "mc_inv (fst (evict_from ks ?c (ev @ [k]))) \<and>
       iter_lru (fst (evict_from ks ?c (ev @ [k]))) =
         lru_trim (\<lambda>n. n) (mc_max_bytes ?c) (map (\<lambda>j. (j, the (mc_entries ?c j))) ks) \<and>
       mc_max_bytes (fst (evict_from ks ?c (ev @ [k]))) = mc_max_bytes ?c"
      using 2(2)[OF True n] by blast
    have step: "evict_from (k # ks) c ev = evict_from ks ?c (ev @ [k])" using True n by simp
    have trim: "lru_trim (\<lambda>n. n) (mc_max_bytes c) (map (\<lambda>k. (k, the (mc_entries c k))) (k # ks)) =
        lru_trim (\<lambda>n. n) (mc_max_bytes c) (map (\<lambda>k. (k, the (mc_entries c k))) ks)"
      using True 2(5) by simp
    show ?thesis unfolding step trim using IH unfolding same by simp
  qed
qed

lemma map_drop_key:
  "lru_drop k (map (\<lambda>j. (j, f j)) ks) = map (\<lambda>j. (j, f j)) (filter (\<lambda>j. j \<noteq> k) ks)"
  by (induction ks) auto

lemma remove1_order:
  "distinct ks \<Longrightarrow> remove1 k ks = filter (\<lambda>j. j \<noteq> k) ks"
  by (simp add: distinct_remove1_removeAll removeAll_filter_not_eq) (rule filter_cong, auto)

lemma mc_insert_spec:
  assumes "mc_inv c" "mc_max_bytes c + n \<le> u64_max"
  shows "mc_inv (fst (cache_insert k n c)) \<and>
     iter_lru (fst (cache_insert k n c)) = lru_put (\<lambda>n. n) (mc_max_bytes c) k n (iter_lru c) \<and>
     mc_max_bytes (fst (cache_insert k n c)) = mc_max_bytes c"
proof -
  let ?ks = "filter (\<lambda>j. j \<noteq> k) (mc_order c)"
  let ?g = "\<lambda>j. (j, the (mc_entries c j))"
  have inv: "distinct (mc_order c)" "dom (mc_entries c) = set (mc_order c)"
    "mc_current_bytes c = lru_total (\<lambda>n. n) (map ?g (mc_order c))"
    using assms(1) iter_lru_eq[of c] by (auto simp: mc_inv_def mc_consistent_def)
  define d where "d = c\<lparr>mc_entries := (mc_entries c)(k \<mapsto> n), mc_order := ?ks @ [k],
      mc_current_bytes := lru_total (\<lambda>n. n) (map ?g ?ks) + n\<rparr>"
  have drop: "lru_drop k (iter_lru c) = map ?g ?ks"
    by (simp add: iter_lru_eq[OF inv(2)] map_drop_key)
  have total: "lru_total (\<lambda>n. n) (map ?g ?ks) +
      (case map_of (map ?g (mc_order c)) k of None \<Rightarrow> 0 | Some v \<Rightarrow> v) = mc_current_bytes c"
    using lru_drop_total[of "map ?g (mc_order c)" "\<lambda>n. n" k] inv by (simp add: map_drop_key o_def)
  have room: "lru_total (\<lambda>n. n) (map ?g ?ks) + n \<le> u64_max"
    using total assms by (simp add: mc_inv_def)
  have ins: "cache_insert k n c = evict_to_budget d"
  proof (cases "mc_entries c k")
    case None
    then have "k \<notin> set (mc_order c)" using inv(2) by auto
    then have "?ks = mc_order c" by (auto simp: filter_id_conv)
    then show ?thesis
      using None room inv(3) by (simp add: cache_insert_def Let_def d_def sat_add_exact)
  next
    case (Some v)
    then have "k \<in> set (mc_order c)" using inv(2) by auto
    then have "map_of (map ?g (mc_order c)) k = Some v"
      using Some by (simp add: map_of_map_restrict)
    then have "sat_sub (mc_current_bytes c) v = lru_total (\<lambda>n. n) (map ?g ?ks)"
      using total by (simp add: sat_sub_def)
    then show ?thesis
      using Some room inv(1) by (simp add: cache_insert_def Let_def d_def remove_from_order_def
          sat_add_exact remove1_order)
  qed
  have g: "map (\<lambda>j. (j, the (mc_entries d j))) (mc_order d) = map ?g ?ks @ [(k, n)]"
    by (auto simp: d_def)
  have "distinct (mc_order d)" "dom (mc_entries d) = set (mc_order d)"
    using inv by (auto simp: d_def)
  moreover have "mc_current_bytes d = lru_total (\<lambda>n. n) (map (\<lambda>j. (j, the (mc_entries d j))) (mc_order d))"
    unfolding g by (simp add: d_def)
  ultimately show ?thesis
    using evict_from_trim[of "mc_order d" d "[]"]
    unfolding ins evict_to_budget_def g lru_put_def drop by (simp add: d_def)
qed

lemma mc_touch_spec:
  assumes "mc_inv c"
  shows "mc_inv (cache_touch k c) \<and> iter_lru (cache_touch k c) = lru_get k (iter_lru c) \<and>
     mc_max_bytes (cache_touch k c) = mc_max_bytes c"
proof (cases "mc_entries c k")
  case None
  then have "map_of (iter_lru c) k = None"
    using assms by (auto simp: mc_inv_def mc_consistent_def iter_lru_eq map_of_map_restrict restrict_map_def)
  then show ?thesis using None assms by (simp add: cache_touch_def lru_get_def)
next
  case (Some v)
  let ?ks = "filter (\<lambda>j. j \<noteq> k) (mc_order c)"
  let ?g = "\<lambda>j. (j, the (mc_entries c j))"
  have inv: "distinct (mc_order c)" "dom (mc_entries c) = set (mc_order c)"
    "mc_current_bytes c = lru_total (\<lambda>n. n) (map ?g (mc_order c))" "mc_current_bytes c \<le> mc_max_bytes c"
    using assms iter_lru_eq[of c] by (auto simp: mc_inv_def mc_consistent_def)
  have k: "k \<in> set (mc_order c)" using Some inv(2) by auto
  then have look: "map_of (iter_lru c) k = Some v"
    using Some by (simp add: iter_lru_eq[OF inv(2)] map_of_map_restrict)
  have t: "cache_touch k c = c\<lparr>mc_order := ?ks @ [k]\<rparr>"
    using Some inv(1) by (simp add: cache_touch_def remove_from_order_def Let_def remove1_order)
  have iter: "iter_lru (cache_touch k c) = map ?g ?ks @ [(k, v)]"
    using inv(2) k Some unfolding t by (subst iter_lru_eq) auto
  have "lru_total (\<lambda>n. n) (map ?g ?ks) + v = lru_total (\<lambda>n. n) (map ?g (mc_order c))"
    using lru_drop_total[of "map ?g (mc_order c)" "\<lambda>n. n" k] inv look
    by (simp add: map_drop_key o_def iter_lru_eq[OF inv(2)])
  then have "mc_consistent (cache_touch k c)"
    unfolding mc_consistent_def iter using inv k by (auto simp: t)
  moreover have "iter_lru (cache_touch k c) = lru_get k (iter_lru c)"
    using look by (simp add: iter lru_get_def iter_lru_eq[OF inv(2)] map_drop_key)
  ultimately show ?thesis using inv(4) by (simp add: mc_inv_def t)
qed

interpretation media_lru: lru_cache mc_inv iter_lru "\<lambda>k n c. fst (cache_insert k n c)" cache_touch
  mc_current_bytes mc_max_bytes "\<lambda>n. n" "\<lambda>_. u64_max"
proof (unfold_locales, goal_cases)
  case (1 c)
  then show ?case by (simp add: mc_inv_def mc_consistent_def iter_lru_eq o_def)
next
  case (2 c) then show ?case by (simp add: mc_inv_def mc_consistent_def)
next
  case (3 c) then show ?case by (simp add: mc_inv_def)
next
  case (4 c v k) then show ?case using mc_insert_spec[of c v k] by simp
next
  case (5 c k) then show ?case using mc_touch_spec[of c k] by simp
qed

lemma new_media_cache_inv: "mc_inv (new_media_cache n)" "iter_lru (new_media_cache n) = []"
  "mc_max_bytes (new_media_cache n) = n"
  by (simp_all add: mc_inv_def mc_consistent_def new_media_cache_def iter_lru_def List.map_filter_simps)

text \<open>The media cache is a least-recently-used cache: whatever sequence of inserts and touches runs
  on a new cache, its entries in order are those of the specification, its running total is the sum of
  their sizes and within the budget (for sizes that leave room for the total below \<open>2 ^ 64\<close>).\<close>

theorem media_cache_is_lru:
  assumes "list_all (fits (\<lambda>n. n) m) us" "length us \<le> u64_max"
  shows "let c = fold (run_use (\<lambda>k n c. fst (cache_insert k n c)) cache_touch) us (new_media_cache m) in
     iter_lru c = fold (spec_use (\<lambda>n. n) m) us [] \<and>
     mc_current_bytes c = lru_total (\<lambda>n. n) (iter_lru c) \<and> mc_current_bytes c \<le> m"
  using media_lru.uses_abs[of "new_media_cache m" us] media_lru.uses_budget[of "new_media_cache m" us]
    assms by (simp add: new_media_cache_inv Let_def)

theorem media_cache_is_lru_witness:
  "iter_lru (fold (run_use (\<lambda>k n c. fst (cache_insert k n c)) cache_touch)
     [Put ''a'' 4, Put ''b'' 5, Get ''a'', Put ''c'' 4] (new_media_cache 10)) = [(''a'', 4), (''c'', 4)]"
proof -
  have "list_all (fits (\<lambda>n. n) 10) [Put ''a'' 4, Put ''b'' 5, Get ''a'', Put ''c'' 4]"
    by (simp add: fits_def u64_max_def)
  from media_cache_is_lru[OF this] show ?thesis
    by (simp add: Let_def u64_max_def lru_put_def lru_get_def)
qed

end
