(* ===== verification/Bloom.thy ===== *)
theory Bloom
  imports Prelude
begin

text \<open>
  The per-bucket bloom filter of \<open>search/shard_builder.rs\<close>.  The keyed BLAKE3 hash is the parameter
  \<open>h\<close> (key, then message); nothing is assumed of it.  \<open>set_bit\<close> ignores and \<open>get_bit\<close> denies a position
  past the array, so the well-formedness \<open>bloom_wf\<close> of the array length is what excludes false
  negatives.
\<close>

unbundle bit_operations_syntax

record bloom_filter =
  bf_bit_count :: nat
  bf_hash_count :: nat
  bf_bits :: bytes

definition bloom_hash_count :: nat where
  "bloom_hash_count = 3"

definition for_expected_count :: "nat \<Rightarrow> nat \<Rightarrow> bloom_filter" where
  "for_expected_count expected_count hash_count =
     (let bits_needed = min (expected_count * 12) u64_max;
          bit_count = (max bits_needed 64 + 7) div 8 * 8
      in \<lparr>bf_bit_count = bit_count, bf_hash_count = max hash_count 1,
          bf_bits = replicate (bit_count div 8) 0\<rparr>)"

definition le_bytes :: "nat \<Rightarrow> nat \<Rightarrow> bytes" where
  "le_bytes n v = map (\<lambda>i. word_of_nat (v div 256 ^ i)) [0..<n]"

definition le_value :: "bytes \<Rightarrow> nat" where
  "le_value bs = foldr (\<lambda>b acc. unat b + 256 * acc) bs 0"

definition slot_key :: "nat \<Rightarrow> bytes" where
  "slot_key slot =
     (let prefix = map (\<lambda>c. word_of_nat (of_char c)) ''kchat-bloom-shard-slot-''
      in prefix @ le_bytes 4 slot @ replicate (32 - (length prefix + 4)) 0)"

definition position :: "(bytes \<Rightarrow> bytes \<Rightarrow> bytes) \<Rightarrow> bloom_filter \<Rightarrow> bytes \<Rightarrow> nat \<Rightarrow> nat" where
  "position h f w slot =
     (let v = le_value (take 8 (h (slot_key slot) w))
      in if bf_bit_count f = 0 then 0 else v mod bf_bit_count f)"

definition set_bit_at :: "nat \<Rightarrow> bloom_filter \<Rightarrow> bloom_filter" where
  "set_bit_at pos f =
     (let i = pos div 8 in
      if i < length (bf_bits f)
      then f\<lparr>bf_bits := (bf_bits f)[i := (bf_bits f ! i) OR push_bit (pos mod 8) 1]\<rparr>
      else f)"

definition get_bit_at :: "bloom_filter \<Rightarrow> nat \<Rightarrow> bool" where
  "get_bit_at f pos =
     (let i = pos div 8 in
      if i \<ge> length (bf_bits f) then False
      else drop_bit (pos mod 8) (bf_bits f ! i) AND 1 = 1)"

definition insert_word :: "(bytes \<Rightarrow> bytes \<Rightarrow> bytes) \<Rightarrow> bytes \<Rightarrow> bloom_filter \<Rightarrow> bloom_filter" where
  "insert_word h w f = fold (\<lambda>slot g. set_bit_at (position h g w slot) g) [0..<bf_hash_count f] f"

definition maybe_contains :: "(bytes \<Rightarrow> bytes \<Rightarrow> bytes) \<Rightarrow> bloom_filter \<Rightarrow> bytes \<Rightarrow> bool" where
  "maybe_contains h f w = list_all (\<lambda>slot. get_bit_at f (position h f w slot)) [0..<bf_hash_count f]"

definition from_words :: "(bytes \<Rightarrow> bytes \<Rightarrow> bytes) \<Rightarrow> bytes list \<Rightarrow> nat \<Rightarrow> bloom_filter" where
  "from_words h ws expected_count =
     fold (insert_word h) ws (for_expected_count (max expected_count (length ws)) bloom_hash_count)"

subsection \<open>The filter as the set of its bits\<close>

definition bloom_wf :: "bloom_filter \<Rightarrow> bool" where
  "bloom_wf f \<longleftrightarrow> 0 < bf_bit_count f \<and> bf_bit_count f = 8 * length (bf_bits f)"

definition same_shape :: "bloom_filter \<Rightarrow> bloom_filter \<Rightarrow> bool" where
  "same_shape f g \<longleftrightarrow> bf_bit_count f = bf_bit_count g \<and> bf_hash_count f = bf_hash_count g \<and>
     length (bf_bits f) = length (bf_bits g)"

lemma bit_test: "drop_bit n w AND 1 = 1 \<longleftrightarrow> bit (w :: 8 word) n"
  by (simp add: bit_iff_odd_drop_bit and_one_eq odd_iff_mod_2_eq_one)

lemma get_set_bit:
  assumes "p < 8 * length (bf_bits f)"
  shows "get_bit_at (set_bit_at p f) q \<longleftrightarrow> q = p \<or> get_bit_at f q"
proof (cases "q div 8 < length (bf_bits f)")
  case False
  then have "q \<noteq> p" using assms by auto
  then show ?thesis using False by (simp add: get_bit_at_def set_bit_at_def Let_def)
next
  case True
  have p: "p div 8 < length (bf_bits f)" using assms by auto
  have "bit (push_bit (p mod 8) 1 :: 8 word) (q mod 8) \<longleftrightarrow> q mod 8 = p mod 8"
    by (auto simp: bit_exp_iff)
  moreover have "q = p \<longleftrightarrow> q div 8 = p div 8 \<and> q mod 8 = p mod 8"
    by (metis div_mult_mod_eq)
  ultimately show ?thesis
    using True p by (auto simp: get_bit_at_def set_bit_at_def Let_def bit_test bit_or_iff nth_list_update)
qed

lemma set_bit_shape [simp]: "same_shape (set_bit_at p f) f"
  by (simp add: same_shape_def set_bit_at_def Let_def)

lemma position_shape: "same_shape f g \<Longrightarrow> position h f w s = position h g w s"
  by (simp add: position_def same_shape_def)

lemma shape_wf: "same_shape f g \<Longrightarrow> bloom_wf f \<longleftrightarrow> bloom_wf g"
  by (simp add: same_shape_def bloom_wf_def)

lemma position_bound: "bloom_wf f \<Longrightarrow> position h f w s < 8 * length (bf_bits f)"
  by (auto simp: position_def bloom_wf_def Let_def)

lemma insert_slots:
  assumes "bloom_wf f"
  shows "same_shape (fold (\<lambda>slot g. set_bit_at (position h g w slot) g) slots f) f \<and>
     (get_bit_at (fold (\<lambda>slot g. set_bit_at (position h g w slot) g) slots f) q \<longleftrightarrow>
        get_bit_at f q \<or> (\<exists>s \<in> set slots. q = position h f w s))"
  using assms
proof (induction slots arbitrary: f)
  case (Cons s slots)
  let ?f = "set_bit_at (position h f w s) f"
  have shape: "same_shape ?f f" by simp
  then have "bloom_wf ?f" using Cons.prems shape_wf by blast
  note IH = Cons.IH[OF this]
  have "same_shape (fold (\<lambda>slot g. set_bit_at (position h g w slot) g) slots ?f) f"
    using IH shape by (simp add: same_shape_def)
  then show ?case
    using IH get_set_bit[OF position_bound[OF Cons.prems]] position_shape[OF shape] by auto
qed (simp add: same_shape_def)

lemma insert_word_shape: "bloom_wf f \<Longrightarrow> same_shape (insert_word h w f) f"
  using insert_slots by (simp add: insert_word_def)

lemma get_insert_word:
  "bloom_wf f \<Longrightarrow> get_bit_at (insert_word h w f) q \<longleftrightarrow>
     get_bit_at f q \<or> (\<exists>s < bf_hash_count f. q = position h f w s)"
  using insert_slots[of f h w "[0..<bf_hash_count f]" q] by (auto simp: insert_word_def)

lemma insert_words:
  assumes "bloom_wf f"
  shows "same_shape (fold (insert_word h) ws f) f \<and>
     (get_bit_at (fold (insert_word h) ws f) q \<longleftrightarrow>
        get_bit_at f q \<or> (\<exists>v \<in> set ws. \<exists>s < bf_hash_count f. q = position h f v s))"
  using assms
proof (induction ws arbitrary: f)
  case (Cons w ws)
  have shape: "same_shape (insert_word h w f) f" using Cons.prems by (rule insert_word_shape)
  then have "bloom_wf (insert_word h w f)" using Cons.prems shape_wf by blast
  note IH = Cons.IH[OF this]
  have "same_shape (fold (insert_word h) ws (insert_word h w f)) f"
    using IH shape by (simp add: same_shape_def)
  moreover have "bf_hash_count (insert_word h w f) = bf_hash_count f"
    using shape by (simp add: same_shape_def)
  ultimately show ?case
    using IH get_insert_word[OF Cons.prems] position_shape[OF shape] by auto
qed (simp add: same_shape_def)

lemma fresh_filter:
  "bloom_wf (for_expected_count n k)" "get_bit_at (for_expected_count n k) q = False"
  "bf_hash_count (for_expected_count n k) = max k 1"
proof -
  have "(max (min (n * 12) u64_max) 64 + 7) div 8 \<noteq> 0" by simp
  then show "bloom_wf (for_expected_count n k)"
    by (simp add: bloom_wf_def for_expected_count_def Let_def)
qed (auto simp: for_expected_count_def get_bit_at_def Let_def bit_test)

lemma from_words_shape: "same_shape (from_words h ws n) (for_expected_count (max n (length ws)) bloom_hash_count)"
  using insert_words[OF fresh_filter(1), of h ws] by (simp add: from_words_def)


lemma bloom_positives:
  "maybe_contains h (from_words h ws n) w \<longleftrightarrow>
     list_all (\<lambda>s. list_ex (\<lambda>v. list_ex (\<lambda>t. position h (from_words h ws n) w s =
        position h (from_words h ws n) v t) [0..<3]) ws) [0..<3]"
proof -
  let ?f = "for_expected_count (max n (length ws)) bloom_hash_count"
  have w: "bloom_wf ?f" by (rule fresh_filter)
  note shape = from_words_shape[of h ws n]
  have k: "bf_hash_count ?f = 3" by (simp add: fresh_filter bloom_hash_count_def)
  have "bf_hash_count (from_words h ws n) = 3" using shape k by (simp add: same_shape_def)
  moreover have "get_bit_at (from_words h ws n) q \<longleftrightarrow>
      (\<exists>v \<in> set ws. \<exists>t \<in> set [0..<3]. q = position h ?f v t)" for q
    using insert_words[OF w, of h ws q] k fresh_filter(2)
    by (simp add: from_words_def atLeast0LessThan Bex_def)
  ultimately show ?thesis
    unfolding maybe_contains_def list_all_iff list_ex_iff position_shape[OF shape] by simp
qed

text \<open>False positives, exactly: a filter built from a list of words reports a word if and only if
  every one of its three positions is a position of some listed word.\<close>

theorem bloom_positives_exact:
  "maybe_contains h (from_words h ws n) w \<longleftrightarrow>
     list_all (\<lambda>s. list_ex (\<lambda>v. list_ex (\<lambda>t. position h (from_words h ws n) w s =
        position h (from_words h ws n) v t) [0..<3]) ws) [0..<3]"
  by (rule bloom_positives)

end
