(* ===== verification/Shard_Cache.thy ===== *)
theory Shard_Cache
  imports Lru_Cache Schema Bloom Resource_Gate
begin

text \<open>
  The cache of decrypted search shards (\<open>search/shard_cache.rs\<close>): a hash map from a key to the shard,
  its size and the tick of its last use.  The map is an association list with distinct keys whose order
  plays no part, since eviction sorts by the ticks and these differ.  The second half is
  \<open>warm_shard_cache\<close>, with the cold source's three fetches as parameters.
\<close>

subsection \<open>Payloads and their sizes\<close>

datatype index_type = BloomIndex | TextIndex | FuzzyIndex | VectorIndex | MediaIndex

record shard_cache_key =
  sk_conversation :: string
  sk_time_bucket :: string
  sk_index_type :: index_type

datatype cached_shard =
    TextShard "fts_row list"
  | FuzzyShard "fuzzy_row list"
  | BloomShard bloom_filter

text \<open>Length of a text in UTF-8, which is what \<open>String::len\<close> is.\<close>

definition utf8_len :: "utext \<Rightarrow> nat" where
  "utf8_len t = (\<Sum>c \<leftarrow> t. if c < 128 then 1 else if c < 2048 then 2 else if c < 65536 then 3 else 4)"

text \<open>The sizes of the three Rust structs depend on the target; they are \<open>struct_sizes\<close>.\<close>

record struct_sizes =
  sz_fts_row :: nat
  sz_fuzzy_row :: nat
  sz_bloom_filter :: nat

definition approximate_text_rows_bytes :: "struct_sizes \<Rightarrow> fts_row list \<Rightarrow> nat" where
  "approximate_text_rows_bytes z rows =
     length rows * sz_fts_row z +
     (\<Sum>r \<leftarrow> rows. length (ft_message_id r) + length (ft_conversation_id r) +
        length (ft_sender_id r) + utf8_len (ft_text r))"

definition approximate_fuzzy_rows_bytes :: "struct_sizes \<Rightarrow> fuzzy_row list \<Rightarrow> nat" where
  "approximate_fuzzy_rows_bytes z rows =
     length rows * sz_fuzzy_row z +
     (\<Sum>r \<leftarrow> rows. utf8_len (fz_token r) + length (fz_script r) + length (fz_message_id r))"

definition approximate_bloom_filter_bytes :: "struct_sizes \<Rightarrow> bloom_filter \<Rightarrow> nat" where
  "approximate_bloom_filter_bytes z f = sz_bloom_filter z + (bf_bit_count f + 7) div 8"

primrec approximate_bytes :: "struct_sizes \<Rightarrow> cached_shard \<Rightarrow> nat" where
  "approximate_bytes z (TextShard rows) = approximate_text_rows_bytes z rows"
| "approximate_bytes z (FuzzyShard rows) = approximate_fuzzy_rows_bytes z rows"
| "approximate_bytes z (BloomShard f) = approximate_bloom_filter_bytes z f"

subsection \<open>The cache\<close>

record 'v shard_entry =
  en_shard :: 'v
  en_bytes :: nat
  en_last_used :: nat

record ('k, 'v) shard_cache =
  sc_entries :: "('k \<times> 'v shard_entry) list"
  sc_bytes :: nat
  sc_max_bytes :: nat
  sc_tick :: nat

definition new_shard_cache :: "nat \<Rightarrow> ('k, 'v) shard_cache" where
  "new_shard_cache max_bytes = \<lparr>sc_entries = [], sc_bytes = 0, sc_max_bytes = max_bytes, sc_tick = 0\<rparr>"

definition shard_get :: "'k \<Rightarrow> ('k, 'v) shard_cache \<Rightarrow> ('k, 'v) shard_cache \<times> 'v option" where
  "shard_get k c =
     (let tick = sat_add (sc_tick c) 1;
          c = c\<lparr>sc_tick := tick\<rparr>
      in case map_of (sc_entries c) k of
           None \<Rightarrow> (c, None)
         | Some e \<Rightarrow>
             (c\<lparr>sc_entries := map (\<lambda>(j, x). if j = k then (j, x\<lparr>en_last_used := tick\<rparr>) else (j, x))
                  (sc_entries c)\<rparr>,
              Some (en_shard e)))"

fun evict_by_age :: "('k \<times> nat) list \<Rightarrow> ('k, 'v) shard_cache \<Rightarrow> ('k, 'v) shard_cache" where
  "evict_by_age [] c = c"
| "evict_by_age ((k, t) # rest) c =
     (if sc_bytes c \<le> sc_max_bytes c then c
      else case map_of (sc_entries c) k of
             Some e \<Rightarrow> evict_by_age rest
               (c\<lparr>sc_entries := lru_drop k (sc_entries c), sc_bytes := sat_sub (sc_bytes c) (en_bytes e)\<rparr>)
           | None \<Rightarrow> evict_by_age rest c)"

definition evict_lru :: "('k, 'v) shard_cache \<Rightarrow> ('k, 'v) shard_cache" where
  "evict_lru c =
     (if sc_bytes c \<le> sc_max_bytes c then c
      else evict_by_age (sort_key snd (map (\<lambda>(k, e). (k, en_last_used e)) (sc_entries c))) c)"

definition shard_put :: "('v \<Rightarrow> nat) \<Rightarrow> 'k \<Rightarrow> 'v \<Rightarrow> ('k, 'v) shard_cache \<Rightarrow> ('k, 'v) shard_cache" where
  "shard_put shard_bytes k v c =
     (let tick = sat_add (sc_tick c) 1;
          n = shard_bytes v;
          c = c\<lparr>sc_tick := tick\<rparr>;
          c = (case map_of (sc_entries c) k of
                 Some prev \<Rightarrow> c\<lparr>sc_entries := lru_drop k (sc_entries c),
                                sc_bytes := sat_sub (sc_bytes c) (en_bytes prev)\<rparr>
               | None \<Rightarrow> c);
          c = c\<lparr>sc_bytes := sat_add (sc_bytes c) n,
                sc_entries := sc_entries c @ [(k, \<lparr>en_shard = v, en_bytes = n, en_last_used = tick\<rparr>)]\<rparr>
      in evict_lru c)"

definition shard_clear :: "('k, 'v) shard_cache \<Rightarrow> ('k, 'v) shard_cache" where
  "shard_clear c = c\<lparr>sc_entries := [], sc_bytes := 0\<rparr>"

subsection \<open>The cache as an LRU list\<close>

abbreviation by_age :: "('k \<times> 'v shard_entry) list \<Rightarrow> ('k \<times> 'v shard_entry) list" where
  "by_age es \<equiv> sort_key (\<lambda>(k, e). en_last_used e) es"

definition sc_abs :: "('k, 'v) shard_cache \<Rightarrow> ('k \<times> 'v) list" where
  "sc_abs c = map (\<lambda>(k, e). (k, en_shard e)) (by_age (sc_entries c))"

definition sc_consistent :: "('v \<Rightarrow> nat) \<Rightarrow> ('k, 'v) shard_cache \<Rightarrow> bool" where
  "sc_consistent sz c \<longleftrightarrow>
     distinct (map fst (sc_entries c)) \<and>
     distinct (map (\<lambda>(k, e). en_last_used e) (sc_entries c)) \<and>
     list_all (\<lambda>(k, e). en_bytes e = sz (en_shard e) \<and> en_last_used e \<le> sc_tick c) (sc_entries c) \<and>
     sc_bytes c = (\<Sum>(k, e) \<leftarrow> sc_entries c. en_bytes e)"

definition sc_inv :: "('v \<Rightarrow> nat) \<Rightarrow> ('k, 'v) shard_cache \<Rightarrow> bool" where
  "sc_inv sz c \<longleftrightarrow> sc_consistent sz c \<and> sc_bytes c \<le> sc_max_bytes c \<and> sc_tick c \<le> u64_max"

definition sc_room :: "('k, 'v) shard_cache \<Rightarrow> nat" where
  "sc_room c = u64_max - sc_tick c"

lemma sum_list_by_age: "(\<Sum>x \<leftarrow> by_age es. f x :: nat) = (\<Sum>x \<leftarrow> es. f x)"
  by (metis mset_map mset_sort sum_mset_sum_list)

lemma sort_key_snoc_max:
  assumes "\<And>y. y \<in> set xs \<Longrightarrow> f y < f x"
  shows "sort_key f (xs @ [x]) = sort_key f xs @ [x]"
proof (rule properties_for_sort_key)
  show "mset (sort_key f xs @ [x]) = mset (xs @ [x])" by simp
  show "filter (\<lambda>y. f k = f y) (sort_key f xs @ [x]) = filter (\<lambda>y. f k = f y) (xs @ [x])" for k
    using sort_key_stable[of f "f k" xs] by (simp add: eq_commute)
  show "sorted (map f (sort_key f xs @ [x]))"
    using assms by (auto simp: sorted_append order_less_imp_le)
qed

lemma by_age_drop: "by_age (lru_drop k es) = lru_drop k (by_age es)"
  by (simp add: lru_drop_def filter_sort)

lemma map_lru_drop: "map (\<lambda>(j, e). (j, g e)) (lru_drop k es) = lru_drop k (map (\<lambda>(j, e). (j, g e)) es)"
  by (induction es) auto

lemma evict_by_age_spec:
  assumes "distinct (map fst es)" "mset es = mset (sc_entries c)"
    "sc_bytes c = (\<Sum>(k, e) \<leftarrow> es. en_bytes e)"
  shows "\<exists>n. (\<lambda>c'. mset (sc_entries c') = mset (drop n es) \<and> sc_bytes c' = (\<Sum>(k, e) \<leftarrow> drop n es. en_bytes e) \<and>
     sc_bytes c' \<le> sc_max_bytes c \<and> sc_max_bytes c' = sc_max_bytes c \<and> sc_tick c' = sc_tick c \<and>
     distinct (map fst (sc_entries c')) \<and> (\<forall>i < n. sc_max_bytes c < (\<Sum>(k, e) \<leftarrow> drop i es. en_bytes e)))
     (evict_by_age (map (\<lambda>(k, e). (k, en_last_used e)) es) c)"
  using assms
proof (induction es arbitrary: c)
  case Nil
  then show ?case by (intro exI[of _ 0]) simp
next
  case (Cons x es)
  obtain k e where x: "x = (k, e)" by (cases x)
  have dist: "distinct (map fst (sc_entries c))"
    using Cons.prems(1,2) by (metis distinct_map mset_eq_imp_distinct_iff mset_map)
  show ?case
  proof (cases "sc_bytes c \<le> sc_max_bytes c")
    case True
    then show ?thesis using Cons.prems dist x by (intro exI[of _ 0]) simp
  next
    case False
    have "(k, e) \<in> set (sc_entries c)" using Cons.prems(2) x by (metis list.set_intros(1) set_mset_mset)
    then have look: "map_of (sc_entries c) k = Some e" using dist by simp
    let ?c = "c\<lparr>sc_entries := lru_drop k (sc_entries c), sc_bytes := sat_sub (sc_bytes c) (en_bytes e)\<rparr>"
    have k: "k \<notin> fst ` set es" using Cons.prems(1) x by simp
    have "mset (lru_drop k (sc_entries c)) = mset (lru_drop k (x # es))"
      unfolding lru_drop_def mset_filter Cons.prems(2) by simp
    then have "mset es = mset (sc_entries ?c)" using k x by (simp add: lru_drop_fresh)
    moreover have "sc_bytes ?c = (\<Sum>(k, e) \<leftarrow> es. en_bytes e)"
      using Cons.prems(3) x by (simp add: sat_sub_def)
    ultimately obtain n where n: "(\<lambda>c'. mset (sc_entries c') = mset (drop n es) \<and>
        sc_bytes c' = (\<Sum>(k, e) \<leftarrow> drop n es. en_bytes e) \<and>
        sc_bytes c' \<le> sc_max_bytes ?c \<and> sc_max_bytes c' = sc_max_bytes ?c \<and> sc_tick c' = sc_tick ?c \<and>
        distinct (map fst (sc_entries c')) \<and> (\<forall>i < n. sc_max_bytes ?c < (\<Sum>(k, e) \<leftarrow> drop i es. en_bytes e)))
        (evict_by_age (map (\<lambda>(k, e). (k, en_last_used e)) es) ?c)"
      using Cons.IH[of ?c] Cons.prems(1) by auto
    have step: "evict_by_age (map (\<lambda>(k, e). (k, en_last_used e)) (x # es)) c =
        evict_by_age (map (\<lambda>(k, e). (k, en_last_used e)) es) ?c"
      using False look x by simp
    have "sc_max_bytes c < (\<Sum>(k, e) \<leftarrow> drop i (x # es). en_bytes e)" if "i < Suc n" for i
      using that n False Cons.prems(3) by (cases i) auto
    then show ?thesis
      unfolding step using n by (intro exI[of _ "Suc n"]) auto
  qed
qed

lemma lru_trim_drop:
  assumes "\<And>i. i < n \<Longrightarrow> budget < lru_total sz (drop i xs)" "lru_total sz (drop n xs) \<le> budget"
  shows "lru_trim sz budget xs = drop n xs"
  using assms
proof (induction n arbitrary: xs)
  case 0
  then show ?case by (simp add: lru_trim_id)
next
  case (Suc n)
  then have "\<not> lru_total sz xs \<le> budget" by fastforce
  moreover obtain x ys where "xs = x # ys" using calculation by (cases xs) auto
  moreover have "lru_trim sz budget ys = drop n ys"
    using Suc.prems calculation(2) by (intro Suc.IH) fastforce+
  ultimately show ?case by simp
qed

lemma entries_total:
  "list_all (\<lambda>(k, e). en_bytes e = sz (en_shard e) \<and> P e) es \<Longrightarrow>
     (\<Sum>(k, e) \<leftarrow> es. en_bytes e) = lru_total sz (map (\<lambda>(k, e). (k, en_shard e)) es)"
  by (induction es) auto

lemma by_age_unique:
  assumes "mset xs = mset ys" "distinct (map (\<lambda>(k, e). en_last_used e) ys)"
    "sorted (map (\<lambda>(k, e). en_last_used e) ys)"
  shows "by_age xs = ys"
proof -
  have "inj_on (\<lambda>(k, e). en_last_used e) (set ys)" using assms(2) by (simp add: distinct_map)
  then have "sort_key (\<lambda>(k, e). en_last_used e) xs = sort_key (\<lambda>(k, e). en_last_used e) ys"
    using assms(1) by (intro sort_key_inj_key_eq) (simp_all add: set_mset_mset[symmetric] del: set_mset_mset)
  then show ?thesis using assms(3) by (simp add: sort_key_id_if_sorted)
qed

text \<open>Evicting from a consistent cache trims its LRU list.\<close>

lemma evict_lru_spec:
  assumes "sc_consistent sz c"
  shows "sc_consistent sz (evict_lru c) \<and> sc_bytes (evict_lru c) \<le> sc_max_bytes c \<and>
     sc_max_bytes (evict_lru c) = sc_max_bytes c \<and> sc_tick (evict_lru c) = sc_tick c \<and>
     sc_abs (evict_lru c) = lru_trim sz (sc_max_bytes c) (sc_abs c)"
proof (cases "sc_bytes c \<le> sc_max_bytes c")
  case True
  have "sc_bytes c = lru_total sz (sc_abs c)"
    using assms entries_total[of sz "\<lambda>e. en_last_used e \<le> sc_tick c" "by_age (sc_entries c)"]
    by (simp add: sc_consistent_def sc_abs_def sum_list_by_age list_all_iff)
  then show ?thesis using True assms by (simp add: evict_lru_def lru_trim_id)
next
  case False
  let ?es = "by_age (sc_entries c)"
  let ?g = "\<lambda>(k, e). (k, en_shard e)"
  have order: "sort_key snd (map (\<lambda>(k, e). (k, en_last_used e)) (sc_entries c)) =
      map (\<lambda>(k, e). (k, en_last_used e)) ?es"
    by (simp add: sort_key_map case_prod_unfold)
  have es: "distinct (map fst ?es)" "mset ?es = mset (sc_entries c)"
    "sc_bytes c = (\<Sum>(k, e) \<leftarrow> ?es. en_bytes e)"
    "distinct (map (\<lambda>(k, e). en_last_used e) ?es)"
    "list_all (\<lambda>(k, e). en_bytes e = sz (en_shard e) \<and> en_last_used e \<le> sc_tick c) ?es"
    using assms by (simp_all add: sc_consistent_def sort_key_distinct_map sum_list_by_age list_all_iff)
  obtain n where n: "mset (sc_entries (evict_lru c)) = mset (drop n ?es)"
      "sc_bytes (evict_lru c) = (\<Sum>(k, e) \<leftarrow> drop n ?es. en_bytes e)"
      "sc_bytes (evict_lru c) \<le> sc_max_bytes c" "sc_max_bytes (evict_lru c) = sc_max_bytes c"
      "sc_tick (evict_lru c) = sc_tick c" "distinct (map fst (sc_entries (evict_lru c)))"
      "\<And>i. i < n \<Longrightarrow> sc_max_bytes c < (\<Sum>(k, e) \<leftarrow> drop i ?es. en_bytes e)"
    using evict_by_age_spec[OF es(1-3)] False by (auto simp: evict_lru_def order)
  have all_drop: "list_all (\<lambda>(k, e). en_bytes e = sz (en_shard e) \<and> en_last_used e \<le> sc_tick c) (drop i ?es)" for i
    using es(5) unfolding list_all_iff by (blast dest: in_set_dropD)
  have total: "(\<Sum>(k, e) \<leftarrow> drop i ?es. en_bytes e) = lru_total sz (drop i (map ?g ?es))" for i
    using entries_total[OF all_drop[of i]] by (simp add: drop_map)
  have stamps: "distinct (map (\<lambda>(k, e). en_last_used e) (drop n ?es))"
    using es(4) by (simp add: drop_map[symmetric])
  have "sorted (map (\<lambda>(k, e). en_last_used e) (drop n ?es))"
    using sorted_sort_key[of "\<lambda>(k, e). en_last_used e" "sc_entries c"]
    by (simp only: drop_map[symmetric] sorted_wrt_drop)
  then have abs: "by_age (sc_entries (evict_lru c)) = drop n ?es"
    using by_age_unique[OF n(1) stamps] by blast
  have cons: "sc_consistent sz (evict_lru c)"
    unfolding sc_consistent_def
  proof (intro conjI)
    have members: "set (sc_entries (evict_lru c)) = set (drop n ?es)"
      using n(1) by (metis set_mset_mset)
    show "distinct (map (\<lambda>(k, e). en_last_used e) (sc_entries (evict_lru c)))"
      using stamps n(1) by (metis mset_eq_imp_distinct_iff mset_map)
    show "list_all (\<lambda>(k, e). en_bytes e = sz (en_shard e) \<and> en_last_used e \<le> sc_tick (evict_lru c))
        (sc_entries (evict_lru c))"
      using all_drop[of n] unfolding list_all_iff n(5) members .
    show "sc_bytes (evict_lru c) = (\<Sum>(k, e) \<leftarrow> sc_entries (evict_lru c). en_bytes e)"
      using n(1,2) by (metis mset_map sum_mset_sum_list)
  qed (rule n(6))
  have "lru_trim sz (sc_max_bytes c) (map ?g ?es) = drop n (map ?g ?es)"
    using n(2,3,7) total by (intro lru_trim_drop) simp_all
  then show ?thesis
    using n cons by (simp add: sc_abs_def abs drop_map)
qed

lemma sum_drop_key:
  "distinct (map fst es) \<Longrightarrow> map_of es k = Some e \<Longrightarrow>
     (\<Sum>(j, x) \<leftarrow> lru_drop k es. en_bytes x) + en_bytes e = (\<Sum>(j, x) \<leftarrow> es. en_bytes x)"
proof (induction es)
  case (Cons x es)
  then show ?case by (cases x) (auto simp: lru_drop_fresh split: if_splits)
qed simp

lemma set_lru_drop: "set (lru_drop k es) = {x \<in> set es. fst x \<noteq> k}"
  by (auto simp: lru_drop_def)

lemma distinct_stamp_drop:
  "distinct (map (\<lambda>(k, e). en_last_used e) es) \<Longrightarrow> distinct (map (\<lambda>(k, e). en_last_used e) (lru_drop k es))"
  by (simp add: lru_drop_def distinct_map_filter_key)

lemma shard_put_spec:
  assumes "sc_inv sz c" "sc_tick c < u64_max" "sc_max_bytes c + sz v \<le> u64_max"
  shows "sc_inv sz (shard_put sz k v c) \<and> sc_abs (shard_put sz k v c) = lru_put sz (sc_max_bytes c) k v (sc_abs c) \<and>
     sc_max_bytes (shard_put sz k v c) = sc_max_bytes c \<and> sc_tick (shard_put sz k v c) = Suc (sc_tick c)"
proof -
  let ?es = "lru_drop k (sc_entries c)"
  let ?e = "\<lparr>en_shard = v, en_bytes = sz v, en_last_used = Suc (sc_tick c)\<rparr>"
  have inv: "distinct (map fst (sc_entries c))" "distinct (map (\<lambda>(k, e). en_last_used e) (sc_entries c))"
    "list_all (\<lambda>(k, e). en_bytes e = sz (en_shard e) \<and> en_last_used e \<le> sc_tick c) (sc_entries c)"
    "sc_bytes c = (\<Sum>(k, e) \<leftarrow> sc_entries c. en_bytes e)" "sc_bytes c \<le> sc_max_bytes c"
    using assms(1) by (simp_all add: sc_inv_def sc_consistent_def)
  define d where "d = c\<lparr>sc_tick := Suc (sc_tick c),
      sc_bytes := (\<Sum>(j, x) \<leftarrow> ?es. en_bytes x) + sz v, sc_entries := ?es @ [(k, ?e)]\<rparr>"
  have tick: "sat_add (sc_tick c) (Suc 0) = Suc (sc_tick c)" using assms(2) by (simp add: sat_add_def)
  have rest: "(\<Sum>(j, x) \<leftarrow> ?es. en_bytes x) =
      (case map_of (sc_entries c) k of None \<Rightarrow> sc_bytes c | Some e \<Rightarrow> sc_bytes c - en_bytes e)"
    using sum_drop_key[OF inv(1), of k] inv(4)
    by (auto simp: map_of_eq_None_iff lru_drop_fresh split: option.splits)
  have "(\<Sum>(j, x) \<leftarrow> ?es. en_bytes x) + sz v \<le> u64_max"
    using rest inv(5) assms(3) by (auto split: option.splits)
  then have put: "shard_put sz k v c = evict_lru d"
    using rest lru_drop_fresh[of k "sc_entries c"] by (cases "map_of (sc_entries c) k")
      (simp_all add: shard_put_def Let_def tick d_def sat_sub_def sat_add_exact
        map_of_eq_None_iff[symmetric])
  have cons: "sc_consistent sz d"
    unfolding sc_consistent_def
  proof (intro conjI)
    show "distinct (map fst (sc_entries d))"
      using inv(1) by (simp add: d_def lru_drop_keys flip: set_map)
    have "Suc (sc_tick c) \<notin> (\<lambda>(k, e). en_last_used e) ` set ?es"
      using inv(3) by (auto simp: set_lru_drop list_all_iff)
    then show "distinct (map (\<lambda>(k, e). en_last_used e) (sc_entries d))"
      using distinct_stamp_drop[OF inv(2)] by (simp add: d_def)
    show "list_all (\<lambda>(k, e). en_bytes e = sz (en_shard e) \<and> en_last_used e \<le> sc_tick d) (sc_entries d)"
      using inv(3) by (auto simp: d_def list_all_iff set_lru_drop)
  qed (simp add: d_def)
  have "by_age (?es @ [(k, ?e)]) = by_age ?es @ [(k, ?e)]"
    using inv(3) by (intro sort_key_snoc_max) (auto simp: set_lru_drop list_all_iff)
  then have abs: "sc_abs d = lru_drop k (sc_abs c) @ [(k, v)]"
    by (simp add: sc_abs_def d_def by_age_drop map_lru_drop)
  show ?thesis
    using evict_lru_spec[OF cons] assms(2) unfolding put lru_put_def abs
    by (simp add: sc_inv_def d_def)
qed

lemma shard_get_spec:
  assumes "sc_inv sz c" "sc_tick c < u64_max"
  shows "sc_inv sz (fst (shard_get k c)) \<and> sc_abs (fst (shard_get k c)) = lru_get k (sc_abs c) \<and>
     snd (shard_get k c) = map_of (sc_abs c) k \<and>
     sc_max_bytes (fst (shard_get k c)) = sc_max_bytes c \<and> sc_tick (fst (shard_get k c)) = Suc (sc_tick c)"
proof -
  have inv: "distinct (map fst (sc_entries c))" "distinct (map (\<lambda>(k, e). en_last_used e) (sc_entries c))"
    "list_all (\<lambda>(k, e). en_bytes e = sz (en_shard e) \<and> en_last_used e \<le> sc_tick c) (sc_entries c)"
    "sc_bytes c = (\<Sum>(k, e) \<leftarrow> sc_entries c. en_bytes e)" "sc_bytes c \<le> sc_max_bytes c"
    using assms(1) by (simp_all add: sc_inv_def sc_consistent_def)
  have tick: "sat_add (sc_tick c) (Suc 0) = Suc (sc_tick c)" using assms(2) by (simp add: sat_add_def)
  have look: "map_of (sc_abs c) k = map_option en_shard (map_of (sc_entries c) k)"
  proof -
    have "distinct (map fst (by_age (sc_entries c)))" using inv(1) by (rule sort_key_distinct_map)
    then have "map_of (by_age (sc_entries c)) = map_of (sc_entries c)"
      using inv(1) by (simp add: map_of_inject_set)
    then show ?thesis by (simp add: sc_abs_def map_of_map)
  qed
  show ?thesis
  proof (cases "map_of (sc_entries c) k")
    case None
    have "list_all (\<lambda>(k, e). en_bytes e = sz (en_shard e) \<and> en_last_used e \<le> Suc (sc_tick c)) (sc_entries c)"
      using inv(3) by (auto simp: list_all_iff)
    then show ?thesis
      using None look inv assms
      by (auto simp: shard_get_def Let_def tick sc_inv_def sc_consistent_def sc_abs_def lru_get_def)
  next
    case (Some e)
    let ?u = "\<lambda>(j, x). if j = k then (j, x\<lparr>en_last_used := Suc (sc_tick c)\<rparr>) else (j, x)"
    let ?e = "e\<lparr>en_last_used := Suc (sc_tick c)\<rparr>"
    let ?es = "lru_drop k (sc_entries c)"
    have upd: "mset (map ?u es) = mset (lru_drop k es @ [(k, ?e)])"
      if "distinct (map fst es)" "map_of es k = Some e" for es
      using that
    proof (induction es)
      case (Cons y es)
      obtain j x where y: "y = (j, x)" by (cases y)
      show ?case
      proof (cases "j = k")
        case True
        have fresh: "k \<notin> fst ` set es" using Cons.prems(1) y True by simp
        have "map ?u es = es"
        proof (rule map_idI)
          fix z assume "z \<in> set es"
          then have "fst z \<noteq> k" using fresh by (metis image_eqI)
          then show "?u z = z" by (simp add: case_prod_unfold)
        qed
        moreover have "lru_drop k es = es" using fresh by (rule lru_drop_fresh)
        ultimately show ?thesis using True y Cons.prems(2) by simp
      next
        case False
        then show ?thesis using Cons y by simp
      qed
    qed simp
    define d where "d = c\<lparr>sc_entries := map ?u (sc_entries c), sc_tick := Suc (sc_tick c)\<rparr>"
    have get: "shard_get k c = (d, Some (en_shard e))"
      using Some by (simp add: shard_get_def Let_def tick d_def)
    have ms: "mset (sc_entries d) = mset (?es @ [(k, ?e)])"
      using upd[OF inv(1) Some] by (simp add: d_def)
    have fresh: "Suc (sc_tick c) \<notin> (\<lambda>(k, e). en_last_used e) ` set ?es"
      using inv(3) by (auto simp: set_lru_drop list_all_iff)
    have stamps: "distinct (map (\<lambda>(k, e). en_last_used e) (?es @ [(k, ?e)]))"
      using fresh distinct_stamp_drop[OF inv(2)] by simp
    have e: "en_bytes e = sz (en_shard e)"
      using inv(3) Some by (auto simp: list_all_iff dest: map_of_SomeD)
    have cons: "sc_consistent sz d"
      unfolding sc_consistent_def
    proof (intro conjI)
      show "distinct (map fst (sc_entries d))"
        using inv(1) by (simp add: d_def case_prod_unfold if_distrib[of fst] o_def cong: if_cong)
      show "distinct (map (\<lambda>(k, e). en_last_used e) (sc_entries d))"
        using stamps ms by (metis mset_eq_imp_distinct_iff mset_map)
      show "list_all (\<lambda>(k, e). en_bytes e = sz (en_shard e) \<and> en_last_used e \<le> sc_tick d) (sc_entries d)"
        using inv(3) by (auto simp: d_def list_all_iff split: if_splits dest!: bspec intro: le_SucI)
      have "map (\<lambda>(j, x). en_bytes x) (sc_entries d) = map (\<lambda>(j, x). en_bytes x) (sc_entries c)"
        by (simp add: d_def case_prod_unfold)
      then have "(\<Sum>(j, x) \<leftarrow> sc_entries d. en_bytes x) = (\<Sum>(j, x) \<leftarrow> sc_entries c. en_bytes x)"
        by (rule arg_cong)
      then show "sc_bytes d = (\<Sum>(j, x) \<leftarrow> sc_entries d. en_bytes x)"
        using inv(4) by (simp add: d_def)
    qed
    have "sorted (map (\<lambda>(k, e). en_last_used e) (by_age ?es @ [(k, ?e)]))"
      using inv(3) by (auto simp: sorted_append set_lru_drop list_all_iff)
    moreover have "mset (sc_entries d) = mset (by_age ?es @ [(k, ?e)])" using ms by simp
    moreover have "distinct (map (\<lambda>(k, e). en_last_used e) (by_age ?es @ [(k, ?e)]))"
      using mset_eq_imp_distinct_iff[of "map (\<lambda>(k, e). en_last_used e) (by_age ?es @ [(k, ?e)])"
          "map (\<lambda>(k, e). en_last_used e) (?es @ [(k, ?e)])"] stamps by simp
    ultimately have "by_age (sc_entries d) = by_age ?es @ [(k, ?e)]"
      by (intro by_age_unique)
    then have "sc_abs d = lru_drop k (sc_abs c) @ [(k, en_shard e)]"
      by (simp add: sc_abs_def by_age_drop map_lru_drop)
    then show ?thesis
      using get look Some cons inv(5) assms(2) by (simp add: lru_get_def sc_inv_def d_def)
  qed
qed

interpretation shard_lru: lru_cache "sc_inv sz" sc_abs "shard_put sz" "\<lambda>k c. fst (shard_get k c)"
  sc_bytes sc_max_bytes sz sc_room
proof (unfold_locales, goal_cases)
  case (1 c)
  then show ?case
    by (simp add: sc_inv_def sc_consistent_def sc_abs_def case_prod_unfold o_def sort_key_distinct_map)
next
  case (2 c)
  then show ?case
    using entries_total[of sz "\<lambda>e. en_last_used e \<le> sc_tick c" "by_age (sc_entries c)"]
    by (simp add: sc_inv_def sc_consistent_def sc_abs_def sum_list_by_age list_all_iff)
next
  case (3 c) then show ?case by (simp add: sc_inv_def)
next
  case (4 c v k) then show ?case using shard_put_spec[of sz c v k] by (auto simp: sc_room_def)
next
  case (5 c k) then show ?case using shard_get_spec[of sz c k] by (auto simp: sc_room_def)
qed

subsection \<open>Warming the cache\<close>

text \<open>The three indices of a bucket in the order the code asks for them; an absent bloom filter and an
  empty row list are not cached.  \<open>fetch_bloom\<close>, \<open>fetch_text\<close> and \<open>fetch_fuzzy\<close> are the cold source.\<close>

type_synonym shard_lru_cache = "(shard_cache_key, cached_shard) shard_cache"

definition warm_requests ::
  "(string \<Rightarrow> string \<Rightarrow> 'e + bloom_filter option) \<Rightarrow> (string \<Rightarrow> string \<Rightarrow> 'e + fts_row list) \<Rightarrow>
   (string \<Rightarrow> string \<Rightarrow> 'e + fuzzy_row list) \<Rightarrow> string \<times> string \<Rightarrow>
   (shard_cache_key \<times> ('e + cached_shard option)) list" where
  "warm_requests fetch_bloom fetch_text fetch_fuzzy = (\<lambda>(conv, bucket).
     let key = (\<lambda>i. \<lparr>sk_conversation = conv, sk_time_bucket = bucket, sk_index_type = i\<rparr>) in
     [(key BloomIndex, map_sum id (map_option BloomShard) (fetch_bloom conv bucket)),
      (key TextIndex, map_sum id (\<lambda>rows. if rows = [] then None else Some (TextShard rows))
         (fetch_text conv bucket)),
      (key FuzzyIndex, map_sum id (\<lambda>rows. if rows = [] then None else Some (FuzzyShard rows))
         (fetch_fuzzy conv bucket))])"

fun warm_loop ::
  "(cached_shard \<Rightarrow> nat) \<Rightarrow> (shard_cache_key \<times> ('e + cached_shard option)) list \<Rightarrow> nat \<Rightarrow>
   shard_lru_cache \<Rightarrow> ('e + nat) \<times> shard_lru_cache" where
  "warm_loop sz [] populated c = (Inr populated, c)"
| "warm_loop sz ((key, fetched) # rest) populated c =
     (case shard_get key c of
        (c, Some _) \<Rightarrow> warm_loop sz rest populated c
      | (c, None) \<Rightarrow> (case fetched of
            Inl e \<Rightarrow> (Inl e, c)
          | Inr None \<Rightarrow> warm_loop sz rest populated c
          | Inr (Some shard) \<Rightarrow> warm_loop sz rest (populated + 1) (shard_put sz key shard c)))"

definition warm_shard_cache ::
  "struct_sizes \<Rightarrow> (string \<Rightarrow> string \<Rightarrow> 'e + bloom_filter option) \<Rightarrow> (string \<Rightarrow> string \<Rightarrow> 'e + fts_row list) \<Rightarrow>
   (string \<Rightarrow> string \<Rightarrow> 'e + fuzzy_row list) \<Rightarrow> resource_policy \<Rightarrow> device_resources \<Rightarrow>
   (string \<times> string) list \<Rightarrow> shard_lru_cache \<Rightarrow> ('e + nat) \<times> shard_lru_cache" where
  "warm_shard_cache z fetch_bloom fetch_text fetch_fuzzy policy resources recent c =
     (if \<not> should_warm_shards policy resources then (Inr 0, c)
      else if recent = [] then (Inr 0, c)
      else if sc_max_bytes c = 0 then (Inr 0, c)
      else warm_loop (approximate_bytes z)
             (concat (map (warm_requests fetch_bloom fetch_text fetch_fuzzy) recent)) 0 c)"

definition request_fits :: "(cached_shard \<Rightarrow> nat) \<Rightarrow> nat \<Rightarrow> shard_cache_key \<times> ('e + cached_shard option) \<Rightarrow> bool" where
  "request_fits sz budget r = (case snd r of Inr (Some shard) \<Rightarrow> budget + sz shard \<le> u64_max | _ \<Rightarrow> True)"

lemma warm_loop_keeps:
  assumes "sc_inv sz c" "2 * length reqs \<le> sc_room c" "list_all (request_fits sz (sc_max_bytes c)) reqs"
  shows "sc_inv sz (snd (warm_loop sz reqs n c)) \<and>
     sc_max_bytes (snd (warm_loop sz reqs n c)) = sc_max_bytes c \<and>
     (case fst (warm_loop sz reqs n c) of Inl _ \<Rightarrow> True | Inr m \<Rightarrow> n \<le> m \<and> m \<le> n + length reqs)"
  using assms
proof (induction sz reqs n c rule: warm_loop.induct)
  case (2 sz key fetched rest n c)
  obtain c1 hit where g: "shard_get key c = (c1, hit)" by fastforce
  have "0 < sc_room c" using 2(5) by simp
  then have c1: "sc_inv sz c1" "sc_max_bytes c1 = sc_max_bytes c" "sc_room c \<le> Suc (sc_room c1)"
    using shard_lru.get_abs[OF 2(4), of key] g by simp_all
  have room: "2 * length rest + 1 \<le> sc_room c1" using 2(5) c1(3) by simp
  have rest: "list_all (request_fits sz (sc_max_bytes c1)) rest" using 2(6) c1(2) by simp
  show ?case
  proof (cases hit)
    case (Some v)
    then show ?thesis
      using 2(3)[OF g[symmetric] Some c1(1) _ rest] room g c1(2) by (auto split: sum.splits)
  next
    case None
    show ?thesis
    proof (cases fetched)
      case (Inl e)
      then show ?thesis using None g c1 by simp
    next
      case (Inr f)
      show ?thesis
      proof (cases f)
        case f: None
        then show ?thesis
          using 2(1)[OF g[symmetric] None Inr f c1(1) _ rest] room None Inr g c1(2)
          by (auto split: sum.splits)
      next
        case (Some shard)
        have "sc_max_bytes c1 + sz shard \<le> u64_max"
          using 2(6) Inr Some c1(2) by (simp add: request_fits_def)
        then have put: "sc_inv sz (shard_put sz key shard c1)"
          "sc_max_bytes (shard_put sz key shard c1) = sc_max_bytes c1"
          "sc_room c1 \<le> Suc (sc_room (shard_put sz key shard c1))"
          using shard_lru.put_abs[OF c1(1), of shard key] room by simp_all
        then show ?thesis
          using 2(2)[OF g[symmetric] None Inr Some put(1)] room rest None Inr Some g c1(2)
          by (auto split: sum.splits)
      qed
    qed
  qed
qed simp

lemma new_shard_cache_inv:
  "sc_inv sz (new_shard_cache n)" "sc_abs (new_shard_cache n) = []" "sc_max_bytes (new_shard_cache n) = n"
  "sc_room (new_shard_cache n) = u64_max"
  by (simp_all add: sc_inv_def sc_consistent_def new_shard_cache_def sc_abs_def sc_room_def)

text \<open>The shard cache is a least-recently-used cache: whatever sequence of lookups and inserts runs
  on a new cache, its shards ordered by their ticks are those of the specification, and the bytes it
  accounts for are the sum of their sizes and within the budget.\<close>

theorem shard_cache_is_lru:
  fixes sz :: "'v \<Rightarrow> nat" and us :: "('k, 'v) cache_use list"
  assumes "list_all (fits sz m) us" "length us \<le> u64_max"
  shows "let c = fold (run_use (shard_put sz) (\<lambda>k c. fst (shard_get k c))) us (new_shard_cache m) in
     sc_abs c = fold (spec_use sz m) us [] \<and>
     sc_bytes c = lru_total sz (sc_abs c) \<and> sc_bytes c \<le> m"
  using shard_lru.uses_abs[of sz "new_shard_cache m" us] shard_lru.uses_budget[of sz "new_shard_cache m" us]
    assms by (simp add: new_shard_cache_inv Let_def)

theorem shard_cache_is_lru_witness:
  "sc_abs (fold (run_use (shard_put (\<lambda>n. n)) (\<lambda>k c. fst (shard_get k c)))
     [Put ''a'' (6::nat), Put ''b'' 3, Get ''a'', Put ''c'' 4] (new_shard_cache 10)) = [(''a'', 6), (''c'', 4)]"
proof -
  have "list_all (fits (\<lambda>n. n) 10) [Put ''a'' (6::nat), Put ''b'' 3, Get ''a'', Put ''c'' 4]"
    by (simp add: fits_def u64_max_def)
  from shard_cache_is_lru[OF this] show ?thesis
    by (simp add: Let_def u64_max_def lru_put_def lru_get_def)
qed

text \<open>A just inserted shard is found by the next lookup, if its size is within the budget: making
  room never evicts the entry room is made for.\<close>

theorem shard_put_then_get:
  assumes "sc_inv sz c" "2 \<le> sc_room c" "sz v \<le> sc_max_bytes c" "sc_max_bytes c + sz v \<le> u64_max"
  shows "snd (shard_get k (shard_put sz k v c)) = Some v"
proof -
  have r: "0 < sc_room c" using assms(2) by simp
  then have put: "sc_inv sz (shard_put sz k v c)" "sc_room c \<le> Suc (sc_room (shard_put sz k v c))"
    using shard_lru.put_abs[OF assms(1) r assms(4), of k] by simp_all
  moreover have "map_of (sc_abs (shard_put sz k v c)) k = Some v"
    by (rule shard_lru.put_resident[OF assms(1) r assms(3,4)])
  ultimately show ?thesis
    using shard_get_spec[OF put(1), of k] assms(2) by (simp add: sc_room_def)
qed

theorem shard_put_then_get_witness:
  "snd (shard_get ''a'' (shard_put (\<lambda>n. n) ''a'' (7::nat)
     (shard_put (\<lambda>n. n) ''b'' 8 (new_shard_cache 10)))) = Some 7"
proof (rule shard_put_then_get)
  have "sc_inv (\<lambda>n. n) (shard_put (\<lambda>n. n) ''b'' 8 (new_shard_cache 10)) \<and>
      sc_max_bytes (shard_put (\<lambda>n. n) ''b'' (8::nat) (new_shard_cache 10)) = 10 \<and>
      u64_max \<le> Suc (sc_room (shard_put (\<lambda>n. n) ''b'' (8::nat) (new_shard_cache 10)))"
    using shard_lru.put_abs[of "\<lambda>n. n" "new_shard_cache 10" 8 "''b''"]
    by (simp add: new_shard_cache_inv u64_max_def)
  then show "sc_inv (\<lambda>n. n) (shard_put (\<lambda>n. n) ''b'' 8 (new_shard_cache 10))"
    "2 \<le> sc_room (shard_put (\<lambda>n. n) ''b'' (8::nat) (new_shard_cache 10))"
    "7 \<le> sc_max_bytes (shard_put (\<lambda>n. n) ''b'' (8::nat) (new_shard_cache 10))"
    "sc_max_bytes (shard_put (\<lambda>n. n) ''b'' (8::nat) (new_shard_cache 10)) + 7 \<le> u64_max"
    by (simp_all add: u64_max_def)
qed

end
