(* ===== verification/Hydration.thy ===== *)
theory Hydration
  imports Prelude
begin

text \<open>
  The hydration queue (\<open>offload/hydration.rs\<close>): a vector kept sorted by priority and then by time of
  request, with an index from message id to position that is rebuilt after every change.  The
  interface \<open>priority_map\<close> hides both behind a finite map from ids to requests; draining a queue is
  studied once, inside it.
\<close>

datatype hydration_reason =
    SearchResultTap
  | MediaFullScreen
  | VisibleViewport
  | AdjacentPrefetch
  | BackgroundRestore
  | OpportunisticFill

primrec reason_level :: "hydration_reason \<Rightarrow> nat" where
  "reason_level SearchResultTap = 0"
| "reason_level MediaFullScreen = 1"
| "reason_level VisibleViewport = 2"
| "reason_level AdjacentPrefetch = 3"
| "reason_level BackgroundRestore = 4"
| "reason_level OpportunisticFill = 5"

instantiation hydration_reason :: linorder
begin

definition less_eq_hydration_reason :: "hydration_reason \<Rightarrow> hydration_reason \<Rightarrow> bool" where
  "less_eq_hydration_reason a b = (reason_level a \<le> reason_level b)"

definition less_hydration_reason :: "hydration_reason \<Rightarrow> hydration_reason \<Rightarrow> bool" where
  "less_hydration_reason a b = (reason_level a < reason_level b)"

instance
proof
  fix a b :: hydration_reason
  show "a \<le> b \<Longrightarrow> b \<le> a \<Longrightarrow> a = b"
    by (cases a; cases b) (simp_all add: less_eq_hydration_reason_def)
qed (auto simp: less_eq_hydration_reason_def less_hydration_reason_def)

end

record hydration_request =
  hr_message_id :: nat
  hr_conversation_id :: nat
  hr_reason :: hydration_reason
  hr_requested_at_ms :: int

record hydration_queue =
  hq_items :: "hydration_request list"
  hq_capacity :: nat
  hq_by_id :: "nat \<Rightarrow> nat option"

definition new_queue :: "nat \<Rightarrow> hydration_queue" where
  "new_queue capacity = \<lparr>hq_items = [], hq_capacity = capacity, hq_by_id = Map.empty\<rparr>"

definition rebuild_index :: "hydration_queue \<Rightarrow> hydration_queue" where
  "rebuild_index q =
     q\<lparr>hq_by_id := fold (\<lambda>(i, r) m. m(hr_message_id r \<mapsto> i)) (enumerate 0 (hq_items q)) Map.empty\<rparr>"

definition request_key :: "hydration_request \<Rightarrow> hydration_reason \<times> int" where
  "request_key r = (hr_reason r, hr_requested_at_ms r)"

definition resort :: "hydration_queue \<Rightarrow> hydration_queue" where
  "resort q = rebuild_index (q\<lparr>hq_items := sort_key request_key (hq_items q)\<rparr>)"

definition queue_contains :: "nat \<Rightarrow> hydration_queue \<Rightarrow> bool" where
  "queue_contains mid q \<longleftrightarrow> hq_by_id q mid \<noteq> None"

definition peek :: "hydration_queue \<Rightarrow> hydration_request option" where
  "peek q = (case hq_items q of [] \<Rightarrow> None | r # _ \<Rightarrow> Some r)"

definition enqueue :: "hydration_request \<Rightarrow> hydration_queue \<Rightarrow> hydration_queue" where
  "enqueue r q = (case hq_by_id q (hr_message_id r) of
      Some idx \<Rightarrow>
        if hr_reason r < hr_reason (hq_items q ! idx)
        then resort (q\<lparr>hq_items := (hq_items q)[idx := r]\<rparr>)
        else q
    | None \<Rightarrow>
        let q = q\<lparr>hq_items := hq_items q @ [r]\<rparr>;
            q = q\<lparr>hq_by_id := (hq_by_id q)(hr_message_id r \<mapsto> length (hq_items q) - 1)\<rparr>
        in resort q)"

definition dequeue :: "hydration_queue \<Rightarrow> (hydration_request \<times> hydration_queue) option" where
  "dequeue q = (case hq_items q of
      [] \<Rightarrow> None
    | r # rest \<Rightarrow> Some (r, rebuild_index
        (q\<lparr>hq_items := rest, hq_by_id := (hq_by_id q)(hr_message_id r := None)\<rparr>)))"

definition remove_message :: "nat \<Rightarrow> hydration_queue \<Rightarrow> hydration_queue \<times> bool" where
  "remove_message mid q = (case hq_by_id q mid of
      Some idx \<Rightarrow> (rebuild_index
        (q\<lparr>hq_items := take idx (hq_items q) @ drop (Suc idx) (hq_items q),
           hq_by_id := (hq_by_id q)(mid := None)\<rparr>), True)
    | None \<Rightarrow> (q, False))"

definition enqueue_prefetch_window :: "nat list \<Rightarrow> nat \<Rightarrow> nat \<Rightarrow> int \<Rightarrow> hydration_queue \<Rightarrow> hydration_queue" where
  "enqueue_prefetch_window visible_ids conversation_id window_size now_ms q =
     fold (\<lambda>mid. enqueue \<lparr>hr_message_id = mid, hr_conversation_id = conversation_id,
        hr_reason = AdjacentPrefetch, hr_requested_at_ms = now_ms\<rparr>) visible_ids q"

subsection \<open>The interface: a priority queue keyed by id\<close>

text \<open>The better of the queued request and a new one for the same id: the new one only if its reason is
  strictly more urgent.\<close>

definition better :: "hydration_request option \<Rightarrow> hydration_request \<Rightarrow> hydration_request" where
  "better old r = (case old of None \<Rightarrow> r
     | Some queued \<Rightarrow> if hr_reason r < hr_reason queued then r else queued)"

locale priority_map =
  fixes inv :: "'q \<Rightarrow> bool"
    and contents :: "'q \<Rightarrow> nat \<Rightarrow> hydration_request option"
    and enq :: "hydration_request \<Rightarrow> 'q \<Rightarrow> 'q"
    and deq :: "'q \<Rightarrow> (hydration_request \<times> 'q) option"
  assumes finite_contents: "inv q \<Longrightarrow> finite (dom (contents q))"
    and keyed: "inv q \<Longrightarrow> contents q mid = Some r \<Longrightarrow> hr_message_id r = mid"
    and enq_inv: "inv q \<Longrightarrow> inv (enq r q)"
    and enq_contents: "inv q \<Longrightarrow>
      contents (enq r q) = (contents q)(hr_message_id r \<mapsto> better (contents q (hr_message_id r)) r)"
    and deq_None: "inv q \<Longrightarrow> deq q = None \<longleftrightarrow> contents q = Map.empty"
    and deq_inv: "inv q \<Longrightarrow> deq q = Some (r, q') \<Longrightarrow> inv q'"
    and deq_head: "inv q \<Longrightarrow> deq q = Some (r, q') \<Longrightarrow> contents q (hr_message_id r) = Some r"
    and deq_rest: "inv q \<Longrightarrow> deq q = Some (r, q') \<Longrightarrow> contents q' = (contents q)(hr_message_id r := None)"
    and deq_min: "inv q \<Longrightarrow> deq q = Some (r, q') \<Longrightarrow> contents q mid = Some s \<Longrightarrow> request_key r \<le> request_key s"

text \<open>Serving up to \<open>n\<close> requests.\<close>

primrec drain :: "('q \<Rightarrow> (hydration_request \<times> 'q) option) \<Rightarrow> nat \<Rightarrow> 'q \<Rightarrow> hydration_request list" where
  "drain deq 0 q = []"
| "drain deq (Suc n) q = (case deq q of None \<Rightarrow> [] | Some (r, q') \<Rightarrow> r # drain deq n q')"

context priority_map
begin

lemma drain_all:
  assumes "inv q" "card (dom (contents q)) \<le> n"
  shows "set (drain deq n q) = ran (contents q) \<and> distinct (map hr_message_id (drain deq n q)) \<and>
     sorted (map request_key (drain deq n q))"
  using assms
proof (induction n arbitrary: q)
  case 0
  then have "dom (contents q) = {}" using finite_contents by (simp add: card_eq_0_iff)
  then show ?case by (simp add: ran_def dom_def)
next
  case (Suc n)
  show ?case
  proof (cases "deq q")
    case None
    then show ?thesis using deq_None[OF Suc.prems(1)] by simp
  next
    case (Some p)
    obtain r q' where p: "p = (r, q')" by (cases p)
    note d = Some[unfolded p]
    have inv': "inv q'" using deq_inv[OF Suc.prems(1) d] .
    have head: "contents q (hr_message_id r) = Some r" using deq_head[OF Suc.prems(1) d] .
    have rest: "contents q' = (contents q)(hr_message_id r := None)" using deq_rest[OF Suc.prems(1) d] .
    have "card (dom (contents q')) \<le> n"
      using Suc.prems(2) finite_contents[OF Suc.prems(1)] head
      by (simp add: rest card_Diff_singleton domI)
    note IH = Suc.IH[OF inv' this]
    have other: "s \<in> ran (contents q') \<longleftrightarrow> s \<in> ran (contents q) \<and> hr_message_id s \<noteq> hr_message_id r" for s
      using keyed[OF Suc.prems(1)] by (auto simp: rest ran_def)
    have "ran (contents q) = insert r (ran (contents q'))"
    proof (intro set_eqI iffI)
      fix s assume s: "s \<in> ran (contents q)"
      then obtain mid where mid: "contents q mid = Some s" by (auto simp: ran_def)
      then have "hr_message_id s = mid" using keyed[OF Suc.prems(1)] by blast
      then show "s \<in> insert r (ran (contents q'))" using other[of s] s head mid by auto
    next
      fix s assume "s \<in> insert r (ran (contents q'))"
      then show "s \<in> ran (contents q)" using other head by (auto simp: ran_def)
    qed
    moreover have "hr_message_id r \<notin> hr_message_id ` set (drain deq n q')"
      using IH other by auto
    moreover have "request_key r \<le> request_key s" if "s \<in> set (drain deq n q')" for s
      using that IH other[of s] deq_min[OF Suc.prems(1) d] by (auto simp: ran_def)
    ultimately show ?thesis using d IH by auto
  qed
qed

lemma enq_all:
  assumes "inv q"
  shows "inv (fold enq rs q) \<and>
     contents (fold enq rs q) =
       fold (\<lambda>r m. m(hr_message_id r \<mapsto> better (m (hr_message_id r)) r)) rs (contents q)"
  using assms by (induction rs arbitrary: q) (simp_all add: enq_inv enq_contents)

end

subsection \<open>The queue implements the interface\<close>

definition hq_inv :: "hydration_queue \<Rightarrow> bool" where
  "hq_inv q \<longleftrightarrow> distinct (map hr_message_id (hq_items q)) \<and> sorted (map request_key (hq_items q)) \<and>
     (\<forall>mid i. hq_by_id q mid = Some i \<longleftrightarrow>
        i < length (hq_items q) \<and> hr_message_id (hq_items q ! i) = mid)"

definition contents :: "hydration_queue \<Rightarrow> nat \<Rightarrow> hydration_request option" where
  "contents q mid = select_one hr_message_id mid (hq_items q)"

lemma index_fold:
  assumes "distinct (map key xs)"
  shows "fold (\<lambda>(i, r) m. m(key r \<mapsto> i)) (enumerate n xs) m mid = Some i \<longleftrightarrow>
     (\<exists>j < length xs. key (xs ! j) = mid \<and> i = n + j) \<or> (mid \<notin> key ` set xs \<and> m mid = Some i)"
  using assms
proof (induction xs arbitrary: n m)
  case (Cons x xs)
  have IH: "fold (\<lambda>(i, r) m. m(key r \<mapsto> i)) (enumerate (Suc n) xs) (m(key x \<mapsto> n)) mid = Some i \<longleftrightarrow>
     (\<exists>j < length xs. key (xs ! j) = mid \<and> i = Suc n + j) \<or>
     (mid \<notin> key ` set xs \<and> (m(key x \<mapsto> n)) mid = Some i)"
    using Cons.prems by (intro Cons.IH) simp
  have nx: "key x \<notin> key ` set xs" using Cons.prems by simp
  have split: "(\<exists>j < length (x # xs). key ((x # xs) ! j) = mid \<and> i = n + j) \<longleftrightarrow>
     key x = mid \<and> i = n \<or> (\<exists>j < length xs. key (xs ! j) = mid \<and> i = Suc n + j)"
    by (simp add: Ex_less_Suc2 del: add_Suc) (simp add: ac_simps)
  let ?A = "\<exists>j < length xs. key (xs ! j) = mid \<and> i = Suc n + j"
  have step: "fold (\<lambda>(i, r) m. m(key r \<mapsto> i)) (enumerate n (x # xs)) m mid = Some i \<longleftrightarrow>
     ?A \<or> (mid \<notin> key ` set xs \<and> (m(key x \<mapsto> n)) mid = Some i)"
    using IH by (simp only: enumerate_simps fold_simps prod.case)
  have tail: "(mid \<notin> key ` set xs \<and> (m(key x \<mapsto> n)) mid = Some i) \<longleftrightarrow>
     (key x = mid \<and> i = n) \<or> (mid \<notin> key ` set (x # xs) \<and> m mid = Some i)"
    using nx by (cases "mid = key x") auto
  show ?case unfolding split step tail by blast
qed simp

lemma rebuild_index_inv:
  assumes "distinct (map hr_message_id (hq_items q))" "sorted (map request_key (hq_items q))"
  shows "hq_inv (rebuild_index q)"
  using assms unfolding hq_inv_def rebuild_index_def by (simp add: index_fold)

lemma rebuild_index_items [simp]: "hq_items (rebuild_index q) = hq_items q"
  by (simp add: rebuild_index_def)

lemma resort_inv: "distinct (map hr_message_id (hq_items q)) \<Longrightarrow> hq_inv (resort q)"
  unfolding resort_def by (rule rebuild_index_inv) (simp_all add: sort_key_distinct_map)

lemma select_one_set:
  assumes "set xs = set ys" "distinct (map key xs)" "distinct (map key ys)"
  shows "select_one key k xs = select_one key k ys"
  using assms select_one_Some_iff[OF assms(2)] select_one_Some_iff[OF assms(3)]
  by (metis option.exhaust)

lemma contents_resort:
  "distinct (map hr_message_id (hq_items q)) \<Longrightarrow>
     contents (resort q) mid = select_one hr_message_id mid (hq_items q)"
  unfolding contents_def resort_def
  by (rule select_one_set) (simp_all add: sort_key_distinct_map)

lemma select_one_list_update:
  assumes "distinct (map key xs)" "i < length xs" "key (xs ! i) = key r"
  shows "select_one key k (xs[i := r]) = (if k = key r then Some r else select_one key k xs)"
  using assms
proof (induction xs arbitrary: i)
  case (Cons x xs)
  show ?case
  proof (cases i)
    case 0
    then show ?thesis using Cons.prems by (simp add: select_one_Cons)
  next
    case (Suc j)
    then have "key r \<in> key ` set xs" using Cons.prems by (metis Suc_less_eq image_eqI length_Cons nth_Cons_Suc nth_mem)
    then have "key x \<noteq> key r" using Cons.prems by auto
    then show ?thesis using Suc Cons.prems Cons.IH[of j] by (auto simp: select_one_Cons)
  qed
qed simp

lemma hq_index:
  assumes "hq_inv q"
  shows "hq_by_id q mid = Some i \<Longrightarrow> i < length (hq_items q) \<and> hr_message_id (hq_items q ! i) = mid \<and>
           contents q mid = Some (hq_items q ! i)"
    and "hq_by_id q mid = None \<longleftrightarrow> mid \<notin> hr_message_id ` set (hq_items q)"
proof -
  have d: "distinct (map hr_message_id (hq_items q))" using assms by (simp add: hq_inv_def)
  have ix: "hq_by_id q mid = Some i \<longleftrightarrow> i < length (hq_items q) \<and> hr_message_id (hq_items q ! i) = mid" for i
    using assms by (simp add: hq_inv_def)
  show "hq_by_id q mid = Some i \<Longrightarrow> i < length (hq_items q) \<and> hr_message_id (hq_items q ! i) = mid \<and>
      contents q mid = Some (hq_items q ! i)"
    using ix d by (simp add: contents_def select_one_Some_iff)
  show "hq_by_id q mid = None \<longleftrightarrow> mid \<notin> hr_message_id ` set (hq_items q)"
    using ix by (metis (no_types, lifting) image_iff in_set_conv_nth not_None_eq)
qed

lemma hq_inv_new: "hq_inv (new_queue c)"
  by (simp add: hq_inv_def new_queue_def)

lemma enqueue_inv_contents:
  assumes "hq_inv q"
  shows "hq_inv (enqueue r q) \<and>
     contents (enqueue r q) = (contents q)(hr_message_id r \<mapsto> better (contents q (hr_message_id r)) r)"
proof (cases "hq_by_id q (hr_message_id r)")
  case None
  let ?q = "q\<lparr>hq_items := hq_items q @ [r], hq_by_id := (hq_by_id q)(hr_message_id r \<mapsto> length (hq_items q))\<rparr>"
  have notin: "hr_message_id r \<notin> hr_message_id ` set (hq_items q)"
    using None hq_index(2)[OF assms] by blast
  then have d: "distinct (map hr_message_id (hq_items ?q))" using assms by (simp add: hq_inv_def)
  have e: "enqueue r q = resort ?q" using None by (simp add: enqueue_def)
  have old: "contents q (hr_message_id r) = None"
    using notin by (simp add: contents_def select_one_None_iff)
  have "contents (resort ?q) mid =
     ((contents q)(hr_message_id r \<mapsto> better (contents q (hr_message_id r)) r)) mid" for mid
  proof -
    have "contents (resort ?q) mid = select_one hr_message_id mid (hq_items q @ [r])"
      using contents_resort[OF d, of mid] by simp
    also have "\<dots> = (case contents q mid of None \<Rightarrow> if mid = hr_message_id r then Some r else None
        | Some s \<Rightarrow> Some s)"
      unfolding select_one_append contents_def select_one_Cons by (auto simp: select_one_def split: option.split)
    also have "\<dots> = ((contents q)(hr_message_id r \<mapsto> better (contents q (hr_message_id r)) r)) mid"
      using old by (cases "mid = hr_message_id r") (simp_all add: better_def split: option.split)
    finally show ?thesis .
  qed
  then show ?thesis using e resort_inv[OF d] by auto
next
  case (Some i)
  note ix = hq_index(1)[OF assms Some]
  show ?thesis
  proof (cases "hr_reason r < hr_reason (hq_items q ! i)")
    case True
    let ?q = "q\<lparr>hq_items := (hq_items q)[i := r]\<rparr>"
    have dq: "distinct (map hr_message_id (hq_items q))" using assms by (simp add: hq_inv_def)
    have same: "(map hr_message_id (hq_items q))[i := hr_message_id r] = map hr_message_id (hq_items q)"
      using ix by (metis list_update_id nth_map)
    have d: "distinct (map hr_message_id (hq_items ?q))" using dq by (simp add: map_update same)
    have e: "enqueue r q = resort ?q" using Some True by (simp add: enqueue_def)
    have "contents (resort ?q) mid = ((contents q)(hr_message_id r \<mapsto> r)) mid" for mid
      using contents_resort[OF d, of mid] select_one_list_update[OF dq, of i r mid] ix
      by (simp add: contents_def)
    then show ?thesis using e resort_inv[OF d] True ix by (auto simp: better_def)
  next
    case False
    then show ?thesis using Some ix assms by (auto simp: enqueue_def better_def fun_upd_idem_iff)
  qed
qed

lemma dequeue_inv:
  assumes "hq_inv q" "dequeue q = Some (r, q')"
  shows "hq_inv q' \<and> hq_items q = r # hq_items q'"
proof -
  obtain rest where items: "hq_items q = r # rest"
    and q': "q' = rebuild_index (q\<lparr>hq_items := rest, hq_by_id := (hq_by_id q)(hr_message_id r := None)\<rparr>)"
    using assms(2) by (auto simp: dequeue_def split: list.splits)
  have "hq_inv q'" unfolding q' using assms(1) items
    by (intro rebuild_index_inv) (simp_all add: hq_inv_def)
  then show ?thesis using items q' by simp
qed

lemma contents_Some: "hq_inv q \<Longrightarrow> contents q mid = Some r \<longleftrightarrow> r \<in> set (hq_items q) \<and> hr_message_id r = mid"
  by (simp add: hq_inv_def contents_def select_one_Some_iff)

lemma dom_contents: "dom (contents q) = hr_message_id ` set (hq_items q)"
  using select_one_None_iff[of hr_message_id _ "hq_items q"]
  unfolding contents_def dom_def by (metis (mono_tags, lifting) Collect_cong Collect_mem_eq)

interpretation hydration_pq: priority_map hq_inv contents enqueue dequeue
proof unfold_locales
  fix q r q' mid and s :: hydration_request
  assume inv: "hq_inv q"
  show "finite (dom (contents q))" by (simp add: dom_contents)
  show "contents q mid = Some r \<Longrightarrow> hr_message_id r = mid" using inv by (simp add: contents_Some)
  show "hq_inv (enqueue r q)" using inv enqueue_inv_contents by blast
  show "contents (enqueue r q) = (contents q)(hr_message_id r \<mapsto> better (contents q (hr_message_id r)) r)"
    using inv enqueue_inv_contents by blast
  show "dequeue q = None \<longleftrightarrow> contents q = Map.empty"
    using dom_contents[of q] by (auto simp: dequeue_def split: list.splits)
  assume deq: "dequeue q = Some (r, q')"
  note d = dequeue_inv[OF inv deq]
  show "hq_inv q'" using d by blast
  show "contents q (hr_message_id r) = Some r" using d inv by (simp add: contents_Some)
  show "contents q' = (contents q)(hr_message_id r := None)"
  proof
    fix k
    have "hr_message_id r \<notin> hr_message_id ` set (hq_items q')"
      using inv d by (auto simp: hq_inv_def)
    then have "contents q' (hr_message_id r) = None" by (simp add: contents_def select_one_None_iff)
    then show "contents q' k = ((contents q)(hr_message_id r := None)) k"
      using d by (auto simp: contents_def select_one_Cons)
  qed
  show "contents q mid = Some s \<Longrightarrow> request_key r \<le> request_key s"
    using inv d by (auto simp: contents_Some hq_inv_def)
qed

subsection \<open>Serving a set of requests\<close>

lemma hd_sort_key_Cons:
  "hd (sort_key f (x # xs)) =
     (if xs = [] \<or> f x \<le> f (hd (sort_key f xs)) then x else hd (sort_key f xs))"
proof (cases "sort_key f xs")
  case Nil
  then have "xs = []" by (metis length_0_conv length_sort)
  then show ?thesis by simp
next
  case (Cons y ys)
  then have "xs \<noteq> []" by auto
  then show ?thesis using Cons by simp
qed

lemma hd_sort_key_snoc:
  "hd (sort_key f (xs @ [x])) =
     (if xs = [] \<or> f x < f (hd (sort_key f xs)) then x else hd (sort_key f xs))"
proof (induction xs)
  case (Cons y xs)
  show ?case unfolding append_Cons hd_sort_key_Cons[of f y] Cons.IH
    by (cases "xs = []") auto
qed simp

text \<open>Of the requests for one message, the earliest among the most urgent ones.\<close>

definition winner :: "nat \<Rightarrow> hydration_request list \<Rightarrow> hydration_request" where
  "winner mid rs = hd (sort_key hr_reason (filter (\<lambda>r. hr_message_id r = mid) rs))"

lemma fold_better:
  "fold (\<lambda>r m. m(hr_message_id r \<mapsto> better (m (hr_message_id r)) r)) rs Map.empty mid =
     (if mid \<in> hr_message_id ` set rs then Some (winner mid rs) else None)"
proof (induction rs rule: rev_induct)
  case (snoc r rs)
  let ?m = "fold (\<lambda>r m. m(hr_message_id r \<mapsto> better (m (hr_message_id r)) r)) rs Map.empty"
  show ?case
  proof (cases "mid = hr_message_id r")
    case True
    have empty: "filter (\<lambda>s. hr_message_id s = hr_message_id r) rs = [] \<longleftrightarrow>
        hr_message_id r \<notin> hr_message_id ` set rs"
      unfolding filter_empty_conv by (metis (mono_tags, lifting) image_iff)
    show ?thesis using snoc True empty
      by (simp add: winner_def hd_sort_key_snoc better_def)
  next
    case False
    then show ?thesis using snoc by (simp add: winner_def)
  qed
qed simp

text \<open>C38: The queue serves a set of requests as the hydration ladder asks.  Enqueue any requests, in any
  order and with any repetitions, on a new queue, and dequeue until it is empty: every requested
  message is served exactly once, with the earliest of its most urgent requests; the requests come
  out by priority and, within a priority, by time of request; and nothing is left.\<close>

theorem hydration_serves_by_priority:
  "let served = drain dequeue (length rs) (fold enqueue rs (new_queue c)) in
     sorted (map request_key served) \<and> distinct (map hr_message_id served) \<and>
     set served = (\<lambda>mid. winner mid rs) ` hr_message_id ` set rs \<and>
     length served = card (hr_message_id ` set rs)"
proof -
  let ?q = "fold enqueue rs (new_queue c)"
  let ?ids = "hr_message_id ` set rs"
  have empty: "contents (new_queue c) = Map.empty"
    by (auto simp: contents_def new_queue_def select_one_def)
  note q = hydration_pq.enq_all[OF hq_inv_new, of rs c, unfolded empty]
  have cont: "contents ?q mid = (if mid \<in> ?ids then Some (winner mid rs) else None)" for mid
    using q fold_better by simp
  have dom: "dom (contents ?q) = ?ids" using cont by (auto simp: dom_def)
  have "card ?ids \<le> length rs"
    using card_image_le[of "set rs" hr_message_id] card_length[of rs] by simp
  then have all: "set (drain dequeue (length rs) ?q) = ran (contents ?q) \<and>
      distinct (map hr_message_id (drain dequeue (length rs) ?q)) \<and>
      sorted (map request_key (drain dequeue (length rs) ?q))"
    using q dom by (intro hydration_pq.drain_all) simp_all
  have ran: "ran (contents ?q) = (\<lambda>mid. winner mid rs) ` ?ids"
    using cont by (auto simp: ran_def)
  have keys: "hr_message_id ` ran (contents ?q) = dom (contents ?q)"
  proof (intro set_eqI iffI)
    fix mid assume "mid \<in> hr_message_id ` ran (contents ?q)"
    then obtain r k where "contents ?q k = Some r" "mid = hr_message_id r" unfolding ran_def by blast
    then show "mid \<in> dom (contents ?q)" using q hydration_pq.keyed[of ?q k r] by blast
  next
    fix mid assume "mid \<in> dom (contents ?q)"
    then obtain r where r: "contents ?q mid = Some r" by blast
    then have "mid = hr_message_id r" using q hydration_pq.keyed[of ?q mid r] by blast
    then show "mid \<in> hr_message_id ` ran (contents ?q)" using r unfolding ran_def by blast
  qed
  have "length (drain dequeue (length rs) ?q) = card ?ids"
    using all keys dom distinct_card[of "map hr_message_id (drain dequeue (length rs) ?q)"] by simp
  then show ?thesis using all ran by (simp add: Let_def)
qed

text \<open>All the operations that change a queue.\<close>

datatype queue_op =
    Enqueue hydration_request
  | Dequeue
  | RemoveMessage nat
  | PrefetchWindow "nat list" nat nat int

primrec queue_step :: "queue_op \<Rightarrow> hydration_queue \<Rightarrow> hydration_queue" where
  "queue_step (Enqueue r) q = enqueue r q"
| "queue_step Dequeue q = (case dequeue q of None \<Rightarrow> q | Some (_, q') \<Rightarrow> q')"
| "queue_step (RemoveMessage mid) q = fst (remove_message mid q)"
| "queue_step (PrefetchWindow ids conv w now) q = enqueue_prefetch_window ids conv w now q"

lemma fold_enqueue_inv: "hq_inv q \<Longrightarrow> hq_inv (fold (\<lambda>x. enqueue (f x)) xs q)"
  by (induction xs arbitrary: q) (simp_all add: hydration_pq.enq_inv)

lemma remove_message_inv:
  assumes "hq_inv q"
  shows "hq_inv (fst (remove_message mid q))"
proof (cases "hq_by_id q mid")
  case (Some i)
  let ?xs = "hq_items q"
  have "i < length ?xs" using hq_index(1)[OF assms Some] by blast
  then have "?xs = take i ?xs @ ?xs ! i # drop (Suc i) ?xs" by (rule id_take_nth_drop)
  moreover have "distinct (map hr_message_id ?xs)" "sorted (map request_key ?xs)"
    using assms by (simp_all add: hq_inv_def)
  moreover have "distinct (map f (ys @ y # zs)) \<Longrightarrow> distinct (map f (ys @ zs))"
    "sorted (map g (ys @ y # zs)) \<Longrightarrow> sorted (map g (ys @ zs))"
    for f :: "hydration_request \<Rightarrow> nat" and g :: "hydration_request \<Rightarrow> hydration_reason \<times> int" and ys y zs
    by (simp_all add: sorted_append)
  ultimately have "distinct (map hr_message_id (take i ?xs @ drop (Suc i) ?xs)) \<and>
      sorted (map request_key (take i ?xs @ drop (Suc i) ?xs))"
    by metis
  then show ?thesis using Some
    by (auto simp: remove_message_def intro!: rebuild_index_inv)
qed (use assms in \<open>simp add: remove_message_def\<close>)

lemma queue_step_inv: "hq_inv q \<Longrightarrow> hq_inv (queue_step op q)"
  by (cases op) (auto simp: hydration_pq.enq_inv remove_message_inv fold_enqueue_inv
      enqueue_prefetch_window_def dest: hydration_pq.deq_inv split: option.splits)

text \<open>The index never goes stale.  After any sequence of enqueues, dequeues, removals and prefetch
  windows no message is queued twice, the vector is in serving order, the index maps a message to
  the position of its request and to nothing else, and \<open>contains\<close> answers for exactly the queued
  messages.\<close>

theorem hydration_index_exact:
  "let q = fold queue_step ops (new_queue c) in
     distinct (map hr_message_id (hq_items q)) \<and> sorted (map request_key (hq_items q)) \<and>
     (\<forall>mid i. hq_by_id q mid = Some i \<longleftrightarrow> i < length (hq_items q) \<and> hr_message_id (hq_items q ! i) = mid) \<and>
     {mid. queue_contains mid q} = hr_message_id ` set (hq_items q)"
proof -
  have "hq_inv (fold queue_step ops q)" if "hq_inv q" for q
    using that by (induction ops arbitrary: q) (simp_all add: queue_step_inv)
  then have inv: "hq_inv (fold queue_step ops (new_queue c))" using hq_inv_new by blast
  have "{mid. queue_contains mid (fold queue_step ops (new_queue c))} =
     hr_message_id ` set (hq_items (fold queue_step ops (new_queue c)))"
    using hq_index(2)[OF inv] by (auto simp: queue_contains_def)
  then show ?thesis using inv by (simp add: hq_inv_def Let_def)
qed

end
