(* ===== verification/Time_Buckets.thy ===== *)
theory Time_Buckets
  imports Prelude
begin

text \<open>
  Time buckets.  The segment builder files an event under a month computed with years of 365 and
  months of 30 days (\<open>default_time_bucket_for_ms\<close> of \<open>archive/segment_builder.rs\<close>); the query engine
  reads the same text as a month of the calendar when it leaves out the buckets outside the date
  window of a query (\<open>bucket_overlaps_date_range\<close> of \<open>search/query_engine.rs\<close>).
\<close>

subsection \<open>Decimal numbers\<close>

definition digit_char :: "nat \<Rightarrow> char" where
  "digit_char n = char_of (48 + n)"

fun decimal :: "nat \<Rightarrow> string" where
  "decimal n = (if n < 10 then [digit_char n] else decimal (n div 10) @ [digit_char (n mod 10)])"

declare decimal.simps [simp del]

text \<open>\<open>{n:0w}\<close> of a format string.\<close>

definition zero_padded :: "nat \<Rightarrow> nat \<Rightarrow> string" where
  "zero_padded w n = replicate (w - length (decimal n)) (CHR ''0'') @ decimal n"

definition digit_value :: "char \<Rightarrow> nat option" where
  "digit_value c = (let k = of_char c in if 48 \<le> k \<and> k \<le> (57::nat) then Some (k - 48) else None)"

fun digits_value :: "nat \<Rightarrow> string \<Rightarrow> nat option" where
  "digits_value acc [] = Some acc"
| "digits_value acc (c # cs) = (case digit_value c of
     None \<Rightarrow> None | Some d \<Rightarrow> digits_value (10 * acc + d) cs)"

text \<open>\<open>str::parse\<close> for a short non-negative number: a plus sign is allowed, no digit is an error.\<close>

definition parse_number :: "string \<Rightarrow> nat option" where
  "parse_number s = (case s of
      [] \<Rightarrow> None
    | c # cs \<Rightarrow> if c = CHR ''+'' then (if cs = [] then None else digits_value 0 cs) else digits_value 0 s)"

subsection \<open>Filing\<close>

text \<open>Division of machine integers, which rounds towards zero.\<close>

definition quot :: "int \<Rightarrow> int \<Rightarrow> int" where
  "quot a b = (if (a < 0) = (b < 0) then \<bar>a\<bar> div \<bar>b\<bar> else - (\<bar>a\<bar> div \<bar>b\<bar>))"

definition default_time_bucket_for_ms :: "int \<Rightarrow> string" where
  "default_time_bucket_for_ms created_at_ms =
     (let secs = quot created_at_ms 1000 in
      if secs < 0 then ''unknown''
      else let total_days = quot secs 86400;
               years_since_1970 = quot total_days 365;
               year = 1970 + years_since_1970;
               day_of_year = total_days mod 365;
               month = 1 + min (quot day_of_year 30) 11
           in zero_padded 4 (nat year) @ ''-'' @ zero_padded 2 (nat month))"

subsection \<open>Reading\<close>

definition days_from_civil :: "int \<Rightarrow> int \<Rightarrow> int \<Rightarrow> int" where
  "days_from_civil y m d =
     (let y = (if m \<le> 2 then y - 1 else y);
          era = (if y \<ge> 0 then quot y 400 else quot (y - 399) 400);
          yoe = y - era * 400;
          doy = quot (153 * (m + (if m > 2 then - 3 else 9)) + 2) 5 + d - 1;
          doe = yoe * 365 + quot yoe 4 - quot yoe 100 + doy
      in era * 146097 + doe - 719468)"

definition split_once :: "char \<Rightarrow> string \<Rightarrow> (string \<times> string) option" where
  "split_once c s = (case dropWhile (\<lambda>x. x \<noteq> c) s of
      [] \<Rightarrow> None
    | _ # rest \<Rightarrow> Some (takeWhile (\<lambda>x. x \<noteq> c) s, rest))"

definition parse_bucket_range_ms :: "string \<Rightarrow> (int \<times> int) option" where
  "parse_bucket_range_ms bucket =
     Option.bind (split_once (CHR ''-'') bucket) (\<lambda>(year_str, month_str).
     if length year_str \<noteq> 4 \<or> length month_str \<noteq> 2 then None
     else Option.bind (parse_number year_str) (\<lambda>year.
          Option.bind (parse_number month_str) (\<lambda>month.
          if \<not> (1 \<le> month \<and> month \<le> 12) then None
          else let start_ms = days_from_civil (int year) (int month) 1 * 86400000;
                   (next_year, next_month) = (if month = 12 then (year + 1, 1) else (year, month + 1));
                   end_ms_exclusive = days_from_civil (int next_year) (int next_month) 1 * 86400000
               in Some (start_ms, end_ms_exclusive))))"

definition bucket_overlaps_date_range :: "string \<Rightarrow> int option \<Rightarrow> int option \<Rightarrow> bool" where
  "bucket_overlaps_date_range bucket date_from date_to =
     (if date_from = None \<and> date_to = None then True
      else case parse_bucket_range_ms bucket of
          None \<Rightarrow> True
        | Some (start_ms, end_ms_exclusive) \<Rightarrow>
            if (case date_to of Some t \<Rightarrow> start_ms > t | None \<Rightarrow> False) then False
            else if (case date_from of Some f \<Rightarrow> end_ms_exclusive \<le> f | None \<Rightarrow> False) then False
            else True)"

subsection \<open>The calendar\<close>

definition leap_year :: "nat \<Rightarrow> bool" where
  "leap_year y \<longleftrightarrow> 4 dvd y \<and> (\<not> 100 dvd y \<or> 400 dvd y)"

definition year_days :: "nat \<Rightarrow> nat" where
  "year_days y = (if leap_year y then 366 else 365)"

definition month_days :: "nat \<Rightarrow> nat \<Rightarrow> nat" where
  "month_days y m = (if m = 2 then (if leap_year y then 29 else 28)
     else if m \<in> {4, 6, 9, 11} then 30 else 31)"

text \<open>Days from 0000-01-01 to the first of a month, counted year by year and month by month.\<close>

primrec days_before_year :: "nat \<Rightarrow> nat" where
  "days_before_year 0 = 0"
| "days_before_year (Suc y) = days_before_year y + year_days y"

primrec days_before_month :: "nat \<Rightarrow> nat \<Rightarrow> nat" where
  "days_before_month y 0 = 0"
| "days_before_month y (Suc m) = days_before_month y m + (if m = 0 then 0 else month_days y m)"

lemma days_before_year_closed:
  "int (days_before_year (Suc y)) =
     365 * (int y + 1) + int (y div 4) - int (y div 100) + int (y div 400) + 1"
proof (induction y)
  case 0
  show ?case by (simp add: year_days_def leap_year_def)
next
  case (Suc y)
  have step: "int (Suc y div k) = int (y div k) + (if k dvd Suc y then 1 else 0)" for k :: nat
    by (simp add: div_Suc dvd_eq_mod_eq_0)
  have dv: "100 dvd Suc y \<Longrightarrow> 4 dvd Suc y" "400 dvd Suc y \<Longrightarrow> 100 dvd Suc y"
    by (rule dvd_trans[of _ 100], simp, assumption) (rule dvd_trans[of _ 400], simp, assumption)
  have days: "int (days_before_year (Suc (Suc y))) = int (days_before_year (Suc y)) + int (year_days (Suc y))"
    by simp
  show ?case
    unfolding days Suc year_days_def leap_year_def step[of 4] step[of 100] step[of 400]
    using dv by (cases "4 dvd Suc y"; cases "100 dvd Suc y"; cases "400 dvd Suc y") simp_all
qed

definition civil_day :: "nat \<Rightarrow> nat \<Rightarrow> int" where
  "civil_day y m = int (days_before_year y + days_before_month y m) - 719528"

lemma quot_nonneg: "0 \<le> a \<Longrightarrow> 0 < b \<Longrightarrow> quot a b = a div b"
  by (simp add: quot_def)

lemma era_split:
  fixes y :: int
  assumes "0 \<le> y"
  shows "quot y 400 * 146097 + (y - quot y 400 * 400) * 365 +
     quot (y - quot y 400 * 400) 4 - quot (y - quot y 400 * 400) 100 =
     365 * y + y div 4 - y div 100 + y div 400"
proof -
  define e r where "e = y div 400" and "r = y mod 400"
  have y: "y = 400 * e + r" and r: "0 \<le> r" by (simp_all add: e_def r_def)
  have "quot y 400 = e" using assms by (simp add: quot_nonneg e_def)
  moreover have "y div 4 = 100 * e + r div 4" "y div 100 = 4 * e + r div 100" unfolding y by simp_all
  moreover have "r div 400 = 0" by (simp add: r_def)
  ultimately show ?thesis using r by (simp add: quot_nonneg y)
qed

lemma months: "1 \<le> m \<Longrightarrow> m \<le> 12 \<Longrightarrow> m \<in> {1, 2, 3, 4, 5, 6, 7, 8, 9, 10, 11, 12 :: nat}"
  by (simp only: insert_iff empty_iff) presburger

lemma days_before_month_closed:
  assumes "1 \<le> m" "m \<le> 12"
  shows "int (days_before_month y m) = (if m \<le> 2 then 31 * (int m - 1)
     else quot (153 * (int m - 3) + 2) 5 + 59 + (if leap_year y then 1 else 0))"
  using months[OF assms] by (elim insertE; simp add: eval_nat_numeral month_days_def quot_def)

lemma days_from_civil_eq:
  assumes "1 \<le> y" "1 \<le> m" "m \<le> 12"
  shows "days_from_civil (int y) (int m) 1 = civil_day y m"
proof (cases "m \<le> 2")
  case True
  obtain k where k: "y = Suc k" using assms(1) by (cases y) simp_all
  have year: "int y - 1 = int k" using k by simp
  have "quot (153 * (int m + 9) + 2) 5 = 31 * (int m - 1) + 306"
    using assms(2) True by (cases "m = 1") (simp_all add: quot_def le_Suc_eq numeral_2_eq_2)
  then show ?thesis
    using True era_split[of "int k"] days_before_year_closed[of k] days_before_month_closed[OF assms(2,3), of y]
    by (simp add: days_from_civil_def civil_day_def Let_def year k zdiv_int)
next
  case False
  have "days_before_year (Suc y) = days_before_year y + (if leap_year y then 366 else 365)"
    by (simp add: year_days_def)
  then show ?thesis
    using False era_split[of "int y"] days_before_year_closed[of y] days_before_month_closed[OF assms(2,3), of y]
    by (cases "leap_year y") (simp_all add: days_from_civil_def civil_day_def Let_def zdiv_int algebra_simps)
qed

lemma civil_day_next:
  assumes "1 \<le> m" "m \<le> 12"
  shows "(if m = 12 then civil_day (y + 1) 1 else civil_day y (m + 1)) = civil_day y m + int (month_days y m)"
proof (cases "m = 12")
  case True
  have "days_before_month y 12 + 31 = year_days y"
    by (simp add: eval_nat_numeral month_days_def year_days_def)
  then show ?thesis using True by (simp add: civil_day_def month_days_def eval_nat_numeral)
next
  case False
  then show ?thesis using assms by (simp add: civil_day_def)
qed

text \<open>\<open>days_from_civil\<close>, the closed formula the query engine reads buckets with, is the calendar: on
  every year from 1 on and every month it is the number of days from 1970-01-01 to the first of that
  month, counted month by month with the leap years of the Gregorian rule.\<close>

theorem days_from_civil_is_calendar:
  assumes "1 \<le> y" "1 \<le> m" "m \<le> 12"
  shows "days_from_civil (int y) (int m) 1 =
     int (days_before_year y + days_before_month y m) - int (days_before_year 1970 + days_before_month 1970 1)"
proof -
  have "int (days_before_year 1970) = 719528"
    using days_before_year_closed[of 1969] by simp
  then show ?thesis using days_from_civil_eq[OF assms] by (simp add: civil_day_def)
qed

theorem days_from_civil_is_calendar_witness:
  "days_from_civil (int 2026) (int 4) 1 =
     int (days_before_year 2026 + days_before_month 2026 4) - int (days_before_year 1970 + days_before_month 1970 1)"
  by (rule days_from_civil_is_calendar) simp_all

subsection \<open>Reading back what is written\<close>

lemma of_char_digit: "d < 10 \<Longrightarrow> of_char (digit_char d) = (48 + d :: nat)"
  by (simp add: digit_char_def)

lemma digit_value_digit [simp]: "d < 10 \<Longrightarrow> digit_value (digit_char d) = Some d"
  by (simp add: digit_value_def of_char_digit Let_def)

lemma digit_char_sign [simp]:
  assumes "d < 10"
  shows "digit_char d \<noteq> CHR ''-''" "digit_char d \<noteq> CHR ''+''"
  using of_char_digit[OF assms] by auto

lemma digit_char_0: "CHR ''0'' = digit_char 0"
  by code_simp

lemma zero_padded_4:
  assumes "n < 10000"
  shows "zero_padded 4 n = map digit_char [n div 1000, n div 100 mod 10, n div 10 mod 10, n mod 10]"
proof -
  have rep: "replicate 3 x = [x, x, x]" "replicate 2 x = [x, x]" for x :: char
    by (simp_all add: numeral_eq_Suc)
  have d: "n div 10 div 10 = n div 100" "n div 100 div 10 = n div 1000" by (simp_all add: div_mult2_eq)
  consider "n < 10" | "10 \<le> n" "n < 100" | "100 \<le> n" "n < 1000" | "1000 \<le> n" using assms by linarith
  then show ?thesis
  proof cases
    case 1
    then show ?thesis by (simp add: zero_padded_def decimal.simps[of n] digit_char_0 rep)
  next
    case 2
    then have "n div 10 < 10" by auto
    then show ?thesis using 2
      by (simp add: zero_padded_def decimal.simps[of n] decimal.simps[of "n div 10"] digit_char_0 rep)
  next
    case 3
    then have "n div 100 < 10" "\<not> n div 10 < 10" by auto
    then show ?thesis using 3
      by (simp add: zero_padded_def decimal.simps[of n] decimal.simps[of "n div 10"]
          decimal.simps[of "n div 100"] d digit_char_0)
  next
    case 4
    then have "n div 1000 < 10" "\<not> n div 10 < 10" "\<not> n div 100 < 10" using assms by auto
    then show ?thesis using 4
      by (simp add: zero_padded_def decimal.simps[of n] decimal.simps[of "n div 10"]
          decimal.simps[of "n div 100"] decimal.simps[of "n div 1000"] d)
  qed
qed

lemma zero_padded_2: "n < 100 \<Longrightarrow> zero_padded 2 n = map digit_char [n div 10, n mod 10]"
  by (cases "n < 10")
    (simp_all add: zero_padded_def decimal.simps[of n] decimal.simps[of "n div 10"] digit_char_0 less_mult_imp_div_less)

definition bucket_name :: "nat \<Rightarrow> nat \<Rightarrow> string" where
  "bucket_name y m = zero_padded 4 y @ ''-'' @ zero_padded 2 m"

lemma digits_value_4:
  "y < 10000 \<Longrightarrow> parse_number (zero_padded 4 y) = Some y"
proof -
  assume y: "y < 10000"
  have four: "y div 1000 < 10" using y by (simp add: less_mult_imp_div_less)
  have "10 * (10 * (10 * (y div 1000) + y div 100 mod 10) + y div 10 mod 10) + y mod 10 = y"
    using mult_div_mod_eq[of 10 y] mult_div_mod_eq[of 10 "y div 10"] mult_div_mod_eq[of 10 "y div 100"]
    by (simp add: div_mult2_eq[symmetric])
  then show ?thesis using four
    by (simp only: zero_padded_4[OF y] list.map parse_number_def list.case digit_char_sign if_False
        digits_value.simps digit_value_digit option.case mult_0_right add_0 mod_less_divisor)
qed

lemma digits_value_2: "m < 100 \<Longrightarrow> parse_number (zero_padded 2 m) = Some m"
  by (simp add: zero_padded_2 parse_number_def less_mult_imp_div_less)

lemma parse_bucket_range_ms_split:
  assumes "split_once (CHR ''-'') b = Some (ys, ms)" "length ys = 4" "length ms = 2"
    and "parse_number ys = Some y" "parse_number ms = Some m" "1 \<le> m" "m \<le> 12"
  shows "parse_bucket_range_ms b = Some (days_from_civil (int y) (int m) 1 * 86400000,
     days_from_civil (int (if m = 12 then y + 1 else y)) (int (if m = 12 then 1 else m + 1)) 1 * 86400000)"
  using assms by (simp add: parse_bucket_range_ms_def Let_def)

lemma parse_bucket_name:
  assumes "1 \<le> y" "y < 10000" "1 \<le> m" "m \<le> 12"
  shows "parse_bucket_range_ms (bucket_name y m) =
     Some (civil_day y m * 86400000, (civil_day y m + int (month_days y m)) * 86400000)"
proof -
  have m: "m < 100" using assms by simp
  have four: "y div 1000 < 10" using assms by (simp add: less_mult_imp_div_less)
  have two: "m div 10 < 10" using assms by (simp add: less_mult_imp_div_less)
  have split: "split_once (CHR ''-'') (bucket_name y m) = Some (zero_padded 4 y, zero_padded 2 m)"
    using four two by (simp add: split_once_def bucket_name_def zero_padded_4[OF assms(2)] zero_padded_2[OF m])
  have len: "length (zero_padded 4 y) = 4" "length (zero_padded 2 m) = 2"
    by (simp_all add: zero_padded_4[OF assms(2)] zero_padded_2[OF m])
  have fin: "days_from_civil (int (if m = 12 then y + 1 else y)) (int (if m = 12 then 1 else m + 1)) 1 =
      civil_day y m + int (month_days y m)"
    using days_from_civil_eq[of "y + 1" 1] days_from_civil_eq[of y "m + 1"] civil_day_next[OF assms(3,4), of y] assms
    by (cases "m = 12") (simp_all del: days_before_year.simps)
  have start: "days_from_civil (int y) (int m) 1 = civil_day y m"
    by (rule days_from_civil_eq) (use assms in auto)
  show ?thesis
    using parse_bucket_range_ms_split[OF split len digits_value_4[OF assms(2)] digits_value_2[OF m] assms(3,4)]
    unfolding fin start .
qed

subsection \<open>Pruning by date\<close>

text \<open>The instants of a calendar month, and those of the date window of a query.\<close>

definition in_month :: "nat \<Rightarrow> nat \<Rightarrow> int \<Rightarrow> bool" where
  "in_month y m ms \<longleftrightarrow> civil_day y m * 86400000 \<le> ms \<and> ms < (civil_day y m + int (month_days y m)) * 86400000"

definition in_window :: "int option \<Rightarrow> int option \<Rightarrow> int \<Rightarrow> bool" where
  "in_window date_from date_to ms \<longleftrightarrow>
     (case date_from of None \<Rightarrow> True | Some f \<Rightarrow> f \<le> ms) \<and> (case date_to of None \<Rightarrow> True | Some t \<Rightarrow> ms \<le> t)"

lemma month_days_pos: "0 < month_days y m"
  by (simp add: month_days_def)

text \<open>The date pruning of cold buckets is exact for the calendar: a bucket \<open>YYYY-MM\<close> is kept if and
  only if some instant of that calendar month is inside the date window of the query (a window that
  is not empty).\<close>

theorem bucket_pruning_exact:
  assumes "1 \<le> y" "y < 10000" "1 \<le> m" "m \<le> 12"
    and "in_window date_from date_to t"
  shows "bucket_overlaps_date_range (bucket_name y m) date_from date_to \<longleftrightarrow>
     (\<exists>ms. in_month y m ms \<and> in_window date_from date_to ms)"
proof -
  define s e where "s = civil_day y m * 86400000"
    and "e = (civil_day y m + int (month_days y m)) * 86400000"
  have parse: "parse_bucket_range_ms (bucket_name y m) = Some (s, e)"
    using parse_bucket_name[OF assms(1-4)] by (simp add: s_def e_def)
  have se: "s < e" using month_days_pos[of y m] by (simp add: s_def e_def)
  have "bucket_overlaps_date_range (bucket_name y m) date_from date_to \<longleftrightarrow>
     (case date_to of None \<Rightarrow> True | Some t \<Rightarrow> s \<le> t) \<and> (case date_from of None \<Rightarrow> True | Some f \<Rightarrow> f < e)"
    by (auto simp: bucket_overlaps_date_range_def parse split: option.splits)
  also have "\<dots> \<longleftrightarrow> (\<exists>ms. s \<le> ms \<and> ms < e \<and> in_window date_from date_to ms)"
  proof
    assume h: "(case date_to of None \<Rightarrow> True | Some t \<Rightarrow> s \<le> t) \<and> (case date_from of None \<Rightarrow> True | Some f \<Rightarrow> f < e)"
    let ?ms = "case date_from of None \<Rightarrow> s | Some f \<Rightarrow> max s f"
    have "s \<le> ?ms \<and> ?ms < e \<and> in_window date_from date_to ?ms"
      using h se assms(5) by (auto simp: in_window_def split: option.splits)
    then show "\<exists>ms. s \<le> ms \<and> ms < e \<and> in_window date_from date_to ms" by blast
  qed (auto simp: in_window_def split: option.splits)
  finally show ?thesis by (simp add: in_month_def s_def e_def conj_assoc)
qed

theorem bucket_pruning_exact_witness:
  "bucket_overlaps_date_range (bucket_name 2026 4) (Some 0) None \<longleftrightarrow>
     (\<exists>ms. in_month 2026 4 ms \<and> in_window (Some 0) None ms)"
  by (rule bucket_pruning_exact[where t = 0]) (simp_all add: in_window_def)

subsection \<open>The two calendars disagree\<close>

lemma filed_under:
  assumes "0 \<le> ms"
  shows "default_time_bucket_for_ms ms =
     bucket_name (nat (1970 + ms div 86400000 div 365)) (nat (1 + min (ms div 86400000 mod 365 div 30) 11))"
proof -
  have secs: "quot ms 1000 = ms div 1000" using assms by (simp add: quot_nonneg)
  have days: "quot (ms div 1000) 86400 = ms div 86400000"
    using assms by (simp add: quot_nonneg pos_imp_zdiv_nonneg_iff zdiv_zmult2_eq[symmetric])
  have "0 \<le> ms div 86400000" "0 \<le> ms div 1000" using assms by simp_all
  then show ?thesis
    by (simp add: default_time_bucket_for_ms_def bucket_name_def secs days quot_nonneg Let_def)
qed

text \<open>A message sent on 31 January 2026 is filed under February, because filing counts months of 30 days
  and forgets leap days; a date window of exactly that day prunes its bucket.\<close>

lemma january_filed: "default_time_bucket_for_ms 1769817600000 = ''2026-02''"
  by (simp add: filed_under bucket_name_def zero_padded_4 zero_padded_2) code_simp

lemma january_bucket_pruned:
  "\<not> bucket_overlaps_date_range ''2026-02'' (Some 1769817600000) (Some 1769817600000)"
proof -
  have name: "bucket_name 2026 2 = ''2026-02''"
    by (simp add: bucket_name_def zero_padded_4 zero_padded_2) code_simp
  have feb: "civil_day 2026 2 = 20485"
    using days_from_civil_eq[of 2026 2] by (simp add: days_from_civil_def quot_def Let_def)
  have parse: "parse_bucket_range_ms (bucket_name 2026 2) = Some (1769904000000, 1772323200000)"
    using parse_bucket_name[of 2026 2] feb by (simp add: month_days_def leap_year_def)
  show ?thesis by (simp add: bucket_overlaps_date_range_def parse[unfolded name])
qed

lemma january_is_january: "in_month 2026 1 1769817600000"
proof -
  have "civil_day 2026 (Suc 0) = 20454"
    using days_from_civil_eq[of 2026 1] by (simp add: days_from_civil_def quot_def Let_def)
  then show ?thesis by (simp add: in_month_def month_days_def)
qed

subsection \<open>Filing is monotone\<close>

lemma less_digit_char: "a < 10 \<Longrightarrow> b < 10 \<Longrightarrow> digit_char a < digit_char b \<longleftrightarrow> a < b"
  and eq_digit_char: "a < 10 \<Longrightarrow> b < 10 \<Longrightarrow> digit_char a = digit_char b \<longleftrightarrow> a = b"
  by (simp_all add: less_char_def of_char_digit) (metis add_left_cancel of_char_digit)

primrec horner :: "nat list \<Rightarrow> nat" where
  "horner [] = 0"
| "horner (d # ds) = d * 10 ^ length ds + horner ds"

lemma horner_less: "list_all (\<lambda>d. d < 10) ds \<Longrightarrow> horner ds < 10 ^ length ds"
proof (induction ds)
  case (Cons d ds)
  then have "horner ds < 10 ^ length ds" "d * 10 ^ length ds \<le> 9 * 10 ^ length ds" by simp_all
  then have "d * 10 ^ length ds + horner ds < 10 * 10 ^ length ds" by linarith
  then show ?case by simp
qed simp

lemma digit_chars_mono:
  assumes "length ds = length es" "list_all (\<lambda>d. d < 10) ds" "list_all (\<lambda>d. d < 10) es" "horner ds \<le> horner es"
  shows "map digit_char ds \<le> map digit_char es"
  using assms
proof (induction ds es rule: list_induct2)
  case (Cons d ds e es)
  have b: "horner ds < 10 ^ length ds" "horner es < 10 ^ length ds"
    using Cons horner_less[of ds] horner_less[of es] by simp_all
  show ?case
  proof (cases "d = e")
    case True
    then show ?thesis using Cons by simp
  next
    case False
    have "d < e"
    proof (rule ccontr)
      assume "\<not> d < e"
      then have "(e + 1) * 10 ^ length ds \<le> d * 10 ^ length ds" using False by (intro mult_right_mono) auto
      then show False using Cons.hyps Cons.prems(3) b by (simp add: algebra_simps)
    qed
    then show ?thesis using Cons.prems by (simp add: less_digit_char)
  qed
qed simp

lemma append_le:
  fixes xs :: string
  assumes "length xs = length ys" "xs < ys \<or> xs = ys \<and> zs \<le> ws"
  shows "xs @ zs \<le> ys @ ws"
  using assms by (induction xs ys rule: list_induct2) auto

lemma bucket_name_mono:
  assumes "y < 10000" "y' < 10000" "m < 100" "m' < 100" "y < y' \<or> y = y' \<and> m \<le> m'"
  shows "bucket_name y m \<le> bucket_name y' m'"
proof -
  have four: "horner [n div 1000, n div 100 mod 10, n div 10 mod 10, n mod 10] = n" for n
  proof -
    have "10 * (n div 10) + n mod 10 = n" "10 * (n div 100) + n div 10 mod 10 = n div 10"
      "10 * (n div 1000) + n div 100 mod 10 = n div 100"
      using mult_div_mod_eq[of 10 "n div 10"] mult_div_mod_eq[of 10 "n div 100"]
      by (simp_all add: div_mult2_eq[symmetric])
    then have "n div 1000 * 1000 + (n div 100 mod 10 * 100 + (n div 10 mod 10 * 10 + n mod 10)) = n" by linarith
    then show ?thesis by simp
  qed
  have years: "zero_padded 4 y \<le> zero_padded 4 y'" if "y \<le> y'"
    unfolding zero_padded_4[OF assms(1)] zero_padded_4[OF assms(2)]
    by (rule digit_chars_mono)
      (use that assms in \<open>simp_all only: four list.pred_inject list.size, simp_all add: less_mult_imp_div_less\<close>)
  have monthly: "zero_padded 2 m \<le> zero_padded 2 m'" if "m \<le> m'"
    unfolding zero_padded_2[OF assms(3)] zero_padded_2[OF assms(4)]
    by (rule digit_chars_mono) (use that assms in \<open>simp_all add: less_mult_imp_div_less\<close>)
  have "zero_padded 4 y \<noteq> zero_padded 4 y'" if "y \<noteq> y'"
    using digits_value_4[OF assms(1)] digits_value_4[OF assms(2)] that by auto
  then have "zero_padded 4 y < zero_padded 4 y' \<or> zero_padded 4 y = zero_padded 4 y' \<and> zero_padded 2 m \<le> zero_padded 2 m'"
    using assms(5) years monthly by (auto simp: order_less_le)
  then show ?thesis unfolding bucket_name_def
    by (intro append_le) (auto simp: zero_padded_4 assms)
qed

lemma filed_mono:
  fixes y :: int
  assumes "0 \<le> y" "y \<le> y'" "y' < 8030" "0 \<le> k" "0 \<le> k'" "y = y' \<Longrightarrow> k \<le> k'"
  shows "bucket_name (nat (1970 + y)) (nat (1 + min k 11)) \<le> bucket_name (nat (1970 + y')) (nat (1 + min k' 11))"
proof (rule bucket_name_mono)
  show "nat (1970 + y) < 10000" "nat (1970 + y') < 10000" using assms(1-3) by linarith+
  show "nat (1 + min k 11) < 100" "nat (1 + min k' 11) < 100"
    using min.cobounded2[of k 11] min.cobounded2[of k' 11] by linarith+
  show "nat (1970 + y) < nat (1970 + y') \<or>
      nat (1970 + y) = nat (1970 + y') \<and> nat (1 + min k 11) \<le> nat (1 + min k' 11)"
  proof (cases "y = y'")
    case True
    then have "nat (1 + min k 11) \<le> nat (1 + min k' 11)" using assms(6) by (intro nat_mono) linarith
    then show ?thesis using True by blast
  next
    case False
    then have "nat (1970 + y) < nat (1970 + y')" using assms(1,2) by linarith
    then show ?thesis ..
  qed
qed

text \<open>Filing is deterministic and monotone, as the builder relies on: of two messages, the later one
  is never filed under an earlier bucket (up to the year 9999, in the order of the bucket names).\<close>

theorem default_bucket_monotone:
  assumes "0 \<le> a" "a \<le> b" "b < 8030 * 365 * 86400000"
  shows "default_time_bucket_for_ms a \<le> default_time_bucket_for_ms b"
proof -
  define d e where "d = a div 86400000" and "e = b div 86400000"
  have de: "0 \<le> d" "d \<le> e" "e < 8030 * 365"
    using assms by (auto simp: d_def e_def zdiv_mono1)
  have y: "d div 365 \<le> e div 365" "0 \<le> d div 365" "e div 365 < 8030" using de by (auto simp: zdiv_mono1)
  have m: "d mod 365 div 30 \<le> e mod 365 div 30" if "d div 365 = e div 365"
  proof (rule zdiv_mono1)
    have "365 * (d div 365) + d mod 365 = d" "365 * (e div 365) + e mod 365 = e" by simp_all
    then show "d mod 365 \<le> e mod 365" using that de(2) by linarith
  qed simp
  have "0 \<le> d mod 365 div 30" "0 \<le> e mod 365 div 30" by simp_all
  note filed_mono[OF y(2,1,3) this m]
  then show ?thesis using assms filed_under[of a] filed_under[of b] by (simp add: d_def e_def)
qed

theorem default_bucket_monotone_witness:
  "default_time_bucket_for_ms 0 \<le> default_time_bucket_for_ms 1777000000000"
  by (rule default_bucket_monotone) simp_all

end
