(* ===== verification/Manifests.thy ===== *)
theory Manifests
  imports Shard_Cache
begin

text \<open>
  Backup and archive manifests: the records and the hybrid signatures (\<open>formats/manifest.rs\<close>,
  \<open>crypto/signing.rs\<close>), the two builders (\<open>backup/manifest_builder.rs\<close>, \<open>archive/manifest_builder.rs\<close>) and the
  verification of a chain (\<open>restore/manifest_verifier.rs\<close>).  Primitives and the CBOR codec are libraries:
  the records \<open>crypto\<close> and \<open>codec\<close> hold them.  The trait \<open>Manifest\<close> is a record of its methods,
  \<open>manifest_ops\<close>; its laws are the locale \<open>signed_manifest\<close>, which both manifest types interpret.
\<close>

subsection \<open>Bytes\<close>

type_synonym uuid = "128 word"

fun le_bytes :: "nat \<Rightarrow> nat \<Rightarrow> bytes" where
  "le_bytes 0 n = []"
| "le_bytes (Suc k) n = word_of_nat (n mod 256) # le_bytes k (n div 256)"

definition uuid_bytes :: "uuid \<Rightarrow> bytes" where
  "uuid_bytes u = rev (le_bytes 16 (unat u))"

definition ascii_bytes :: "string \<Rightarrow> bytes" where
  "ascii_bytes s = map of_char s"

lemma length_le_bytes [simp]: "length (le_bytes k n) = k"
  by (induction k arbitrary: n) simp_all

lemma le_bytes_inject: "n < 256 ^ k \<Longrightarrow> m < 256 ^ k \<Longrightarrow> le_bytes k n = le_bytes k m \<longleftrightarrow> n = m"
proof (induction k arbitrary: n m)
  case (Suc k)
  have "word_of_nat (n mod 256) = (word_of_nat (m mod 256) :: byte) \<longleftrightarrow> n mod 256 = m mod 256"
    by (simp add: word_of_nat_eq_iff take_bit_eq_mod)
  moreover have "le_bytes k (n div 256) = le_bytes k (m div 256) \<longleftrightarrow> n div 256 = m div 256"
    using Suc.prems by (intro Suc.IH) (simp_all add: less_mult_imp_div_less mult.commute)
  moreover have "n = m \<longleftrightarrow> n mod 256 = m mod 256 \<and> n div 256 = m div 256"
    by (metis mult_div_mod_eq)
  ultimately show ?case by simp
qed simp

lemma length_uuid_bytes [simp]: "length (uuid_bytes u) = 16"
  by (simp add: uuid_bytes_def)

lemma uuid_bytes_inject [simp]: "uuid_bytes u = uuid_bytes v \<longleftrightarrow> u = v"
proof -
  have "unat w < 256 ^ 16" for w :: uuid using unsigned_less[of w, where ?'a = nat] by simp
  then show ?thesis by (simp add: uuid_bytes_def le_bytes_inject word_unat_eq_iff)
qed

lemma u64_le_inject [simp]: "le_bytes 8 (unat (g :: 64 word)) = le_bytes 8 (unat h) \<longleftrightarrow> g = h"
proof -
  have "unat w < 256 ^ 8" for w :: "64 word" using unsigned_less[of w, where ?'a = nat] by simp
  then show ?thesis by (simp add: le_bytes_inject word_unat_eq_iff)
qed

subsection \<open>The libraries\<close>

text \<open>AEAD (XChaCha20-Poly1305), BLAKE3, SHA-256, Ed25519 and ML-DSA-65.  A verification is \<open>False\<close> also
  where the signature bytes do not decode.\<close>

record crypto =
  cr_seal :: "bytes \<Rightarrow> bytes \<Rightarrow> bytes \<Rightarrow> bytes \<Rightarrow> bytes option"
  cr_open :: "bytes \<Rightarrow> bytes \<Rightarrow> bytes \<Rightarrow> bytes \<Rightarrow> bytes option"
  cr_blake3 :: "bytes \<Rightarrow> bytes"
  cr_sha256 :: "bytes \<Rightarrow> bytes"
  cr_ed_public :: "bytes \<Rightarrow> bytes"
  cr_ed_sign :: "bytes \<Rightarrow> bytes \<Rightarrow> bytes"
  cr_ed_verify :: "bytes \<Rightarrow> bytes \<Rightarrow> bytes \<Rightarrow> bool"
  cr_ml_sign :: "bytes \<Rightarrow> bytes \<Rightarrow> bytes option"
  cr_ml_verify :: "bytes \<Rightarrow> bytes \<Rightarrow> bytes \<Rightarrow> bool"

datatype crypto_error = Aead string | Kdf string | InvalidInput string | Frame string

datatype core_error = StorageFailure string | CryptoFailure crypto_error

definition aead_seal :: "crypto \<Rightarrow> bytes \<Rightarrow> bytes \<Rightarrow> bytes \<Rightarrow> bytes \<Rightarrow> core_error + bytes" where
  "aead_seal cr key nonce plaintext aad = (case cr_seal cr key nonce plaintext aad of
      None \<Rightarrow> Inl (CryptoFailure (Aead ''xchacha20-poly1305 seal failed'')) | Some c \<Rightarrow> Inr c)"

definition aead_open :: "crypto \<Rightarrow> bytes \<Rightarrow> bytes \<Rightarrow> bytes \<Rightarrow> bytes \<Rightarrow> core_error + bytes" where
  "aead_open cr key nonce ciphertext aad = (case cr_open cr key nonce ciphertext aad of
      None \<Rightarrow> Inl (CryptoFailure (Aead ''xchacha20-poly1305 open failed'')) | Some p \<Rightarrow> Inr p)"

subsection \<open>Hybrid signatures\<close>

record hybrid_signing_key =
  hs_ed25519 :: bytes
  hs_ml_dsa_signing :: bytes
  hs_ml_dsa_verifying :: bytes

record hybrid_verifying_key =
  hv_ed25519 :: bytes
  hv_ml_dsa :: bytes

datatype hybrid_signature_failure = Ed25519Leg | MlDsaLeg

definition verifying_key :: "crypto \<Rightarrow> hybrid_signing_key \<Rightarrow> hybrid_verifying_key" where
  "verifying_key cr k = \<lparr>hv_ed25519 = cr_ed_public cr (hs_ed25519 k), hv_ml_dsa = hs_ml_dsa_verifying k\<rparr>"

definition sign_payload :: "crypto \<Rightarrow> hybrid_signing_key \<Rightarrow> bytes \<Rightarrow> crypto_error + bytes \<times> bytes" where
  "sign_payload cr k payload = (case cr_ml_sign cr (hs_ml_dsa_signing k) payload of
      None \<Rightarrow> Inl (Aead ''ml-dsa-65 sign failed'')
    | Some s \<Rightarrow> Inr (cr_ed_sign cr (hs_ed25519 k) payload, s))"

definition ed25519_signature_len :: nat where "ed25519_signature_len = 64"
definition ml_dsa_65_signature_len :: nat where "ml_dsa_65_signature_len = 3309"

definition verify_ed25519 :: "crypto \<Rightarrow> hybrid_verifying_key \<Rightarrow> bytes \<Rightarrow> bytes \<Rightarrow> crypto_error + unit" where
  "verify_ed25519 cr vk payload signature =
     (if length signature \<noteq> ed25519_signature_len
      then Inl (Frame ''manifest: ed25519 signature must be 64 bytes'')
      else if cr_ed_verify cr (hv_ed25519 vk) payload signature then Inr ()
      else Inl (Aead ''manifest: ed25519 verify failed''))"

definition verify_ml_dsa :: "crypto \<Rightarrow> hybrid_verifying_key \<Rightarrow> bytes \<Rightarrow> bytes \<Rightarrow> crypto_error + unit" where
  "verify_ml_dsa cr vk payload signature =
     (if length signature \<noteq> ml_dsa_65_signature_len
      then Inl (Frame ''manifest: ml-dsa-65 signature must be 3309 bytes'')
      else if cr_ml_verify cr (hv_ml_dsa vk) payload signature then Inr ()
      else Inl (Aead ''manifest: ml-dsa-65 verify failed''))"

definition verify_payload ::
  "crypto \<Rightarrow> hybrid_verifying_key \<Rightarrow> bytes \<Rightarrow> bytes \<Rightarrow> bytes \<Rightarrow> hybrid_signature_failure + unit" where
  "verify_payload cr vk payload ed_signature pqc_signature =
     (case verify_ed25519 cr vk payload ed_signature of
        Inl _ \<Rightarrow> Inl Ed25519Leg
      | Inr _ \<Rightarrow> (case verify_ml_dsa cr vk payload pqc_signature of Inl _ \<Rightarrow> Inl MlDsaLeg | Inr _ \<Rightarrow> Inr ()))"

subsection \<open>The manifests\<close>

datatype segment_type =
    EventsSegment
  | MessageDelta
  | TimelineSkeleton
  | MediaKeyDelta
  | SearchTextSegment
  | SearchVectorSegment
  | MediaIndexSegment
  | Checkpoint

record manifest_segment_ref =
  sgr_segment_id :: uuid
  sgr_segment_type :: segment_type
  sgr_ciphertext_sha256 :: bytes
  sgr_size :: "64 word"

record manifest_shard_ref =
  shr_shard_id :: uuid
  shr_index_type :: index_type
  shr_ciphertext_sha256 :: bytes
  shr_time_bucket :: string

record manifest_media_ref =
  mdr_asset_id :: uuid
  mdr_blob_id :: uuid
  mdr_merkle_root :: bytes
  mdr_wrapped_k_asset :: bytes

record tombstone =
  ts_kind :: string
  ts_id :: string
  ts_deleted_at_ms :: int

record wrapped_epoch_key_ref =
  wek_epoch_id :: string
  wek_wrapped_key :: bytes

record backup_manifest =
  bm_magic :: string
  bm_version :: "32 word"
  bm_manifest_id :: uuid
  bm_generation :: "64 word"
  bm_previous_hash :: bytes
  bm_segments :: "manifest_segment_ref list"
  bm_shards :: "manifest_shard_ref list"
  bm_media :: "manifest_media_ref list"
  bm_tombstones :: "tombstone list"
  bm_merkle_root :: bytes
  bm_signature :: bytes
  bm_pqc_signature :: bytes

record archive_manifest =
  am_magic :: string
  am_version :: "32 word"
  am_manifest_id :: uuid
  am_generation :: "64 word"
  am_previous_hash :: bytes
  am_segments :: "manifest_segment_ref list"
  am_shards :: "manifest_shard_ref list"
  am_media :: "manifest_media_ref list"
  am_tombstones :: "tombstone list"
  am_wrapped_prior_epoch_keys :: "wrapped_epoch_key_ref list"
  am_merkle_root :: bytes
  am_signature :: bytes
  am_pqc_signature :: bytes

definition backup_manifest_magic :: string where "backup_manifest_magic = ''KCHAT_BAK_MANIFEST_V2''"
definition archive_manifest_magic :: string where "archive_manifest_magic = ''KCHAT_ARC_MANIFEST_V2''"
definition manifest_version :: "32 word" where "manifest_version = 2"
definition genesis_previous_hash :: bytes where "genesis_previous_hash = replicate 32 0"

definition backup_has_valid_header :: "backup_manifest \<Rightarrow> bool" where
  "backup_has_valid_header m =
     (if bm_magic m \<noteq> backup_manifest_magic \<or> bm_version m \<noteq> manifest_version then False
      else if bm_generation m = 0 \<and> bm_previous_hash m \<noteq> genesis_previous_hash then False
      else True)"

definition archive_has_valid_header :: "archive_manifest \<Rightarrow> bool" where
  "archive_has_valid_header m =
     (if am_magic m \<noteq> archive_manifest_magic \<or> am_version m \<noteq> manifest_version then False
      else if am_generation m = 0 \<and> am_previous_hash m \<noteq> genesis_previous_hash then False
      else True)"

text \<open>Canonical CBOR; encoding may fail.\<close>

record codec =
  cd_backup :: "backup_manifest \<Rightarrow> bytes option"
  cd_backup_decode :: "bytes \<Rightarrow> backup_manifest option"
  cd_archive :: "archive_manifest \<Rightarrow> bytes option"
  cd_archive_decode :: "bytes \<Rightarrow> archive_manifest option"

record 'm manifest_ops =
  mo_cbor :: "'m \<Rightarrow> bytes option"
  mo_set_signature :: "bytes \<Rightarrow> 'm \<Rightarrow> 'm"
  mo_signature :: "'m \<Rightarrow> bytes"
  mo_set_pqc_signature :: "bytes \<Rightarrow> 'm \<Rightarrow> 'm"
  mo_pqc_signature :: "'m \<Rightarrow> bytes"

definition backup_ops :: "codec \<Rightarrow> backup_manifest manifest_ops" where
  "backup_ops cd = \<lparr>mo_cbor = cd_backup cd, mo_set_signature = (\<lambda>s m. m\<lparr>bm_signature := s\<rparr>),
     mo_signature = bm_signature, mo_set_pqc_signature = (\<lambda>s m. m\<lparr>bm_pqc_signature := s\<rparr>),
     mo_pqc_signature = bm_pqc_signature\<rparr>"

definition archive_ops :: "codec \<Rightarrow> archive_manifest manifest_ops" where
  "archive_ops cd = \<lparr>mo_cbor = cd_archive cd, mo_set_signature = (\<lambda>s m. m\<lparr>am_signature := s\<rparr>),
     mo_signature = am_signature, mo_set_pqc_signature = (\<lambda>s m. m\<lparr>am_pqc_signature := s\<rparr>),
     mo_pqc_signature = am_pqc_signature\<rparr>"

definition canonical_signing_payload :: "'m manifest_ops \<Rightarrow> 'm \<Rightarrow> crypto_error + bytes" where
  "canonical_signing_payload ops m =
     (case mo_cbor ops (mo_set_pqc_signature ops [] (mo_set_signature ops [] m)) of
        None \<Rightarrow> Inl (Frame ''manifest: canonical CBOR encode failed'') | Some b \<Rightarrow> Inr b)"

definition sign_in_place ::
  "crypto \<Rightarrow> 'm manifest_ops \<Rightarrow> hybrid_signing_key \<Rightarrow> 'm \<Rightarrow> crypto_error + 'm \<times> bytes \<times> bytes" where
  "sign_in_place cr ops k m =
     bindE (canonical_signing_payload ops m) (\<lambda>payload.
     bindE (sign_payload cr k payload) (\<lambda>(ed, ml).
     Inr (mo_set_pqc_signature ops ml (mo_set_signature ops ed m), ed, ml)))"

definition verify_signatures ::
  "crypto \<Rightarrow> 'm manifest_ops \<Rightarrow> hybrid_verifying_key \<Rightarrow> 'm \<Rightarrow> crypto_error + unit" where
  "verify_signatures cr ops vk m =
     (if length (mo_signature ops m) \<noteq> ed25519_signature_len
      then Inl (Frame ''manifest: ed25519 signature must be 64 bytes'')
      else if length (mo_pqc_signature ops m) \<noteq> ml_dsa_65_signature_len
      then Inl (Frame ''manifest: ml-dsa-65 signature must be 3309 bytes'')
      else bindE (canonical_signing_payload ops m) (\<lambda>payload.
        case verify_payload cr vk payload (mo_signature ops m) (mo_pqc_signature ops m) of
          Inl Ed25519Leg \<Rightarrow> Inl (Aead ''manifest: ed25519 verify failed'')
        | Inl MlDsaLeg \<Rightarrow> Inl (Aead ''manifest: ml-dsa-65 verify failed'')
        | Inr _ \<Rightarrow> Inr ()))"

definition compute_manifest_hash :: "crypto \<Rightarrow> codec \<Rightarrow> backup_manifest \<Rightarrow> crypto_error + bytes" where
  "compute_manifest_hash cr cd m = (case cd_backup cd m of
      None \<Rightarrow> Inl (Frame ''manifest: hash CBOR encode failed'') | Some b \<Rightarrow> Inr (cr_blake3 cr b))"

definition compute_archive_manifest_hash :: "crypto \<Rightarrow> codec \<Rightarrow> archive_manifest \<Rightarrow> crypto_error + bytes" where
  "compute_archive_manifest_hash cr cd m = (case cd_archive cd m of
      None \<Rightarrow> Inl (Frame ''manifest: hash CBOR encode failed'') | Some b \<Rightarrow> Inr (cr_blake3 cr b))"

subsection \<open>Signing and verifying\<close>

text \<open>What is assumed of the primitives for a key: its own signatures have the right length and verify.\<close>

definition signs_soundly :: "crypto \<Rightarrow> hybrid_signing_key \<Rightarrow> bool" where
  "signs_soundly cr k \<longleftrightarrow>
     (\<forall>p. length (cr_ed_sign cr (hs_ed25519 k) p) = ed25519_signature_len \<and>
          cr_ed_verify cr (cr_ed_public cr (hs_ed25519 k)) p (cr_ed_sign cr (hs_ed25519 k) p)) \<and>
     (\<forall>p s. cr_ml_sign cr (hs_ml_dsa_signing k) p = Some s \<longrightarrow>
          length s = ml_dsa_65_signature_len \<and> cr_ml_verify cr (hs_ml_dsa_verifying k) p s)"

locale signed_manifest =
  fixes ops :: "'m manifest_ops"
  assumes signature_set: "mo_signature ops (mo_set_pqc_signature ops t (mo_set_signature ops s m)) = s"
    and pqc_set: "mo_pqc_signature ops (mo_set_pqc_signature ops t m) = t"
    and set_again: "mo_set_pqc_signature ops t' (mo_set_signature ops s'
        (mo_set_pqc_signature ops t (mo_set_signature ops s m))) =
      mo_set_pqc_signature ops t' (mo_set_signature ops s' m)"
begin

lemma payload_of_signed:
  "sign_in_place cr ops k m = Inr (m', sig) \<Longrightarrow>
   canonical_signing_payload ops m' = canonical_signing_payload ops m"
  by (auto simp: sign_in_place_def canonical_signing_payload_def err_simps set_again)

lemma signed_verifies:
  assumes "signs_soundly cr k" "sign_in_place cr ops k m = Inr (m', sig)"
  shows "verify_signatures cr ops (verifying_key cr k) m' = Inr ()"
proof -
  obtain p s where p: "canonical_signing_payload ops m = Inr p" and s: "cr_ml_sign cr (hs_ml_dsa_signing k) p = Some s"
    and m': "m' = mo_set_pqc_signature ops s (mo_set_signature ops (cr_ed_sign cr (hs_ed25519 k) p) m)"
    using assms(2) by (auto simp: sign_in_place_def sign_payload_def err_simps split: option.splits)
  have "canonical_signing_payload ops m' = Inr p" using payload_of_signed[OF assms(2)] p by simp
  moreover have "mo_signature ops m' = cr_ed_sign cr (hs_ed25519 k) p" "mo_pqc_signature ops m' = s"
    by (simp_all add: m' signature_set pqc_set)
  ultimately show ?thesis using assms(1) s
    by (simp add: verify_signatures_def verify_payload_def verify_ed25519_def verify_ml_dsa_def
        verifying_key_def signs_soundly_def)
qed

text \<open>Verification looks at a manifest only through its payload and its signatures.\<close>

lemma verify_needs_payload:
  "canonical_signing_payload ops m = canonical_signing_payload ops n \<Longrightarrow>
   mo_signature ops m = mo_signature ops n \<Longrightarrow> mo_pqc_signature ops m = mo_pqc_signature ops n \<Longrightarrow>
   verify_signatures cr ops vk m = verify_signatures cr ops vk n"
  by (simp add: verify_signatures_def)

end

interpretation backup_signed: signed_manifest "backup_ops cd"
  by unfold_locales (simp_all add: backup_ops_def)

interpretation archive_signed: signed_manifest "archive_ops cd"
  by unfold_locales (simp_all add: archive_ops_def)

end
