(* ===== verification/Manifest_Chain.thy ===== *)
theory Manifest_Chain
  imports Manifests
begin

text \<open>
  The chain of backup manifests: sealing a manifest that points to its predecessor
  (\<open>backup/manifest_builder.rs\<close>, \<open>archive/manifest_builder.rs\<close>) and walking a chain from its genesis
  (\<open>restore/manifest_verifier.rs\<close>).  Fresh UUIDs and nonces are arguments.
\<close>

subsection \<open>Building a manifest\<close>

record built_backup_segment =
  bg_segment_id :: uuid
  bg_segment_type :: segment_type
  bg_nonce :: bytes
  bg_ciphertext :: bytes
  bg_merkle_root :: bytes
  bg_event_count :: nat

record built_segment =
  ag_segment_id :: uuid
  ag_conversation_id :: uuid
  ag_time_bucket :: string
  ag_segment_type :: segment_type
  ag_nonce :: bytes
  ag_ciphertext :: bytes
  ag_merkle_root :: bytes
  ag_event_count :: nat

record backup_manifest_build_request =
  br_segments :: "built_backup_segment list"
  br_search_index_shards :: "manifest_shard_ref list"
  br_media_references :: "manifest_media_ref list"
  br_tombstones :: "tombstone list"
  br_previous :: "backup_manifest option"
  br_device_id :: bytes
  br_manifest_id :: "uuid option"

record manifest_build_request =
  ar_segments :: "built_segment list"
  ar_search_index_shards :: "manifest_shard_ref list"
  ar_media_references :: "manifest_media_ref list"
  ar_tombstones :: "tombstone list"
  ar_wrapped_prior_epoch_keys :: "wrapped_epoch_key_ref list"
  ar_previous :: "archive_manifest option"

record sealed_backup_manifest =
  sbm_manifest :: backup_manifest
  sbm_signature :: "bytes \<times> bytes"
  sbm_nonce :: bytes
  sbm_ciphertext :: bytes

record sealed_archive_manifest =
  sam_manifest :: archive_manifest
  sam_signature :: "bytes \<times> bytes"
  sam_nonce :: bytes
  sam_ciphertext :: bytes

definition build_manifest_aad :: "uuid \<Rightarrow> 64 word \<Rightarrow> bytes \<Rightarrow> bytes \<Rightarrow> bytes" where
  "build_manifest_aad manifest_id generation merkle_root device_id =
     ascii_bytes backup_manifest_magic @ uuid_bytes manifest_id @ le_bytes 8 (unat generation) @
     merkle_root @ device_id"

lemma length_build_manifest_aad [simp]: "length (build_manifest_aad i g r d) = 45 + length r + length d"
  by (simp add: build_manifest_aad_def ascii_bytes_def backup_manifest_magic_def)

definition build_archive_manifest_aad :: "uuid \<Rightarrow> 64 word \<Rightarrow> bytes \<Rightarrow> bytes" where
  "build_archive_manifest_aad manifest_id generation merkle_root =
     ascii_bytes archive_manifest_magic @ uuid_bytes manifest_id @ le_bytes 8 (unat generation) @ merkle_root"

definition compute_segment_merkle_root :: "crypto \<Rightarrow> bytes list \<Rightarrow> bytes" where
  "compute_segment_merkle_root cr roots = cr_blake3 cr (concat roots)"

definition next_generation :: "64 word \<Rightarrow> string \<Rightarrow> core_error + 64 word" where
  "next_generation g what =
     (if g = - 1 then Inl (StorageFailure (what @ '' manifest generation overflow'')) else Inr (g + 1))"

definition backup_link :: "crypto \<Rightarrow> codec \<Rightarrow> backup_manifest option \<Rightarrow> core_error + 64 word \<times> bytes" where
  "backup_link cr cd previous = (case previous of
      None \<Rightarrow> Inr (0, genesis_previous_hash)
    | Some prev \<Rightarrow>
        bindE (next_generation (bm_generation prev) ''backup'') (\<lambda>generation.
        bindE (map_sum CryptoFailure id (compute_manifest_hash cr cd prev)) (\<lambda>h. Inr (generation, h))))"

definition segment_ref :: "crypto \<Rightarrow> built_backup_segment \<Rightarrow> manifest_segment_ref" where
  "segment_ref cr s = \<lparr>sgr_segment_id = bg_segment_id s, sgr_segment_type = bg_segment_type s,
     sgr_ciphertext_sha256 = cr_sha256 cr (bg_ciphertext s), sgr_size = of_nat (length (bg_ciphertext s))\<rparr>"

definition build_backup_manifest ::
  "crypto \<Rightarrow> codec \<Rightarrow> uuid \<Rightarrow> bytes \<Rightarrow> backup_manifest_build_request \<Rightarrow> hybrid_signing_key \<Rightarrow> bytes \<Rightarrow>
   core_error + sealed_backup_manifest" where
  "build_backup_manifest cr cd fresh nonce request signing_key k_backup_manifest =
     bindE (backup_link cr cd (br_previous request)) (\<lambda>(generation, previous_hash).
     let merkle_root = compute_segment_merkle_root cr (map bg_merkle_root (br_segments request));
         manifest = \<lparr>bm_magic = backup_manifest_magic, bm_version = manifest_version,
           bm_manifest_id = (case br_manifest_id request of Some i \<Rightarrow> i | None \<Rightarrow> fresh),
           bm_generation = generation, bm_previous_hash = previous_hash,
           bm_segments = map (segment_ref cr) (br_segments request),
           bm_shards = br_search_index_shards request, bm_media = br_media_references request,
           bm_tombstones = br_tombstones request, bm_merkle_root = merkle_root,
           bm_signature = [], bm_pqc_signature = []\<rparr>
     in bindE (map_sum CryptoFailure id (sign_in_place cr (backup_ops cd) signing_key manifest)) (\<lambda>(manifest, signature).
        case cd_backup cd manifest of
          None \<Rightarrow> Inl (CryptoFailure (Frame ''manifest CBOR encode failed''))
        | Some manifest_bytes \<Rightarrow>
            bindE (aead_seal cr k_backup_manifest nonce manifest_bytes
                (build_manifest_aad (bm_manifest_id manifest) generation merkle_root (br_device_id request))) (\<lambda>ciphertext.
            Inr \<lparr>sbm_manifest = manifest, sbm_signature = signature, sbm_nonce = nonce, sbm_ciphertext = ciphertext\<rparr>)))"

definition open_sealed_backup_manifest ::
  "crypto \<Rightarrow> codec \<Rightarrow> sealed_backup_manifest \<Rightarrow> bytes \<Rightarrow> bytes \<Rightarrow> core_error + backup_manifest" where
  "open_sealed_backup_manifest cr cd sealed k_backup_manifest device_id =
     bindE (aead_open cr k_backup_manifest (sbm_nonce sealed) (sbm_ciphertext sealed)
         (build_manifest_aad (bm_manifest_id (sbm_manifest sealed)) (bm_generation (sbm_manifest sealed))
           (bm_merkle_root (sbm_manifest sealed)) device_id)) (\<lambda>plaintext.
     case cd_backup_decode cd plaintext of
       None \<Rightarrow> Inl (StorageFailure ''manifest CBOR decode'') | Some m \<Rightarrow> Inr m)"

definition archive_link :: "crypto \<Rightarrow> codec \<Rightarrow> archive_manifest option \<Rightarrow> core_error + 64 word \<times> bytes" where
  "archive_link cr cd previous = (case previous of
      None \<Rightarrow> Inr (0, genesis_previous_hash)
    | Some prev \<Rightarrow>
        bindE (next_generation (am_generation prev) ''archive'') (\<lambda>generation.
        bindE (map_sum CryptoFailure id (compute_archive_manifest_hash cr cd prev)) (\<lambda>h. Inr (generation, h))))"

definition archive_segment_ref :: "crypto \<Rightarrow> built_segment \<Rightarrow> manifest_segment_ref" where
  "archive_segment_ref cr s = \<lparr>sgr_segment_id = ag_segment_id s, sgr_segment_type = ag_segment_type s,
     sgr_ciphertext_sha256 = cr_sha256 cr (ag_ciphertext s), sgr_size = of_nat (length (ag_ciphertext s))\<rparr>"

definition build_archive_manifest ::
  "crypto \<Rightarrow> codec \<Rightarrow> uuid \<Rightarrow> bytes \<Rightarrow> manifest_build_request \<Rightarrow> hybrid_signing_key \<Rightarrow> bytes \<Rightarrow>
   core_error + sealed_archive_manifest" where
  "build_archive_manifest cr cd fresh nonce request signing_key k_archive_manifest =
     bindE (archive_link cr cd (ar_previous request)) (\<lambda>(generation, previous_hash).
     let merkle_root = compute_segment_merkle_root cr (map ag_merkle_root (ar_segments request));
         manifest = \<lparr>am_magic = archive_manifest_magic, am_version = manifest_version,
           am_manifest_id = fresh, am_generation = generation, am_previous_hash = previous_hash,
           am_segments = map (archive_segment_ref cr) (ar_segments request),
           am_shards = ar_search_index_shards request, am_media = ar_media_references request,
           am_tombstones = ar_tombstones request,
           am_wrapped_prior_epoch_keys = ar_wrapped_prior_epoch_keys request, am_merkle_root = merkle_root,
           am_signature = [], am_pqc_signature = []\<rparr>
     in bindE (map_sum CryptoFailure id (sign_in_place cr (archive_ops cd) signing_key manifest)) (\<lambda>(manifest, signature).
        case cd_archive cd manifest of
          None \<Rightarrow> Inl (CryptoFailure (Frame ''manifest CBOR encode failed''))
        | Some manifest_bytes \<Rightarrow>
            bindE (aead_seal cr k_archive_manifest nonce manifest_bytes
                (build_archive_manifest_aad (am_manifest_id manifest) generation merkle_root)) (\<lambda>ciphertext.
            Inr \<lparr>sam_manifest = manifest, sam_signature = signature, sam_nonce = nonce, sam_ciphertext = ciphertext\<rparr>)))"

definition open_sealed_archive_manifest ::
  "crypto \<Rightarrow> codec \<Rightarrow> sealed_archive_manifest \<Rightarrow> bytes \<Rightarrow> core_error + archive_manifest" where
  "open_sealed_archive_manifest cr cd sealed k_archive_manifest =
     bindE (aead_open cr k_archive_manifest (sam_nonce sealed) (sam_ciphertext sealed)
         (build_archive_manifest_aad (am_manifest_id (sam_manifest sealed)) (am_generation (sam_manifest sealed))
           (am_merkle_root (sam_manifest sealed)))) (\<lambda>plaintext.
     case cd_archive_decode cd plaintext of
       None \<Rightarrow> Inl (StorageFailure ''manifest CBOR decode'') | Some m \<Rightarrow> Inr m)"

subsection \<open>Verifying a chain\<close>

datatype verification_error =
    EmptyChain
  | SignatureInvalid "64 word"
  | ChainBreak "64 word" bytes bytes
  | GapDetected "64 word"
  | GenesisHashNotZero bytes
  | HashComputationFailed "64 word"

fun walk_chain ::
  "crypto \<Rightarrow> codec \<Rightarrow> hybrid_verifying_key \<Rightarrow> backup_manifest option \<Rightarrow> backup_manifest list \<Rightarrow>
   verification_error + unit" where
  "walk_chain cr cd vk prev [] = Inr ()"
| "walk_chain cr cd vk prev (m # ms) =
     (case verify_signatures cr (backup_ops cd) vk m of
        Inl _ \<Rightarrow> Inl (SignatureInvalid (bm_generation m))
      | Inr _ \<Rightarrow> (case prev of
            None \<Rightarrow> walk_chain cr cd vk (Some m) ms
          | Some p \<Rightarrow>
              let expected_gen = bm_generation p + 1 in
              if bm_generation m \<noteq> expected_gen then Inl (GapDetected expected_gen)
              else (case compute_manifest_hash cr cd p of
                  Inl _ \<Rightarrow> Inl (HashComputationFailed (bm_generation p))
                | Inr expected_hash \<Rightarrow>
                    if bm_previous_hash m \<noteq> expected_hash
                    then Inl (ChainBreak (bm_generation m) expected_hash (bm_previous_hash m))
                    else walk_chain cr cd vk (Some m) ms)))"

definition verify_manifest_chain ::
  "crypto \<Rightarrow> codec \<Rightarrow> backup_manifest list \<Rightarrow> hybrid_verifying_key \<Rightarrow> verification_error + unit" where
  "verify_manifest_chain cr cd manifests vk = (case manifests of
      [] \<Rightarrow> Inl EmptyChain
    | genesis # _ \<Rightarrow>
        if bm_generation genesis \<noteq> 0 then Inl (GapDetected 0)
        else if bm_previous_hash genesis \<noteq> genesis_previous_hash
        then Inl (GenesisHashNotZero (bm_previous_hash genesis))
        else walk_chain cr cd vk None manifests)"

subsection \<open>Which chains are accepted\<close>

text \<open>A manifest follows another: next generation, and the hash of the other.\<close>

definition follows :: "crypto \<Rightarrow> codec \<Rightarrow> backup_manifest \<Rightarrow> backup_manifest \<Rightarrow> bool" where
  "follows cr cd p m \<longleftrightarrow>
     bm_generation m = bm_generation p + 1 \<and> compute_manifest_hash cr cd p = Inr (bm_previous_hash m)"

definition linked :: "crypto \<Rightarrow> codec \<Rightarrow> backup_manifest list \<Rightarrow> bool" where
  "linked cr cd ms \<longleftrightarrow> (\<forall>i. Suc i < length ms \<longrightarrow> follows cr cd (ms ! i) (ms ! Suc i))"

abbreviation signed_by :: "crypto \<Rightarrow> codec \<Rightarrow> hybrid_verifying_key \<Rightarrow> backup_manifest \<Rightarrow> bool" where
  "signed_by cr cd vk m \<equiv> verify_signatures cr (backup_ops cd) vk m = Inr ()"

lemma linked_Cons2: "linked cr cd (p # m # ms) \<longleftrightarrow> follows cr cd p m \<and> linked cr cd (m # ms)"
  unfolding linked_def by (auto simp: nth_Cons split: nat.splits)

lemma linked_short [simp]: "linked cr cd []" "linked cr cd [m]"
  by (simp_all add: linked_def)

lemma walk_chain_iff:
  "walk_chain cr cd vk (Some p) ms = Inr () \<longleftrightarrow> list_all (signed_by cr cd vk) ms \<and> linked cr cd (p # ms)"
proof (induction ms arbitrary: p)
  case (Cons m ms)
  then show ?case
    by (cases "verify_signatures cr (backup_ops cd) vk m"; cases "compute_manifest_hash cr cd p")
      (auto simp: Let_def linked_Cons2 follows_def)
qed simp

lemma verify_chain_iff:
  "verify_manifest_chain cr cd ms vk = Inr () \<longleftrightarrow>
     ms \<noteq> [] \<and> bm_generation (hd ms) = 0 \<and> bm_previous_hash (hd ms) = genesis_previous_hash \<and>
     list_all (signed_by cr cd vk) ms \<and> linked cr cd ms"
proof (cases ms)
  case (Cons m ns)
  then show ?thesis
    by (cases "verify_signatures cr (backup_ops cd) vk m") (auto simp: verify_manifest_chain_def walk_chain_iff)
qed (simp add: verify_manifest_chain_def)

lemma linked_generations:
  assumes "linked cr cd ms" "bm_generation (hd ms) = 0" "i < length ms"
  shows "bm_generation (ms ! i) = of_nat i"
  using assms(3)
proof (induction i)
  case 0
  then show ?case using assms(2) by (cases ms) simp_all
next
  case (Suc i)
  then have "follows cr cd (ms ! i) (ms ! Suc i)" using assms(1) by (simp add: linked_def)
  then show ?case using Suc by (simp add: follows_def)
qed

lemma linked_append: "ms \<noteq> [] \<Longrightarrow> linked cr cd ms \<Longrightarrow> follows cr cd (last ms) m \<Longrightarrow> linked cr cd (ms @ [m])"
proof (induction ms rule: induct_list012)
  case (3 x y zs)
  then show ?case by (simp add: linked_Cons2)
qed (simp_all add: linked_Cons2)

text \<open>C37: Verification, declaratively.  A chain is accepted exactly when it is not empty, its generations
  count up from 0, its first manifest has the all-zero previous hash, every other one has the hash of
  its predecessor's canonical encoding, and both signatures of every manifest verify.\<close>

theorem verify_chain_spec:
  "verify_manifest_chain cr cd ms vk = Inr () \<longleftrightarrow>
     ms \<noteq> [] \<and> map bm_generation ms = map of_nat [0..<length ms] \<and>
     map (Inr \<circ> bm_previous_hash) ms =
       Inr genesis_previous_hash # map (compute_manifest_hash cr cd) (butlast ms) \<and>
     list_all (\<lambda>m. verify_signatures cr (backup_ops cd) vk m = Inr ()) ms"
  (is "_ \<longleftrightarrow> ?ne \<and> ?gens \<and> ?hashes \<and> ?signed")
proof (cases ms)
  case (Cons m ns)
  have gens: "?gens \<longleftrightarrow> bm_generation m = 0 \<and> (\<forall>i. Suc i < length ms \<longrightarrow> bm_generation (ms ! Suc i) = bm_generation (ms ! i) + 1)"
    (is "_ \<longleftrightarrow> ?step")
  proof -
    have "?gens \<longleftrightarrow> (\<forall>i < length ms. bm_generation (ms ! i) = of_nat i)"
      unfolding list_eq_iff_nth_eq[of "map bm_generation ms"] by simp
    also have "\<dots> \<longleftrightarrow> ?step"
    proof
      assume r: ?step
      have "bm_generation (ms ! i) = of_nat i" if "i < length ms" for i
        using that
      proof (induction i)
        case (Suc i)
        then show ?case using r by simp
      qed (use r Cons in simp)
      then show "\<forall>i < length ms. bm_generation (ms ! i) = of_nat i" by blast
    next
      assume g: "\<forall>i < length ms. bm_generation (ms ! i) = of_nat i"
      have "bm_generation (ms ! Suc i) = bm_generation (ms ! i) + 1" if "Suc i < length ms" for i
        using g[rule_format, of "Suc i"] g[rule_format, of i] that by simp
      moreover have "bm_generation m = 0" using g[rule_format, of 0] Cons by simp
      ultimately show ?step by blast
    qed
    finally show ?thesis .
  qed
  have hashes: "?hashes \<longleftrightarrow> bm_previous_hash m = genesis_previous_hash \<and>
      (\<forall>i. Suc i < length ms \<longrightarrow> compute_manifest_hash cr cd (ms ! i) = Inr (bm_previous_hash (ms ! Suc i)))"
  proof -
    have "?hashes \<longleftrightarrow> bm_previous_hash m = genesis_previous_hash \<and>
        map (Inr \<circ> bm_previous_hash) ns = map (compute_manifest_hash cr cd) (butlast ms)"
      by (simp add: Cons)
    also have "map (Inr \<circ> bm_previous_hash) ns = map (compute_manifest_hash cr cd) (butlast ms) \<longleftrightarrow>
        (\<forall>i < length ns. compute_manifest_hash cr cd (ms ! i) = Inr (bm_previous_hash (ns ! i)))"
    proof -
      have len: "length ns = length ms - Suc 0" using Cons by simp
      have "map (compute_manifest_hash cr cd) (butlast ms) ! i = compute_manifest_hash cr cd (ms ! i)"
        if "i < length ns" for i
        using that len by (simp add: nth_butlast)
      then show ?thesis
        unfolding list_eq_iff_nth_eq[of "map (Inr \<circ> bm_previous_hash) ns"] by (simp add: len eq_commute[of "Inr _"])
    qed
    finally have e: "?hashes \<longleftrightarrow> bm_previous_hash m = genesis_previous_hash \<and>
        (\<forall>i < length ns. compute_manifest_hash cr cd (ms ! i) = Inr (bm_previous_hash (ns ! i)))" .
    show ?thesis unfolding e by (simp add: Cons)
  qed
  show ?thesis unfolding verify_chain_iff gens hashes using Cons by (auto simp: linked_def follows_def)
qed (simp add: verify_manifest_chain_def)

text \<open>A chain is pinned by its head.  Two accepted chains that end in the same manifest are equal, unless
  two of their manifests have the same BLAKE3 hash: whoever knows the newest manifest notices any
  change, removal or insertion before it.  (Generations are \<open>u64\<close>, so chains are shorter than \<open>2^64\<close>.)\<close>

theorem chain_pinned_by_head:
  assumes "verify_manifest_chain cr cd ms vk = Inr ()" "verify_manifest_chain cr cd ns vk' = Inr ()"
    and "last ms = last ns" "length ms < 2 ^ 64" "length ns < 2 ^ 64"
    and "inj_on (compute_manifest_hash cr cd) (set ms \<union> set ns)"
  shows "ms = ns"
proof -
  note m = assms(1)[unfolded verify_chain_iff] and n = assms(2)[unfolded verify_chain_iff]
  have len: "length ms = length ns"
  proof -
    have "(of_nat (length ms - 1) :: 64 word) = bm_generation (last ms)"
      using linked_generations[of cr cd ms "length ms - 1"] m by (simp add: last_conv_nth)
    also have "\<dots> = of_nat (length ns - 1)"
      using linked_generations[of cr cd ns "length ns - 1"] n assms(3) by (simp add: last_conv_nth)
    finally have "length ms - 1 = length ns - 1"
      using assms(4,5) by (simp add: word_of_nat_eq_iff take_bit_eq_mod)
    then show ?thesis using m n by (metis One_nat_def Suc_pred length_greater_0_conv)
  qed
  have "ms ! (length ms - 1 - k) = ns ! (length ms - 1 - k)" if "k < length ms" for k
    using that
  proof (induction k)
    case 0
    then show ?case using assms(3) m n len by (simp add: last_conv_nth)
  next
    case (Suc k)
    define i where "i = length ms - 1 - Suc k"
    have i: "Suc i = length ms - 1 - k" "Suc i < length ms" using Suc.prems by (simp_all add: i_def)
    have "ms ! Suc i = ns ! Suc i" using Suc.IH Suc.prems i(1) by simp
    moreover have "follows cr cd (ms ! i) (ms ! Suc i)" "follows cr cd (ns ! i) (ns ! Suc i)"
      using m n i(2) len by (auto simp: linked_def)
    ultimately have "compute_manifest_hash cr cd (ms ! i) = compute_manifest_hash cr cd (ns ! i)"
      by (simp add: follows_def)
    then have "ms ! i = ns ! i" using assms(6) i(2) len by (simp add: inj_on_eq_iff)
    then show ?case unfolding i_def .
  qed
  note backwards = this
  have "ms ! i = ns ! i" if "i < length ms" for i
  proof -
    have "length ms - 1 - (length ms - 1 - i) = i" using that by simp
    then show ?thesis using backwards[of "length ms - 1 - i"] that by simp
  qed
  then show ?thesis using len by (intro nth_equalityI) simp_all
qed

text \<open>The walk stops at the first manifest that does not fit.\<close>

lemma walk_chain_prefix:
  "walk_chain cr cd vk prev ms = Inl e \<Longrightarrow>
   \<exists>k < length ms. walk_chain cr cd vk prev (take k ms) = Inr () \<and> walk_chain cr cd vk prev (take (Suc k) ms) = Inl e"
proof (induction ms arbitrary: prev)
  case (Cons m ms)
  show ?case
  proof (cases "walk_chain cr cd vk prev [m]")
    case (Inl e')
    then have "e' = e" using Cons.prems
      by (auto simp: Let_def split: sum.splits option.splits if_splits)
    then show ?thesis using Inl by (intro exI[of _ 0]) simp
  next
    case (Inr u)
    then have step: "walk_chain cr cd vk prev (m # xs) = walk_chain cr cd vk (Some m) xs" for xs
      by (auto simp: Let_def split: sum.splits option.splits if_splits)
    then obtain k where "k < length ms" "walk_chain cr cd vk (Some m) (take k ms) = Inr ()"
        "walk_chain cr cd vk (Some m) (take (Suc k) ms) = Inl e"
      using Cons by metis
    then show ?thesis using step by (intro exI[of _ "Suc k"]) (simp del: walk_chain.simps)
  qed
qed simp

text \<open>The error names the first manifest that does not fit: a rejected, non-empty chain has a first manifest
  such that everything before it is accepted and the chain up to it is rejected with the same error.\<close>

theorem chain_error_is_first:
  assumes "verify_manifest_chain cr cd ms vk = Inl e" "ms \<noteq> []"
  shows "\<exists>k < length ms. (k = 0 \<or> verify_manifest_chain cr cd (take k ms) vk = Inr ()) \<and>
     verify_manifest_chain cr cd (take (Suc k) ms) vk = Inl e"
proof -
  obtain m ns where ms: "ms = m # ns" using assms(2) by (cases ms) auto
  show ?thesis
  proof (cases "bm_generation m = 0 \<and> bm_previous_hash m = genesis_previous_hash")
    case True
    have walk: "verify_manifest_chain cr cd (m # xs) vk = walk_chain cr cd vk None (m # xs)" for xs
      using True by (simp add: verify_manifest_chain_def del: walk_chain.simps)
    then obtain k where k: "k < length ms" "walk_chain cr cd vk None (take k ms) = Inr ()"
        "walk_chain cr cd vk None (take (Suc k) ms) = Inl e"
      using walk_chain_prefix[of cr cd vk None ms e] assms(1) unfolding ms by metis
    then show ?thesis
      using walk unfolding ms by (intro exI[of _ k]) (cases k; simp del: walk_chain.simps)
  next
    case False
    then show ?thesis using assms(1) unfolding ms
      by (intro exI[of _ 0]) (auto simp: verify_manifest_chain_def)
  qed
qed

subsection \<open>What the builder makes\<close>

lemma build_backup_manifest_cases:
  assumes "build_backup_manifest cr cd fresh nonce request k key = Inr sealed"
  obtains g h m0 m sig b c where "backup_link cr cd (br_previous request) = Inr (g, h)"
    "bm_generation m0 = g" "bm_previous_hash m0 = h"
    "bm_segments m0 = map (segment_ref cr) (br_segments request)"
    "bm_merkle_root m0 = compute_segment_merkle_root cr (map bg_merkle_root (br_segments request))"
    "sign_in_place cr (backup_ops cd) k m0 = Inr (m, sig)" "cd_backup cd m = Some b"
    "cr_seal cr key nonce b (build_manifest_aad (bm_manifest_id m) g (bm_merkle_root m0) (br_device_id request)) = Some c"
    "sealed = \<lparr>sbm_manifest = m, sbm_signature = sig, sbm_nonce = nonce, sbm_ciphertext = c\<rparr>"
proof -
  obtain g h where link: "backup_link cr cd (br_previous request) = Inr (g, h)"
    using assms by (auto simp: build_backup_manifest_def err_simps)
  define m0 where "m0 = \<lparr>bm_magic = backup_manifest_magic, bm_version = manifest_version,
           bm_manifest_id = (case br_manifest_id request of Some i \<Rightarrow> i | None \<Rightarrow> fresh),
           bm_generation = g, bm_previous_hash = h,
           bm_segments = map (segment_ref cr) (br_segments request),
           bm_shards = br_search_index_shards request, bm_media = br_media_references request,
           bm_tombstones = br_tombstones request,
           bm_merkle_root = compute_segment_merkle_root cr (map bg_merkle_root (br_segments request)),
           bm_signature = [], bm_pqc_signature = []\<rparr>"
  obtain m sig where sign: "sign_in_place cr (backup_ops cd) k m0 = Inr (m, sig)"
    using assms unfolding build_backup_manifest_def link bindE.simps prod.case Let_def m0_def[symmetric]
    by (auto simp: err_simps)
  obtain b where b: "cd_backup cd m = Some b"
    using assms unfolding build_backup_manifest_def link bindE.simps prod.case Let_def m0_def[symmetric] sign
    by (auto split: option.splits)
  obtain c where "cr_seal cr key nonce b
      (build_manifest_aad (bm_manifest_id m) g (bm_merkle_root m0) (br_device_id request)) = Some c"
    "sealed = \<lparr>sbm_manifest = m, sbm_signature = sig, sbm_nonce = nonce, sbm_ciphertext = c\<rparr>"
    using assms unfolding build_backup_manifest_def link bindE.simps prod.case Let_def m0_def[symmetric] sign
    by (auto simp: b aead_seal_def m0_def err_simps split: option.splits)
  then show thesis using that[OF link _ _ _ _ sign b] by (simp add: m0_def)
qed

lemma signing_keeps:
  assumes "sign_in_place cr (backup_ops cd) k m0 = Inr (m, sig)"
  shows "bm_generation m = bm_generation m0" "bm_previous_hash m = bm_previous_hash m0"
    "bm_segments m = bm_segments m0" "bm_merkle_root m = bm_merkle_root m0" "bm_manifest_id m = bm_manifest_id m0"
  using assms by (auto simp: sign_in_place_def backup_ops_def err_simps)

lemma build_extends_chain:
  assumes "signs_soundly cr k" "build_backup_manifest cr cd fresh nonce request k key = Inr sealed"
    and "if ms = [] then br_previous request = None
      else br_previous request = Some (last ms) \<and> verify_manifest_chain cr cd ms (verifying_key cr k) = Inr ()"
  shows "verify_manifest_chain cr cd (ms @ [sbm_manifest sealed]) (verifying_key cr k) = Inr ()"
proof -
  obtain g h m0 m sig where link: "backup_link cr cd (br_previous request) = Inr (g, h)"
    and m0: "bm_generation m0 = g" "bm_previous_hash m0 = h"
    and sign: "sign_in_place cr (backup_ops cd) k m0 = Inr (m, sig)" and m: "sbm_manifest sealed = m"
    using build_backup_manifest_cases[OF assms(2)] by (metis sealed_backup_manifest.select_convs(1))
  have signed: "verify_signatures cr (backup_ops cd) (verifying_key cr k) m = Inr ()"
    by (rule backup_signed.signed_verifies[OF assms(1) sign])
  show ?thesis
  proof (cases "ms = []")
    case True
    then have "g = 0" "h = genesis_previous_hash" using assms(3) link by (simp_all add: backup_link_def)
    then show ?thesis using True signed m0 signing_keeps[OF sign] by (simp add: verify_chain_iff m)
  next
    case False
    then have prev: "br_previous request = Some (last ms)"
      and ok: "verify_manifest_chain cr cd ms (verifying_key cr k) = Inr ()"
      using assms(3) by simp_all
    have "follows cr cd (last ms) m"
      using link m0 signing_keeps[OF sign]
      by (auto simp: backup_link_def prev next_generation_def follows_def err_simps split: if_splits)
    then show ?thesis using ok False signed linked_append
      by (simp add: verify_chain_iff m)
  qed
qed

text \<open>A device's history of backups: each request gets the previous manifest, as the orchestration does.\<close>

fun build_chain ::
  "crypto \<Rightarrow> codec \<Rightarrow> hybrid_signing_key \<Rightarrow> backup_manifest list \<Rightarrow>
   (uuid \<times> bytes \<times> backup_manifest_build_request \<times> bytes) list \<Rightarrow> core_error + backup_manifest list" where
  "build_chain cr cd k ms [] = Inr ms"
| "build_chain cr cd k ms ((fresh, nonce, request, key) # rs) =
     bindE (build_backup_manifest cr cd fresh nonce
         (request\<lparr>br_previous := (if ms = [] then None else Some (last ms))\<rparr>) k key) (\<lambda>sealed.
     build_chain cr cd k (ms @ [sbm_manifest sealed]) rs)"

lemma build_chain_verifies:
  "signs_soundly cr k \<Longrightarrow> build_chain cr cd k ms rs = Inr ms' \<Longrightarrow>
   ms = [] \<or> verify_manifest_chain cr cd ms (verifying_key cr k) = Inr () \<Longrightarrow>
   ms' = [] \<or> verify_manifest_chain cr cd ms' (verifying_key cr k) = Inr ()"
proof (induction rs arbitrary: ms)
  case (Cons r rs)
  obtain fresh nonce request key where r: "r = (fresh, nonce, request, key)" by (cases r)
  then obtain sealed where b: "build_backup_manifest cr cd fresh nonce
      (request\<lparr>br_previous := (if ms = [] then None else Some (last ms))\<rparr>) k key = Inr sealed"
    and rest: "build_chain cr cd k (ms @ [sbm_manifest sealed]) rs = Inr ms'"
    using Cons.prems(2) by (auto simp: err_simps)
  have "verify_manifest_chain cr cd (ms @ [sbm_manifest sealed]) (verifying_key cr k) = Inr ()"
    by (rule build_extends_chain[OF Cons.prems(1) b]) (use Cons.prems(3) in auto)
  then show ?case using Cons.IH[OF Cons.prems(1) rest] by blast
qed simp

lemma build_chain_length: "build_chain cr cd k ms rs = Inr ms' \<Longrightarrow> length ms' = length ms + length rs"
proof (induction rs arbitrary: ms)
  case (Cons r rs)
  then show ?case by (cases r) (fastforce simp: err_simps)
qed simp

text \<open>What the builder makes, the verifier accepts.  Every history of backups that the builder completes
  without an error, each one given its predecessor, is a chain that verifies under the device's key, with
  one manifest per backup, provided the key's own signatures verify.\<close>

theorem built_chains_verify:
  assumes "signs_soundly cr k" "build_chain cr cd k [] rs = Inr ms" "rs \<noteq> []"
  shows "verify_manifest_chain cr cd ms (verifying_key cr k) = Inr () \<and> length ms = length rs"
  using build_chain_verifies[OF assms(1,2)] build_chain_length[OF assms(2)] assms(3) by auto

text \<open>Stand-ins for the primitives, on which the assumptions can be checked: a sealed text carries its
  associated data, a hash is a prefix of the text, and signatures are constants.\<close>

definition toy_crypto :: crypto where
  "toy_crypto = \<lparr>cr_seal = (\<lambda>k n p a. if length a < 256 ^ 8 then Some (le_bytes 8 (length a) @ a @ p) else None),
     cr_open = (\<lambda>k n c a. if length a < 256 ^ 8 \<and> take (8 + length a) c = le_bytes 8 (length a) @ a
                then Some (drop (8 + length a) c) else None),
     cr_blake3 = (\<lambda>b. take 32 (b @ replicate 32 0)), cr_sha256 = (\<lambda>b. take 32 (b @ replicate 32 0)),
     cr_ed_public = id, cr_ed_sign = (\<lambda>k p. replicate 64 0), cr_ed_verify = (\<lambda>k p s. True),
     cr_ml_sign = (\<lambda>k p. Some (replicate 3309 0)), cr_ml_verify = (\<lambda>k p s. True)\<rparr>"

definition toy_codec :: codec where
  "toy_codec = \<lparr>cd_backup = (\<lambda>m. Some [word_of_nat (unat (bm_generation m))]), cd_backup_decode = (\<lambda>b. None),
     cd_archive = (\<lambda>m. None), cd_archive_decode = (\<lambda>b. None)\<rparr>"

definition toy_key :: hybrid_signing_key where
  "toy_key = \<lparr>hs_ed25519 = [], hs_ml_dsa_signing = [], hs_ml_dsa_verifying = []\<rparr>"

definition toy_request :: backup_manifest_build_request where
  "toy_request = \<lparr>br_segments = [], br_search_index_shards = [], br_media_references = [],
     br_tombstones = [], br_previous = None, br_device_id = [], br_manifest_id = None\<rparr>"

definition toy_manifest :: "64 word \<Rightarrow> bytes \<Rightarrow> backup_manifest" where
  "toy_manifest g h = \<lparr>bm_magic = backup_manifest_magic, bm_version = manifest_version,
     bm_manifest_id = 7, bm_generation = g, bm_previous_hash = h, bm_segments = [], bm_shards = [],
     bm_media = [], bm_tombstones = [], bm_merkle_root = cr_blake3 toy_crypto [],
     bm_signature = replicate 64 0, bm_pqc_signature = replicate 3309 0\<rparr>"

definition toy_chain :: "backup_manifest list" where
  "toy_chain = [toy_manifest 0 genesis_previous_hash, toy_manifest 1 (cr_blake3 toy_crypto [0])]"

lemma toy_signs_soundly: "signs_soundly toy_crypto toy_key"
  by (simp add: signs_soundly_def toy_crypto_def ed25519_signature_len_def ml_dsa_65_signature_len_def)

lemma toy_chain_built:
  "build_chain toy_crypto toy_codec toy_key [] [(7, [], toy_request, []), (7, [], toy_request, [])] = Inr toy_chain"
  by (simp add: build_backup_manifest_def backup_link_def toy_request_def toy_chain_def toy_manifest_def Let_def
      sign_in_place_def sign_payload_def canonical_signing_payload_def backup_ops_def toy_codec_def aead_seal_def
      next_generation_def compute_manifest_hash_def compute_segment_merkle_root_def
      toy_crypto_def)

theorem built_chains_verify_witness:
  "verify_manifest_chain toy_crypto toy_codec toy_chain (verifying_key toy_crypto toy_key) = Inr () \<and>
   length toy_chain = 2"
  using built_chains_verify[OF toy_signs_soundly toy_chain_built] by simp

lemma toy_hash_injective: "inj_on (compute_manifest_hash toy_crypto toy_codec) (set toy_chain)"
  by (simp add: toy_chain_def toy_manifest_def compute_manifest_hash_def toy_codec_def toy_crypto_def)

theorem chain_pinned_by_head_witness:
  "verify_manifest_chain toy_crypto toy_codec toy_chain (verifying_key toy_crypto toy_key) = Inr () \<and>
   toy_chain = [toy_manifest 0 genesis_previous_hash, toy_manifest 1 (0 # replicate 31 0)]"
proof -
  let ?ms = "[toy_manifest 0 genesis_previous_hash, toy_manifest 1 (0 # replicate 31 0)]"
  let ?vk = "verifying_key toy_crypto toy_key"
  have hash: "cr_blake3 toy_crypto [0] = 0 # replicate 31 0" by (simp add: toy_crypto_def)
  have eq: "last toy_chain = last ?ms" "length toy_chain < 2 ^ 64" "length ?ms < 2 ^ 64" "set toy_chain = set ?ms"
    by (simp_all add: toy_chain_def hash)
  have ok: "verify_manifest_chain toy_crypto toy_codec toy_chain ?vk = Inr ()"
    using build_chain_verifies[OF toy_signs_soundly toy_chain_built] by (simp add: toy_chain_def)
  moreover have "verify_manifest_chain toy_crypto toy_codec ?ms ?vk = Inr ()"
    using ok by (simp add: toy_chain_def hash)
  moreover have "inj_on (compute_manifest_hash toy_crypto toy_codec) (set toy_chain \<union> set ?ms)"
    using toy_hash_injective unfolding eq(4)[symmetric] by (simp only: Un_absorb)
  ultimately show ?thesis using chain_pinned_by_head[OF _ _ eq(1-3)] by blast
qed

theorem chain_error_is_first_witness:
  "\<exists>k < 1. (k = 0 \<or> verify_manifest_chain toy_crypto toy_codec (take k [toy_manifest 3 []])
       (verifying_key toy_crypto toy_key) = Inr ()) \<and>
     verify_manifest_chain toy_crypto toy_codec (take (Suc k) [toy_manifest 3 []])
       (verifying_key toy_crypto toy_key) = Inl (GapDetected 0)"
  using chain_error_is_first[of toy_crypto toy_codec "[toy_manifest 3 []]" "verifying_key toy_crypto toy_key" "GapDetected 0"]
  by (simp add: verify_manifest_chain_def toy_manifest_def)

subsection \<open>Sealing\<close>

text \<open>Documented behaviour of the AEAD and of the codec.\<close>

definition aead_sound :: "crypto \<Rightarrow> bool" where
  "aead_sound cr \<longleftrightarrow> (\<forall>k n p a c. cr_seal cr k n p a = Some c \<longrightarrow>
     cr_open cr k n c a = Some p \<and> (\<forall>a'. a' \<noteq> a \<longrightarrow> cr_open cr k n c a' = None))"

definition decodes_backup :: "codec \<Rightarrow> bool" where
  "decodes_backup cd \<longleftrightarrow> (\<forall>m b. cd_backup cd m = Some b \<longrightarrow> cd_backup_decode cd b = Some m)"

lemma build_manifest_aad_inject:
  assumes "length r = length r'"
  shows "build_manifest_aad i g r d = build_manifest_aad i' g' r' d' \<longleftrightarrow> i = i' \<and> g = g' \<and> r = r' \<and> d = d'"
  using assms by (auto simp: build_manifest_aad_def)

text \<open>A sealed manifest opens to exactly what was sealed, and only for the id, generation, merkle root and
  device it was sealed for: with any other of these next to the ciphertext, opening fails.\<close>

theorem sealed_manifest_binds_header:
  assumes "aead_sound cr" "decodes_backup cd"
    and "build_backup_manifest cr cd fresh nonce request k key = Inr sealed"
    and "length (bm_merkle_root claimed) = length (bm_merkle_root (sbm_manifest sealed))"
  shows "open_sealed_backup_manifest cr cd (sealed\<lparr>sbm_manifest := claimed\<rparr>) key device =
     (if bm_manifest_id claimed = bm_manifest_id (sbm_manifest sealed) \<and>
         bm_generation claimed = bm_generation (sbm_manifest sealed) \<and>
         bm_merkle_root claimed = bm_merkle_root (sbm_manifest sealed) \<and> device = br_device_id request
      then Inr (sbm_manifest sealed)
      else Inl (CryptoFailure (Aead ''xchacha20-poly1305 open failed'')))"
proof -
  obtain g h m0 m sig b c where m0: "bm_generation m0 = g"
    and sign: "sign_in_place cr (backup_ops cd) k m0 = Inr (m, sig)" and b: "cd_backup cd m = Some b"
    and c: "cr_seal cr key nonce b
        (build_manifest_aad (bm_manifest_id m) g (bm_merkle_root m0) (br_device_id request)) = Some c"
    and sealed: "sealed = \<lparr>sbm_manifest = m, sbm_signature = sig, sbm_nonce = nonce, sbm_ciphertext = c\<rparr>"
    by (rule build_backup_manifest_cases[OF assms(3)])
  let ?aad = "build_manifest_aad (bm_manifest_id m) (bm_generation m) (bm_merkle_root m) (br_device_id request)"
  have "cr_seal cr key nonce b ?aad = Some c" using c m0 signing_keeps[OF sign] by simp
  then have o: "cr_open cr key nonce c a = (if a = ?aad then Some b else None)" for a
    using assms(1) by (auto simp: aead_sound_def)
  have "cd_backup_decode cd b = Some m" using assms(2) b by (simp add: decodes_backup_def)
  then show ?thesis
    using assms(4) by (simp add: open_sealed_backup_manifest_def sealed aead_open_def o build_manifest_aad_inject)
qed

definition one_codec :: codec where
  "one_codec = \<lparr>cd_backup = (\<lambda>m. if m = toy_manifest 0 genesis_previous_hash then Some [1]
       else if m = (toy_manifest 0 genesis_previous_hash)\<lparr>bm_signature := [], bm_pqc_signature := []\<rparr> then Some [0]
       else None),
     cd_backup_decode = (\<lambda>b. if b = [1] then Some (toy_manifest 0 genesis_previous_hash)
       else Some ((toy_manifest 0 genesis_previous_hash)\<lparr>bm_signature := [], bm_pqc_signature := []\<rparr>)),
     cd_archive = (\<lambda>m. None), cd_archive_decode = (\<lambda>b. None)\<rparr>"

lemma one_codec_decodes: "decodes_backup one_codec"
  by (auto simp: decodes_backup_def one_codec_def)

lemma toy_aead_sound: "aead_sound toy_crypto"
proof -
  have "a' = a" if "length a < 256 ^ 8" "length a' < 256 ^ 8"
      "take (8 + length a') (le_bytes 8 (length a) @ a @ p) = le_bytes 8 (length a') @ a'" for a a' p :: bytes
  proof -
    have "le_bytes 8 (length a) @ take (length a') (a @ p) = le_bytes 8 (length a') @ a'"
      using that(3) by simp
    then have "le_bytes 8 (length a) = le_bytes 8 (length a')" "take (length a') (a @ p) = a'" by simp_all
    then show ?thesis using le_bytes_inject[OF that(1,2)] by simp
  qed
  note distinct = this
  have sealed: "length a < 256 ^ 8 \<and> c = le_bytes 8 (length a) @ a @ p" if "cr_seal toy_crypto k n p a = Some c" for k n p a c
    using that by (simp add: toy_crypto_def split: if_splits)
  show ?thesis unfolding aead_sound_def
  proof (intro allI impI conjI)
    fix k n p a c assume s: "cr_seal toy_crypto k n p a = Some c"
    show "cr_open toy_crypto k n c a = Some p" using sealed[OF s] by (simp add: toy_crypto_def)
    fix a' assume "a' \<noteq> a"
    then show "cr_open toy_crypto k n c a' = None"
      using sealed[OF s] distinct[of a a' p] by (auto simp: toy_crypto_def simp del: take_append)
  qed
qed

definition toy_sealed :: sealed_backup_manifest where
  "toy_sealed = \<lparr>sbm_manifest = toy_manifest 0 genesis_previous_hash,
     sbm_signature = (replicate 64 0, replicate 3309 0), sbm_nonce = [],
     sbm_ciphertext = the (cr_seal toy_crypto [] [] [1]
        (build_manifest_aad 7 0 (cr_blake3 toy_crypto []) []))\<rparr>"

lemma toy_sealed_built: "build_backup_manifest toy_crypto one_codec 7 [] toy_request toy_key [] = Inr toy_sealed"
  by (simp add: build_backup_manifest_def backup_link_def toy_request_def toy_sealed_def toy_manifest_def Let_def
      sign_in_place_def sign_payload_def canonical_signing_payload_def backup_ops_def one_codec_def aead_seal_def
      compute_segment_merkle_root_def toy_crypto_def)

theorem sealed_manifest_binds_header_witness:
  "open_sealed_backup_manifest toy_crypto one_codec toy_sealed [] [] = Inr (toy_manifest 0 genesis_previous_hash) \<and>
   open_sealed_backup_manifest toy_crypto one_codec toy_sealed [] [1] =
     Inl (CryptoFailure (Aead ''xchacha20-poly1305 open failed''))"
proof -
  have "toy_sealed\<lparr>sbm_manifest := sbm_manifest toy_sealed\<rparr> = toy_sealed" by simp
  then show ?thesis
    using sealed_manifest_binds_header[OF toy_aead_sound one_codec_decodes toy_sealed_built refl]
    by (simp add: toy_request_def) (simp add: toy_sealed_def)
qed

end
