(* ===== verification/Backup_Journal.thy ===== *)
theory Backup_Journal
  imports Store_Traces Manifest_Chain
begin

text \<open>
  The backup event journal (\<open>backup/event_journal.rs\<close>) over the store's table, the sealed segments its
  events go into (\<open>backup/segment_builder.rs\<close>) and their form on the wire (\<open>backup/wire.rs\<close>).  The record
  \<open>library\<close> adds to the primitives of \<open>Manifests\<close> what the backup takes from other crates: the text form of
  UUIDs, zstd, the CBOR codec of payloads and bundles, key derivation and key wrapping.
\<close>

subsection \<open>Events\<close>

datatype backup_event_type =
    BMessageReceived
  | BMessageEdited
  | BMessageDeleted
  | BMediaReceived
  | BMediaDeleted
  | BConversationCreated
  | BConversationDeleted

fun backup_type_str :: "backup_event_type \<Rightarrow> string" where
  "backup_type_str BMessageReceived = ''message_received''"
| "backup_type_str BMessageEdited = ''message_edited''"
| "backup_type_str BMessageDeleted = ''message_deleted''"
| "backup_type_str BMediaReceived = ''media_received''"
| "backup_type_str BMediaDeleted = ''media_deleted''"
| "backup_type_str BConversationCreated = ''conversation_created''"
| "backup_type_str BConversationDeleted = ''conversation_deleted''"

definition parse_backup_type :: "string \<Rightarrow> core_error + backup_event_type" where
  "parse_backup_type s =
     (if s = ''message_received'' then Inr BMessageReceived
      else if s = ''message_edited'' then Inr BMessageEdited
      else if s = ''message_deleted'' then Inr BMessageDeleted
      else if s = ''media_received'' then Inr BMediaReceived
      else if s = ''media_deleted'' then Inr BMediaDeleted
      else if s = ''conversation_created'' then Inr BConversationCreated
      else if s = ''conversation_deleted'' then Inr BConversationDeleted
      else Inl (StorageFailure ''unknown backup event_type''))"

lemma parse_backup_type_str [simp]: "parse_backup_type (backup_type_str t) = Inr t"
  by (cases t) (simp_all add: parse_backup_type_def)

record journal_event =
  je_event_type :: backup_event_type
  je_conversation_id :: "uuid option"
  je_message_id :: "uuid option"
  je_payload :: bytes
  je_created_at_ms :: int

record segment_payload =
  pl_magic :: bytes
  pl_events :: "journal_event list"

record sealed_manifest_bundle =
  mb_magic :: bytes
  mb_version :: "16 word"
  mb_manifest :: backup_manifest
  mb_nonce :: bytes
  mb_ciphertext :: bytes
  mb_device_id :: bytes

record sealed_segment_bundle =
  gb_magic :: bytes
  gb_version :: "16 word"
  gb_segment_id :: uuid
  gb_segment_type :: segment_type
  gb_nonce :: bytes
  gb_ciphertext :: bytes
  gb_merkle_root :: bytes
  gb_event_count :: "32 word"
  gb_wrapped_k_segment :: bytes

record library =
  lb_crypto :: crypto
  lb_codec :: codec
  lb_show_uuid :: "uuid \<Rightarrow> string"
  lb_parse_uuid :: "string \<Rightarrow> uuid option"
  lb_encode_payload :: "segment_payload \<Rightarrow> bytes option"
  lb_decode_payload :: "bytes \<Rightarrow> segment_payload option"
  lb_compress :: "bytes \<Rightarrow> bytes option"
  lb_decompress :: "bytes \<Rightarrow> bytes option"
  lb_encode_manifest_bundle :: "sealed_manifest_bundle \<Rightarrow> bytes option"
  lb_decode_manifest_bundle :: "bytes \<Rightarrow> sealed_manifest_bundle option"
  lb_encode_segment_bundle :: "sealed_segment_bundle \<Rightarrow> bytes option"
  lb_decode_segment_bundle :: "bytes \<Rightarrow> sealed_segment_bundle option"
  lb_derive_segment :: "bytes \<Rightarrow> bytes \<Rightarrow> bytes option"
  lb_derive_manifest :: "bytes \<Rightarrow> bytes \<Rightarrow> bytes option"
  lb_wrap_key :: "bytes \<Rightarrow> bytes \<Rightarrow> bytes option"
  lb_unwrap_key :: "bytes \<Rightarrow> bytes \<Rightarrow> bytes option"

definition storage :: "string \<Rightarrow> 'a option \<Rightarrow> core_error + 'a" where
  "storage what r = (case r of None \<Rightarrow> Inl (StorageFailure what) | Some x \<Rightarrow> Inr x)"

definition cryptic :: "string \<Rightarrow> 'a option \<Rightarrow> core_error + 'a" where
  "cryptic what r = (case r of None \<Rightarrow> Inl (CryptoFailure (Aead what)) | Some x \<Rightarrow> Inr x)"

lemma storage_simps [simp]: "storage what (Some x) = Inr x" "storage what None = Inl (StorageFailure what)"
  "cryptic what (Some x) = Inr x" "cryptic what None = Inl (CryptoFailure (Aead what))"
  by (simp_all add: storage_def cryptic_def)

lemma storage_Inr_iff [err_simps]: "storage what r = Inr x \<longleftrightarrow> r = Some x" "cryptic what r = Inr x \<longleftrightarrow> r = Some x"
  by (auto simp: storage_def cryptic_def split: option.splits)

lemma map_filter_set: "y \<in> set (List.map_filter f xs) \<longleftrightarrow> (\<exists>x \<in> set xs. f x = Some y)"
  by (induction xs) (auto simp: map_filter_simps split: option.splits)

subsection \<open>The journal\<close>

definition event_row :: "library \<Rightarrow> journal_event \<Rightarrow> backup_event" where
  "event_row L e = \<lparr>be_event_seq = 0, be_event_type = backup_type_str (je_event_type e),
     be_conversation_id = map_option (lb_show_uuid L) (je_conversation_id e),
     be_message_id = map_option (lb_show_uuid L) (je_message_id e),
     be_payload = je_payload e, be_created_at_ms = je_created_at_ms e\<rparr>"

definition write_event :: "library \<Rightarrow> journal_event \<Rightarrow> local_db \<Rightarrow> db_error + int \<times> local_db" where
  "write_event L e db = bindE (insert_backup_event (event_row L e) db) (\<lambda>db'. Inr (db_event_seq db', db'))"

definition parse_id_column :: "library \<Rightarrow> string \<Rightarrow> string option \<Rightarrow> core_error + uuid option" where
  "parse_id_column L what s = (case s of None \<Rightarrow> Inr None
     | Some t \<Rightarrow> map_sum id Some (storage (''invalid '' @ what) (lb_parse_uuid L t)))"

text \<open>One row; a row whose type is not one of the enum is skipped.\<close>

definition read_row :: "library \<Rightarrow> backup_event \<Rightarrow> core_error + (int \<times> journal_event) option" where
  "read_row L r = (case parse_backup_type (be_event_type r) of
      Inl _ \<Rightarrow> Inr None
    | Inr t \<Rightarrow>
        bindE (parse_id_column L ''conversation_id'' (be_conversation_id r)) (\<lambda>cid.
        bindE (parse_id_column L ''message_id'' (be_message_id r)) (\<lambda>mid.
        Inr (Some (be_event_seq r, \<lparr>je_event_type = t, je_conversation_id = cid, je_message_id = mid,
          je_payload = be_payload r, je_created_at_ms = be_created_at_ms r\<rparr>)))))"

definition rows_since :: "int \<Rightarrow> nat \<Rightarrow> local_db \<Rightarrow> backup_event list" where
  "rows_since after_seq limit db =
     take limit (sort_key be_event_seq (filter (\<lambda>r. be_event_seq r > after_seq) (db_events db)))"

definition read_events_since ::
  "library \<Rightarrow> int \<Rightarrow> nat \<Rightarrow> local_db \<Rightarrow> core_error + (int \<times> journal_event) list" where
  "read_events_since L after_seq limit db =
     bindE (mapE (read_row L) (rows_since after_seq limit db)) (\<lambda>rs. Inr (List.map_filter id rs))"

definition read_cursor :: "local_db \<Rightarrow> int" where
  "read_cursor db = (case db_cursor db of None \<Rightarrow> 0 | Some c \<Rightarrow> c)"

definition advance_cursor :: "int \<Rightarrow> local_db \<Rightarrow> core_error + local_db" where
  "advance_cursor new_cursor db =
     (if new_cursor < read_cursor db then Inl (StorageFailure ''backup cursor cannot go backwards'')
      else Inr (db\<lparr>db_cursor := Some new_cursor\<rparr>))"

definition read_unsegmented :: "library \<Rightarrow> nat \<Rightarrow> local_db \<Rightarrow> core_error + (int \<times> journal_event) list" where
  "read_unsegmented L limit db = read_events_since L (read_cursor db) limit db"

subsection \<open>Segments\<close>

definition backup_segment_payload_magic :: bytes where
  "backup_segment_payload_magic = ascii_bytes ''KCHAT_BAK_SEG_PAYLOAD_V1''"

definition backup_segment_aad_magic :: bytes where
  "backup_segment_aad_magic = ascii_bytes ''KCHAT_BACKUP_SEGMENT_V1''"

definition build_segment_aad :: "uuid \<Rightarrow> bytes \<Rightarrow> bytes" where
  "build_segment_aad segment_id merkle_root = backup_segment_aad_magic @ uuid_bytes segment_id @ merkle_root"

definition build_segment_with_id ::
  "library \<Rightarrow> bytes \<Rightarrow> journal_event list \<Rightarrow> segment_type \<Rightarrow> uuid \<Rightarrow> bytes \<Rightarrow> core_error + built_backup_segment" where
  "build_segment_with_id L nonce events ty segment_id k_segment =
     (if events = [] then Inl (StorageFailure ''BackupSegmentBuilder::build_segment: empty events list'')
      else
        bindE (storage ''backup segment CBOR encode''
            (lb_encode_payload L \<lparr>pl_magic = backup_segment_payload_magic, pl_events = events\<rparr>)) (\<lambda>cbor.
        let merkle_root = cr_blake3 (lb_crypto L) cbor in
        bindE (storage ''backup segment encode'' (lb_compress L cbor)) (\<lambda>compressed.
        bindE (aead_seal (lb_crypto L) k_segment nonce compressed (build_segment_aad segment_id merkle_root)) (\<lambda>ciphertext.
        Inr \<lparr>bg_segment_id = segment_id, bg_segment_type = ty, bg_nonce = nonce, bg_ciphertext = ciphertext,
             bg_merkle_root = merkle_root, bg_event_count = length events\<rparr>))))"

definition decrypt_backup_segment :: "library \<Rightarrow> built_backup_segment \<Rightarrow> bytes \<Rightarrow> core_error + segment_payload" where
  "decrypt_backup_segment L seg k_segment =
     bindE (aead_open (lb_crypto L) k_segment (bg_nonce seg) (bg_ciphertext seg)
         (build_segment_aad (bg_segment_id seg) (bg_merkle_root seg))) (\<lambda>compressed.
     bindE (storage ''backup segment decode'' (lb_decompress L compressed)) (\<lambda>cbor.
     bindE (storage ''backup segment CBOR decode'' (lb_decode_payload L cbor)) (\<lambda>payload.
     if pl_magic payload \<noteq> backup_segment_payload_magic
     then Inl (StorageFailure ''backup segment payload magic mismatch'')
     else if cr_blake3 (lb_crypto L) cbor \<noteq> bg_merkle_root seg
     then Inl (StorageFailure ''backup segment merkle root mismatch'')
     else Inr payload)))"

subsection \<open>Bundles\<close>

definition manifest_bundle_magic :: bytes where "manifest_bundle_magic = ascii_bytes ''KCHAT_BAK_M_V1'' @ [0, 0]"
definition segment_bundle_magic :: bytes where "segment_bundle_magic = ascii_bytes ''KCHAT_BAK_S_V1'' @ [0, 0]"
definition bundle_version :: "16 word" where "bundle_version = 1"
definition max_manifest_bundle_bytes :: nat where "max_manifest_bundle_bytes = 2 ^ 20"
definition max_segment_bundle_bytes :: nat where "max_segment_bundle_bytes = 64 * 2 ^ 20"

definition bundle_of_sealed :: "sealed_backup_manifest \<Rightarrow> bytes \<Rightarrow> sealed_manifest_bundle" where
  "bundle_of_sealed sealed device_id = \<lparr>mb_magic = manifest_bundle_magic, mb_version = bundle_version,
     mb_manifest = sbm_manifest sealed, mb_nonce = sbm_nonce sealed, mb_ciphertext = sbm_ciphertext sealed,
     mb_device_id = device_id\<rparr>"

definition encode_manifest_bundle :: "library \<Rightarrow> sealed_manifest_bundle \<Rightarrow> core_error + bytes" where
  "encode_manifest_bundle L b = storage ''manifest bundle CBOR encode'' (lb_encode_manifest_bundle L b)"

definition decode_manifest_bundle :: "library \<Rightarrow> bytes \<Rightarrow> core_error + sealed_manifest_bundle" where
  "decode_manifest_bundle L raw =
     (if length raw > max_manifest_bundle_bytes then Inl (StorageFailure ''manifest bundle: input exceeds cap'')
      else bindE (storage ''manifest bundle CBOR decode'' (lb_decode_manifest_bundle L raw)) (\<lambda>b.
        if mb_magic b \<noteq> manifest_bundle_magic then Inl (StorageFailure ''manifest bundle: magic mismatch'')
        else if mb_version b \<noteq> bundle_version
        then Inl (StorageFailure ''manifest bundle: unsupported on-wire version'')
        else Inr b))"

definition bundle_of_built ::
  "library \<Rightarrow> built_backup_segment \<Rightarrow> bytes \<Rightarrow> bytes \<Rightarrow> core_error + sealed_segment_bundle" where
  "bundle_of_built L built k_segment k_backup_root =
     bindE (cryptic ''wrap_k_asset'' (lb_wrap_key L k_segment k_backup_root)) (\<lambda>wrapped.
     if bg_event_count built \<ge> 2 ^ 32 then Inl (StorageFailure ''segment bundle: event_count exceeds u32::MAX'')
     else Inr \<lparr>gb_magic = segment_bundle_magic, gb_version = bundle_version, gb_segment_id = bg_segment_id built,
       gb_segment_type = bg_segment_type built, gb_nonce = bg_nonce built, gb_ciphertext = bg_ciphertext built,
       gb_merkle_root = bg_merkle_root built, gb_event_count = word_of_nat (bg_event_count built),
       gb_wrapped_k_segment = wrapped\<rparr>)"

definition encode_segment_bundle :: "library \<Rightarrow> sealed_segment_bundle \<Rightarrow> core_error + bytes" where
  "encode_segment_bundle L b = storage ''segment bundle CBOR encode'' (lb_encode_segment_bundle L b)"

definition decode_segment_bundle :: "library \<Rightarrow> bytes \<Rightarrow> core_error + sealed_segment_bundle" where
  "decode_segment_bundle L raw =
     (if length raw > max_segment_bundle_bytes then Inl (StorageFailure ''segment bundle: input exceeds cap'')
      else bindE (storage ''segment bundle CBOR decode'' (lb_decode_segment_bundle L raw)) (\<lambda>b.
        if gb_magic b \<noteq> segment_bundle_magic then Inl (StorageFailure ''segment bundle: magic mismatch'')
        else if gb_version b \<noteq> bundle_version
        then Inl (StorageFailure ''segment bundle: unsupported on-wire version'')
        else Inr b))"

definition to_built :: "sealed_segment_bundle \<Rightarrow> built_backup_segment" where
  "to_built b = \<lparr>bg_segment_id = gb_segment_id b, bg_segment_type = gb_segment_type b, bg_nonce = gb_nonce b,
     bg_ciphertext = gb_ciphertext b, bg_merkle_root = gb_merkle_root b, bg_event_count = unat (gb_event_count b)\<rparr>"

definition unwrap_segment_key :: "library \<Rightarrow> sealed_segment_bundle \<Rightarrow> bytes \<Rightarrow> core_error + bytes" where
  "unwrap_segment_key L b k_backup_root =
     cryptic ''unwrap_k_asset'' (lb_unwrap_key L (gb_wrapped_k_segment b) k_backup_root)"

subsection \<open>Laws of the libraries\<close>

text \<open>Documented behaviour of the codecs, of zstd, of key wrapping and of the text form of UUIDs: each
  decoder undoes its encoder.\<close>

definition library_sound :: "library \<Rightarrow> bool" where
  "library_sound L \<longleftrightarrow>
     aead_sound (lb_crypto L) \<and> decodes_backup (lb_codec L) \<and>
     (\<forall>u. lb_parse_uuid L (lb_show_uuid L u) = Some u) \<and>
     (\<forall>p b. lb_encode_payload L p = Some b \<longrightarrow> lb_decode_payload L b = Some p) \<and>
     (\<forall>b c. lb_compress L b = Some c \<longrightarrow> lb_decompress L c = Some b) \<and>
     (\<forall>p b. lb_encode_manifest_bundle L p = Some b \<longrightarrow> lb_decode_manifest_bundle L b = Some p) \<and>
     (\<forall>p b. lb_encode_segment_bundle L p = Some b \<longrightarrow> lb_decode_segment_bundle L b = Some p) \<and>
     (\<forall>k r w. lb_wrap_key L k r = Some w \<longrightarrow> lb_unwrap_key L w r = Some k)"

lemma library_soundD:
  assumes "library_sound L"
  shows "cr_seal (lb_crypto L) k n p a = Some c \<Longrightarrow> cr_open (lb_crypto L) k n c a = Some p"
    "lb_parse_uuid L (lb_show_uuid L u) = Some u"
    "lb_encode_payload L q = Some b \<Longrightarrow> lb_decode_payload L b = Some q"
    "lb_compress L b = Some b' \<Longrightarrow> lb_decompress L b' = Some b"
    "lb_encode_manifest_bundle L mb = Some b \<Longrightarrow> lb_decode_manifest_bundle L b = Some mb"
    "lb_encode_segment_bundle L gb = Some b \<Longrightarrow> lb_decode_segment_bundle L b = Some gb"
    "lb_wrap_key L k r = Some w \<Longrightarrow> lb_unwrap_key L w r = Some k"
  using assms by (auto simp: library_sound_def aead_sound_def)

lemma read_written_row:
  assumes "library_sound L"
  shows "read_row L ((event_row L e)\<lparr>be_event_seq := n\<rparr>) = Inr (Some (n, e))"
  by (cases "je_conversation_id e"; cases "je_message_id e")
    (simp_all add: read_row_def event_row_def parse_id_column_def library_soundD(2)[OF assms])

lemma built_segment:
  assumes "build_segment_with_id L nonce events ty i k = Inr seg"
  shows "bg_segment_id seg = i \<and> bg_segment_type seg = ty \<and> bg_event_count seg = length events \<and> events \<noteq> []"
  using assms by (auto simp: build_segment_with_id_def Let_def err_simps split: if_splits)

lemma segment_roundtrip:
  assumes "library_sound L" "build_segment_with_id L nonce events ty i k = Inr seg"
  shows "decrypt_backup_segment L seg k = Inr \<lparr>pl_magic = backup_segment_payload_magic, pl_events = events\<rparr>"
proof -
  obtain cbor z c where cbor: "lb_encode_payload L \<lparr>pl_magic = backup_segment_payload_magic, pl_events = events\<rparr> = Some cbor"
    and z: "lb_compress L cbor = Some z"
    and c: "aead_seal (lb_crypto L) k nonce z (build_segment_aad i (cr_blake3 (lb_crypto L) cbor)) = Inr c"
    and seg: "seg = \<lparr>bg_segment_id = i, bg_segment_type = ty, bg_nonce = nonce, bg_ciphertext = c,
       bg_merkle_root = cr_blake3 (lb_crypto L) cbor, bg_event_count = length events\<rparr>"
    using assms(2) by (auto simp: build_segment_with_id_def Let_def err_simps split: if_splits)
  have "cr_seal (lb_crypto L) k nonce z (build_segment_aad i (cr_blake3 (lb_crypto L) cbor)) = Some c"
    using c by (auto simp: aead_seal_def split: option.splits)
  then show ?thesis
    using library_soundD(1,3,4)[OF assms(1)] cbor z
    by (simp add: decrypt_backup_segment_def seg aead_open_def)
qed

lemma segment_bundle_roundtrip:
  assumes "library_sound L" "bundle_of_built L built k root = Inr b" "encode_segment_bundle L b = Inr raw"
    and "length raw \<le> max_segment_bundle_bytes"
  shows "decode_segment_bundle L raw = Inr b \<and> to_built b = built \<and> unwrap_segment_key L b root = Inr k"
proof -
  have b: "lb_wrap_key L k root = Some (gb_wrapped_k_segment b)" "gb_magic b = segment_bundle_magic"
    "gb_version b = bundle_version" "to_built b = built"
    using assms(2) by (auto simp: bundle_of_built_def to_built_def err_simps unat_of_nat take_bit_eq_mod split: if_splits)
  then show ?thesis
    using library_soundD(6,7)[OF assms(1)] assms(3,4)
    by (simp add: decode_segment_bundle_def encode_segment_bundle_def unwrap_segment_key_def err_simps)
qed

lemma manifest_bundle_roundtrip:
  assumes "library_sound L" "encode_manifest_bundle L (bundle_of_sealed sealed d) = Inr raw"
    and "length raw \<le> max_manifest_bundle_bytes"
  shows "decode_manifest_bundle L raw = Inr (bundle_of_sealed sealed d)"
  using library_soundD(5)[OF assms(1)] assms(2,3)
  by (simp add: decode_manifest_bundle_def encode_manifest_bundle_def err_simps) (simp add: bundle_of_sealed_def)

end
