(* ===== verification/Compaction.thy ===== *)
theory Compaction
  imports Time_Buckets Backup_Journal
begin

text \<open>
  Backup compaction (\<open>backup/compaction.rs\<close>): which segments are merged, and which events of a merged
  segment survive its tombstones.  The planner's \<open>BTreeMap\<close> from tier and period to segments is the sorted
  list of its keys, each with the segments that have the key, in their order.  Time stamps are integers;
  differences of time stamps that overflow \<open>i64\<close> are not modelled.
\<close>

subsection \<open>The planner\<close>

datatype compaction_tier = Daily | Weekly | Monthly

primrec tier_rank :: "compaction_tier \<Rightarrow> nat" where
  "tier_rank Daily = 0"
| "tier_rank Weekly = 1"
| "tier_rank Monthly = 2"

instantiation compaction_tier :: linorder
begin

definition less_eq_compaction_tier :: "compaction_tier \<Rightarrow> compaction_tier \<Rightarrow> bool" where
  "less_eq_compaction_tier t u \<longleftrightarrow> tier_rank t \<le> tier_rank u"

definition less_compaction_tier :: "compaction_tier \<Rightarrow> compaction_tier \<Rightarrow> bool" where
  "less_compaction_tier t u \<longleftrightarrow> tier_rank t < tier_rank u"

instance
proof
  fix t u :: compaction_tier
  assume "t \<le> u" "u \<le> t"
  then show "t = u" by (cases t; cases u) (simp_all add: less_eq_compaction_tier_def)
qed (auto simp: less_eq_compaction_tier_def less_compaction_tier_def)

end

primrec next_tier :: "compaction_tier \<Rightarrow> compaction_tier option" where
  "next_tier Daily = Some Weekly"
| "next_tier Weekly = Some Monthly"
| "next_tier Monthly = None"

record backup_segment_ref =
  sf_segment_id :: uuid
  sf_tier :: compaction_tier
  sf_min_event_ms :: int
  sf_max_event_ms :: int
  sf_event_count :: nat

record compaction_policy =
  cp_daily_to_weekly_ms :: int
  cp_weekly_to_monthly_ms :: int
  cp_min_group_size :: nat

definition day_ms :: int where "day_ms = 86400 * 1000"

definition default_compaction_policy :: compaction_policy where
  "default_compaction_policy = \<lparr>cp_daily_to_weekly_ms = 7 * day_ms, cp_weekly_to_monthly_ms = 30 * day_ms,
     cp_min_group_size = 2\<rparr>"

definition week_start_ms :: "int \<Rightarrow> int" where
  "week_start_ms t_ms =
     (let shifted = max (t_ms - 4 * day_ms) (- (2 ^ 63)) in quot shifted (7 * day_ms) * (7 * day_ms) + 4 * day_ms)"

definition month_start_ms :: "int \<Rightarrow> int" where
  "month_start_ms t_ms = quot t_ms (30 * day_ms) * (30 * day_ms)"

text \<open>The bucket of a segment, \<open>None\<close> where the loop continues with the next one.\<close>

definition bucket_key :: "compaction_policy \<Rightarrow> int \<Rightarrow> backup_segment_ref \<Rightarrow> (compaction_tier \<times> int) option" where
  "bucket_key p now_ms s = (case sf_tier s of
      Daily \<Rightarrow> if now_ms - sf_max_event_ms s < cp_daily_to_weekly_ms p then None
               else Some (Daily, week_start_ms (sf_min_event_ms s))
    | Weekly \<Rightarrow> if now_ms - sf_max_event_ms s < cp_weekly_to_monthly_ms p then None
               else Some (Weekly, month_start_ms (sf_min_event_ms s))
    | Monthly \<Rightarrow> None)"

record compaction_group =
  cg_source_tier :: compaction_tier
  cg_target_tier :: compaction_tier
  cg_members :: "backup_segment_ref list"

definition bucket_members ::
  "compaction_policy \<Rightarrow> int \<Rightarrow> backup_segment_ref list \<Rightarrow> compaction_tier \<times> int \<Rightarrow> backup_segment_ref list" where
  "bucket_members p now_ms segments k = filter (\<lambda>s. bucket_key p now_ms s = Some k) segments"

definition plan_compaction :: "compaction_policy \<Rightarrow> backup_segment_ref list \<Rightarrow> int \<Rightarrow> compaction_group list" where
  "plan_compaction p segments now_ms =
     (let buckets = sort (remdups (List.map_filter (bucket_key p now_ms) segments))
      in map (\<lambda>k. \<lparr>cg_source_tier = fst k, cg_target_tier = the (next_tier (fst k)),
              cg_members = sort_key (\<lambda>s. (sf_min_event_ms s, sf_segment_id s)) (bucket_members p now_ms segments k)\<rparr>)
           (filter (\<lambda>k. \<not> length (bucket_members p now_ms segments k) < cp_min_group_size p) buckets))"

definition superseded_segment_ids :: "compaction_group list \<Rightarrow> uuid list" where
  "superseded_segment_ids groups = concat (map (\<lambda>g. map sf_segment_id (cg_members g)) groups)"

lemma bucket_key_tier:
  "bucket_key p now s = Some (t, x) \<Longrightarrow> sf_tier s = t \<and> t \<noteq> Monthly"
  by (auto simp: bucket_key_def split: compaction_tier.splits if_splits)

lemma next_tier_above: "next_tier t = Some u \<Longrightarrow> t < u"
  by (cases t) (auto simp: less_compaction_tier_def)

lemma plan_buckets:
  "plan_compaction p segments now_ms = map (\<lambda>k. \<lparr>cg_source_tier = fst k, cg_target_tier = the (next_tier (fst k)),
        cg_members = sort_key (\<lambda>s. (sf_min_event_ms s, sf_segment_id s)) (bucket_members p now_ms segments k)\<rparr>)
     (filter (\<lambda>k. cp_min_group_size p \<le> length (bucket_members p now_ms segments k))
       (sort (remdups (List.map_filter (bucket_key p now_ms) segments))))"
  by (simp add: plan_compaction_def Let_def not_less)

lemma distinct_concat_disjoint:
  assumes "distinct ks" "\<And>k. distinct (f k)" "\<And>k l. k \<noteq> l \<Longrightarrow> set (f k) \<inter> set (f l) = {}"
  shows "distinct (concat (map f ks))"
  using assms(1)
proof (induction ks)
  case (Cons k ks)
  have "set (f k) \<inter> set (f l) = {}" if "l \<in> set ks" for l
    using assms(3)[of k l] Cons.prems that by auto
  then have "set (f k) \<inter> (\<Union>l \<in> set ks. set (f l)) = {}" by blast
  then show ?case using Cons assms(2)[of k] by simp
qed simp

lemma superseded_iff:
  "i \<in> set (superseded_segment_ids (plan_compaction p segments now_ms)) \<longleftrightarrow>
     (\<exists>s k. s \<in> set segments \<and> sf_segment_id s = i \<and> bucket_key p now_ms s = Some k \<and>
        cp_min_group_size p \<le> length (bucket_members p now_ms segments k))"
  by (force simp: superseded_segment_ids_def plan_buckets map_filter_set bucket_members_def)

text \<open>The plan is exactly the classes of at least \<open>min_group_size\<close> old segments of one tier and one period.
  Every group consists of all segments of its class and moves them to a higher tier; a segment is merged
  exactly when its class is large enough; and no segment is in two groups or twice in one.\<close>

theorem compaction_plan_classes:
  assumes "distinct (map sf_segment_id segments)"
  shows "distinct (superseded_segment_ids (plan_compaction p segments now_ms)) \<and>
    (\<forall>g \<in> set (plan_compaction p segments now_ms). \<exists>k.
       set (cg_members g) = {s \<in> set segments. bucket_key p now_ms s = Some k} \<and>
       cg_members g \<noteq> [] \<and> cp_min_group_size p \<le> length (cg_members g) \<and>
       cg_source_tier g = fst k \<and> cg_source_tier g < cg_target_tier g) \<and>
    (\<forall>s \<in> set segments. sf_segment_id s \<in> set (superseded_segment_ids (plan_compaction p segments now_ms)) \<longleftrightarrow>
       (\<exists>k. bucket_key p now_ms s = Some k \<and>
          cp_min_group_size p \<le> length (filter (\<lambda>u. bucket_key p now_ms u = Some k) segments)))"
proof (intro conjI ballI)
  let ?f = "\<lambda>k. map sf_segment_id
      (sort_key (\<lambda>s. (sf_min_event_ms s, sf_segment_id s)) (bucket_members p now_ms segments k))"
  let ?ks = "filter (\<lambda>k. cp_min_group_size p \<le> length (bucket_members p now_ms segments k))
       (sort (remdups (List.map_filter (bucket_key p now_ms) segments)))"
  have inj: "inj_on sf_segment_id (set segments)" using assms by (simp add: distinct_map)
  have "distinct (?f k)" for k
  proof -
    have "distinct (map sf_segment_id (bucket_members p now_ms segments k))"
      unfolding bucket_members_def by (rule distinct_map_filter[OF assms])
    then show ?thesis by (simp add: distinct_map)
  qed
  moreover have "set (?f k) \<inter> set (?f l) = {}" if "k \<noteq> l" for k l
    using that inj by (auto simp: bucket_members_def inj_on_eq_iff)
  ultimately have "distinct (concat (map ?f ?ks))" by (intro distinct_concat_disjoint) simp_all
  then show "distinct (superseded_segment_ids (plan_compaction p segments now_ms))"
    by (simp add: superseded_segment_ids_def plan_buckets o_def)
next
  fix g assume "g \<in> set (plan_compaction p segments now_ms)"
  then obtain k where k: "k \<in> set (List.map_filter (bucket_key p now_ms) segments)"
    and size: "cp_min_group_size p \<le> length (bucket_members p now_ms segments k)"
    and g: "g = \<lparr>cg_source_tier = fst k, cg_target_tier = the (next_tier (fst k)),
        cg_members = sort_key (\<lambda>s. (sf_min_event_ms s, sf_segment_id s)) (bucket_members p now_ms segments k)\<rparr>"
    by (auto simp: plan_buckets)
  obtain s where s: "s \<in> set segments" "bucket_key p now_ms s = Some k" using k by (auto simp: map_filter_set)
  then have "fst k \<noteq> Monthly" using bucket_key_tier[of p now_ms s "fst k" "snd k"] by simp
  then have up: "fst k < the (next_tier (fst k))" by (cases "fst k") (simp_all add: less_compaction_tier_def)
  have members: "set (cg_members g) = {s \<in> set segments. bucket_key p now_ms s = Some k}"
    by (simp add: g bucket_members_def)
  moreover have "cg_members g \<noteq> []"
  proof
    assume "cg_members g = []"
    then show False using members s by simp
  qed
  ultimately show "\<exists>k. set (cg_members g) = {s \<in> set segments. bucket_key p now_ms s = Some k} \<and>
       cg_members g \<noteq> [] \<and> cp_min_group_size p \<le> length (cg_members g) \<and>
       cg_source_tier g = fst k \<and> cg_source_tier g < cg_target_tier g"
    using size up by (intro exI[of _ k]) (simp add: g)
next
  fix s assume s: "s \<in> set segments"
  have "u = s" if "u \<in> set segments" "sf_segment_id u = sf_segment_id s" for u
    using that s assms by (auto simp: distinct_map inj_on_def)
  then show "sf_segment_id s \<in> set (superseded_segment_ids (plan_compaction p segments now_ms)) \<longleftrightarrow>
       (\<exists>k. bucket_key p now_ms s = Some k \<and>
          cp_min_group_size p \<le> length (filter (\<lambda>u. bucket_key p now_ms u = Some k) segments))"
    using s unfolding superseded_iff bucket_members_def by blast
qed

definition old_segments :: "backup_segment_ref list" where
  "old_segments = [\<lparr>sf_segment_id = 1, sf_tier = Daily, sf_min_event_ms = 4 * day_ms, sf_max_event_ms = 5 * day_ms, sf_event_count = 3\<rparr>,
     \<lparr>sf_segment_id = 2, sf_tier = Daily, sf_min_event_ms = 6 * day_ms, sf_max_event_ms = 7 * day_ms, sf_event_count = 2\<rparr>]"

theorem compaction_plan_classes_witness:
  "1 \<in> set (superseded_segment_ids (plan_compaction default_compaction_policy old_segments (20 * day_ms))) \<and>
   2 \<in> set (superseded_segment_ids (plan_compaction default_compaction_policy old_segments (20 * day_ms)))"
  using compaction_plan_classes[of old_segments default_compaction_policy "20 * day_ms"]
  by (simp add: old_segments_def bucket_key_def default_compaction_policy_def day_ms_def week_start_ms_def quot_def)

subsection \<open>Tombstones\<close>

fun deleted_message :: "journal_event \<Rightarrow> (uuid \<times> uuid) option" where
  "deleted_message e = (case (je_event_type e, je_conversation_id e, je_message_id e) of
     (BMessageDeleted, Some c, Some m) \<Rightarrow> Some (c, m) | _ \<Rightarrow> None)"

fun deleted_conversation :: "journal_event \<Rightarrow> uuid option" where
  "deleted_conversation e = (if je_event_type e = BConversationDeleted then je_conversation_id e else None)"

fun deleted_media :: "journal_event \<Rightarrow> (uuid \<times> uuid) option" where
  "deleted_media e = (case (je_event_type e, je_conversation_id e, je_message_id e) of
     (BMediaDeleted, Some c, Some m) \<Rightarrow> Some (c, m) | _ \<Rightarrow> None)"

definition is_tombstone :: "backup_event_type \<Rightarrow> bool" where
  "is_tombstone t \<longleftrightarrow> t = BMessageDeleted \<or> t = BConversationDeleted \<or> t = BMediaDeleted"

definition event_key :: "journal_event \<Rightarrow> (uuid \<times> uuid) option" where
  "event_key e = (case (je_conversation_id e, je_message_id e) of (Some c, Some m) \<Rightarrow> Some (c, m) | _ \<Rightarrow> None)"

definition apply_tombstones :: "journal_event list \<Rightarrow> journal_event list" where
  "apply_tombstones events =
     (let deleted_messages = List.map_filter deleted_message events;
          deleted_conversations = List.map_filter deleted_conversation events;
          deleted_medias = List.map_filter deleted_media events
      in filter (\<lambda>e.
        if is_tombstone (je_event_type e) then False
        else if (case je_conversation_id e of Some c \<Rightarrow> c \<in> set deleted_conversations | None \<Rightarrow> False) then False
        else if je_event_type e \<in> {BMessageReceived, BMessageEdited, BMediaReceived} \<and>
            (case event_key e of Some k \<Rightarrow> k \<in> set deleted_messages | None \<Rightarrow> False) then False
        else if je_event_type e = BMediaReceived \<and>
            (case event_key e of Some k \<Rightarrow> k \<in> set deleted_medias | None \<Rightarrow> False) then False
        else True) events)"

text \<open>What a tombstone removes.\<close>

definition kills :: "journal_event \<Rightarrow> journal_event \<Rightarrow> bool" where
  "kills d e \<longleftrightarrow>
     deleted_conversation d \<noteq> None \<and> je_conversation_id e = deleted_conversation d \<or>
     deleted_message d \<noteq> None \<and> event_key e = deleted_message d \<and>
       je_event_type e \<in> {BMessageReceived, BMessageEdited, BMediaReceived} \<or>
     deleted_media d \<noteq> None \<and> event_key e = deleted_media d \<and> je_event_type e = BMediaReceived"

lemma hit_by: "(case k of Some x \<Rightarrow> x \<in> set (List.map_filter f es) | None \<Rightarrow> False) \<longleftrightarrow>
   (\<exists>d \<in> set es. f d \<noteq> None \<and> k = f d)"
  unfolding map_filter_set by (cases k) force+

lemma apply_tombstones_filter:
  "apply_tombstones events =
     filter (\<lambda>e. \<not> is_tombstone (je_event_type e) \<and> \<not> (\<exists>d \<in> set events. kills d e)) events"
  unfolding apply_tombstones_def Let_def
proof (rule filter_cong[OF refl])
  fix e :: journal_event
  let ?conv = "case je_conversation_id e of Some c \<Rightarrow> c \<in> set (List.map_filter deleted_conversation events) | None \<Rightarrow> False"
  let ?msg = "case event_key e of Some k \<Rightarrow> k \<in> set (List.map_filter deleted_message events) | None \<Rightarrow> False"
  let ?med = "case event_key e of Some k \<Rightarrow> k \<in> set (List.map_filter deleted_media events) | None \<Rightarrow> False"
  note hit_by[where k = "je_conversation_id e" and f = deleted_conversation and es = events]
  moreover note hit_by[where k = "event_key e" and f = deleted_message and es = events]
  moreover note hit_by[where k = "event_key e" and f = deleted_media and es = events]
  ultimately show "(if is_tombstone (je_event_type e) then False
        else if ?conv then False
        else if je_event_type e \<in> {BMessageReceived, BMessageEdited, BMediaReceived} \<and> ?msg then False
        else if je_event_type e = BMediaReceived \<and> ?med then False else True) \<longleftrightarrow>
      \<not> is_tombstone (je_event_type e) \<and> \<not> (\<exists>d \<in> set events. kills d e)"
    unfolding kills_def by (auto simp del: deleted_conversation.simps deleted_message.simps deleted_media.simps)
qed

lemma kills_tombstone: "kills d e \<Longrightarrow> is_tombstone (je_event_type d)"
  by (auto simp: kills_def is_tombstone_def split: backup_event_type.splits option.splits)

lemma no_tombstones_left: "d \<in> set (apply_tombstones events) \<Longrightarrow> \<not> kills d e"
  by (auto simp: apply_tombstones_filter dest: kills_tombstone)

lemma survivor: "e \<in> set (apply_tombstones events) \<Longrightarrow> \<not> is_tombstone (je_event_type e)"
  by (simp add: apply_tombstones_filter)

text \<open>A compacted segment is its input without the tombstones and without everything a tombstone of the
  input removes, wherever in the input the tombstone stands, in the order of the input.  Compacting again
  changes nothing.\<close>

theorem tombstones_spec:
  "apply_tombstones events =
     filter (\<lambda>e. \<not> is_tombstone (je_event_type e) \<and> \<not> list_ex (\<lambda>d. kills d e) events) events \<and>
   apply_tombstones (apply_tombstones events) = apply_tombstones events"
proof
  show "apply_tombstones events =
     filter (\<lambda>e. \<not> is_tombstone (je_event_type e) \<and> \<not> list_ex (\<lambda>d. kills d e) events) events"
    by (simp add: apply_tombstones_filter list_ex_iff)
  have "filter (\<lambda>e. \<not> is_tombstone (je_event_type e) \<and> \<not> (\<exists>d \<in> set (apply_tombstones events). kills d e))
      (apply_tombstones events) = apply_tombstones events"
    by (subst filter_id_conv) (auto dest: no_tombstones_left survivor)
  then show "apply_tombstones (apply_tombstones events) = apply_tombstones events"
    by (subst apply_tombstones_filter)
qed

text \<open>Compacting groups one by one loses deletions.  A deletion in one group of an event in another is
  dropped with its own group, and no later compaction of the two results removes anything: exactly the
  events of one group that a tombstone of the other removes come back.\<close>

theorem separate_compaction_resurrects:
  "apply_tombstones (apply_tombstones xs @ apply_tombstones ys) = apply_tombstones xs @ apply_tombstones ys \<and>
   set (apply_tombstones xs @ apply_tombstones ys) - set (apply_tombstones (xs @ ys)) =
     {e \<in> set (apply_tombstones xs). \<exists>d \<in> set ys. kills d e} \<union>
     {e \<in> set (apply_tombstones ys). \<exists>d \<in> set xs. kills d e}"
proof
  let ?zs = "apply_tombstones xs @ apply_tombstones ys"
  have "\<not> is_tombstone (je_event_type e) \<and> \<not> (\<exists>d \<in> set ?zs. kills d e)" if "e \<in> set ?zs" for e
    using that by (auto dest: no_tombstones_left survivor)
  then have "filter (\<lambda>e. \<not> is_tombstone (je_event_type e) \<and> \<not> (\<exists>d \<in> set ?zs. kills d e)) ?zs = ?zs"
    by (subst filter_id_conv) blast
  then show "apply_tombstones ?zs = ?zs" by (subst apply_tombstones_filter)
  show "set ?zs - set (apply_tombstones (xs @ ys)) =
     {e \<in> set (apply_tombstones xs). \<exists>d \<in> set ys. kills d e} \<union>
     {e \<in> set (apply_tombstones ys). \<exists>d \<in> set xs. kills d e}"
    by (auto simp: apply_tombstones_filter)
qed

end
