(* ===== verification/Backup_Run.thy ===== *)
theory Backup_Run
  imports Compaction
begin

text \<open>
  The orchestration of the cloud backup (\<open>run_incremental_backup_inner\<close>, \<open>compact_backup\<close> and their helpers in
  \<open>core_impl.rs\<close>, with the in-memory state of \<open>backup/coordinator.rs\<close>): read what is new in the journal,
  seal it, chain a manifest, persist, commit in memory, upload.  Fresh ids, nonces, the clock and the
  outcome of each upload are arguments.  The sink keeps what was uploaded by id.  Poisoned locks are not
  modelled, and neither are the references to the sealed events that a run hands to the upload of search
  shards.
\<close>

subsection \<open>State\<close>

record backup_keys =
  ky_root_key :: bytes
  ky_signing_key :: hybrid_signing_key
  ky_device_id :: bytes

record tracked_segment =
  tr_built :: built_backup_segment
  tr_tier :: compaction_tier
  tr_min_event_ms :: int
  tr_max_event_ms :: int
  tr_k_segment :: bytes

record backup_sink =
  snk_segments :: "string \<rightharpoonup> bytes"
  snk_manifests :: "string \<rightharpoonup> bytes"

record backup_core =
  bc_db :: local_db
  bc_keys :: "backup_keys option"
  bc_previous :: "backup_manifest option"
  bc_tracked :: "tracked_segment list"
  bc_sink :: "backup_sink option"

record backup_result =
  rs_segments_built :: nat
  rs_segments_uploaded :: nat
  rs_events_segmented :: nat
  rs_manifest_generation :: "64 word option"
  rs_manifest_uploaded :: bool

definition no_backup :: backup_result where
  "no_backup = \<lparr>rs_segments_built = 0, rs_segments_uploaded = 0, rs_events_segmented = 0,
     rs_manifest_generation = None, rs_manifest_uploaded = False\<rparr>"

record run_inputs =
  ri_segment_id :: uuid
  ri_segment_nonce :: bytes
  ri_manifest_id :: uuid
  ri_manifest_nonce :: bytes
  ri_now_ms :: int
  ri_segment_upload :: bool
  ri_manifest_upload :: bool

definition max_events_per_backup_segment :: nat where "max_events_per_backup_segment = 4096"

definition require_keys :: "backup_core \<Rightarrow> core_error + backup_keys" where
  "require_keys c = storage ''backup_keys'' (bc_keys c)"

definition commit_incremental :: "backup_manifest \<Rightarrow> tracked_segment \<Rightarrow> backup_core \<Rightarrow> backup_core" where
  "commit_incremental manifest tracked c = c\<lparr>bc_previous := Some manifest, bc_tracked := bc_tracked c @ [tracked]\<rparr>"

definition commit_compaction :: "backup_manifest \<Rightarrow> tracked_segment list \<Rightarrow> backup_core \<Rightarrow> backup_core" where
  "commit_compaction manifest ledger c = c\<lparr>bc_previous := Some manifest, bc_tracked := ledger\<rparr>"

subsection \<open>Ledger rows\<close>

primrec tier_str :: "compaction_tier \<Rightarrow> string" where
  "tier_str Daily = ''daily''"
| "tier_str Weekly = ''weekly''"
| "tier_str Monthly = ''monthly''"

definition build_backup_segment_ledger_row ::
  "library \<Rightarrow> tracked_segment \<Rightarrow> bytes \<Rightarrow> int \<Rightarrow> core_error + ledger_row" where
  "build_backup_segment_ledger_row L seg backup_root now_ms =
     bindE (cryptic ''wrap_k_asset'' (lb_wrap_key L (tr_k_segment seg) backup_root)) (\<lambda>wrapped.
     if bg_segment_type (tr_built seg) \<noteq> EventsSegment
     then Inl (StorageFailure ''backup_segment_ledger: backup segment carried unexpected segment_type'')
     else Inr \<lparr>lg_segment_id = lb_show_uuid L (bg_segment_id (tr_built seg)), lg_segment_type = ''events'',
       lg_nonce = bg_nonce (tr_built seg), lg_ciphertext = bg_ciphertext (tr_built seg),
       lg_merkle_root = bg_merkle_root (tr_built seg), lg_event_count = int (bg_event_count (tr_built seg)),
       lg_tier = tier_str (tr_tier seg), lg_min_event_ms = tr_min_event_ms seg,
       lg_max_event_ms = tr_max_event_ms seg, lg_wrapped_k_segment = wrapped, lg_created_at_ms = now_ms\<rparr>)"

definition parse_tier :: "string \<Rightarrow> core_error + compaction_tier" where
  "parse_tier s = (if s = ''daily'' then Inr Daily else if s = ''weekly'' then Inr Weekly
     else if s = ''monthly'' then Inr Monthly else Inl (StorageFailure ''backup_segment_ledger: unknown tier''))"

definition materialise_row :: "library \<Rightarrow> bytes \<Rightarrow> ledger_row \<Rightarrow> core_error + tracked_segment" where
  "materialise_row L backup_root row =
     bindE (storage ''backup_segment_ledger: malformed segment_id'' (lb_parse_uuid L (lg_segment_id row))) (\<lambda>segment_id.
     if length (lg_nonce row) \<noteq> 24 then Inl (StorageFailure ''backup_segment_ledger: nonce length'')
     else if length (lg_merkle_root row) \<noteq> 32 then Inl (StorageFailure ''backup_segment_ledger: merkle_root length'')
     else if lg_segment_type row \<noteq> ''events'' then Inl (StorageFailure ''backup_segment_ledger: unknown segment_type'')
     else bindE (parse_tier (lg_tier row)) (\<lambda>tier.
       bindE (cryptic ''unwrap_k_asset'' (lb_unwrap_key L (lg_wrapped_k_segment row) backup_root)) (\<lambda>k_segment.
       Inr \<lparr>tr_built = \<lparr>bg_segment_id = segment_id, bg_segment_type = EventsSegment, bg_nonce = lg_nonce row,
              bg_ciphertext = lg_ciphertext row, bg_merkle_root = lg_merkle_root row,
              bg_event_count = nat (lg_event_count row)\<rparr>,
            tr_tier = tier, tr_min_event_ms = lg_min_event_ms row, tr_max_event_ms = lg_max_event_ms row,
            tr_k_segment = k_segment\<rparr>)))"

definition materialise_backup_segments_from_db :: "library \<Rightarrow> bytes \<Rightarrow> local_db \<Rightarrow> core_error + tracked_segment list" where
  "materialise_backup_segments_from_db L backup_root db = mapE (materialise_row L backup_root) (load_backup_segment_ledger db)"

definition install_backup_keys :: "library \<Rightarrow> backup_keys \<Rightarrow> backup_core \<Rightarrow> core_error + backup_core" where
  "install_backup_keys L keys c =
     bindE (materialise_backup_segments_from_db L (ky_root_key keys) (bc_db c)) (\<lambda>segs.
     Inr (c\<lparr>bc_keys := Some keys, bc_tracked := segs\<rparr>))"

definition hydrate_backup_manifest_from_db :: "library \<Rightarrow> backup_core \<Rightarrow> core_error + backup_core" where
  "hydrate_backup_manifest_from_db L c = (case load_backup_manifest (bc_db c) of
      None \<Rightarrow> Inr c
    | Some raw \<Rightarrow> bindE (storage ''backup_manifest_chain: CBOR decode'' (cd_backup_decode (lb_codec L) raw)) (\<lambda>m.
        Inr (c\<lparr>bc_previous := Some m\<rparr>)))"

text \<open>A new process on an existing database: an empty coordinator, the chain tail from the database, and the
  ledger once the keys are there.\<close>

definition open_backup :: "library \<Rightarrow> backup_keys \<Rightarrow> backup_sink option \<Rightarrow> local_db \<Rightarrow> core_error + backup_core" where
  "open_backup L keys sink db =
     bindE (hydrate_backup_manifest_from_db L
       \<lparr>bc_db = db, bc_keys = None, bc_previous = None, bc_tracked = [], bc_sink = sink\<rparr>) (install_backup_keys L keys)"

definition encode_manifest_cbor :: "library \<Rightarrow> backup_manifest \<Rightarrow> core_error + bytes" where
  "encode_manifest_cbor L m = storage ''backup_manifest_chain: CBOR encode'' (cd_backup (lb_codec L) m)"

definition generation_i64 :: "backup_manifest \<Rightarrow> int" where
  "generation_i64 m = sint (bm_generation m)"

definition db_failure :: "(db_error + unit) \<times> local_db \<Rightarrow> (core_error + unit) \<times> local_db" where
  "db_failure r = (map_sum (\<lambda>_. StorageFailure ''local store'') id (fst r), snd r)"

text \<open>The database is untouched unless both encodings succeed; a failing statement rolls back.\<close>

definition persist_incremental_backup_atomic ::
  "library \<Rightarrow> tracked_segment \<Rightarrow> backup_manifest \<Rightarrow> bytes \<Rightarrow> int \<Rightarrow> int \<Rightarrow> local_db \<Rightarrow> (core_error + unit) \<times> local_db" where
  "persist_incremental_backup_atomic L seg manifest backup_root cursor_seq now_ms db =
     (case bindE (build_backup_segment_ledger_row L seg backup_root now_ms) (\<lambda>row.
        bindE (encode_manifest_cbor L manifest) (\<lambda>cbor. Inr (row, cbor))) of
        Inl e \<Rightarrow> (Inl e, db)
      | Inr (row, cbor) \<Rightarrow> db_failure
          (atomic_append_segment_and_manifest row cbor (generation_i64 manifest) cursor_seq now_ms db))"

definition persist_compaction_backup_atomic ::
  "library \<Rightarrow> tracked_segment list \<Rightarrow> backup_manifest \<Rightarrow> bytes \<Rightarrow> int \<Rightarrow> local_db \<Rightarrow> (core_error + unit) \<times> local_db" where
  "persist_compaction_backup_atomic L ledger manifest backup_root now_ms db =
     (case bindE (mapE (\<lambda>seg. build_backup_segment_ledger_row L seg backup_root now_ms) ledger) (\<lambda>rows.
        bindE (encode_manifest_cbor L manifest) (\<lambda>cbor. Inr (rows, cbor))) of
        Inl e \<Rightarrow> (Inl e, db)
      | Inr (rows, cbor) \<Rightarrow> db_failure
          (atomic_replace_ledger_and_manifest rows cbor (generation_i64 manifest) now_ms db))"

subsection \<open>One incremental backup\<close>

definition backup_request ::
  "backup_core \<Rightarrow> backup_keys \<Rightarrow> uuid \<Rightarrow> built_backup_segment list \<Rightarrow> backup_manifest_build_request" where
  "backup_request c keys manifest_id segments = \<lparr>br_segments = segments, br_search_index_shards = [],
     br_media_references = [], br_tombstones = [], br_previous = bc_previous c,
     br_device_id = ky_device_id keys, br_manifest_id = Some manifest_id\<rparr>"

text \<open>Sealing: the segment of the new events and the manifest over this one segment.\<close>

definition seal_incremental ::
  "library \<Rightarrow> run_inputs \<Rightarrow> backup_core \<Rightarrow> journal_event list \<Rightarrow>
   core_error + backup_keys \<times> tracked_segment \<times> sealed_backup_manifest" where
  "seal_incremental L i c events =
     bindE (require_keys c) (\<lambda>keys.
     bindE (cryptic ''derive_backup_segment'' (lb_derive_segment L (ky_root_key keys) (uuid_bytes (ri_segment_id i)))) (\<lambda>k_segment.
     bindE (build_segment_with_id L (ri_segment_nonce i) events EventsSegment (ri_segment_id i) k_segment) (\<lambda>built.
     bindE (cryptic ''derive_backup_manifest'' (lb_derive_manifest L (ky_root_key keys) (uuid_bytes (ri_manifest_id i)))) (\<lambda>k_manifest.
     bindE (build_backup_manifest (lb_crypto L) (lb_codec L) (ri_manifest_id i) (ri_manifest_nonce i)
         (backup_request c keys (ri_manifest_id i) [built]) (ky_signing_key keys) k_manifest) (\<lambda>sealed.
     Inr (keys, \<lparr>tr_built = built, tr_tier = Daily,
            tr_min_event_ms = Min (je_created_at_ms ` set events), tr_max_event_ms = Max (je_created_at_ms ` set events),
            tr_k_segment = k_segment\<rparr>, sealed))))))"

definition upload_segment ::
  "library \<Rightarrow> backup_keys \<Rightarrow> tracked_segment \<Rightarrow> bool \<Rightarrow> backup_sink \<Rightarrow> (core_error + unit) \<times> backup_sink" where
  "upload_segment L keys seg ok sink =
     (case bindE (bundle_of_built L (tr_built seg) (tr_k_segment seg) (ky_root_key keys)) (encode_segment_bundle L) of
        Inl e \<Rightarrow> (Inl e, sink)
      | Inr raw \<Rightarrow> if ok
          then (Inr (), sink\<lparr>snk_segments := (snk_segments sink)(lb_show_uuid L (bg_segment_id (tr_built seg)) \<mapsto> raw)\<rparr>)
          else (Inl (StorageFailure ''upload_backup_segment''), sink))"

definition upload_manifest ::
  "library \<Rightarrow> backup_keys \<Rightarrow> sealed_backup_manifest \<Rightarrow> bool \<Rightarrow> backup_sink \<Rightarrow> (core_error + unit) \<times> backup_sink" where
  "upload_manifest L keys sealed ok sink =
     (case encode_manifest_bundle L (bundle_of_sealed sealed (ky_device_id keys)) of
        Inl e \<Rightarrow> (Inl e, sink)
      | Inr raw \<Rightarrow> if ok
          then (Inr (), sink\<lparr>snk_manifests := (snk_manifests sink)
                  (lb_show_uuid L (bm_manifest_id (sbm_manifest sealed)) \<mapsto> raw)\<rparr>)
          else (Inl (StorageFailure ''upload_backup_manifest''), sink))"

fun upload_all ::
  "library \<Rightarrow> backup_keys \<Rightarrow> (tracked_segment \<times> bool) list \<Rightarrow> backup_sink \<Rightarrow> (core_error + unit) \<times> backup_sink" where
  "upload_all L keys [] sink = (Inr (), sink)"
| "upload_all L keys ((seg, ok) # segs) sink =
     (case upload_segment L keys seg ok sink of
        (Inl e, sink) \<Rightarrow> (Inl e, sink) | (Inr _, sink) \<Rightarrow> upload_all L keys segs sink)"

text \<open>What both paths do at the end: nothing without a sink, else the segments and then the manifest.\<close>

definition upload_run ::
  "library \<Rightarrow> backup_keys \<Rightarrow> (tracked_segment \<times> bool) list \<Rightarrow> sealed_backup_manifest \<Rightarrow> bool \<Rightarrow> backup_core \<Rightarrow>
   (core_error + nat \<times> bool) \<times> backup_core" where
  "upload_run L keys segs sealed manifest_ok c = (case bc_sink c of
      None \<Rightarrow> (Inr (0, False), c)
    | Some sink \<Rightarrow> (case upload_all L keys segs sink of
          (Inl e, sink) \<Rightarrow> (Inl e, c\<lparr>bc_sink := Some sink\<rparr>)
        | (Inr _, sink) \<Rightarrow> (case upload_manifest L keys sealed manifest_ok sink of
              (Inl e, sink) \<Rightarrow> (Inl e, c\<lparr>bc_sink := Some sink\<rparr>)
            | (Inr _, sink) \<Rightarrow> (Inr (length segs, True), c\<lparr>bc_sink := Some sink\<rparr>))))"

definition run_incremental_backup ::
  "library \<Rightarrow> run_inputs \<Rightarrow> backup_core \<Rightarrow> (core_error + backup_result) \<times> backup_core" where
  "run_incremental_backup L i c =
     (case read_unsegmented L max_events_per_backup_segment (bc_db c) of
        Inl e \<Rightarrow> (Inl e, c)
      | Inr events_with_seq \<Rightarrow>
          if events_with_seq = [] then (Inr no_backup, c)
          else let last_seq = fst (last events_with_seq); events = map snd events_with_seq in
            (case seal_incremental L i c events of
               Inl e \<Rightarrow> (Inl e, c)
             | Inr (keys, tracked, sealed) \<Rightarrow>
                 (case persist_incremental_backup_atomic L tracked (sbm_manifest sealed) (ky_root_key keys)
                    last_seq (ri_now_ms i) (bc_db c) of
                    (Inl e, db) \<Rightarrow> (Inl e, c\<lparr>bc_db := db\<rparr>)
                  | (Inr _, db) \<Rightarrow>
                      (case upload_run L keys [(tracked, ri_segment_upload i)] sealed (ri_manifest_upload i)
                          (commit_incremental (sbm_manifest sealed) tracked (c\<lparr>bc_db := db\<rparr>)) of
                         (Inl e, c) \<Rightarrow> (Inl e, c)
                       | (Inr (uploaded, manifest_uploaded), c) \<Rightarrow>
                           (Inr \<lparr>rs_segments_built = 1, rs_segments_uploaded = uploaded,
                             rs_events_segmented = length events,
                             rs_manifest_generation = Some (bm_generation (sbm_manifest sealed)),
                             rs_manifest_uploaded = manifest_uploaded\<rparr>, c)))))"

subsection \<open>Compaction\<close>

record compaction_inputs =
  ci_now_ms :: int
  ci_segments :: "(uuid \<times> bytes \<times> bool) list"
  ci_manifest_id :: uuid
  ci_manifest_nonce :: bytes
  ci_persist_ms :: int
  ci_manifest_upload :: bool

definition segment_ref_of :: "tracked_segment \<Rightarrow> backup_segment_ref" where
  "segment_ref_of s = \<lparr>sf_segment_id = bg_segment_id (tr_built s), sf_tier = tr_tier s,
     sf_min_event_ms = tr_min_event_ms s, sf_max_event_ms = tr_max_event_ms s,
     sf_event_count = bg_event_count (tr_built s)\<rparr>"

definition find_tracked :: "tracked_segment list \<Rightarrow> backup_segment_ref \<Rightarrow> core_error + tracked_segment" where
  "find_tracked snapshot member =
     storage ''compact_backup: superseded segment missing from ledger''
       (List.find (\<lambda>s. bg_segment_id (tr_built s) = sf_segment_id member) snapshot)"

text \<open>One group: the surviving events of its members re-sealed, or nothing if none survive.\<close>

definition compact_group ::
  "library \<Rightarrow> bytes \<Rightarrow> tracked_segment list \<Rightarrow> compaction_group \<Rightarrow> uuid \<times> bytes \<Rightarrow> core_error + tracked_segment option" where
  "compact_group L backup_root snapshot g = (\<lambda>(new_id, nonce).
     bindE (mapE (\<lambda>member. bindE (find_tracked snapshot member) (\<lambda>t.
         bindE (decrypt_backup_segment L (tr_built t) (tr_k_segment t)) (\<lambda>payload. Inr (t, pl_events payload))))
       (cg_members g)) (\<lambda>opened.
     let survivors = apply_tombstones (concat (map snd opened)) in
     if survivors = [] then Inr None
     else bindE (cryptic ''derive_backup_segment'' (lb_derive_segment L backup_root (uuid_bytes new_id))) (\<lambda>k_new.
       bindE (build_segment_with_id L nonce survivors EventsSegment new_id k_new) (\<lambda>built.
       Inr (Some \<lparr>tr_built = built, tr_tier = cg_target_tier g,
         tr_min_event_ms = Min (set (map (tr_min_event_ms \<circ> fst) opened)),
         tr_max_event_ms = Max (set (map (tr_max_event_ms \<circ> fst) opened)), tr_k_segment = k_new\<rparr>)))))"

definition seal_compaction ::
  "library \<Rightarrow> compaction_inputs \<Rightarrow> backup_core \<Rightarrow> backup_keys \<Rightarrow> compaction_group list \<Rightarrow>
   core_error + tracked_segment list \<times> tracked_segment list \<times> sealed_backup_manifest" where
  "seal_compaction L i c keys plan =
     bindE (mapE (\<lambda>(g, new_id, nonce, _). compact_group L (ky_root_key keys) (bc_tracked c) g (new_id, nonce))
         (zip plan (ci_segments i))) (\<lambda>results.
     let outputs = List.map_filter id results;
         superseded = superseded_segment_ids plan;
         ledger = filter (\<lambda>s. bg_segment_id (tr_built s) \<notin> set superseded) (bc_tracked c) @ outputs
     in bindE (cryptic ''derive_backup_manifest'' (lb_derive_manifest L (ky_root_key keys) (uuid_bytes (ci_manifest_id i)))) (\<lambda>k_manifest.
        bindE (build_backup_manifest (lb_crypto L) (lb_codec L) (ci_manifest_id i) (ci_manifest_nonce i)
            (backup_request c keys (ci_manifest_id i) (map tr_built ledger)) (ky_signing_key keys) k_manifest) (\<lambda>sealed.
        Inr (outputs, ledger, sealed))))"

record compaction_result =
  cx_groups_compacted :: nat
  cx_segments_superseded :: nat
  cx_segments_emitted :: nat
  cx_bytes_before :: nat
  cx_bytes_after :: nat
  cx_manifest_generation :: "64 word option"
  cx_segments_uploaded :: nat
  cx_manifest_uploaded :: bool

definition no_compaction :: compaction_result where
  "no_compaction = \<lparr>cx_groups_compacted = 0, cx_segments_superseded = 0, cx_segments_emitted = 0,
     cx_bytes_before = 0, cx_bytes_after = 0, cx_manifest_generation = None,
     cx_segments_uploaded = 0, cx_manifest_uploaded = False\<rparr>"

definition sealed_bytes :: "tracked_segment list \<Rightarrow> nat" where
  "sealed_bytes segs = sum_list (map (length \<circ> bg_ciphertext \<circ> tr_built) segs)"

definition members_bytes :: "tracked_segment list \<Rightarrow> compaction_group list \<Rightarrow> nat" where
  "members_bytes snapshot plan = sealed_bytes (List.map_filter
     (\<lambda>member. List.find (\<lambda>s. bg_segment_id (tr_built s) = sf_segment_id member) snapshot)
     (concat (map cg_members plan)))"

text \<open>The lists of ids, nonces and upload outcomes are as long as the plan.\<close>

definition compact_backup ::
  "library \<Rightarrow> compaction_inputs \<Rightarrow> backup_core \<Rightarrow> (core_error + compaction_result) \<times> backup_core" where
  "compact_backup L i c = (case require_keys c of
      Inl e \<Rightarrow> (Inl e, c)
    | Inr keys \<Rightarrow>
        if bc_tracked c = [] then (Inr no_compaction, c)
        else let plan = plan_compaction default_compaction_policy (map segment_ref_of (bc_tracked c)) (ci_now_ms i) in
        if plan = [] then (Inr no_compaction, c)
        else (case seal_compaction L i c keys plan of
            Inl e \<Rightarrow> (Inl e, c)
          | Inr (outputs, ledger, sealed) \<Rightarrow>
              (case persist_compaction_backup_atomic L ledger (sbm_manifest sealed) (ky_root_key keys)
                  (ci_persist_ms i) (bc_db c) of
                 (Inl e, db) \<Rightarrow> (Inl e, c\<lparr>bc_db := db\<rparr>)
               | (Inr _, db) \<Rightarrow>
                   (case upload_run L keys (zip outputs (map (snd \<circ> snd) (ci_segments i))) sealed (ci_manifest_upload i)
                       (commit_compaction (sbm_manifest sealed) ledger (c\<lparr>bc_db := db\<rparr>)) of
                      (Inl e, c) \<Rightarrow> (Inl e, c)
                    | (Inr (uploaded, manifest_uploaded), c') \<Rightarrow>
                        (Inr \<lparr>cx_groups_compacted = length plan,
                          cx_segments_superseded = sum_list (map (length \<circ> cg_members) plan),
                          cx_segments_emitted = length outputs,
                          cx_bytes_before = members_bytes (bc_tracked c) plan, cx_bytes_after = sealed_bytes outputs,
                          cx_manifest_generation = Some (bm_generation (sbm_manifest sealed)),
                          cx_segments_uploaded = uploaded, cx_manifest_uploaded = manifest_uploaded\<rparr>, c')))))"

end
