(* ===== verification/Restore_Pipeline.thy ===== *)
theory Restore_Pipeline
  imports Backup_Run
begin

text \<open>
  Restoring from a backup: the skeleton-first pipeline (\<open>restore/pipeline.rs\<close>) and its driver
  \<open>restore_from_backup_inner\<close> (\<open>core_impl.rs\<close>), over the persisted restore state of \<open>State_Machines\<close>.  A step
  that fails leaves the state its predecessors recorded.  Fresh ids, nonces and the shim key of the
  re-sealing are arguments.
\<close>

subsection \<open>Effects on the restore state\<close>

definition thenR :: "('e + 'a) \<times> 's \<Rightarrow> ('a \<Rightarrow> 's \<Rightarrow> ('e + 'b) \<times> 's) \<Rightarrow> ('e + 'b) \<times> 's" where
  "thenR m f = (case m of (Inl e, s) \<Rightarrow> (Inl e, s) | (Inr x, s) \<Rightarrow> f x s)"

lemma thenR_simps [simp]: "thenR (Inl e, s) f = (Inl e, s)" "thenR (Inr x, s) f = f x s"
  by (simp_all add: thenR_def)

definition enter :: "restore_state \<Rightarrow> restore_row \<Rightarrow> (core_error + restore_state) \<times> restore_row" where
  "enter to row = (case transition_row row to None of
      Inl e \<Rightarrow> (Inl (StorageFailure ''restore state''), row) | Inr (st, row') \<Rightarrow> (Inr st, row'))"

subsection \<open>The pipeline\<close>

record skeleton_row =
  skr_conversation_id :: uuid
  skr_message_id :: uuid
  skr_created_at_ms :: int
  skr_body_state :: body_state

record restored_body =
  rb_message_id :: uuid
  rb_payload :: bytes

record restore_summary =
  rsu_conversations :: "uuid list"
  rsu_skeletons :: "skeleton_row list"
  rsu_recent_bodies :: "restored_body list"
  rsu_final_state :: "restore_state option"

definition restore_conversation_list :: "journal_event list \<Rightarrow> uuid list" where
  "restore_conversation_list events = sort (remdups (List.map_filter je_conversation_id events))"

definition skeleton_of :: "journal_event \<Rightarrow> skeleton_row option" where
  "skeleton_of e =
     (if je_event_type e = BMessageReceived then
        (case (je_conversation_id e, je_message_id e) of
           (Some c, Some m) \<Rightarrow> Some \<lparr>skr_conversation_id = c, skr_message_id = m,
              skr_created_at_ms = je_created_at_ms e, skr_body_state = RemoteArchiveOnly\<rparr>
         | _ \<Rightarrow> None)
      else None)"

definition restore_timeline_skeletons :: "journal_event list \<Rightarrow> skeleton_row list" where
  "restore_timeline_skeletons events = List.map_filter skeleton_of events"

definition clamp_i64 :: "int \<Rightarrow> int" where
  "clamp_i64 x = max (- (2 ^ 63)) (min (2 ^ 63 - 1) x)"

text \<open>The inner loop: the first skeleton of the message; \<open>None\<close> when there is none.\<close>

fun hydrate_first :: "uuid \<Rightarrow> skeleton_row list \<Rightarrow> skeleton_row list option" where
  "hydrate_first mid [] = None"
| "hydrate_first mid (s # ss) =
     (if skr_message_id s = mid then Some (s\<lparr>skr_body_state := LocalPlainAvailable\<rparr> # ss)
      else map_option ((#) s) (hydrate_first mid ss))"

definition hydrate_event ::
  "int \<Rightarrow> journal_event \<Rightarrow> skeleton_row list \<times> restored_body list \<Rightarrow> skeleton_row list \<times> restored_body list" where
  "hydrate_event cutoff e = (\<lambda>(skeletons, hydrated).
     if je_event_type e \<noteq> BMessageReceived \<or> je_created_at_ms e < cutoff then (skeletons, hydrated)
     else (case je_message_id e of
         None \<Rightarrow> (skeletons, hydrated)
       | Some mid \<Rightarrow> (case hydrate_first mid skeletons of
             None \<Rightarrow> (skeletons, hydrated)
           | Some ss \<Rightarrow> (ss, hydrated @ [\<lparr>rb_message_id = mid, rb_payload = je_payload e\<rparr>]))))"

definition restore_recent_bodies ::
  "journal_event list \<Rightarrow> skeleton_row list \<Rightarrow> int \<Rightarrow> int \<Rightarrow> skeleton_row list \<times> restored_body list" where
  "restore_recent_bodies events skeletons now_ms recency_window_ms =
     fold (hydrate_event (clamp_i64 (now_ms - recency_window_ms))) events (skeletons, [])"

definition run_pipeline ::
  "library \<Rightarrow> built_backup_segment list \<Rightarrow> bytes \<Rightarrow> int \<Rightarrow> int \<Rightarrow> restore_row \<Rightarrow>
   (core_error + restore_summary) \<times> restore_row" where
  "run_pipeline L sealed_segments k_backup_segment now_ms recency_window_ms row =
     thenR (mapE (\<lambda>seg. decrypt_backup_segment L seg k_backup_segment) sealed_segments, row) (\<lambda>payloads row.
     let events = sort_key je_created_at_ms (concat (map pl_events payloads));
         conversations = restore_conversation_list events;
         skeletons = restore_timeline_skeletons events
     in thenR (enter SkeletonRestored row) (\<lambda>_ row.
        thenR (enter SearchRestored row) (\<lambda>_ row.
        case restore_recent_bodies events skeletons now_ms recency_window_ms of (skeletons, recent_bodies) \<Rightarrow>
        thenR (enter RecentMessagesRestored row) (\<lambda>_ row.
        thenR (enter MediaLazyRestoreEnabled row) (\<lambda>_ row.
        thenR (enter FullRestoreComplete row) (\<lambda>final_state row.
        (Inr \<lparr>rsu_conversations = conversations, rsu_skeletons = skeletons, rsu_recent_bodies = recent_bodies,
           rsu_final_state = Some final_state\<rparr>, row)))))))"

subsection \<open>The driver\<close>

record backup_source =
  src_manifest_id :: uuid
  src_device_id :: bytes
  src_recency_window_ms :: int
  src_now_ms :: int

record restore_inputs =
  rin_shim_key :: bytes
  rin_fresh :: "nat \<Rightarrow> uuid \<times> bytes"

record restore_result =
  rr_manifest_id :: "uuid option"
  rr_manifest_generation :: "64 word"
  rr_segments_restored :: nat
  rr_conversations_restored :: nat
  rr_skeletons_restored :: nat
  rr_recent_bodies_restored :: nat
  rr_final_state :: "restore_state option"

definition validate_source :: "backup_source \<Rightarrow> core_error + unit" where
  "validate_source s =
     (if src_manifest_id s = 0 then Inl (StorageFailure ''restore_from_backup: BackupSource.manifest_id is nil'')
      else if src_device_id s = [] then Inl (StorageFailure ''restore_from_backup: BackupSource.device_id is empty'')
      else if src_recency_window_ms s < 0
      then Inl (StorageFailure ''restore_from_backup: BackupSource.recency_window_ms is negative'')
      else if src_now_ms s \<le> 0
      then Inl (StorageFailure ''restore_from_backup: BackupSource.now_ms must be a positive ms epoch'')
      else Inr ())"

text \<open>Fetching the head manifest and checking it in every way the driver does.\<close>

definition fetch_head_manifest ::
  "library \<Rightarrow> backup_keys \<Rightarrow> backup_sink \<Rightarrow> backup_source \<Rightarrow> core_error + backup_manifest" where
  "fetch_head_manifest L keys sink s =
     bindE (storage ''fetch_backup_manifest'' (snk_manifests sink (lb_show_uuid L (src_manifest_id s)))) (\<lambda>raw.
     bindE (decode_manifest_bundle L raw) (\<lambda>bundle.
     let m = mb_manifest bundle in
     if bm_manifest_id m \<noteq> src_manifest_id s
     then Inl (StorageFailure ''restore_from_backup: manifest id mismatch'')
     else if mb_device_id bundle \<noteq> src_device_id s
     then Inl (StorageFailure ''restore_from_backup: device id mismatch'')
     else
       bindE (map_sum CryptoFailure id (verify_signatures (lb_crypto L) (backup_ops (lb_codec L))
           (verifying_key (lb_crypto L) (ky_signing_key keys)) m)) (\<lambda>_.
       bindE (cryptic ''derive_backup_manifest'' (lb_derive_manifest L (ky_root_key keys) (uuid_bytes (src_manifest_id s)))) (\<lambda>k_manifest.
       bindE (aead_open (lb_crypto L) k_manifest (mb_nonce bundle) (mb_ciphertext bundle)
           (build_manifest_aad (bm_manifest_id m) (bm_generation m) (bm_merkle_root m) (src_device_id s))) (\<lambda>_.
       Inr m)))))"

text \<open>One referenced segment: fetched, checked against the reference, opened and sealed again under the shim
  key.\<close>

definition restore_segment ::
  "library \<Rightarrow> backup_keys \<Rightarrow> backup_sink \<Rightarrow> bytes \<Rightarrow> manifest_segment_ref \<Rightarrow> uuid \<times> bytes \<Rightarrow>
   core_error + built_backup_segment" where
  "restore_segment L keys sink shim_key r = (\<lambda>(fresh_id, nonce).
     bindE (storage ''fetch_backup_segment'' (snk_segments sink (lb_show_uuid L (sgr_segment_id r)))) (\<lambda>raw.
     bindE (decode_segment_bundle L raw) (\<lambda>b.
     if gb_segment_id b \<noteq> sgr_segment_id r then Inl (StorageFailure ''restore: segment id mismatch'')
     else if gb_segment_type b \<noteq> sgr_segment_type r then Inl (StorageFailure ''restore: segment type disagrees'')
     else if cr_sha256 (lb_crypto L) (gb_ciphertext b) \<noteq> sgr_ciphertext_sha256 r
     then Inl (StorageFailure ''restore: ciphertext SHA-256 mismatch'')
     else
       bindE (unwrap_segment_key L b (ky_root_key keys)) (\<lambda>k_segment.
       bindE (cryptic ''derive_backup_segment'' (lb_derive_segment L (ky_root_key keys) (uuid_bytes (sgr_segment_id r)))) (\<lambda>expected_k.
       if expected_k \<noteq> k_segment then Inl (StorageFailure ''restore: wrapped-key disagrees'')
       else
         bindE (decrypt_backup_segment L (to_built b) k_segment) (\<lambda>payload.
         build_segment_with_id L nonce (pl_events payload) (gb_segment_type b) fresh_id shim_key))))))"

text \<open>Everything up to the summary, which the caller turns into counts.\<close>

definition restore_summary_from_backup ::
  "library \<Rightarrow> restore_inputs \<Rightarrow> backup_source \<Rightarrow> backup_core \<Rightarrow> restore_row \<Rightarrow>
   (core_error + backup_manifest \<times> nat \<times> restore_summary) \<times> restore_row" where
  "restore_summary_from_backup L i s c row =
     thenR (validate_source s, row) (\<lambda>_ row.
     thenR (require_keys c, row) (\<lambda>keys row.
     thenR (storage ''backup_sink'' (bc_sink c), row) (\<lambda>sink row.
     thenR (enter IdentityRestored (reset_row row)) (\<lambda>_ row.
     thenR (enter RootKeysUnwrapped row) (\<lambda>_ row.
     thenR (fetch_head_manifest L keys sink s, row) (\<lambda>manifest row.
     thenR (enter ManifestVerified row) (\<lambda>_ row.
     thenR (mapE (\<lambda>(r, k). restore_segment L keys sink (rin_shim_key i) r (rin_fresh i k))
         (zip (bm_segments manifest) [0..<length (bm_segments manifest)]), row) (\<lambda>segments row.
     thenR (run_pipeline L segments (rin_shim_key i) (src_now_ms s) (src_recency_window_ms s) row) (\<lambda>summary row.
     (Inr (manifest, length segments, summary), row))))))))))"

definition count_u32 :: "nat \<Rightarrow> nat" where "count_u32 n = min n (2 ^ 32 - 1)"

definition restore_from_backup ::
  "library \<Rightarrow> restore_inputs \<Rightarrow> backup_source \<Rightarrow> backup_core \<Rightarrow> restore_row \<Rightarrow>
   (core_error + restore_result) \<times> restore_row" where
  "restore_from_backup L i s c row =
     thenR (restore_summary_from_backup L i s c row) (\<lambda>(manifest, n, summary) row.
     (Inr \<lparr>rr_manifest_id = Some (bm_manifest_id manifest), rr_manifest_generation = bm_generation manifest,
        rr_segments_restored = count_u32 n, rr_conversations_restored = count_u32 (length (rsu_conversations summary)),
        rr_skeletons_restored = count_u32 (length (rsu_skeletons summary)),
        rr_recent_bodies_restored = count_u32 (length (rsu_recent_bodies summary)),
        rr_final_state = rsu_final_state summary\<rparr>, row))"

end
