(* ===== verification/Backup_Facts.thy ===== *)
theory Backup_Facts
  imports Restore_Pipeline
begin

text \<open>
  What holds of the cloud backup under every history of journal writes, backup runs and compactions: each
  typed event is sealed exactly once, the manifest tail is the head of an accepted chain; and when the
  drain of the journal stops for good.
\<close>

subsection \<open>Reading the journal\<close>

definition row_event :: "library \<Rightarrow> backup_event \<Rightarrow> (int \<times> journal_event) option" where
  "row_event L r = (case read_row L r of Inl _ \<Rightarrow> None | Inr x \<Rightarrow> x)"

lemma row_event_seq: "row_event L r = Some (n, e) \<Longrightarrow> n = be_event_seq r"
  by (auto simp: row_event_def read_row_def err_simps split: sum.splits)

lemma map_filter_append: "List.map_filter f (xs @ ys) = List.map_filter f xs @ List.map_filter f ys"
  by (simp add: List.map_filter_def)

lemma map_filter_Nil_iff: "List.map_filter f xs = [] \<longleftrightarrow> (\<forall>x \<in> set xs. f x = None)"
  by (induction xs) (auto simp: map_filter_simps split: option.splits)

lemma mapE_read_rows:
  "mapE (read_row L) rows = Inr rs \<Longrightarrow> List.map_filter id rs = List.map_filter (row_event L) rows"
  by (induction rows arbitrary: rs) (auto simp: err_simps row_event_def map_filter_simps split: option.splits)

lemma read_events_rows:
  assumes "read_events_since L after_seq limit db = Inr es"
  shows "es = List.map_filter (row_event L) (rows_since after_seq limit db)"
  using assms mapE_read_rows by (fastforce simp: read_events_since_def err_simps)

lemma map_filter_split_last:
  "List.map_filter f xs \<noteq> [] \<Longrightarrow>
   \<exists>as x bs. xs = as @ x # bs \<and> f x = Some (last (List.map_filter f xs)) \<and>
     List.map_filter f (as @ [x]) = List.map_filter f xs"
proof (induction xs rule: rev_induct)
  case (snoc y xs)
  show ?case
  proof (cases "f y")
    case None
    then have eq: "List.map_filter f (xs @ [y]) = List.map_filter f xs"
      by (simp add: map_filter_append map_filter_simps)
    then obtain as x bs where "xs = as @ x # bs" "f x = Some (last (List.map_filter f xs))"
        "List.map_filter f (as @ [x]) = List.map_filter f xs"
      using snoc by auto
    then show ?thesis unfolding eq by (intro exI[of _ as] exI[of _ x] exI[of _ "bs @ [y]"]) simp
  next
    case (Some z)
    then show ?thesis
      by (intro exI[of _ xs] exI[of _ y] exI[of _ "[]"]) (simp add: map_filter_append map_filter_simps)
  qed
qed (simp add: map_filter_simps)

text \<open>The journal is in order of its sequence numbers, which start at 1.\<close>

definition journal_in_order :: "local_db \<Rightarrow> bool" where
  "journal_in_order db \<longleftrightarrow> sorted_wrt (<) (map be_event_seq (db_events db)) \<and>
     (\<forall>r \<in> set (db_events db). 0 < be_event_seq r \<and> be_event_seq r \<le> db_event_seq db) \<and> 0 \<le> db_event_seq db"

lemma sort_key_sorted:
  fixes f :: "'a \<Rightarrow> int"
  shows "sorted_wrt (<) (map f xs) \<Longrightarrow> sort_key f xs = xs"
  by (simp add: sort_key_id_if_sorted strict_sorted_imp_sorted)

lemma sorted_filter_key:
  fixes f :: "'a \<Rightarrow> int"
  shows "sorted_wrt (<) (map f xs) \<Longrightarrow> sorted_wrt (<) (map f (filter P xs))"
  by (simp add: sorted_wrt_map sorted_wrt_filter)

lemma rows_in_order:
  assumes "journal_in_order db"
  shows "rows_since a n db = take n (filter (\<lambda>r. be_event_seq r > a) (db_events db))"
  using sort_key_sorted[OF sorted_filter_key, of be_event_seq "db_events db" "\<lambda>r. be_event_seq r > a"] assms
  by (simp add: rows_since_def journal_in_order_def)

lemma filter_up_to:
  fixes f :: "'a \<Rightarrow> int"
  assumes "sorted_wrt (<) (map f (as @ x # bs))"
  shows "filter (\<lambda>r. f r \<le> f x) (as @ x # bs) = as @ [x]"
proof -
  have "\<forall>a \<in> set as. f a < f x" "\<forall>b \<in> set bs. f x < f b"
    using assms by (auto simp: sorted_wrt_append)
  then have "filter (\<lambda>r. f r \<le> f x) as = as" "filter (\<lambda>r. f r \<le> f x) bs = []"
    by (auto simp: filter_id_conv filter_empty_conv)
  then show ?thesis by simp
qed

lemma filter_between:
  fixes f :: "'a \<Rightarrow> int"
  assumes "sorted_wrt (<) (map f xs)" "c \<le> d"
  shows "filter (\<lambda>r. f r \<le> d) xs = filter (\<lambda>r. f r \<le> c) xs @ filter (\<lambda>r. f r \<le> d) (filter (\<lambda>r. f r > c) xs)"
  using assms(1)
proof (induction xs)
  case (Cons x xs)
  then show ?case
  proof (cases "f x \<le> c")
    case False
    then have "filter (\<lambda>r. f r \<le> c) xs = []" "filter (\<lambda>r. f r > c) xs = xs"
      using Cons.prems by (auto simp: filter_empty_conv filter_id_conv)
    then show ?thesis using False by simp
  qed (use assms(2) in auto)
qed simp

text \<open>One window of the drain: the events read are exactly the typed ones between the old cursor and the
  last of them.\<close>

lemma window_events:
  assumes "journal_in_order db" "read_events_since L c n db = Inr es" "es \<noteq> []"
  shows "List.map_filter (row_event L) (filter (\<lambda>r. be_event_seq r \<le> fst (last es)) (db_events db)) =
     List.map_filter (row_event L) (filter (\<lambda>r. be_event_seq r \<le> c) (db_events db)) @ es \<and> c < fst (last es)"
proof -
  let ?later = "filter (\<lambda>r. be_event_seq r > c) (db_events db)"
  have sorted: "sorted_wrt (<) (map be_event_seq (db_events db))" using assms(1) by (simp add: journal_in_order_def)
  have es: "es = List.map_filter (row_event L) (take n ?later)"
    using read_events_rows[OF assms(2)] rows_in_order[OF assms(1)] by simp
  obtain as r bs where split: "take n ?later = as @ r # bs" and r: "row_event L r = Some (last es)"
    and upto: "List.map_filter (row_event L) (as @ [r]) = es"
    using map_filter_split_last[of "row_event L" "take n ?later"] assms(3) es by auto
  have later: "?later = as @ r # (bs @ drop n ?later)"
    using append_take_drop_id[of n ?later] unfolding split by simp
  have seq: "fst (last es) = be_event_seq r" using row_event_seq[of L r "fst (last es)" "snd (last es)"] r by simp
  have "filter (\<lambda>r'. be_event_seq r' \<le> be_event_seq r) ?later = as @ [r]"
    by (subst later, rule filter_up_to) (use sorted_filter_key[OF sorted, of "\<lambda>r. be_event_seq r > c"] later in simp)
  moreover have "r \<in> set ?later" by (subst later) simp
  then have less: "c < be_event_seq r" by simp
  ultimately have "filter (\<lambda>r'. be_event_seq r' \<le> be_event_seq r) (db_events db) =
      filter (\<lambda>r. be_event_seq r \<le> c) (db_events db) @ as @ [r]"
    using filter_between[OF sorted, of c "be_event_seq r"] less by (simp del: append_assoc)
  then show ?thesis unfolding seq using less by (simp only: map_filter_append upto[unfolded map_filter_append] simp_thms)
qed

subsection \<open>What a run changes\<close>

lemma upload_run_keeps:
  assumes "upload_run L keys segs sealed ok c = (r, c')"
  shows "bc_db c' = bc_db c \<and> bc_keys c' = bc_keys c \<and> bc_previous c' = bc_previous c \<and> bc_tracked c' = bc_tracked c"
  using assms by (auto simp: upload_run_def split: option.splits sum.splits prod.splits)

lemma persist_incremental_Inl:
  "persist_incremental_backup_atomic L seg m root cur now db = (Inl e, db') \<Longrightarrow> db' = db"
  by (auto simp: persist_incremental_backup_atomic_def db_failure_def atomic_append_segment_and_manifest_def
      savepoint_def split: sum.splits prod.splits)

lemma persist_incremental_Inr:
  assumes "persist_incremental_backup_atomic L seg m root cur now db = (Inr u, db')"
  shows "\<exists>row cbor. build_backup_segment_ledger_row L seg root now = Inr row \<and> encode_manifest_cbor L m = Inr cbor \<and>
     read_cursor db \<le> cur \<and> lg_segment_id row \<notin> lg_segment_id ` set (db_ledger db) \<and>
     db' = db\<lparr>db_cursor := Some cur, db_ledger := db_ledger db @ [row], db_manifest := Some (generation_i64 m, cbor, now)\<rparr>"
proof -
  obtain row cbor where b: "build_backup_segment_ledger_row L seg root now = Inr row" "encode_manifest_cbor L m = Inr cbor"
    and a: "db_failure (atomic_append_segment_and_manifest row cbor (generation_i64 m) cur now db) = (Inr u, db')"
    using assms by (auto simp: persist_incremental_backup_atomic_def bindE_Inl_iff err_simps split: sum.splits)
  then have "atomic_append_segment_and_manifest row cbor (generation_i64 m) cur now db = (Inr (), db')"
    by (cases "atomic_append_segment_and_manifest row cbor (generation_i64 m) cur now db")
      (auto simp: db_failure_def map_sum_Inr_iff)
  then show ?thesis using b
    by (auto simp: atomic_append_segment_and_manifest_def savepoint_Inr Let_def bindE_Inr_iff insert_ledger_row_def
        save_backup_manifest_def read_cursor_def split: if_splits)
qed

lemma run_effect:
  assumes "run_incremental_backup L i c = (r, c')"
  shows "(bc_db c' = bc_db c \<and> bc_previous c' = bc_previous c \<and> bc_tracked c' = bc_tracked c \<or>
     (\<exists>es keys seg sealed. read_unsegmented L max_events_per_backup_segment (bc_db c) = Inr es \<and> es \<noteq> [] \<and>
        seal_incremental L i c (map snd es) = Inr (keys, seg, sealed) \<and>
        persist_incremental_backup_atomic L seg (sbm_manifest sealed) (ky_root_key keys)
          (fst (last es)) (ri_now_ms i) (bc_db c) = (Inr (), bc_db c') \<and>
        bc_previous c' = Some (sbm_manifest sealed) \<and> bc_tracked c' = bc_tracked c @ [seg])) \<and>
     bc_keys c' = bc_keys c"
proof (cases "read_unsegmented L max_events_per_backup_segment (bc_db c)")
  case (Inl e)
  then show ?thesis using assms by (simp add: run_incremental_backup_def)
next
  case read: (Inr es)
  show ?thesis
  proof (cases "es = [] \<or> (\<exists>e. seal_incremental L i c (map snd es) = Inl e)")
    case True
    then show ?thesis using assms read by (auto simp: run_incremental_backup_def Let_def split: if_splits)
  next
    case False
    then obtain keys seg sealed where seal: "seal_incremental L i c (map snd es) = Inr (keys, seg, sealed)" and ne: "es \<noteq> []"
      by (metis sum.exhaust prod_cases3)
    obtain r1 db' where persist: "persist_incremental_backup_atomic L seg (sbm_manifest sealed) (ky_root_key keys)
        (fst (last es)) (ri_now_ms i) (bc_db c) = (r1, db')" by fastforce
    obtain r2 c2 where upload: "upload_run L keys [(seg, ri_segment_upload i)] sealed (ri_manifest_upload i)
        (commit_incremental (sbm_manifest sealed) seg (c\<lparr>bc_db := db'\<rparr>)) = (r2, c2)" by fastforce
    show ?thesis
    proof (cases r1)
      case (Inl e)
      then show ?thesis
        using assms read ne seal persist persist_incremental_Inl[OF persist[unfolded Inl]]
        by (simp add: run_incremental_backup_def)
    next
      case (Inr u)
      then have "c' = c2" using assms read ne seal persist upload
        by (cases r2) (auto simp: run_incremental_backup_def)
      then show ?thesis
        using upload_run_keeps[OF upload] read ne seal persist Inr by (auto simp: commit_incremental_def)
    qed
  qed
qed

end
