(* ===== verification/Backup_Histories.thy ===== *)
theory Backup_Histories
  imports Backup_Facts "HOL-Library.Sublist"
begin

text \<open>
  Histories of the cloud backup: journal writes, incremental runs, compactions and restarts of the process,
  in any order and with any outcome.
\<close>

subsection \<open>Steps\<close>

datatype backup_op =
    Journal backup_event
  | RunBackup run_inputs
  | CompactBackup compaction_inputs
  | Restart

fun backup_step :: "library \<Rightarrow> backup_keys \<Rightarrow> backup_op \<Rightarrow> backup_core \<Rightarrow> backup_core" where
  "backup_step L keys (Journal r) c =
     c\<lparr>bc_db := or_keep (bc_db c) (insert_backup_event (r\<lparr>be_event_seq := 0\<rparr>) (bc_db c))\<rparr>"
| "backup_step L keys (RunBackup i) c = snd (run_incremental_backup L i c)"
| "backup_step L keys (CompactBackup i) c = snd (compact_backup L i c)"
| "backup_step L keys Restart c = (case open_backup L keys (bc_sink c) (bc_db c) of Inl _ \<Rightarrow> c | Inr c' \<Rightarrow> c')"

definition new_backup :: "backup_keys \<Rightarrow> backup_sink option \<Rightarrow> backup_core" where
  "new_backup keys sink = \<lparr>bc_db = empty_db, bc_keys = Some keys, bc_previous = None, bc_tracked = [], bc_sink = sink\<rparr>"

abbreviation backup_after :: "library \<Rightarrow> backup_keys \<Rightarrow> backup_sink option \<Rightarrow> backup_op list \<Rightarrow> backup_core" where
  "backup_after L keys sink ops \<equiv> fold (backup_step L keys) ops (new_backup keys sink)"

lemma backup_after_induct [case_names new step]:
  assumes "P (new_backup keys sink)"
    and "\<And>op c. op \<in> set ops \<Longrightarrow> P c \<Longrightarrow> P (backup_step L keys op c)"
  shows "P (backup_after L keys sink ops)"
  using assms(2) by (induction ops rule: rev_induct) (auto simp: assms(1))

subsection \<open>What compaction changes\<close>

lemma persist_compaction_Inl:
  "persist_compaction_backup_atomic L ledger m root now db = (Inl e, db') \<Longrightarrow> db' = db"
  by (auto simp: persist_compaction_backup_atomic_def db_failure_def atomic_replace_ledger_and_manifest_def
      savepoint_def split: sum.splits prod.splits)

lemma insert_ledger_rows:
  "foldE insert_ledger_row rows db = Inr db' \<Longrightarrow> db' = db\<lparr>db_ledger := db_ledger db @ rows\<rparr>"
proof (induction rows arbitrary: db)
  case (Cons r rows)
  then obtain d where "insert_ledger_row r db = Inr d" "foldE insert_ledger_row rows d = Inr db'"
    by (auto simp: bindE_Inr_iff)
  moreover from this have "d = db\<lparr>db_ledger := db_ledger db @ [r]\<rparr>" by (simp add: insert_ledger_row_def split: if_splits)
  ultimately show ?case using Cons.IH[of d] by simp
qed simp

lemma persist_compaction_Inr:
  assumes "persist_compaction_backup_atomic L ledger m root now db = (Inr u, db')"
  shows "\<exists>rows cbor. mapE (\<lambda>seg. build_backup_segment_ledger_row L seg root now) ledger = Inr rows \<and>
     encode_manifest_cbor L m = Inr cbor \<and>
     db' = db\<lparr>db_ledger := rows, db_manifest := Some (generation_i64 m, cbor, now)\<rparr>"
proof -
  obtain rows cbor where b: "mapE (\<lambda>seg. build_backup_segment_ledger_row L seg root now) ledger = Inr rows"
      "encode_manifest_cbor L m = Inr cbor"
    and a: "db_failure (atomic_replace_ledger_and_manifest rows cbor (generation_i64 m) now db) = (Inr u, db')"
    using assms by (auto simp: persist_compaction_backup_atomic_def bindE_Inl_iff err_simps split: sum.splits)
  then have "atomic_replace_ledger_and_manifest rows cbor (generation_i64 m) now db = (Inr (), db')"
    by (cases "atomic_replace_ledger_and_manifest rows cbor (generation_i64 m) now db")
      (auto simp: db_failure_def map_sum_Inr_iff)
  then show ?thesis using b insert_ledger_rows[of rows "db\<lparr>db_ledger := []\<rparr>"]
    by (auto simp: atomic_replace_ledger_and_manifest_def savepoint_Inr bindE_Inr_iff save_backup_manifest_def)
qed

lemma compact_effect:
  assumes "compact_backup L i c = (r, c')"
  shows "(bc_db c' = bc_db c \<and> bc_previous c' = bc_previous c \<and> bc_tracked c' = bc_tracked c \<or>
     (\<exists>keys plan outputs ledger sealed. bc_keys c = Some keys \<and>
        seal_compaction L i c keys plan = Inr (outputs, ledger, sealed) \<and>
        persist_compaction_backup_atomic L ledger (sbm_manifest sealed) (ky_root_key keys)
          (ci_persist_ms i) (bc_db c) = (Inr (), bc_db c') \<and>
        bc_previous c' = Some (sbm_manifest sealed) \<and> bc_tracked c' = ledger)) \<and>
     bc_keys c' = bc_keys c"
proof (cases "bc_keys c")
  case None
  then show ?thesis using assms by (simp add: compact_backup_def require_keys_def)
next
  case keys: (Some keys)
  let ?plan = "plan_compaction default_compaction_policy (map segment_ref_of (bc_tracked c)) (ci_now_ms i)"
  show ?thesis
  proof (cases "bc_tracked c = [] \<or> ?plan = [] \<or> (\<exists>e. seal_compaction L i c keys ?plan = Inl e)")
    case True
    then show ?thesis using assms keys
      by (auto simp: compact_backup_def require_keys_def Let_def split: if_splits)
  next
    case False
    then obtain outputs ledger sealed where seal: "seal_compaction L i c keys ?plan = Inr (outputs, ledger, sealed)"
      by (metis sum.exhaust prod_cases3)
    obtain r1 db' where persist: "persist_compaction_backup_atomic L ledger (sbm_manifest sealed) (ky_root_key keys)
          (ci_persist_ms i) (bc_db c) = (r1, db')" by fastforce
    obtain r2 c2 where upload: "upload_run L keys (zip outputs (map (snd \<circ> snd) (ci_segments i))) sealed
        (ci_manifest_upload i) (commit_compaction (sbm_manifest sealed) ledger (c\<lparr>bc_db := db'\<rparr>)) = (r2, c2)"
      by fastforce
    show ?thesis
    proof (cases r1)
      case (Inl e)
      then show ?thesis using assms keys False seal persist persist_compaction_Inl[OF persist[unfolded Inl]]
        by (simp add: compact_backup_def require_keys_def)
    next
      case (Inr u)
      then have "c' = c2" using assms keys False seal persist upload
        by (cases r2) (auto simp: compact_backup_def require_keys_def Let_def)
      then show ?thesis
        using upload_run_keeps[OF upload] keys seal persist Inr by (auto simp: commit_compaction_def)
    qed
  qed
qed

subsection \<open>The ledger on disk and in memory\<close>

text \<open>The length of a nonce and of a hash is part of its type in the code.\<close>

definition hashes_sized :: "library \<Rightarrow> bool" where
  "hashes_sized L \<longleftrightarrow> (\<forall>b. length (cr_blake3 (lb_crypto L) b) = 32)"

definition sized :: "tracked_segment \<Rightarrow> bool" where
  "sized t \<longleftrightarrow> length (bg_nonce (tr_built t)) = 24 \<and> length (bg_merkle_root (tr_built t)) = 32"

fun nonces_sized :: "backup_op \<Rightarrow> bool" where
  "nonces_sized (RunBackup i) = (length (ri_segment_nonce i) = 24)"
| "nonces_sized (CompactBackup i) = list_all (\<lambda>(_, nonce, _). length nonce = 24) (ci_segments i)"
| "nonces_sized _ = True"

lemma parse_tier_str [simp]: "parse_tier (tier_str t) = Inr t"
  by (cases t) (simp_all add: parse_tier_def)

lemma materialise_built_row:
  assumes "library_sound L" "build_backup_segment_ledger_row L seg root now = Inr row" "sized seg"
  shows "materialise_row L root row = Inr seg"
proof -
  have "lb_unwrap_key L (lg_wrapped_k_segment row) root = Some (tr_k_segment seg)"
    using assms(2) by (intro library_soundD(7)[OF assms(1)])
      (auto simp: build_backup_segment_ledger_row_def err_simps split: if_splits)
  then show ?thesis
    using assms(2,3) library_soundD(2)[OF assms(1)]
    by (auto simp: materialise_row_def build_backup_segment_ledger_row_def err_simps sized_def split: if_splits)
qed

lemma materialise_built_rows:
  assumes "library_sound L" "mapE (\<lambda>seg. build_backup_segment_ledger_row L seg root now) segs = Inr rows"
    "\<forall>t \<in> set segs. sized t"
  shows "mapE (materialise_row L root) rows = Inr segs"
  using assms(2,3) by (induction segs arbitrary: rows) (auto simp: err_simps materialise_built_row[OF assms(1)])

lemma mapE_permuted:
  assumes "mapE f xs = Inr us" "mset ys = mset xs"
  shows "\<exists>vs. mapE f ys = Inr vs \<and> mset vs = mset us"
  using list_all2_reorder_left_invariance[of "\<lambda>x y. f x = Inr y" xs us ys] assms by (simp add: mapE_Inr_iff)

lemma mapE_source: "mapE f xs = Inr ys \<Longrightarrow> y \<in> set ys \<Longrightarrow> \<exists>x \<in> set xs. f x = Inr y"
  by (induction xs arbitrary: ys) (auto simp: err_simps)

lemma mapE_append_Inr: "mapE f xs = Inr us \<Longrightarrow> mapE f ys = Inr vs \<Longrightarrow> mapE f (xs @ ys) = Inr (us @ vs)"
  by (simp add: mapE_Inr_iff list_all2_appendI)

definition disk_matches :: "library \<Rightarrow> bytes \<Rightarrow> backup_core \<Rightarrow> bool" where
  "disk_matches L root c \<longleftrightarrow>
     (\<exists>ts. mapE (materialise_row L root) (db_ledger (bc_db c)) = Inr ts \<and> mset ts = mset (bc_tracked c)) \<and>
     (\<forall>t \<in> set (bc_tracked c). sized t) \<and>
     load_backup_manifest (bc_db c) = Option.bind (bc_previous c) (cd_backup (lb_codec L)) \<and>
     (bc_previous c = None \<longleftrightarrow> load_backup_manifest (bc_db c) = None)"

lemma sealed_incremental:
  assumes "seal_incremental L i c events = Inr (keys, seg, sealed)"
  shows "bc_keys c = Some keys \<and> tr_tier seg = Daily \<and>
     build_segment_with_id L (ri_segment_nonce i) events EventsSegment (ri_segment_id i) (tr_k_segment seg) = Inr (tr_built seg) \<and>
     (\<exists>k. build_backup_manifest (lb_crypto L) (lb_codec L) (ri_manifest_id i) (ri_manifest_nonce i)
       (backup_request c keys (ri_manifest_id i) [tr_built seg]) (ky_signing_key keys) k = Inr sealed)"
  using assms by (auto simp: seal_incremental_def require_keys_def err_simps)

lemma built_sized:
  assumes "hashes_sized L" "build_segment_with_id L nonce events ty i k = Inr seg"
  shows "length (bg_nonce seg) = length nonce \<and> length (bg_merkle_root seg) = 32"
  using assms by (auto simp: build_segment_with_id_def Let_def err_simps hashes_sized_def split: if_splits)

lemma compact_group_built:
  assumes "compact_group L root snapshot g (i, nonce) = Inr (Some seg)"
  shows "\<exists>events. build_segment_with_id L nonce events EventsSegment i (tr_k_segment seg) = Inr (tr_built seg)"
  using assms by (auto simp: compact_group_def Let_def err_simps split: if_splits)

lemma sealed_compaction:
  assumes "seal_compaction L i c keys plan = Inr (outputs, ledger, sealed)"
  shows "(\<forall>t \<in> set ledger. t \<in> set (bc_tracked c) \<or>
       (\<exists>g new_id nonce ok. (new_id, nonce, ok) \<in> set (ci_segments i) \<and>
          compact_group L (ky_root_key keys) (bc_tracked c) g (new_id, nonce) = Inr (Some t))) \<and>
     (\<exists>k. build_backup_manifest (lb_crypto L) (lb_codec L) (ci_manifest_id i) (ci_manifest_nonce i)
       (backup_request c keys (ci_manifest_id i) (map tr_built ledger)) (ky_signing_key keys) k = Inr sealed)"
proof -
  obtain results where r: "mapE (\<lambda>(g, new_id, nonce, _). compact_group L (ky_root_key keys) (bc_tracked c) g (new_id, nonce))
         (zip plan (ci_segments i)) = Inr results" "outputs = List.map_filter id results"
     "ledger = filter (\<lambda>s. bg_segment_id (tr_built s) \<notin> set (superseded_segment_ids plan)) (bc_tracked c) @ outputs"
    and m: "\<exists>k. build_backup_manifest (lb_crypto L) (lb_codec L) (ci_manifest_id i) (ci_manifest_nonce i)
       (backup_request c keys (ci_manifest_id i) (map tr_built ledger)) (ky_signing_key keys) k = Inr sealed"
    using assms by (auto simp: seal_compaction_def Let_def err_simps)
  have "\<exists>g new_id nonce ok. (new_id, nonce, ok) \<in> set (ci_segments i) \<and>
      compact_group L (ky_root_key keys) (bc_tracked c) g (new_id, nonce) = Inr (Some t)" if "t \<in> set outputs" for t
  proof -
    have "Some t \<in> set results" using that by (auto simp: r(2) map_filter_set)
    then obtain x where "x \<in> set (zip plan (ci_segments i))"
        "(\<lambda>(g, new_id, nonce, _). compact_group L (ky_root_key keys) (bc_tracked c) g (new_id, nonce)) x = Inr (Some t)"
      using mapE_source[OF r(1)] by blast
    moreover obtain g new_id nonce ok where x: "x = (g, new_id, nonce, ok)" by (cases x)
    ultimately have "compact_group L (ky_root_key keys) (bc_tracked c) g (new_id, nonce) = Inr (Some t)"
      "(new_id, nonce, ok) \<in> set (ci_segments i)" by (auto dest: set_zip_rightD)
    then show ?thesis by blast
  qed
  moreover have "t \<in> set (bc_tracked c) \<or> t \<in> set outputs" if "t \<in> set ledger" for t using that unfolding r(3) by auto
  ultimately show ?thesis using m by meson
qed

text \<open>Where a committed run or compaction leaves the database.\<close>

lemma seg_type_of_build: "build_segment_with_id L nonce events ty i k = Inr seg \<Longrightarrow> bg_segment_type seg = ty"
  using built_segment by blast

lemma disk_matches_run:
  assumes sound: "library_sound L" "hashes_sized L" and keys: "bc_keys c = Some keys"
    and inv: "disk_matches L (ky_root_key keys) c" and nonce: "length (ri_segment_nonce i) = 24"
  shows "disk_matches L (ky_root_key keys) (snd (run_incremental_backup L i c))"
proof -
  obtain r c' where run: "run_incremental_backup L i c = (r, c')" by fastforce
  show ?thesis
  proof (cases "bc_db c' = bc_db c \<and> bc_previous c' = bc_previous c \<and> bc_tracked c' = bc_tracked c")
    case True
    then show ?thesis using inv run by (simp add: disk_matches_def)
  next
    case False
    then obtain es keys' seg sealed where seal: "seal_incremental L i c (map snd es) = Inr (keys', seg, sealed)"
      and persist: "persist_incremental_backup_atomic L seg (sbm_manifest sealed) (ky_root_key keys')
          (fst (last es)) (ri_now_ms i) (bc_db c) = (Inr (), bc_db c')"
      and mem: "bc_previous c' = Some (sbm_manifest sealed)" "bc_tracked c' = bc_tracked c @ [seg]"
      using run_effect[OF run] by blast
    have k: "keys' = keys" using sealed_incremental[OF seal] keys by simp
    have sz: "sized seg"
      using built_sized[OF sound(2)] sealed_incremental[OF seal] nonce by (auto simp: sized_def)
    obtain row cbor where row: "build_backup_segment_ledger_row L seg (ky_root_key keys) (ri_now_ms i) = Inr row"
      and cbor: "encode_manifest_cbor L (sbm_manifest sealed) = Inr cbor"
      and db: "db_ledger (bc_db c') = db_ledger (bc_db c) @ [row]" "load_backup_manifest (bc_db c') = Some cbor"
      using persist_incremental_Inr[OF persist] unfolding k by (auto simp: load_backup_manifest_def)
    obtain ts where ts: "mapE (materialise_row L (ky_root_key keys)) (db_ledger (bc_db c)) = Inr ts"
        "mset ts = mset (bc_tracked c)" using inv by (auto simp: disk_matches_def)
    have "mapE (materialise_row L (ky_root_key keys)) [row] = Inr [seg]"
      using materialise_built_row[OF sound(1) row sz] by simp
    note both = mapE_append_Inr[OF ts(1) this]
    have "cd_backup (lb_codec L) (sbm_manifest sealed) = Some cbor"
      using cbor by (simp add: encode_manifest_cbor_def err_simps)
    then show ?thesis using both ts(2) db mem sz inv run by (auto simp: disk_matches_def)
  qed
qed

lemma disk_matches_compact:
  assumes sound: "library_sound L" "hashes_sized L" and keys: "bc_keys c = Some keys"
    and inv: "disk_matches L (ky_root_key keys) c"
    and nonce: "list_all (\<lambda>(_, nonce, _). length nonce = 24) (ci_segments i)"
  shows "disk_matches L (ky_root_key keys) (snd (compact_backup L i c))"
proof -
  obtain r c' where run: "compact_backup L i c = (r, c')" by fastforce
  show ?thesis
  proof (cases "bc_db c' = bc_db c \<and> bc_previous c' = bc_previous c \<and> bc_tracked c' = bc_tracked c")
    case True
    then show ?thesis using inv run by (simp add: disk_matches_def)
  next
    case False
    then obtain keys' plan outputs ledger sealed where k: "bc_keys c = Some keys'"
      and seal: "seal_compaction L i c keys' plan = Inr (outputs, ledger, sealed)"
      and persist: "persist_compaction_backup_atomic L ledger (sbm_manifest sealed) (ky_root_key keys')
          (ci_persist_ms i) (bc_db c) = (Inr (), bc_db c')"
      and mem: "bc_previous c' = Some (sbm_manifest sealed)" "bc_tracked c' = ledger"
      using compact_effect[OF run] by blast
    have k: "keys' = keys" using k keys by simp
    have sz: "sized t" if "t \<in> set ledger" for t
    proof -
      have "t \<in> set (bc_tracked c) \<or> (\<exists>g new_id nonce ok. (new_id, nonce, ok) \<in> set (ci_segments i) \<and>
          compact_group L (ky_root_key keys') (bc_tracked c) g (new_id, nonce) = Inr (Some t))"
        using sealed_compaction[OF seal] that by blast
      then show ?thesis
      proof
        assume "t \<in> set (bc_tracked c)"
        then show ?thesis using inv by (simp add: disk_matches_def)
      next
        assume "\<exists>g new_id nonce ok. (new_id, nonce, ok) \<in> set (ci_segments i) \<and>
          compact_group L (ky_root_key keys') (bc_tracked c) g (new_id, nonce) = Inr (Some t)"
        then obtain g new_id n ok where n: "(new_id, n, ok) \<in> set (ci_segments i)"
          and "compact_group L (ky_root_key keys') (bc_tracked c) g (new_id, n) = Inr (Some t)" by blast
        then obtain events where "build_segment_with_id L n events EventsSegment new_id (tr_k_segment t) = Inr (tr_built t)"
          using compact_group_built by blast
        then show ?thesis using built_sized[OF sound(2)] nonce n by (fastforce simp: sized_def list_all_iff)
      qed
    qed
    obtain rows cbor where rows: "mapE (\<lambda>seg. build_backup_segment_ledger_row L seg (ky_root_key keys) (ci_persist_ms i)) ledger = Inr rows"
      and cbor: "encode_manifest_cbor L (sbm_manifest sealed) = Inr cbor"
      and db: "db_ledger (bc_db c') = rows" "load_backup_manifest (bc_db c') = Some cbor"
      using persist_compaction_Inr[OF persist] unfolding k by (auto simp: load_backup_manifest_def)
    have "mapE (materialise_row L (ky_root_key keys)) rows = Inr ledger"
      using materialise_built_rows[OF sound(1) rows] sz by blast
    moreover have "cd_backup (lb_codec L) (sbm_manifest sealed) = Some cbor"
      using cbor by (simp add: encode_manifest_cbor_def err_simps)
    ultimately show ?thesis using db mem sz run by (simp add: disk_matches_def)
  qed
qed

lemma disk_reopens:
  assumes sound: "library_sound L" and inv: "disk_matches L (ky_root_key keys) c"
  shows "\<exists>ts. open_backup L keys sink (bc_db c) =
     Inr \<lparr>bc_db = bc_db c, bc_keys = Some keys, bc_previous = bc_previous c, bc_tracked = ts, bc_sink = sink\<rparr> \<and>
     mset ts = mset (bc_tracked c)"
proof -
  obtain ts where ts: "mapE (materialise_row L (ky_root_key keys)) (db_ledger (bc_db c)) = Inr ts"
      "mset ts = mset (bc_tracked c)" using inv by (auto simp: disk_matches_def)
  obtain us where us: "materialise_backup_segments_from_db L (ky_root_key keys) (bc_db c) = Inr us" "mset us = mset (bc_tracked c)"
    using mapE_permuted[OF ts(1), of "load_backup_segment_ledger (bc_db c)"] ts(2)
    by (auto simp: materialise_backup_segments_from_db_def load_backup_segment_ledger_def)
  have decodes: "cd_backup (lb_codec L) m = Some b \<Longrightarrow> cd_backup_decode (lb_codec L) b = Some m" for m b
    using sound by (simp add: library_sound_def decodes_backup_def)
  show ?thesis
  proof (cases "bc_previous c")
    case None
    then have "load_backup_manifest (bc_db c) = None" using inv by (simp add: disk_matches_def)
    then show ?thesis using us None by (simp add: open_backup_def hydrate_backup_manifest_from_db_def install_backup_keys_def)
  next
    case (Some m)
    have stored: "bc_previous c = None \<longleftrightarrow> load_backup_manifest (bc_db c) = None"
      "load_backup_manifest (bc_db c) = Option.bind (bc_previous c) (cd_backup (lb_codec L))"
      using inv by (simp_all only: disk_matches_def)
    obtain b where b: "load_backup_manifest (bc_db c) = Some b" using stored(1) Some by fastforce
    moreover have "cd_backup (lb_codec L) m = Some b" using trans[OF sym[OF stored(2)] b] Some by simp
    ultimately show ?thesis using us Some decodes
      by (simp add: open_backup_def hydrate_backup_manifest_from_db_def install_backup_keys_def)
  qed
qed

lemma journal_step:
  "db_ledger (or_keep db (insert_backup_event r db)) = db_ledger db"
  "load_backup_manifest (or_keep db (insert_backup_event r db)) = load_backup_manifest db"
  "read_cursor (or_keep db (insert_backup_event r db)) = read_cursor db"
  by (auto simp: or_keep_def insert_backup_event_def Let_def load_backup_manifest_def read_cursor_def
      split: sum.splits if_splits)

lemma disk_matches_step:
  assumes "library_sound L" "hashes_sized L" "nonces_sized op"
    and "bc_keys c = Some keys \<and> disk_matches L (ky_root_key keys) c"
  shows "bc_keys (backup_step L keys op c) = Some keys \<and> disk_matches L (ky_root_key keys) (backup_step L keys op c)"
proof (cases op)
  case (Journal r)
  then show ?thesis using assms(4) by (simp add: disk_matches_def journal_step)
next
  case (RunBackup i)
  then show ?thesis
    using assms disk_matches_run[OF assms(1,2), of c keys i] run_effect[of L i c]
    by (cases "run_incremental_backup L i c") simp
next
  case (CompactBackup i)
  then show ?thesis
    using assms disk_matches_compact[OF assms(1,2), of c keys i] compact_effect[of L i c]
    by (cases "compact_backup L i c") simp
next
  case Restart
  obtain ts where ts: "open_backup L keys (bc_sink c) (bc_db c) =
     Inr \<lparr>bc_db = bc_db c, bc_keys = Some keys, bc_previous = bc_previous c, bc_tracked = ts, bc_sink = bc_sink c\<rparr>"
    "mset ts = mset (bc_tracked c)" using disk_reopens[OF assms(1), of keys c "bc_sink c"] assms(4) by auto
  then have "set ts = set (bc_tracked c)" by (auto dest: mset_eq_setD)
  then show ?thesis using Restart ts assms(4) by (simp add: disk_matches_def)
qed

lemma disk_matches_after:
  assumes "library_sound L" "hashes_sized L" "list_all nonces_sized ops"
  shows "bc_keys (backup_after L keys sink ops) = Some keys \<and>
     disk_matches L (ky_root_key keys) (backup_after L keys sink ops)"
proof (induction rule: backup_after_induct)
  case new
  then show ?case by (simp add: new_backup_def disk_matches_def empty_db_def load_backup_manifest_def)
next
  case (step op c)
  then show ?case using disk_matches_step[OF assms(1,2)] assms(3) by (simp add: list_all_iff)
qed

text \<open>C30: A restart loses nothing of the backup's state.  After any history of journal writes, backup runs,
  compactions and earlier restarts, with any failures among them, a new process that opens the database
  under the same keys gets the same chain tail and the same segments with their keys, up to order.\<close>

theorem restart_recovers:
  assumes "library_sound L" "hashes_sized L" "list_all nonces_sized ops" "c = backup_after L keys sink ops"
  shows "\<exists>c'. open_backup L keys (bc_sink c) (bc_db c) = Inr c' \<and> bc_previous c' = bc_previous c \<and>
     mset (bc_tracked c') = mset (bc_tracked c) \<and> bc_keys c' = bc_keys c"
  using disk_reopens[OF assms(1), of keys c "bc_sink c"] disk_matches_after[OF assms(1-3), of keys sink] assms(4) by auto

subsection \<open>The chain\<close>

definition chain_ok :: "library \<Rightarrow> backup_keys \<Rightarrow> backup_core \<Rightarrow> backup_manifest list \<Rightarrow> bool" where
  "chain_ok L keys c ms \<longleftrightarrow> (if ms = [] then bc_previous c = None
     else bc_previous c = Some (last ms) \<and>
       verify_manifest_chain (lb_crypto L) (lb_codec L) ms (verifying_key (lb_crypto L) (ky_signing_key keys)) = Inr ())"

lemma chain_grows:
  assumes "signs_soundly (lb_crypto L) (ky_signing_key keys)" "chain_ok L keys c ms"
    and "build_backup_manifest (lb_crypto L) (lb_codec L) fresh nonce (backup_request c keys i segs)
       (ky_signing_key keys) k = Inr sealed" "bc_previous c' = Some (sbm_manifest sealed)"
  shows "chain_ok L keys c' (ms @ [sbm_manifest sealed])"
  using build_extends_chain[OF assms(1,3), of ms] assms(2,4) by (auto simp: chain_ok_def backup_request_def)

lemma chain_ok_step:
  assumes "library_sound L" "signs_soundly (lb_crypto L) (ky_signing_key keys)"
    and keys: "bc_keys c = Some keys" and disk: "disk_matches L (ky_root_key keys) c" and ok: "chain_ok L keys c ms"
  shows "\<exists>ms'. prefix ms ms' \<and> chain_ok L keys (backup_step L keys op c) ms'"
proof -
  have same: "?thesis" if "bc_previous (backup_step L keys op c) = bc_previous c"
    using that ok by (intro exI[of _ ms]) (simp add: chain_ok_def)
  show ?thesis
  proof (cases op)
    case (RunBackup i)
    obtain r c' where run: "run_incremental_backup L i c = (r, c')" by fastforce
    show ?thesis
    proof (cases "bc_previous c' = bc_previous c")
      case False
      then obtain es :: "(int \<times> journal_event) list" and keys' seg sealed
        where seal: "seal_incremental L i c (map snd es) = Inr (keys', seg, sealed)"
        and mem: "bc_previous c' = Some (sbm_manifest sealed)" using run_effect[OF run] by metis
      have k: "keys' = keys" using sealed_incremental[OF seal] keys by simp
      obtain k' where "build_backup_manifest (lb_crypto L) (lb_codec L) (ri_manifest_id i) (ri_manifest_nonce i)
          (backup_request c keys (ri_manifest_id i) [tr_built seg]) (ky_signing_key keys) k' = Inr sealed"
        using sealed_incremental[OF seal] unfolding k by blast
      from chain_grows[OF assms(2) ok this mem] show ?thesis using RunBackup run by (auto intro: prefixI)
    qed (use same RunBackup run in simp)
  next
    case (CompactBackup i)
    obtain r c' where run: "compact_backup L i c = (r, c')" by fastforce
    show ?thesis
    proof (cases "bc_previous c' = bc_previous c")
      case False
      then obtain keys' plan outputs ledger sealed where k: "bc_keys c = Some keys'"
        and seal: "seal_compaction L i c keys' plan = Inr (outputs, ledger, sealed)"
        and mem: "bc_previous c' = Some (sbm_manifest sealed)" using compact_effect[OF run] by metis
      have k: "keys' = keys" using k keys by simp
      obtain k' where "build_backup_manifest (lb_crypto L) (lb_codec L) (ci_manifest_id i) (ci_manifest_nonce i)
          (backup_request c keys (ci_manifest_id i) (map tr_built ledger)) (ky_signing_key keys) k' = Inr sealed"
        using sealed_compaction[OF seal] unfolding k by blast
      from chain_grows[OF assms(2) ok this mem] show ?thesis using CompactBackup run by (auto intro: prefixI)
    qed (use same CompactBackup run in simp)
  next
    case Restart
    show ?thesis by (rule same) (use disk_reopens[OF assms(1) disk, of "bc_sink c"] Restart in auto)
  qed (use same in simp)
qed

lemma chain_ok_more:
  assumes "library_sound L" "hashes_sized L" "list_all nonces_sized (ops @ later)"
    "signs_soundly (lb_crypto L) (ky_signing_key keys)" "chain_ok L keys (backup_after L keys sink ops) ms"
  shows "\<exists>ms'. prefix ms ms' \<and> chain_ok L keys (backup_after L keys sink (ops @ later)) ms'"
  using assms(3)
proof (induction later rule: rev_induct)
  case Nil
  then show ?case using assms(5) by auto
next
  case (snoc op later)
  then obtain ms' where ms': "prefix ms ms'" "chain_ok L keys (backup_after L keys sink (ops @ later)) ms'" by auto
  have "list_all nonces_sized (ops @ later)" using snoc.prems by simp
  note d = disk_matches_after[OF assms(1,2) this, of keys sink]
  obtain ms'' where "prefix ms' ms''" "chain_ok L keys (backup_step L keys op (backup_after L keys sink (ops @ later))) ms''"
    using chain_ok_step[OF assms(1,4) conjunct1[OF d] conjunct2[OF d] ms'(2)] by blast
  then show ?case using prefix_order.trans[OF ms'(1)] by auto
qed

text \<open>C33: The chain only grows.  After any history, whatever failed in it, the manifest that the next one will
  point to is the head of a chain that verifies under the device's key, from its genesis on; and whatever
  follows extends that same chain.\<close>

theorem backup_chain_append_only:
  assumes "library_sound L" "hashes_sized L" "list_all nonces_sized (ops @ later)"
    and "signs_soundly (lb_crypto L) (ky_signing_key keys)"
  shows "\<exists>ms ms'. chain_ok L keys (backup_after L keys sink ops) ms \<and>
     chain_ok L keys (backup_after L keys sink (ops @ later)) (ms @ ms')"
proof -
  have new: "chain_ok L keys (backup_after L keys sink []) []" by (simp add: chain_ok_def new_backup_def)
  have "list_all nonces_sized ([] @ ops)" using assms(3) by simp
  from chain_ok_more[OF assms(1,2) this assms(4) new]
  obtain ms where ms: "chain_ok L keys (backup_after L keys sink ops) ms" by auto
  then show ?thesis using chain_ok_more[OF assms(1-4) ms] by (auto elim!: prefixE)
qed

subsection \<open>Every event once\<close>

definition segmented_rows :: "local_db \<Rightarrow> backup_event list" where
  "segmented_rows db = filter (\<lambda>r. be_event_seq r \<le> read_cursor db) (db_events db)"

definition sealed_once :: "library \<Rightarrow> backup_core \<Rightarrow> bool" where
  "sealed_once L c \<longleftrightarrow> journal_in_order (bc_db c) \<and> read_cursor (bc_db c) \<le> db_event_seq (bc_db c) \<and>
     (\<exists>payloads. mapE (\<lambda>t. decrypt_backup_segment L (tr_built t) (tr_k_segment t)) (bc_tracked c) = Inr payloads \<and>
        mset (concat (map pl_events payloads)) =
          mset (map snd (List.map_filter (row_event L) (segmented_rows (bc_db c)))))"

lemma journal_appends:
  "or_keep db (insert_backup_event (r\<lparr>be_event_seq := 0\<rparr>) db) =
   db\<lparr>db_events := db_events db @ [r\<lparr>be_event_seq := db_event_seq db + 1\<rparr>], db_event_seq := db_event_seq db + 1\<rparr>"
  by (simp add: or_keep_def insert_backup_event_def Let_def)

lemma sealed_once_journal:
  assumes "sealed_once L c"
  shows "sealed_once L (backup_step L keys (Journal r) c)"
proof -
  have "segmented_rows (bc_db (backup_step L keys (Journal r) c)) = segmented_rows (bc_db c)"
    using assms by (simp add: segmented_rows_def journal_appends sealed_once_def read_cursor_def)
  moreover have "journal_in_order (bc_db (backup_step L keys (Journal r) c))"
    using assms by (auto simp: sealed_once_def journal_in_order_def journal_appends sorted_wrt_append)
  ultimately show ?thesis
    using assms by (simp add: sealed_once_def) (simp add: journal_appends read_cursor_def)
qed

lemma mset_concat_cong: "mset ps = mset qs \<Longrightarrow> mset (concat (map f ps)) = mset (concat (map f qs))"
  by (metis map_map mset_concat mset_map sum_mset_sum_list)

lemma sealed_once_permuted:
  assumes "sealed_once L c" "mset (bc_tracked c') = mset (bc_tracked c)" "bc_db c' = bc_db c"
  shows "sealed_once L c'"
proof -
  obtain ps where ps: "mapE (\<lambda>t. decrypt_backup_segment L (tr_built t) (tr_k_segment t)) (bc_tracked c) = Inr ps"
    "mset (concat (map pl_events ps)) = mset (map snd (List.map_filter (row_event L) (segmented_rows (bc_db c))))"
    using assms(1) by (auto simp: sealed_once_def)
  obtain qs where "mapE (\<lambda>t. decrypt_backup_segment L (tr_built t) (tr_k_segment t)) (bc_tracked c') = Inr qs" "mset qs = mset ps"
    using mapE_permuted[OF ps(1) assms(2)] by blast
  then show ?thesis using assms ps(2) mset_concat_cong[of qs ps pl_events] by (simp add: sealed_once_def)
qed

lemma sealed_once_run:
  assumes sound: "library_sound L" and inv: "sealed_once L c"
  shows "sealed_once L (backup_step L keys (RunBackup i) c)"
proof -
  obtain r c' where run: "run_incremental_backup L i c = (r, c')" by fastforce
  show ?thesis
  proof (cases "bc_db c' = bc_db c \<and> bc_previous c' = bc_previous c \<and> bc_tracked c' = bc_tracked c")
    case True
    then show ?thesis using inv run by (simp add: sealed_once_def)
  next
    case False
    then obtain es keys' seg sealed where read: "read_unsegmented L max_events_per_backup_segment (bc_db c) = Inr es" "es \<noteq> []"
      and seal: "seal_incremental L i c (map snd es) = Inr (keys', seg, sealed)"
      and persist: "persist_incremental_backup_atomic L seg (sbm_manifest sealed) (ky_root_key keys')
          (fst (last es)) (ri_now_ms i) (bc_db c) = (Inr (), bc_db c')"
      and tracked: "bc_tracked c' = bc_tracked c @ [seg]"
      using run_effect[OF run] by metis
    obtain row cbor where db: "bc_db c' = (bc_db c)\<lparr>db_cursor := Some (fst (last es)), db_ledger := db_ledger (bc_db c) @ [row],
        db_manifest := Some (generation_i64 (sbm_manifest sealed), cbor, ri_now_ms i)\<rparr>"
      using persist_incremental_Inr[OF persist] by blast
    have order: "journal_in_order (bc_db c)" using inv by (simp add: sealed_once_def)
    have window: "List.map_filter (row_event L) (segmented_rows (bc_db c')) =
        List.map_filter (row_event L) (segmented_rows (bc_db c)) @ es"
      using window_events[OF order, of L "read_cursor (bc_db c)"] read
      by (simp add: read_unsegmented_def segmented_rows_def db read_cursor_def)
    have "last es \<in> set (List.map_filter (row_event L) (segmented_rows (bc_db c')))"
      unfolding window using read(2) by simp
    then obtain r' where "r' \<in> set (db_events (bc_db c))" "row_event L r' = Some (last es)"
      by (auto simp: map_filter_set segmented_rows_def db)
    then have "fst (last es) \<le> db_event_seq (bc_db c)"
      using order row_event_seq[of L r' "fst (last es)" "snd (last es)"] by (simp add: journal_in_order_def)
    then have cursor: "read_cursor (bc_db c') \<le> db_event_seq (bc_db c')" by (simp add: db read_cursor_def)
    have order': "journal_in_order (bc_db c')" using order by (simp add: db journal_in_order_def)
    have "decrypt_backup_segment L (tr_built seg) (tr_k_segment seg) =
        Inr \<lparr>pl_magic = backup_segment_payload_magic, pl_events = map snd es\<rparr>"
      using segment_roundtrip[OF sound] sealed_incremental[OF seal] by blast
    then have new: "mapE (\<lambda>t. decrypt_backup_segment L (tr_built t) (tr_k_segment t)) [seg] =
        Inr [\<lparr>pl_magic = backup_segment_payload_magic, pl_events = map snd es\<rparr>]" by simp
    obtain ps where ps: "mapE (\<lambda>t. decrypt_backup_segment L (tr_built t) (tr_k_segment t)) (bc_tracked c) = Inr ps"
      "mset (concat (map pl_events ps)) = mset (map snd (List.map_filter (row_event L) (segmented_rows (bc_db c))))"
      using inv by (auto simp: sealed_once_def)
    have "sealed_once L c'"
      unfolding sealed_once_def tracked window using mapE_append_Inr[OF ps(1) new] ps(2) order' cursor by simp
    then show ?thesis using run by simp
  qed
qed

text \<open>C1: Nothing is backed up twice and nothing typed is skipped.  Before any compaction, after any history
  with any failures and restarts, the segments of the ledger decrypt, and their events together are
  exactly the events of the journal up to the cursor whose type the backup knows, each one as often as it
  was written.\<close>

theorem backup_exactly_once:
  assumes "library_sound L" "hashes_sized L" "list_all nonces_sized ops" "\<forall>i. CompactBackup i \<notin> set ops"
    and "c = backup_after L keys sink ops"
  shows "\<exists>payloads. mapE (\<lambda>t. decrypt_backup_segment L (tr_built t) (tr_k_segment t)) (bc_tracked c) = Inr payloads \<and>
     mset (concat (map pl_events payloads)) =
       mset (map snd (List.map_filter (row_event L) (segmented_rows (bc_db c))))"
proof -
  let ?inv = "\<lambda>c. bc_keys c = Some keys \<and> disk_matches L (ky_root_key keys) c \<and> sealed_once L c"
  have "?inv (backup_after L keys sink ops)"
  proof (induction rule: backup_after_induct)
    case new
    then show ?case by (simp add: new_backup_def disk_matches_def sealed_once_def empty_db_def load_backup_manifest_def
          journal_in_order_def read_cursor_def segmented_rows_def map_filter_simps)
  next
    case (step op c)
    have "nonces_sized op" using step(1) assms(3) by (simp add: list_all_iff)
    note disk = disk_matches_step[OF assms(1,2) this, of c keys]
    have "sealed_once L (backup_step L keys op c)"
    proof (cases op)
      case Restart
      then show ?thesis
        using disk_reopens[OF assms(1), of keys c "bc_sink c"] step(2) sealed_once_permuted[of L c] by auto
    qed (use step assms(4) sealed_once_journal sealed_once_run[OF assms(1)] in auto)
    then show ?case using disk step(2) by blast
  qed
  then show ?thesis using assms(5) by (simp add: sealed_once_def)
qed

subsection \<open>A history on concrete libraries\<close>

text \<open>Encoders that accept the values of one history and decoders that undo them; a UUID is written in bits.\<close>

definition show_bits :: "uuid \<Rightarrow> string" where
  "show_bits u = map (\<lambda>i. if bit u i then CHR ''1'' else CHR ''0'') [0..<128]"

definition parse_bits :: "string \<Rightarrow> uuid option" where
  "parse_bits s = Some (horner_sum of_bool 2 (map (\<lambda>ch. ch = CHR ''1'') s))"

lemma parse_show_bits: "parse_bits (show_bits u) = Some u"
proof -
  have "map (\<lambda>ch. ch = CHR ''1'') (show_bits u) = map (bit u) [0..<128]" by (simp add: show_bits_def)
  moreover have "take_bit 128 u = u" by (simp add: take_bit_word_eq_self)
  ultimately show ?thesis by (simp add: parse_bits_def horner_sum_bit_eq_take_bit)
qed

definition toy_event :: journal_event where
  "toy_event = \<lparr>je_event_type = BMessageReceived, je_conversation_id = Some 3, je_message_id = Some 5,
     je_payload = [42], je_created_at_ms = 1000\<rparr>"

definition toy_payload :: segment_payload where
  "toy_payload = \<lparr>pl_magic = backup_segment_payload_magic, pl_events = [toy_event]\<rparr>"

definition toy_backup_keys :: backup_keys where
  "toy_backup_keys = \<lparr>ky_root_key = [8], ky_signing_key = toy_key, ky_device_id = [1]\<rparr>"

definition toy_built :: built_backup_segment where
  "toy_built = \<lparr>bg_segment_id = 11, bg_segment_type = EventsSegment, bg_nonce = replicate 24 0,
     bg_ciphertext = the (cr_seal toy_crypto [] [] [9] (build_segment_aad 11 (cr_blake3 toy_crypto [9]))),
     bg_merkle_root = cr_blake3 toy_crypto [9], bg_event_count = 1\<rparr>"

definition toy_head :: backup_manifest where
  "toy_head = \<lparr>bm_magic = backup_manifest_magic, bm_version = manifest_version, bm_manifest_id = 12,
     bm_generation = 0, bm_previous_hash = genesis_previous_hash, bm_segments = [segment_ref toy_crypto toy_built],
     bm_shards = [], bm_media = [], bm_tombstones = [],
     bm_merkle_root = compute_segment_merkle_root toy_crypto [cr_blake3 toy_crypto [9]],
     bm_signature = replicate 64 0, bm_pqc_signature = replicate 3309 0\<rparr>"

definition toy_head_codec :: codec where
  "toy_head_codec = \<lparr>cd_backup = (\<lambda>m. if m = toy_head then Some [1]
       else if m = toy_head\<lparr>bm_signature := [], bm_pqc_signature := []\<rparr> then Some [0] else None),
     cd_backup_decode = (\<lambda>b. if b = [1] then Some toy_head
       else Some (toy_head\<lparr>bm_signature := [], bm_pqc_signature := []\<rparr>)),
     cd_archive = (\<lambda>m. None), cd_archive_decode = (\<lambda>b. None)\<rparr>"

definition toy_manifest_bundle :: sealed_manifest_bundle where
  "toy_manifest_bundle = \<lparr>mb_magic = manifest_bundle_magic, mb_version = bundle_version, mb_manifest = toy_head,
     mb_nonce = [], mb_ciphertext = the (cr_seal toy_crypto [] [] [1]
       (build_manifest_aad 12 0 (bm_merkle_root toy_head) [1])), mb_device_id = [1]\<rparr>"

definition toy_segment_bundle :: sealed_segment_bundle where
  "toy_segment_bundle = \<lparr>gb_magic = segment_bundle_magic, gb_version = bundle_version, gb_segment_id = 11,
     gb_segment_type = EventsSegment, gb_nonce = replicate 24 0, gb_ciphertext = bg_ciphertext toy_built,
     gb_merkle_root = bg_merkle_root toy_built, gb_event_count = 1, gb_wrapped_k_segment = []\<rparr>"

definition toy_library :: library where
  "toy_library = \<lparr>lb_crypto = toy_crypto, lb_codec = toy_head_codec, lb_show_uuid = show_bits, lb_parse_uuid = parse_bits,
     lb_encode_payload = (\<lambda>p. if p = toy_payload then Some [9] else None), lb_decode_payload = (\<lambda>b. Some toy_payload),
     lb_compress = Some, lb_decompress = Some,
     lb_encode_manifest_bundle = (\<lambda>b. if b = toy_manifest_bundle then Some [2] else None),
     lb_decode_manifest_bundle = (\<lambda>b. Some toy_manifest_bundle),
     lb_encode_segment_bundle = (\<lambda>b. if b = toy_segment_bundle then Some [3] else None),
     lb_decode_segment_bundle = (\<lambda>b. Some toy_segment_bundle),
     lb_derive_segment = (\<lambda>k i. Some []), lb_derive_manifest = (\<lambda>k i. Some []),
     lb_wrap_key = (\<lambda>k r. Some k), lb_unwrap_key = (\<lambda>w r. Some w)\<rparr>"

lemma toy_head_codec_decodes: "decodes_backup toy_head_codec"
  by (auto simp: decodes_backup_def toy_head_codec_def)

lemma toy_library_sound: "library_sound toy_library"
  using toy_aead_sound toy_head_codec_decodes by (simp add: library_sound_def toy_library_def parse_show_bits split: if_splits)

lemma toy_hashes_sized: "hashes_sized toy_library"
  by (auto simp: hashes_sized_def toy_library_def toy_crypto_def min_def)

definition toy_inputs :: run_inputs where
  "toy_inputs = \<lparr>ri_segment_id = 11, ri_segment_nonce = replicate 24 0, ri_manifest_id = 12, ri_manifest_nonce = [],
     ri_now_ms = 5, ri_segment_upload = True, ri_manifest_upload = True\<rparr>"

definition toy_history :: "backup_op list" where
  "toy_history = [Journal (event_row toy_library toy_event), RunBackup toy_inputs]"

definition toy_tracked :: tracked_segment where
  "toy_tracked = \<lparr>tr_built = toy_built, tr_tier = Daily, tr_min_event_ms = 1000, tr_max_event_ms = 1000, tr_k_segment = []\<rparr>"

lemma toy_history_sized: "list_all nonces_sized toy_history"
  by (simp add: toy_history_def toy_inputs_def)

lemma toy_segment_built:
  "build_segment_with_id toy_library (replicate 24 0) [toy_event] EventsSegment 11 [] = Inr toy_built"
  by (simp add: build_segment_with_id_def toy_library_def toy_payload_def toy_built_def aead_seal_def
      build_segment_aad_def backup_segment_aad_magic_def ascii_bytes_def toy_crypto_def)

definition toy_sealed_head :: sealed_backup_manifest where
  "toy_sealed_head = \<lparr>sbm_manifest = toy_head, sbm_signature = (replicate 64 0, replicate 3309 0), sbm_nonce = [],
     sbm_ciphertext = mb_ciphertext toy_manifest_bundle\<rparr>"

lemma toy_head_built:
  assumes "bc_previous c = None"
  shows "build_backup_manifest toy_crypto toy_head_codec 12 [] (backup_request c toy_backup_keys 12 [toy_built]) toy_key [] =
    Inr toy_sealed_head"
proof -
  have root: "bg_merkle_root toy_built = cr_blake3 toy_crypto [9]" by (simp add: toy_built_def)
  show ?thesis
    by (simp add: build_backup_manifest_def backup_link_def backup_request_def assms Let_def root
      sign_in_place_def sign_payload_def canonical_signing_payload_def backup_ops_def toy_head_codec_def aead_seal_def
      toy_head_def toy_sealed_head_def toy_manifest_bundle_def toy_backup_keys_def)
      (simp add: toy_crypto_def compute_segment_merkle_root_def aead_seal_def)
qed

lemma toy_seal:
  assumes "bc_previous c = None" "bc_keys c = Some toy_backup_keys"
  shows "seal_incremental toy_library toy_inputs c [toy_event] = Inr (toy_backup_keys, toy_tracked, toy_sealed_head)"
proof -
  have lib: "lb_derive_segment toy_library k i = Some []" "lb_derive_manifest toy_library k i = Some []"
    "lb_crypto toy_library = toy_crypto" "lb_codec toy_library = toy_head_codec" for k i
    by (simp_all add: toy_library_def)
  have keys: "ky_signing_key toy_backup_keys = toy_key" "ky_root_key toy_backup_keys = [8]"
    by (simp_all add: toy_backup_keys_def)
  show ?thesis
    using toy_segment_built toy_head_built[OF assms(1)] assms(2)
    by (simp add: seal_incremental_def require_keys_def lib keys toy_inputs_def toy_tracked_def toy_event_def)
qed

lemma toy_written: "read_row toy_library ((event_row toy_library toy_event)\<lparr>be_event_seq := 1\<rparr>) = Inr (Some (1, toy_event))"
  by (rule read_written_row[OF toy_library_sound])

lemma toy_row: "build_backup_segment_ledger_row toy_library toy_tracked [8] 5 = Inr
    \<lparr>lg_segment_id = show_bits 11, lg_segment_type = ''events'', lg_nonce = replicate 24 0,
     lg_ciphertext = bg_ciphertext toy_built, lg_merkle_root = bg_merkle_root toy_built, lg_event_count = 1,
     lg_tier = ''daily'', lg_min_event_ms = 1000, lg_max_event_ms = 1000, lg_wrapped_k_segment = [],
     lg_created_at_ms = 5\<rparr>"
  by (simp add: build_backup_segment_ledger_row_def toy_tracked_def toy_library_def) (simp add: toy_built_def)

lemma toy_run:
  assumes "bc_db c = empty_db\<lparr>db_events := [(event_row toy_library toy_event)\<lparr>be_event_seq := 1\<rparr>], db_event_seq := 1\<rparr>"
    "bc_keys c = Some toy_backup_keys" "bc_previous c = None" "bc_tracked c = []"
  shows "bc_tracked (snd (run_incremental_backup toy_library toy_inputs c)) = [toy_tracked] \<and>
    bc_previous (snd (run_incremental_backup toy_library toy_inputs c)) = Some toy_head"
proof -
  let ?run = "run_incremental_backup toy_library toy_inputs c"
  have read: "read_unsegmented toy_library max_events_per_backup_segment (bc_db c) = Inr [(1, toy_event)]"
    using toy_written
    by (simp add: read_unsegmented_def read_events_since_def rows_since_def assms(1) empty_db_def read_cursor_def
        max_events_per_backup_segment_def map_filter_simps)
  have head: "cd_backup toy_head_codec toy_head = Some [1]" by (simp add: toy_head_codec_def)
  have persist: "fst (persist_incremental_backup_atomic toy_library toy_tracked toy_head [8] 1 5 (bc_db c)) = Inr ()"
    using toy_row head by (simp add: persist_incremental_backup_atomic_def encode_manifest_cbor_def toy_library_def db_failure_def
        atomic_append_segment_and_manifest_def savepoint_def insert_ledger_row_def assms(1) empty_db_def)
  obtain db' where db': "persist_incremental_backup_atomic toy_library toy_tracked toy_head [8] 1 5 (bc_db c) = (Inr (), db')"
    using persist by (metis prod.collapse)
  have parts: "sbm_manifest toy_sealed_head = toy_head" "ky_root_key toy_backup_keys = [8]" "ri_now_ms toy_inputs = 5"
    by (simp_all add: toy_sealed_head_def toy_backup_keys_def toy_inputs_def)
  obtain r c2 where up: "upload_run toy_library toy_backup_keys [(toy_tracked, ri_segment_upload toy_inputs)] toy_sealed_head
      (ri_manifest_upload toy_inputs) (commit_incremental toy_head toy_tracked (c\<lparr>bc_db := db'\<rparr>)) = (r, c2)" by fastforce
  have "snd ?run = c2"
    using read toy_seal[OF assms(3,2)] db' up by (cases r) (auto simp: run_incremental_backup_def parts)
  then show ?thesis using upload_run_keeps[OF up] assms(4) by (simp add: commit_incremental_def)
qed

lemma toy_history_state:
  "bc_tracked (backup_after toy_library toy_backup_keys sink toy_history) = [toy_tracked] \<and>
   bc_previous (backup_after toy_library toy_backup_keys sink toy_history) = Some toy_head"
proof -
  let ?c = "backup_step toy_library toy_backup_keys (Journal (event_row toy_library toy_event)) (new_backup toy_backup_keys sink)"
  have "bc_db ?c = empty_db\<lparr>db_events := [(event_row toy_library toy_event)\<lparr>be_event_seq := 1\<rparr>], db_event_seq := 1\<rparr>"
    by (simp only: backup_step.simps journal_appends) (simp add: new_backup_def empty_db_def)
  then show ?thesis using toy_run[of ?c] by (simp add: toy_history_def new_backup_def)
qed

theorem restart_recovers_witness:
  "\<exists>c'. open_backup toy_library toy_backup_keys (bc_sink (backup_after toy_library toy_backup_keys None toy_history))
       (bc_db (backup_after toy_library toy_backup_keys None toy_history)) = Inr c' \<and>
     bc_previous c' = Some toy_head \<and> bc_tracked c' = [toy_tracked]"
  using restart_recovers[OF toy_library_sound toy_hashes_sized toy_history_sized refl, of toy_backup_keys None] toy_history_state[of None]
  by auto

theorem backup_exactly_once_witness:
  "\<exists>payloads. mapE (\<lambda>t. decrypt_backup_segment toy_library (tr_built t) (tr_k_segment t)) [toy_tracked] = Inr payloads \<and>
     mset (concat (map pl_events payloads)) = mset (map snd (List.map_filter (row_event toy_library)
       (segmented_rows (bc_db (backup_after toy_library toy_backup_keys None toy_history)))))"
  using backup_exactly_once[OF toy_library_sound toy_hashes_sized toy_history_sized _ refl, of toy_backup_keys None]
    toy_history_state[of None]
  by (simp add: toy_history_def)

theorem backup_chain_append_only_witness:
  "\<exists>ms ms'. chain_ok toy_library toy_backup_keys (new_backup toy_backup_keys None) ms \<and>
     chain_ok toy_library toy_backup_keys (backup_after toy_library toy_backup_keys None toy_history) (ms @ ms')"
  using backup_chain_append_only[of toy_library "[]" toy_history toy_backup_keys None] toy_library_sound toy_hashes_sized
    toy_history_sized toy_signs_soundly
  by (simp add: toy_library_def toy_backup_keys_def)

end
