(* ===== verification/Tokenizer.thy ===== *)
theory Tokenizer
  imports Complex_Main Prelude Schema
begin

text \<open>
  Script segmentation and fuzzy tokens (\<open>search/tokenizer.rs\<close> and the tokenizer of
  \<open>search/fuzzy_search.rs\<close>).  A text is the list of its code points.  What the program takes from the
  Unicode tables of the standard library is the record \<open>unicode\<close>: the lower case of a code point and
  the properties the final sigma rule and \<open>is_whitespace\<close> need.
\<close>

named_theorems token_simps "evaluation of the tokenizer"

record unicode =
  uc_lower :: "nat \<Rightarrow> utext"
  uc_cased :: "nat \<Rightarrow> bool"
  uc_case_ignorable :: "nat \<Rightarrow> bool"
  uc_whitespace :: "nat \<Rightarrow> bool"

subsection \<open>Scripts\<close>

datatype script_class =
    Latn | Cyrl | Grek | Hani | Hira | Kana | Hang | Arab | Hebr | Deva | Beng | Thai | Khmr | Laoo | Mymr
  | UnknownScript

primrec to_iso_15924 :: "script_class \<Rightarrow> string" where
  "to_iso_15924 Latn = ''Latn''"
| "to_iso_15924 Cyrl = ''Cyrl''"
| "to_iso_15924 Grek = ''Grek''"
| "to_iso_15924 Hani = ''Hani''"
| "to_iso_15924 Hira = ''Hira''"
| "to_iso_15924 Kana = ''Kana''"
| "to_iso_15924 Hang = ''Hang''"
| "to_iso_15924 Arab = ''Arab''"
| "to_iso_15924 Hebr = ''Hebr''"
| "to_iso_15924 Deva = ''Deva''"
| "to_iso_15924 Beng = ''Beng''"
| "to_iso_15924 Thai = ''Thai''"
| "to_iso_15924 Khmr = ''Khmr''"
| "to_iso_15924 Laoo = ''Laoo''"
| "to_iso_15924 Mymr = ''Mymr''"
| "to_iso_15924 UnknownScript = ''Zzzz''"

definition from_iso_15924 :: "string \<Rightarrow> script_class" where
  "from_iso_15924 code =
     (if code = ''Latn'' then Latn
      else if code = ''Cyrl'' then Cyrl
      else if code = ''Grek'' then Grek
      else if code = ''Hani'' then Hani
      else if code = ''Hira'' then Hira
      else if code = ''Kana'' then Kana
      else if code = ''Hang'' then Hang
      else if code = ''Arab'' then Arab
      else if code = ''Hebr'' then Hebr
      else if code = ''Deva'' then Deva
      else if code = ''Beng'' then Beng
      else if code = ''Thai'' then Thai
      else if code = ''Khmr'' then Khmr
      else if code = ''Laoo'' then Laoo
      else if code = ''Mymr'' then Mymr
      else UnknownScript)"

lemma from_to_iso [simp]: "from_iso_15924 (to_iso_15924 s) = s"
  by (cases s) (simp_all add: from_iso_15924_def)

lemma to_iso_inject [simp]: "to_iso_15924 s = to_iso_15924 t \<longleftrightarrow> s = t"
  by (metis from_to_iso)

datatype fuzzy_granularity = Bigram | Trigram

primrec granularity_of :: "script_class \<Rightarrow> fuzzy_granularity" where
  "granularity_of Hani = Bigram"
| "granularity_of Hira = Bigram"
| "granularity_of Kana = Bigram"
| "granularity_of Latn = Trigram"
| "granularity_of Cyrl = Trigram"
| "granularity_of Grek = Trigram"
| "granularity_of Hang = Trigram"
| "granularity_of Arab = Trigram"
| "granularity_of Hebr = Trigram"
| "granularity_of Deva = Trigram"
| "granularity_of Beng = Trigram"
| "granularity_of Thai = Trigram"
| "granularity_of Khmr = Trigram"
| "granularity_of Laoo = Trigram"
| "granularity_of Mymr = Trigram"
| "granularity_of UnknownScript = Trigram"

definition fuzzy_min_overlap :: "script_class \<Rightarrow> real" where
  "fuzzy_min_overlap s = (case granularity_of s of Bigram \<Rightarrow> 1 / 2 | Trigram \<Rightarrow> 1 / 3)"

definition between :: "nat \<Rightarrow> nat \<Rightarrow> nat \<Rightarrow> bool" where
  "between lo c hi \<longleftrightarrow> lo \<le> c \<and> c \<le> hi"

definition detect_script :: "nat \<Rightarrow> script_class" where
  "detect_script c =
     (if between 0x0041 c 0x005A \<or> between 0x0061 c 0x007A then Latn
      else if between 0x00C0 c 0x024F then Latn
      else if between 0x1E00 c 0x1EFF then Latn
      else if between 0x0370 c 0x03FF then Grek
      else if between 0x1F00 c 0x1FFF then Grek
      else if between 0x0400 c 0x052F then Cyrl
      else if between 0x2DE0 c 0x2DFF then Cyrl
      else if between 0xA640 c 0xA69F then Cyrl
      else if between 0x0590 c 0x05FF then Hebr
      else if between 0xFB1D c 0xFB4F then Hebr
      else if between 0x0600 c 0x06FF then Arab
      else if between 0x0750 c 0x077F then Arab
      else if between 0x08A0 c 0x08FF then Arab
      else if between 0xFB50 c 0xFDFF then Arab
      else if between 0xFE70 c 0xFEFF then Arab
      else if between 0x0900 c 0x097F then Deva
      else if between 0x0980 c 0x09FF then Beng
      else if between 0x0E00 c 0x0E7F then Thai
      else if between 0x0E80 c 0x0EFF then Laoo
      else if between 0x1000 c 0x109F then Mymr
      else if between 0x1780 c 0x17FF then Khmr
      else if between 0x3040 c 0x309F then Hira
      else if between 0x30A0 c 0x30FF then Kana
      else if between 0x31F0 c 0x31FF then Kana
      else if between 0x1100 c 0x11FF then Hang
      else if between 0x3130 c 0x318F then Hang
      else if between 0xA960 c 0xA97F then Hang
      else if between 0xAC00 c 0xD7AF then Hang
      else if between 0x3400 c 0x4DBF then Hani
      else if between 0x4E00 c 0x9FFF then Hani
      else if between 0x20000 c 0x2A6DF then Hani
      else if between 0x2A700 c 0x2EBEF then Hani
      else UnknownScript)"

subsection \<open>Segmentation\<close>

type_synonym script_run = "script_class \<times> utext"

text \<open>The runs so far, in order, and the pending characters of no script.\<close>

definition push_char :: "nat \<Rightarrow> script_run list \<times> utext \<Rightarrow> script_run list \<times> utext" where
  "push_char c = (\<lambda>(runs, pending).
     let cls = detect_script c in
     if cls = UnknownScript then (runs, pending @ [c])
     else if runs = [] then ([(cls, pending @ [c])], [])
     else let (k, txt) = last runs in
       if k = cls then (butlast runs @ [(k, txt @ pending @ [c])], [])
       else (butlast runs @ [(k, txt @ pending), (cls, [c])], []))"

definition segment_by_script :: "utext \<Rightarrow> script_run list" where
  "segment_by_script t =
     (let (runs, pending) = fold push_char t ([], []) in
      if pending = [] then runs
      else if runs = [] then [(UnknownScript, pending)]
      else butlast runs @ [(fst (last runs), snd (last runs) @ pending)])"

subsection \<open>Tokens\<close>

definition ascii_punctuation :: "nat \<Rightarrow> bool" where
  "ascii_punctuation c \<longleftrightarrow> between 33 c 47 \<or> between 58 c 64 \<or> between 91 c 96 \<or> between 123 c 126"

definition ascii_whitespace :: "nat \<Rightarrow> bool" where
  "ascii_whitespace c \<longleftrightarrow> c \<in> {9, 10, 12, 13, 32}"

definition ascii_digit :: "nat \<Rightarrow> bool" where
  "ascii_digit c \<longleftrightarrow> between 48 c 57"

text \<open>\<open>str::split\<close> by a predicate, and the overlapping windows of a slice.\<close>

fun split_on :: "('a \<Rightarrow> bool) \<Rightarrow> 'a list \<Rightarrow> 'a list list" where
  "split_on P [] = [[]]"
| "split_on P (x # xs) =
     (if P x then [] # split_on P xs
      else case split_on P xs of [] \<Rightarrow> [[x]] | w # ws \<Rightarrow> (x # w) # ws)"

definition windows :: "nat \<Rightarrow> 'a list \<Rightarrow> 'a list list" where
  "windows n xs = map (\<lambda>i. take n (drop i xs)) [0..<length xs + 1 - n]"

definition split_words :: "utext \<Rightarrow> utext list" where
  "split_words run =
     filter (\<lambda>w. w \<noteq> []) (split_on (\<lambda>c. ascii_whitespace c \<or> ascii_punctuation c \<or> ascii_digit c) run)"

type_synonym fuzzy_token = "utext \<times> script_class"

definition ngram :: "script_class \<Rightarrow> nat" where
  "ngram s = (case granularity_of s of Bigram \<Rightarrow> 2 | Trigram \<Rightarrow> 3)"

definition run_tokens :: "unicode \<Rightarrow> script_run \<Rightarrow> fuzzy_token list" where
  "run_tokens uc = (\<lambda>(script, run).
     if script = UnknownScript then []
     else concat (map (\<lambda>word.
        let chars = concat (map (uc_lower uc) word) in
        if length chars < ngram script then []
        else map (\<lambda>w. (w, script)) (windows (ngram script) chars)) (split_words run)))"

definition generate_tokens :: "unicode \<Rightarrow> utext \<Rightarrow> fuzzy_token list" where
  "generate_tokens uc t = concat (map (run_tokens uc) (segment_by_script t))"

subsection \<open>Segmentation loses nothing and mixes nothing\<close>

definition run_ok :: "script_run \<Rightarrow> bool" where
  "run_ok r \<longleftrightarrow> fst r \<noteq> UnknownScript \<and>
     fst r \<in> detect_script ` set (snd r) \<and>
     detect_script ` set (snd r) \<subseteq> {fst r, UnknownScript}"

definition seg_inv :: "utext \<Rightarrow> script_run list \<times> utext \<Rightarrow> bool" where
  "seg_inv t st \<longleftrightarrow>
     concat (map snd (fst st)) @ snd st = t \<and>
     detect_script ` set (snd st) \<subseteq> {UnknownScript} \<and>
     list_all run_ok (fst st) \<and>
     distinct_adj (map fst (fst st))"

lemma run_ok_extend:
  "run_ok (k, xs) \<Longrightarrow> detect_script ` set ys \<subseteq> {k, UnknownScript} \<Longrightarrow> run_ok (k, xs @ ys)"
  by (auto simp: run_ok_def)

lemma push_char_inv:
  assumes "seg_inv t st"
  shows "seg_inv (t @ [c]) (push_char c st)"
proof -
  obtain runs pending where st: "st = (runs, pending)" by (cases st)
  have t: "concat (map snd runs) @ pending = t" and p: "detect_script ` set pending \<subseteq> {UnknownScript}"
    and ok: "list_all run_ok runs" and adj: "distinct_adj (map fst runs)"
    using assms by (simp_all add: seg_inv_def st)
  let ?cls = "detect_script c"
  consider (common) "?cls = UnknownScript" | (first) "?cls \<noteq> UnknownScript" "runs = []"
    | (same) "?cls \<noteq> UnknownScript" "runs \<noteq> []" "fst (last runs) = ?cls"
    | (other) "?cls \<noteq> UnknownScript" "runs \<noteq> []" "fst (last runs) \<noteq> ?cls" by blast
  then show ?thesis
  proof cases
    case common
    then show ?thesis using t p ok adj by (simp add: st push_char_def seg_inv_def)
  next
    case first
    then show ?thesis using t p by (auto simp: st push_char_def seg_inv_def run_ok_def)
  next
    case same
    obtain init w where runs: "runs = init @ [(?cls, w)]"
      using same by (metis append_butlast_last_id prod.collapse)
    have "run_ok (?cls, w @ pending @ [c])"
      using ok p runs by (intro run_ok_extend) auto
    then show ?thesis using t ok adj same(1)
      by (simp add: st push_char_def seg_inv_def runs)
  next
    case other
    obtain init k w where runs: "runs = init @ [(k, w)]"
      using other by (metis append_butlast_last_id prod.collapse)
    have "run_ok (k, w @ pending)" using ok p runs by (intro run_ok_extend) auto
    moreover have "run_ok (?cls, [c])" using other by (simp add: run_ok_def)
    ultimately show ?thesis using t ok adj other
      by (simp add: st push_char_def seg_inv_def runs distinct_adj_append_iff)
  qed
qed

lemma fold_push_char_inv: "seg_inv t st \<Longrightarrow> seg_inv (t @ cs) (fold push_char cs st)"
proof (induction cs arbitrary: t st)
  case (Cons c cs)
  then show ?case using Cons.IH[OF push_char_inv[OF Cons.prems, of c]] by simp
qed simp

text \<open>Segmentation cuts a text into runs and loses nothing: the runs joined are the text; no two
  neighbours have the same script; every run of a script has a character of it and otherwise only
  characters of no script; and a run of no script appears only when the whole text has none.\<close>

theorem segmentation_partitions:
  "concat (map snd (segment_by_script t)) = t \<and>
   distinct_adj (map fst (segment_by_script t)) \<and>
   (list_all run_ok (segment_by_script t) \<or>
    segment_by_script t = [(UnknownScript, t)] \<and> detect_script ` set t \<subseteq> {UnknownScript})"
proof -
  obtain runs pending where f: "fold push_char t ([], []) = (runs, pending)" by fastforce
  have "seg_inv ([] @ t) (fold push_char t ([], []))"
    by (rule fold_push_char_inv) (simp add: seg_inv_def)
  then have t: "concat (map snd runs) @ pending = t" and p: "detect_script ` set pending \<subseteq> {UnknownScript}"
    and ok: "list_all run_ok runs" and adj: "distinct_adj (map fst runs)"
    by (simp_all add: seg_inv_def f)
  consider (complete) "pending = []" | (common) "pending \<noteq> []" "runs = []" | (tail) "pending \<noteq> []" "runs \<noteq> []"
    by blast
  then show ?thesis
  proof cases
    case complete
    then show ?thesis using t ok adj by (simp add: segment_by_script_def f)
  next
    case common
    then show ?thesis using t p by (simp add: segment_by_script_def f)
  next
    case tail
    obtain init k w where runs: "runs = init @ [(k, w)]"
      using tail by (metis append_butlast_last_id prod.collapse)
    have "run_ok (k, w @ pending)" using ok p runs by (intro run_ok_extend) auto
    then show ?thesis using tail t ok adj by (simp add: segment_by_script_def f runs)
  qed
qed

lemma length_windows: "w \<in> set (windows n xs) \<Longrightarrow> length w = n"
  by (auto simp: windows_def)

lemma token_shape:
  "(w, s) \<in> set (generate_tokens uc t) \<Longrightarrow> s \<noteq> UnknownScript \<and> length w = ngram s"
  by (auto simp: generate_tokens_def run_tokens_def Let_def length_windows split: if_splits)

end
