(* ===== verification/Fuzzy_Search.thy ===== *)
theory Fuzzy_Search
  imports Tokenizer Local_Store
begin

text \<open>
  The fuzzy index (\<open>search/fuzzy_search.rs\<close>): indexing and removing a message in the table
  \<open>search_fuzzy\<close>, and the search by token overlap with its threshold per script.  The hash maps of
  the search are iterated in an unspecified order; every number computed from them is a sum, and the
  results are sorted by score and then by id, so the order does not show.  Scores are quotients of
  small integers, on which \<open>f64\<close> division and comparison agree with the rationals.
\<close>

subsection \<open>The index\<close>

text \<open>\<open>INSERT OR IGNORE\<close>: all three columns are the primary key.\<close>

definition insert_or_ignore :: "fuzzy_row \<Rightarrow> local_db \<Rightarrow> local_db" where
  "insert_or_ignore r db =
     (if r \<in> set (db_fuzzy db) then db else db\<lparr>db_fuzzy := db_fuzzy db @ [r]\<rparr>)"

definition token_row :: "string \<Rightarrow> fuzzy_token \<Rightarrow> fuzzy_row" where
  "token_row mid = (\<lambda>(w, s). \<lparr>fz_token = w, fz_script = to_iso_15924 s, fz_message_id = mid\<rparr>)"

definition index_message :: "unicode \<Rightarrow> string \<Rightarrow> utext \<Rightarrow> local_db \<Rightarrow> local_db" where
  "index_message uc mid t db =
     (let tokens = generate_tokens uc t in
      if tokens = [] then db
      else fst (fold (\<lambda>k (db, seen).
             if k \<in> set seen then (db, seen) else (insert_or_ignore (token_row mid k) db, k # seen))
           tokens (db, [])))"

definition unindex_message :: "string \<Rightarrow> local_db \<Rightarrow> local_db" where
  "unindex_message mid db = db\<lparr>db_fuzzy := delete_where (\<lambda>r. fz_message_id r = mid) (db_fuzzy db)\<rparr>"

subsection \<open>The search\<close>

record fuzzy_match =
  fm_message_id :: string
  fm_score :: real

definition query_set :: "fuzzy_token list \<Rightarrow> script_class \<Rightarrow> utext list" where
  "query_set tokens s = remdups (map fst (filter (\<lambda>k. snd k = s) tokens))"

definition matched_rows :: "local_db \<Rightarrow> fuzzy_token list \<Rightarrow> string \<Rightarrow> script_class \<Rightarrow> nat" where
  "matched_rows db tokens mid s = (\<Sum>w \<leftarrow> query_set tokens s.
     row_count (\<lambda>r. fz_token r = w \<and> fz_script r = to_iso_15924 s \<and> fz_message_id r = mid) (db_fuzzy db))"

definition fuzzy_accepted :: "(script_class \<Rightarrow> nat) \<Rightarrow> fuzzy_token list \<Rightarrow> bool" where
  "fuzzy_accepted matched tokens = list_ex (\<lambda>s.
     let q_n = length (query_set tokens s) in
     q_n \<noteq> 0 \<and> fuzzy_min_overlap s \<le> real (matched s) / real q_n) (remdups (map snd tokens))"

definition search_fuzzy :: "unicode \<Rightarrow> utext \<Rightarrow> nat \<Rightarrow> local_db \<Rightarrow> fuzzy_match list" where
  "search_fuzzy uc query limit db =
     (let tokens = generate_tokens uc query in
      if tokens = [] \<or> limit = 0 then []
      else
        let scripts = remdups (map snd tokens);
            q_count_total = (\<Sum>s \<leftarrow> scripts. length (query_set tokens s));
            mids = remdups (map fz_message_id
              (filter (\<lambda>r. list_ex (\<lambda>(w, s). fz_token r = w \<and> fz_script r = to_iso_15924 s) tokens) (db_fuzzy db)));
            results = map (\<lambda>mid. \<lparr>fm_message_id = mid,
                fm_score = real (\<Sum>s \<leftarrow> scripts. matched_rows db tokens mid s) / real q_count_total\<rparr>)
              (filter (\<lambda>mid. fuzzy_accepted (matched_rows db tokens mid) tokens) mids)
        in take limit (sort_key (\<lambda>m. (- fm_score m, fm_message_id m)) results))"

subsection \<open>The index as a map from messages to token sets\<close>

datatype fuzzy_op = IndexText string utext | Unindex string

primrec run_fuzzy :: "unicode \<Rightarrow> fuzzy_op \<Rightarrow> local_db \<Rightarrow> local_db" where
  "run_fuzzy uc (IndexText mid t) db = index_message uc mid t db"
| "run_fuzzy uc (Unindex mid) db = unindex_message mid db"

primrec spec_fuzzy :: "unicode \<Rightarrow> fuzzy_op \<Rightarrow> (string \<Rightarrow> fuzzy_token set) \<Rightarrow> string \<Rightarrow> fuzzy_token set" where
  "spec_fuzzy uc (IndexText mid t) S = S(mid := S mid \<union> set (generate_tokens uc t))"
| "spec_fuzzy uc (Unindex mid) S = S(mid := {})"

definition index_is :: "local_db \<Rightarrow> (string \<Rightarrow> fuzzy_token set) \<Rightarrow> bool" where
  "index_is db S \<longleftrightarrow> distinct (db_fuzzy db) \<and> set (db_fuzzy db) = {token_row mid k | mid k. k \<in> S mid}"

lemma token_row_inject [simp]: "token_row mid k = token_row mid' k' \<longleftrightarrow> mid = mid' \<and> k = k'"
  by (cases k; cases k') (auto simp: token_row_def)

lemma token_row_message [simp]: "fz_message_id (token_row mid k) = mid"
  by (cases k) (simp add: token_row_def)

lemma insert_or_ignore_fuzzy:
  "set (db_fuzzy (insert_or_ignore r db)) = insert r (set (db_fuzzy db))"
  "distinct (db_fuzzy db) \<Longrightarrow> distinct (db_fuzzy (insert_or_ignore r db))"
  by (auto simp: insert_or_ignore_def)

lemma fuzzy_index_fold:
  assumes "distinct (db_fuzzy db)" "\<forall>k \<in> set seen. token_row mid k \<in> set (db_fuzzy db)"
  shows "distinct (db_fuzzy (fst (fold (\<lambda>k (db, seen).
             if k \<in> set seen then (db, seen) else (insert_or_ignore (token_row mid k) db, k # seen))
           ks (db, seen)))) \<and>
     set (db_fuzzy (fst (fold (\<lambda>k (db, seen).
             if k \<in> set seen then (db, seen) else (insert_or_ignore (token_row mid k) db, k # seen))
           ks (db, seen)))) = set (db_fuzzy db) \<union> token_row mid ` set ks"
  using assms
proof (induction ks arbitrary: db seen)
  case (Cons k ks)
  show ?case
  proof (cases "k \<in> set seen")
    case True
    then show ?thesis using Cons.IH[OF Cons.prems] Cons.prems(2) by auto
  next
    case False
    have "distinct (db_fuzzy (insert_or_ignore (token_row mid k) db))"
      using Cons.prems(1) by (rule insert_or_ignore_fuzzy)
    moreover have "\<forall>j \<in> set (k # seen). token_row mid j \<in> set (db_fuzzy (insert_or_ignore (token_row mid k) db))"
      using Cons.prems(2) by (auto simp: insert_or_ignore_fuzzy)
    ultimately show ?thesis using Cons.IH[of "insert_or_ignore (token_row mid k) db" "k # seen"] False
      by (auto simp: insert_or_ignore_fuzzy)
  qed
qed simp

lemma index_message_is:
  assumes "index_is db S"
  shows "index_is (index_message uc mid t db) (spec_fuzzy uc (IndexText mid t) S)"
proof -
  let ?ks = "generate_tokens uc t"
  have d: "distinct (db_fuzzy db)" and s: "set (db_fuzzy db) = {token_row mid k | mid k. k \<in> S mid}"
    using assms by (simp_all add: index_is_def)
  have "distinct (db_fuzzy (index_message uc mid t db)) \<and>
      set (db_fuzzy (index_message uc mid t db)) = set (db_fuzzy db) \<union> token_row mid ` set ?ks"
    using fuzzy_index_fold[OF d, of "[]" mid ?ks] d by (simp add: index_message_def Let_def)
  moreover have "set (db_fuzzy db) \<union> token_row mid ` set ?ks =
      {token_row m k | m k. k \<in> spec_fuzzy uc (IndexText mid t) S m}"
    unfolding s by (auto split: if_splits)
  ultimately show ?thesis by (simp add: index_is_def)
qed

lemma unindex_message_is:
  assumes "index_is db S"
  shows "index_is (unindex_message mid db) (spec_fuzzy uc (Unindex mid) S)"
proof -
  have "distinct (db_fuzzy (unindex_message mid db))"
    using assms by (simp add: unindex_message_def delete_where_def index_is_def)
  moreover have "set (db_fuzzy (unindex_message mid db)) = {token_row m k | m k. k \<in> spec_fuzzy uc (Unindex mid) S m}"
    using assms by (auto simp: unindex_message_def index_is_def split: if_splits)
  ultimately show ?thesis by (simp add: index_is_def)
qed

lemma run_fuzzy_is:
  "index_is db S \<Longrightarrow> index_is (fold (run_fuzzy uc) ops db) (fold (spec_fuzzy uc) ops S)"
proof (induction ops arbitrary: db S)
  case (Cons x ops)
  have "index_is (run_fuzzy uc x db) (spec_fuzzy uc x S)"
    using Cons.prems index_message_is unindex_message_is by (cases x) simp_all
  then show ?case using Cons.IH by simp
qed simp

subsection \<open>What the search computes\<close>

definition tokens_of :: "fuzzy_token list \<Rightarrow> script_class \<Rightarrow> fuzzy_token set" where
  "tokens_of tokens s = {k \<in> set tokens. snd k = s}"

lemma finite_tokens_of [simp]: "finite (tokens_of tokens s)"
  by (simp add: tokens_of_def)

lemma query_set_tokens: "set (query_set tokens s) = fst ` tokens_of tokens s"
  by (auto simp: query_set_def tokens_of_def)

lemma card_tokens_of: "card (tokens_of tokens s \<inter> A) = card {w \<in> set (query_set tokens s). (w, s) \<in> A}"
proof -
  have "inj_on fst (tokens_of tokens s \<inter> A)" by (auto simp: tokens_of_def inj_on_def)
  moreover have "fst ` (tokens_of tokens s \<inter> A) = {w \<in> set (query_set tokens s). (w, s) \<in> A}"
    by (force simp: query_set_tokens tokens_of_def)
  ultimately show ?thesis by (metis card_image)
qed

lemma length_query_set: "length (query_set tokens s) = card (tokens_of tokens s)"
  using card_tokens_of[of tokens s UNIV] by (simp add: query_set_def length_remdups_card_conv)

lemma row_count_token:
  assumes "index_is db S"
  shows "row_count (\<lambda>r. fz_token r = w \<and> fz_script r = to_iso_15924 s \<and> fz_message_id r = mid) (db_fuzzy db) =
     (if (w, s) \<in> S mid then 1 else 0)"
proof -
  have P: "(fz_token r = w \<and> fz_script r = to_iso_15924 s \<and> fz_message_id r = mid) = (token_row mid (w, s) = r)" for r
    by (cases r) (auto simp: token_row_def)
  have "length (filter ((=) x) xs) = (if x \<in> set xs then 1 else 0)" if "distinct xs" for x :: fuzzy_row and xs
    using that by (induction xs) (auto simp: filter_empty_conv)
  then show ?thesis using assms unfolding row_count_def P index_is_def by auto
qed

lemma matched_rows_card:
  assumes "index_is db S"
  shows "matched_rows db tokens mid s = card (tokens_of tokens s \<inter> S mid)"
proof -
  have "matched_rows db tokens mid s = (\<Sum>w \<in> set (query_set tokens s). if (w, s) \<in> S mid then 1 else 0)"
    unfolding matched_rows_def row_count_token[OF assms]
    by (rule sum_list_distinct_conv_sum_set) (simp add: query_set_def)
  also have "\<dots> = card {w \<in> set (query_set tokens s). (w, s) \<in> S mid}"
    by (simp add: sum.If_cases Int_def)
  finally show ?thesis by (simp add: card_tokens_of)
qed

lemma sum_scripts:
  "(\<Sum>s \<leftarrow> remdups (map snd tokens). card (tokens_of tokens s \<inter> A)) = card (set tokens \<inter> A)"
proof -
  have "(\<Sum>s \<leftarrow> remdups (map snd tokens). card (tokens_of tokens s \<inter> A)) =
      (\<Sum>s \<in> snd ` set tokens. card (tokens_of tokens s \<inter> A))"
    by (subst sum_list_distinct_conv_sum_set) simp_all
  also have "\<dots> = card (\<Union>s \<in> snd ` set tokens. tokens_of tokens s \<inter> A)"
    by (rule card_UN_disjoint [symmetric]) (auto simp: tokens_of_def)
  also have "(\<Union>s \<in> snd ` set tokens. tokens_of tokens s \<inter> A) = set tokens \<inter> A"
    by (auto simp: tokens_of_def)
  finally show ?thesis .
qed

lemma fuzzy_accepted_spec:
  assumes "index_is db S"
  shows "fuzzy_accepted (matched_rows db tokens mid) tokens \<longleftrightarrow>
     (\<exists>s. tokens_of tokens s \<noteq> {} \<and>
        fuzzy_min_overlap s * card (tokens_of tokens s) \<le> card (tokens_of tokens s \<inter> S mid))"
proof -
  have "s \<in> snd ` set tokens \<longleftrightarrow> tokens_of tokens s \<noteq> {}" for s by (force simp: tokens_of_def)
  moreover have "length (query_set tokens s) \<noteq> 0 \<longleftrightarrow> tokens_of tokens s \<noteq> {}" for s
    by (simp add: length_query_set card_eq_0_iff)
  moreover have "fuzzy_min_overlap s \<le> real m / real (card (tokens_of tokens s)) \<longleftrightarrow>
      fuzzy_min_overlap s * card (tokens_of tokens s) \<le> m" if "tokens_of tokens s \<noteq> {}" for s m
    using that by (simp add: pos_le_divide_eq card_gt_0_iff)
  ultimately show ?thesis
    unfolding fuzzy_accepted_def Let_def list_ex_iff matched_rows_card[OF assms] set_remdups set_map length_query_set
    by (metis (no_types, lifting) card_eq_0_iff finite_tokens_of)
qed

lemma overlap_pos: "0 < fuzzy_min_overlap s" and overlap_le: "fuzzy_min_overlap s \<le> 1"
  by (cases "granularity_of s"; simp add: fuzzy_min_overlap_def)+

lemma index_row: "index_is db S \<Longrightarrow> token_row mid k \<in> set (db_fuzzy db) \<longleftrightarrow> k \<in> S mid"
  unfolding index_is_def by (auto simp del: split_paired_Ex)

lemma accepted_has_row:
  assumes "index_is db S" "tokens_of tokens s \<noteq> {}"
    and "fuzzy_min_overlap s * card (tokens_of tokens s) \<le> card (tokens_of tokens s \<inter> S mid)"
  obtains k where "k \<in> set tokens" "token_row mid k \<in> set (db_fuzzy db)"
proof -
  have "0 < fuzzy_min_overlap s * card (tokens_of tokens s)"
    using assms(2) overlap_pos by (simp add: card_gt_0_iff)
  then have "card (tokens_of tokens s \<inter> S mid) \<noteq> 0" using assms(3) by linarith
  then obtain k where "k \<in> tokens_of tokens s" "k \<in> S mid" by (metis card.empty disjoint_iff)
  then show thesis using that[of k] index_row[OF assms(1), of mid k] by (simp add: tokens_of_def)
qed

lemma search_fuzzy_index:
  assumes ix: "index_is db S"
  shows "let tokens = generate_tokens uc query;
       accepted = {mid. \<exists>s. tokens_of tokens s \<noteq> {} \<and>
          fuzzy_min_overlap s * card (tokens_of tokens s) \<le> card (tokens_of tokens s \<inter> S mid)}
   in \<exists>ms. search_fuzzy uc query limit db = take limit ms \<and>
        distinct (map fm_message_id ms) \<and>
        sorted (map (\<lambda>m. (- fm_score m, fm_message_id m)) ms) \<and>
        set ms = (\<lambda>mid. \<lparr>fm_message_id = mid,
           fm_score = card (set tokens \<inter> S mid) / card (set tokens)\<rparr>) ` accepted"
proof -
  define tokens where "tokens = generate_tokens uc query"
  define accepted where "accepted = {mid. \<exists>s. tokens_of tokens s \<noteq> {} \<and>
          fuzzy_min_overlap s * card (tokens_of tokens s) \<le> card (tokens_of tokens s \<inter> S mid)}"
  let ?res = "\<lambda>mid. \<lparr>fm_message_id = mid, fm_score = card (set tokens \<inter> S mid) / card (set tokens)\<rparr>"
  define mids where "mids = remdups (map fz_message_id
     (filter (\<lambda>r. list_ex (\<lambda>(w, s). fz_token r = w \<and> fz_script r = to_iso_15924 s) tokens) (db_fuzzy db)))"
  define hits where "hits = filter (\<lambda>mid. fuzzy_accepted (matched_rows db tokens mid) tokens) mids"
  define ms where "ms = sort_key (\<lambda>m. (- fm_score m, fm_message_id m)) (map ?res hits)"
  have hit: "mid \<in> accepted \<longleftrightarrow> fuzzy_accepted (matched_rows db tokens mid) tokens" for mid
    using fuzzy_accepted_spec[OF ix] by (simp add: accepted_def)
  have mids: "mid \<in> set mids" if "mid \<in> accepted" for mid
  proof -
    obtain s where s: "tokens_of tokens s \<noteq> {}"
        "fuzzy_min_overlap s * card (tokens_of tokens s) \<le> card (tokens_of tokens s \<inter> S mid)"
      using \<open>mid \<in> accepted\<close> by (auto simp: accepted_def)
    obtain k where k: "k \<in> set tokens" "token_row mid k \<in> set (db_fuzzy db)"
      using accepted_has_row[OF ix s] .
    have "list_ex (\<lambda>(w, s). fz_token (token_row mid k) = w \<and> fz_script (token_row mid k) = to_iso_15924 s) tokens"
      using k(1) unfolding list_ex_iff by (intro bexI[of _ k]) (simp_all add: token_row_def case_prod_unfold)
    then show ?thesis using k(2) by (force simp: mids_def)
  qed
  have set_hits: "set hits = accepted" using hit mids by (auto simp: hits_def)
  have total: "(\<Sum>s \<leftarrow> remdups (map snd tokens). length (query_set tokens s)) = card (set tokens)"
    using sum_scripts[of tokens UNIV] by (simp add: length_query_set)
  have score: "(\<Sum>s \<leftarrow> remdups (map snd tokens). matched_rows db tokens mid s) = card (set tokens \<inter> S mid)" for mid
    unfolding matched_rows_card[OF ix] by (rule sum_scripts)
  have none: "accepted = {}" if "tokens = []" using that by (simp add: accepted_def tokens_of_def)
  have search: "search_fuzzy uc query limit db = take limit ms"
  proof (cases "tokens = [] \<or> limit = 0")
    case True
    moreover have "ms = []" if "tokens = []"
      using none[OF that] set_hits by (simp add: ms_def)
    ultimately show ?thesis by (auto simp: search_fuzzy_def tokens_def)
  next
    case False
    then show ?thesis
      unfolding search_fuzzy_def tokens_def[symmetric] Let_def score total ms_def hits_def mids_def
      by (simp only: if_False)
  qed
  moreover have "distinct (map fm_message_id ms)"
    unfolding ms_def by (rule sort_key_distinct_map) (simp add: o_def hits_def mids_def)
  moreover have "sorted (map (\<lambda>m. (- fm_score m, fm_message_id m)) ms)" by (simp add: ms_def)
  moreover have "set ms = ?res ` accepted" by (simp add: ms_def set_hits)
  ultimately show ?thesis
    unfolding Let_def tokens_def[symmetric] accepted_def[symmetric] by blast
qed

text \<open>What a fuzzy search returns, after any history of indexing and removing messages: a message is
  accepted exactly when, in some script of the query, its tokens cover at least the share of the
  query's tokens the script asks for (a half for ideographs and kana, a third elsewhere); its score
  is the share of all the query's tokens it covers; the accepted messages come, each once, by
  descending score and then by id, cut at the limit.  The tokens of a message are those of all texts
  indexed for it since it was last removed.\<close>

theorem fuzzy_search_spec:
  "let S = fold (spec_fuzzy uc) ops (\<lambda>_. {});
       db = fold (run_fuzzy uc) ops (db0\<lparr>db_fuzzy := []\<rparr>);
       tokens = generate_tokens uc query;
       accepted = {mid. \<exists>s. tokens_of tokens s \<noteq> {} \<and>
          fuzzy_min_overlap s * card (tokens_of tokens s) \<le> card (tokens_of tokens s \<inter> S mid)}
   in \<exists>ms. search_fuzzy uc query limit db = take limit ms \<and>
        distinct (map fm_message_id ms) \<and>
        sorted (map (\<lambda>m. (- fm_score m, fm_message_id m)) ms) \<and>
        set ms = (\<lambda>mid. \<lparr>fm_message_id = mid,
           fm_score = card (set tokens \<inter> S mid) / card (set tokens)\<rparr>) ` accepted"
proof -
  have "index_is (fold (run_fuzzy uc) ops (db0\<lparr>db_fuzzy := []\<rparr>)) (fold (spec_fuzzy uc) ops (\<lambda>_. {}))"
    by (rule run_fuzzy_is) (simp add: index_is_def)
  from search_fuzzy_index[OF this, of uc query limit] show ?thesis by (simp only: Let_def)
qed

text \<open>A message is found by its own words: after indexing a text that contains all tokens of the
  query, and the query has one, the message is in the results with the best score there is, provided
  the limit leaves room for all indexed messages.\<close>

theorem fuzzy_finds_indexed:
  assumes "generate_tokens uc query \<noteq> []"
    and "set (generate_tokens uc query) \<subseteq> set (generate_tokens uc t)"
    and "card (fz_message_id ` set (db_fuzzy
           (index_message uc mid t (fold (run_fuzzy uc) ops (db0\<lparr>db_fuzzy := []\<rparr>))))) \<le> limit"
  shows "\<lparr>fm_message_id = mid, fm_score = 1\<rparr> \<in> set (search_fuzzy uc query limit
     (index_message uc mid t (fold (run_fuzzy uc) ops (db0\<lparr>db_fuzzy := []\<rparr>))))"
proof -
  define S where "S = fold (spec_fuzzy uc) (ops @ [IndexText mid t]) (\<lambda>_. {})"
  define db where "db = fold (run_fuzzy uc) (ops @ [IndexText mid t]) (db0\<lparr>db_fuzzy := []\<rparr>)"
  let ?Q = "generate_tokens uc query"
  have ix: "index_is db S" unfolding db_def S_def by (rule run_fuzzy_is) (simp add: index_is_def)
  let ?acc = "{mid. \<exists>s. tokens_of ?Q s \<noteq> {} \<and>
          fuzzy_min_overlap s * card (tokens_of ?Q s) \<le> card (tokens_of ?Q s \<inter> S mid)}"
  obtain ms where ms: "search_fuzzy uc query limit db = take limit ms" "distinct (map fm_message_id ms)"
      "set ms = (\<lambda>mid. \<lparr>fm_message_id = mid, fm_score = card (set ?Q \<inter> S mid) / card (set ?Q)\<rparr>) ` ?acc"
    using search_fuzzy_index[OF ix, of uc query limit] unfolding Let_def by blast
  have sub: "set ?Q \<subseteq> S mid" using assms(2) by (auto simp: S_def)
  obtain k where k: "k \<in> set ?Q" using assms(1) by (meson list.set_sel(1))
  have all: "tokens_of ?Q (snd k) \<inter> S mid = tokens_of ?Q (snd k)" "k \<in> tokens_of ?Q (snd k)"
    using sub k by (auto simp: tokens_of_def)
  have "fuzzy_min_overlap (snd k) * real (card (tokens_of ?Q (snd k))) \<le> 1 * real (card (tokens_of ?Q (snd k)))"
    by (rule mult_right_mono) (simp_all add: overlap_le)
  then have acc: "mid \<in> ?acc" using all by auto
  have "card (set ?Q \<inter> S mid) / card (set ?Q) = 1" using sub assms(1) by (simp add: Int_absorb2)
  then have mem: "\<lparr>fm_message_id = mid, fm_score = 1\<rparr> \<in> set ms"
    unfolding ms(3) using acc by (metis (mono_tags, lifting) imageI)
  have in_table: "m \<in> fz_message_id ` set (db_fuzzy db)" if m: "m \<in> ?acc" for m
  proof -
    obtain s where s: "tokens_of ?Q s \<noteq> {}"
        "fuzzy_min_overlap s * card (tokens_of ?Q s) \<le> card (tokens_of ?Q s \<inter> S m)"
      using m by auto
    obtain j where "token_row m j \<in> set (db_fuzzy db)" using accepted_has_row[OF ix s] .
    then show ?thesis by force
  qed
  have "fm_message_id ` set ms \<subseteq> fz_message_id ` set (db_fuzzy db)"
  proof
    fix x assume "x \<in> fm_message_id ` set ms"
    then have "x \<in> ?acc" unfolding ms(3) by auto
    then show "x \<in> fz_message_id ` set (db_fuzzy db)" by (rule in_table)
  qed
  then have "card (fm_message_id ` set ms) \<le> card (fz_message_id ` set (db_fuzzy db))"
    by (intro card_mono) simp_all
  then have "length ms \<le> limit"
    using assms(3) distinct_card[OF ms(2)] by (simp add: db_def)
  then show ?thesis using mem ms(1) by (simp add: db_def)
qed

definition ascii_only :: unicode where
  "ascii_only = \<lparr>uc_lower = (\<lambda>c. if 65 \<le> c \<and> c \<le> 90 then [c + 32] else [c]),
     uc_cased = (\<lambda>c. 65 \<le> c \<and> c \<le> 90 \<or> 97 \<le> c \<and> c \<le> 122),
     uc_case_ignorable = (\<lambda>c. c = 39), uc_whitespace = (\<lambda>c. c \<in> {9, 10, 11, 12, 13, 32})\<rparr>"

theorem fuzzy_finds_indexed_witness:
  "\<lparr>fm_message_id = ''m1'', fm_score = 1\<rparr> \<in> set (search_fuzzy ascii_only [77, 69, 69, 84] 5
     (index_message ascii_only ''m1'' [109, 101, 101, 116, 105, 110, 103]
       (fold (run_fuzzy ascii_only) [] (empty_db\<lparr>db_fuzzy := []\<rparr>))))"
proof (rule fuzzy_finds_indexed)
  have q: "generate_tokens ascii_only [77, 69, 69, 84] = [([109, 101, 101], Latn), ([101, 101, 116], Latn)]"
    by code_simp
  have t: "generate_tokens ascii_only [109, 101, 101, 116, 105, 110, 103] =
      [([109, 101, 101], Latn), ([101, 101, 116], Latn), ([101, 116, 105], Latn), ([116, 105, 110], Latn),
       ([105, 110, 103], Latn)]"
    by code_simp
  show "generate_tokens ascii_only [77, 69, 69, 84] \<noteq> []"
    "set (generate_tokens ascii_only [77, 69, 69, 84]) \<subseteq>
       set (generate_tokens ascii_only [109, 101, 101, 116, 105, 110, 103])"
    by (simp_all add: q t)
  let ?ids = "fz_message_id ` set (db_fuzzy (index_message ascii_only ''m1'' [109, 101, 101, 116, 105, 110, 103]
      (fold (run_fuzzy ascii_only) [] (empty_db\<lparr>db_fuzzy := []\<rparr>))))"
  have "?ids \<subseteq> {''m1''}"
    using fuzzy_index_fold[of "empty_db\<lparr>db_fuzzy := []\<rparr>" "[]" "''m1''"
        "generate_tokens ascii_only [109, 101, 101, 116, 105, 110, 103]"]
    by (auto simp: index_message_def Let_def)
  then have "card ?ids \<le> card {''m1''}" by (intro card_mono) simp_all
  also have "card {''m1''} \<le> 5" by simp
  finally show "card ?ids \<le> 5" .
qed

end
