(* ===== verification/Cold_Search.thy ===== *)
theory Cold_Search
  imports Time_Buckets Tokenizer Fuzzy_Search Shard_Cache
begin

text \<open>
  Search across the personal archive (\<open>search/query_engine.rs\<close>): which cold buckets a query opens,
  the three shards of a bucket behind the shard cache, merging their hits into the local ones, and
  the sequential, the parallel and the streaming entry point.  The local pass (SQLite's FTS5 and the
  fuzzy index) is the argument \<open>local\<close>; the cold source is a record of functions, so it answers the
  same request the same way throughout a search.  Ranks are reals; \<open>f64\<close> rounding is not modelled.
\<close>

subsection \<open>Queries and results\<close>

datatype content_filter = TextKind | ImageKind | VideoKind | AudioKind | DocumentKind | AnyKind

datatype search_scope = LocalOnly | IncludeCold

datatype search_target =
    ConversationTarget nat
  | ConversationGroup "nat list"
  | Channel nat
  | CommunityTarget nat
  | DomainTarget nat
  | TenantTarget string
  | B2cAll
  | Starred
  | Unread
  | Global

record search_query =
  sq_string :: utext
  sq_sender :: "string option"
  sq_conversation :: "nat option"
  sq_date_from :: "int option"
  sq_date_to :: "int option"
  sq_kind :: "content_filter option"
  sq_target :: search_target

record search_result =
  sr_message_id :: nat
  sr_conversation_id :: nat
  sr_sender_id :: string
  sr_created_at_ms :: int
  sr_snippet :: "utext option"
  sr_rank :: real
  sr_is_cold :: bool
  sr_semantic :: "real option"

record search_policy =
  sp_allow_global_search :: bool
  sp_allow_cross_tenant_results :: bool
  sp_max_cold_buckets :: nat
  sp_require_bloom_shards :: bool

definition default_search_policy :: search_policy where
  "default_search_policy = \<lparr>sp_allow_global_search = True, sp_allow_cross_tenant_results = False,
     sp_max_cold_buckets = 50, sp_require_bloom_shards = False\<rparr>"

text \<open>What the engine takes from outside: the Unicode tables, the keyed hash of the bloom filter, the
  text form of message ids and the sizes of the cached structs.\<close>

record search_env =
  se_unicode :: unicode
  se_hash :: "bytes \<Rightarrow> bytes \<Rightarrow> bytes"
  se_parse_uuid :: "string \<Rightarrow> nat option"
  se_show_uuid :: "nat \<Rightarrow> string"
  se_sizes :: struct_sizes

record 'e cold_source =
  cs_cold_buckets :: "'e + (string \<times> string) list"
  cs_bloom :: "string \<Rightarrow> string \<Rightarrow> 'e + bloom_filter option"
  cs_text :: "string \<Rightarrow> string \<Rightarrow> 'e + fts_row list"
  cs_fuzzy :: "string \<Rightarrow> string \<Rightarrow> 'e + fuzzy_row list"

definition effective_target :: "search_query \<Rightarrow> search_target" where
  "effective_target q =
     (if sq_target q = Global then (case sq_conversation q of Some c \<Rightarrow> ConversationTarget c | None \<Rightarrow> Global)
      else sq_target q)"

text \<open>With the default resolver, a channel is the conversation of the same id and nothing is starred or
  unread.\<close>

definition resolve_target :: "(nat \<Rightarrow> string) \<Rightarrow> local_db \<Rightarrow> search_target \<Rightarrow> string list option" where
  "resolve_target show_uuid db t = (case t of
      Global \<Rightarrow> None
    | ConversationTarget c \<Rightarrow> Some [show_uuid c]
    | ConversationGroup cs \<Rightarrow> Some (map show_uuid cs)
    | Channel c \<Rightarrow> Some [show_uuid c]
    | CommunityTarget c \<Rightarrow> Some (map cv_id (list_conversations_by_column Community (show_uuid c) db))
    | DomainTarget d \<Rightarrow> Some (map cv_id (list_conversations_by_column Domain (show_uuid d) db))
    | TenantTarget t \<Rightarrow> Some (map cv_id (list_conversations_by_column Tenant t db))
    | B2cAll \<Rightarrow> Some (map cv_id (list_conversations_by_column Scope ''b2c'' db))
    | Starred \<Rightarrow> Some []
    | Unread \<Rightarrow> Some [])"

subsection \<open>Words\<close>

definition skip_ignorable_cased :: "unicode \<Rightarrow> utext \<Rightarrow> bool" where
  "skip_ignorable_cased uc cs = (case dropWhile (uc_case_ignorable uc) cs of [] \<Rightarrow> False | c # _ \<Rightarrow> uc_cased uc c)"

text \<open>\<open>str::to_lowercase\<close>: a capital sigma becomes a final sigma at the end of a word.\<close>

definition str_to_lowercase :: "unicode \<Rightarrow> utext \<Rightarrow> utext" where
  "str_to_lowercase uc t = concat (map (\<lambda>i.
     if t ! i = 0x3A3 then
       (if skip_ignorable_cased uc (rev (take i t)) \<and> \<not> skip_ignorable_cased uc (drop (Suc i) t)
        then [0x3C2] else [0x3C3])
     else uc_lower uc (t ! i)) [0..<length t])"

definition trim :: "unicode \<Rightarrow> utext \<Rightarrow> utext" where
  "trim uc t = rev (dropWhile (uc_whitespace uc) (rev (dropWhile (uc_whitespace uc) t)))"

fun contains_text :: "utext \<Rightarrow> utext \<Rightarrow> bool" where
  "contains_text w [] = (w = [])"
| "contains_text w (c # cs) = (take (length w) (c # cs) = w \<or> contains_text w cs)"

definition push_word :: "unicode \<Rightarrow> utext \<Rightarrow> utext list \<Rightarrow> utext list" where
  "push_word uc raw out =
     (if raw = [] then out
      else let lower = concat (map (uc_lower uc) raw) in
        if lower = [] \<or> lower \<in> set out then out else out @ [lower])"

definition lowercase_word_set :: "unicode \<Rightarrow> utext \<Rightarrow> utext list" where
  "lowercase_word_set uc query =
     fold (push_word uc) (split_on (\<lambda>c. uc_whitespace uc c \<or> ascii_punctuation c) query) []"

definition utf8_char :: "nat \<Rightarrow> bytes" where
  "utf8_char c = map word_of_nat
     (if c < 128 then [c]
      else if c < 2048 then [192 + c div 64, 128 + c mod 64]
      else if c < 65536 then [224 + c div 4096, 128 + c div 64 mod 64, 128 + c mod 64]
      else [240 + c div 262144, 128 + c div 4096 mod 64, 128 + c div 64 mod 64, 128 + c mod 64])"

definition utf8 :: "utext \<Rightarrow> bytes" where
  "utf8 t = concat (map utf8_char t)"

definition bloom_may_match :: "search_env \<Rightarrow> bloom_filter \<Rightarrow> utext list \<Rightarrow> bool" where
  "bloom_may_match env f ws = list_ex (\<lambda>w. maybe_contains (se_hash env) f (utf8 w)) ws"

subsection \<open>Merging\<close>

type_synonym hit_map = "(string \<times> search_result) list"

definition hit_insert :: "string \<Rightarrow> search_result \<Rightarrow> hit_map \<Rightarrow> hit_map" where
  "hit_insert k r m =
     (if k \<in> fst ` set m then map (\<lambda>(j, x). if j = k then (j, r) else (j, x)) m else m @ [(k, r)])"

definition sender_filter_matches :: "search_query \<Rightarrow> string \<Rightarrow> bool" where
  "sender_filter_matches q sender = (case sq_sender q of Some s \<Rightarrow> s = sender | None \<Rightarrow> True)"

definition date_filter_matches :: "search_query \<Rightarrow> int \<Rightarrow> bool" where
  "date_filter_matches q created_at_ms =
     (if (case sq_date_from q of Some f \<Rightarrow> created_at_ms < f | None \<Rightarrow> False) then False
      else if (case sq_date_to q of Some t \<Rightarrow> created_at_ms > t | None \<Rightarrow> False) then False
      else True)"

definition merge_cold_hit ::
  "search_env \<Rightarrow> string \<Rightarrow> string \<Rightarrow> string \<Rightarrow> int \<Rightarrow> real \<Rightarrow> hit_map \<Rightarrow> hit_map" where
  "merge_cold_hit env mid cid sender created_at_ms rank by_id =
     (if mid \<in> fst ` set by_id
      then map (\<lambda>(k, r). if k = mid then (k, r\<lparr>sr_rank := sr_rank r + rank\<rparr>) else (k, r)) by_id
      else by_id @ [(mid,
        \<lparr>sr_message_id = (case se_parse_uuid env mid of Some u \<Rightarrow> u | None \<Rightarrow> 0),
         sr_conversation_id = (case se_parse_uuid env cid of Some u \<Rightarrow> u | None \<Rightarrow> 0),
         sr_sender_id = sender, sr_created_at_ms = created_at_ms, sr_snippet = None, sr_rank = rank,
         sr_is_cold = True, sr_semantic = None\<rparr>)])"

text \<open>\<open>bm25\<close> is the weight of a matched word, \<open>fuzzy\<close> that of the fuzzy overlap.\<close>

definition bm25_weight :: real where "bm25_weight = 2"
definition fuzzy_weight :: real where "fuzzy_weight = 1"

definition matched_words :: "search_env \<Rightarrow> utext list \<Rightarrow> fts_row \<Rightarrow> nat" where
  "matched_words env q_words row =
     length (filter (\<lambda>w. contains_text w (str_to_lowercase (se_unicode env) (ft_text row))) q_words)"

definition merge_text_row :: "search_env \<Rightarrow> search_query \<Rightarrow> utext list \<Rightarrow> fts_row \<Rightarrow> hit_map \<Rightarrow> hit_map" where
  "merge_text_row env q q_words row by_id =
     (if \<not> sender_filter_matches q (ft_sender_id row) then by_id
      else if \<not> date_filter_matches q (ft_created_at_ms row) then by_id
      else let matched = matched_words env q_words row in
        if matched = 0 then by_id
        else merge_cold_hit env (ft_message_id row) (ft_conversation_id row) (ft_sender_id row)
               (ft_created_at_ms row) (real matched * bm25_weight) by_id)"

text \<open>The fuzzy rows of a shard that are tokens of the query, as pairs of message and script.\<close>

definition counted_rows :: "fuzzy_token list \<Rightarrow> fuzzy_row list \<Rightarrow> (string \<times> script_class) list" where
  "counted_rows tokens rows = concat (map (\<lambda>r.
     let s = from_iso_15924 (fz_script r) in
     if s \<in> snd ` set tokens \<and> fz_token r \<in> set (query_set tokens s) then [(fz_message_id r, s)] else []) rows)"

definition merge_fuzzy_message ::
  "search_env \<Rightarrow> search_query \<Rightarrow> fuzzy_token list \<Rightarrow> fts_row list \<Rightarrow> (string \<times> script_class) list \<Rightarrow>
   string \<Rightarrow> hit_map \<Rightarrow> hit_map" where
  "merge_fuzzy_message env q tokens fts_rows counts mid by_id =
     (case select_one ft_message_id mid (rev fts_rows) of
        None \<Rightarrow> by_id
      | Some row \<Rightarrow>
          if \<not> sender_filter_matches q (ft_sender_id row) then by_id
          else if \<not> date_filter_matches q (ft_created_at_ms row) then by_id
          else let matched = (\<lambda>s. count_list counts (mid, s));
                   scripts = remdups (map snd tokens);
                   total_matched = (\<Sum>s \<leftarrow> scripts. matched s);
                   q_count = (\<Sum>s \<leftarrow> scripts. length (query_set tokens s))
               in if \<not> fuzzy_accepted matched tokens then by_id
                  else merge_cold_hit env mid (ft_conversation_id row) (ft_sender_id row)
                         (ft_created_at_ms row) (real total_matched / real q_count * fuzzy_weight) by_id)"

definition merge_bucket_rows_into_by_id ::
  "search_env \<Rightarrow> search_query \<Rightarrow> utext list \<Rightarrow> fuzzy_token list \<Rightarrow> fts_row list \<Rightarrow> fuzzy_row list \<Rightarrow>
   hit_map \<Rightarrow> hit_map" where
  "merge_bucket_rows_into_by_id env q q_words tokens fts_rows fuzzy_rows by_id =
     (let by_id = fold (merge_text_row env q q_words) fts_rows by_id in
      if tokens = [] then by_id
      else let counts = counted_rows tokens fuzzy_rows in
        fold (merge_fuzzy_message env q tokens fts_rows counts) (remdups (map fst counts)) by_id)"

subsection \<open>Ranking\<close>

definition recency_factor :: "int \<Rightarrow> int \<Rightarrow> real" where
  "recency_factor now_ms created_at_ms =
     (let age_days = real_of_int (max (now_ms - created_at_ms) 0) / 86400000;
          recency_score = exp (- (ln 2 / 30) * age_days)
      in (1 - 1 / 2) + 1 / 2 * recency_score)"

definition apply_cold_recency_weight ::
  "search_env \<Rightarrow> string list \<Rightarrow> search_result list \<Rightarrow> search_result list" where
  "apply_cold_recency_weight env local_ids results =
     (if results = [] then []
      else let now_ms = Max (set (map sr_created_at_ms results)) in
        map (\<lambda>r. if se_show_uuid env (sr_message_id r) \<in> set local_ids then r
                 else r\<lparr>sr_rank := sr_rank r * (recency_factor now_ms (sr_created_at_ms r) * 1)\<rparr>) results)"

definition result_order :: "search_result \<Rightarrow> real \<times> int \<times> nat" where
  "result_order r = (- sr_rank r, - sr_created_at_ms r, sr_message_id r)"

definition finish_search :: "search_env \<Rightarrow> string list \<Rightarrow> nat \<Rightarrow> hit_map \<Rightarrow> search_result list" where
  "finish_search env local_ids limit by_id =
     take limit (sort_key result_order (apply_cold_recency_weight env local_ids (map snd by_id)))"

definition local_hits :: "search_env \<Rightarrow> search_result list \<Rightarrow> hit_map" where
  "local_hits env local_results =
     fold (\<lambda>r. hit_insert (se_show_uuid env (sr_message_id r)) r) local_results []"

subsection \<open>Which buckets\<close>

text \<open>\<open>None\<close>: the search is local only.\<close>

definition goes_cold :: "search_env \<Rightarrow> search_query \<Rightarrow> search_scope \<Rightarrow> search_policy \<Rightarrow> bool" where
  "goes_cold env q scope policy \<longleftrightarrow>
     scope = IncludeCold \<and>
     trim (se_unicode env) (sq_string q) \<noteq> [] \<and>
     (case sq_kind q of None \<Rightarrow> True | Some k \<Rightarrow> k = TextKind \<or> k = AnyKind) \<and>
     (effective_target q = Global \<longrightarrow> sp_allow_global_search policy)"

definition in_scope_buckets ::
  "search_env \<Rightarrow> local_db \<Rightarrow> search_query \<Rightarrow> (string \<times> string) list \<Rightarrow> (string \<times> string) list" where
  "in_scope_buckets env db q buckets =
     (let conv_filter = map_option (se_show_uuid env) (sq_conversation q);
          target_set = resolve_target (se_show_uuid env) db (effective_target q)
      in filter (\<lambda>(_, bucket). bucket_overlaps_date_range bucket (sq_date_from q) (sq_date_to q))
           (filter (\<lambda>(c, _). case target_set of None \<Rightarrow> True | Some cs \<Rightarrow> c \<in> set cs)
             (filter (\<lambda>(c, _). case conv_filter of None \<Rightarrow> True | Some cf \<Rightarrow> cf = c) buckets)))"

subsection \<open>Shards behind the cache\<close>

type_synonym cache_slot = "shard_lru_cache option"

definition shard_key :: "string \<Rightarrow> string \<Rightarrow> index_type \<Rightarrow> shard_cache_key" where
  "shard_key conv bucket i = \<lparr>sk_conversation = conv, sk_time_bucket = bucket, sk_index_type = i\<rparr>"

definition cache_lookup :: "shard_cache_key \<Rightarrow> cache_slot \<Rightarrow> cache_slot \<times> cached_shard option" where
  "cache_lookup k slot = (case slot of None \<Rightarrow> (None, None) | Some c \<Rightarrow> map_prod Some id (shard_get k c))"

definition cache_store :: "search_env \<Rightarrow> shard_cache_key \<Rightarrow> cached_shard \<Rightarrow> cache_slot \<Rightarrow> cache_slot" where
  "cache_store env k v slot = map_option (shard_put (approximate_bytes (se_sizes env)) k v) slot"

definition cold_source_fetch_text_with_cache ::
  "search_env \<Rightarrow> 'e cold_source \<Rightarrow> string \<Rightarrow> string \<Rightarrow> cache_slot \<Rightarrow> ('e + fts_row list) \<times> cache_slot" where
  "cold_source_fetch_text_with_cache env src conv bucket slot =
     (case cache_lookup (shard_key conv bucket TextIndex) slot of
        (slot, Some (TextShard rows)) \<Rightarrow> (Inr rows, slot)
      | (slot, _) \<Rightarrow> (case cs_text src conv bucket of
            Inl e \<Rightarrow> (Inl e, slot)
          | Inr rows \<Rightarrow> (Inr rows, cache_store env (shard_key conv bucket TextIndex) (TextShard rows) slot)))"

definition cold_source_fetch_fuzzy_with_cache ::
  "search_env \<Rightarrow> 'e cold_source \<Rightarrow> string \<Rightarrow> string \<Rightarrow> cache_slot \<Rightarrow> ('e + fuzzy_row list) \<times> cache_slot" where
  "cold_source_fetch_fuzzy_with_cache env src conv bucket slot =
     (case cache_lookup (shard_key conv bucket FuzzyIndex) slot of
        (slot, Some (FuzzyShard rows)) \<Rightarrow> (Inr rows, slot)
      | (slot, _) \<Rightarrow> (case cs_fuzzy src conv bucket of
            Inl e \<Rightarrow> (Inl e, slot)
          | Inr rows \<Rightarrow> (Inr rows, cache_store env (shard_key conv bucket FuzzyIndex) (FuzzyShard rows) slot)))"

definition cold_source_fetch_bloom_with_cache ::
  "search_env \<Rightarrow> 'e cold_source \<Rightarrow> string \<Rightarrow> string \<Rightarrow> cache_slot \<Rightarrow> bloom_filter option \<times> cache_slot" where
  "cold_source_fetch_bloom_with_cache env src conv bucket slot =
     (case cache_lookup (shard_key conv bucket BloomIndex) slot of
        (slot, Some (BloomShard f)) \<Rightarrow> (Some f, slot)
      | (slot, _) \<Rightarrow> (case cs_bloom src conv bucket of
            Inl e \<Rightarrow> (None, slot)
          | Inr None \<Rightarrow> (None, slot)
          | Inr (Some f) \<Rightarrow> (Some f, cache_store env (shard_key conv bucket BloomIndex) (BloomShard f) slot)))"

definition bloom_rejects :: "search_env \<Rightarrow> search_policy \<Rightarrow> utext list \<Rightarrow> bloom_filter option \<Rightarrow> bool" where
  "bloom_rejects env policy q_words bloom =
     (if sp_require_bloom_shards policy \<and> bloom = None then True
      else case bloom of Some f \<Rightarrow> q_words \<noteq> [] \<and> \<not> bloom_may_match env f q_words | None \<Rightarrow> False)"

subsection \<open>The sequential search\<close>

fun cold_loop ::
  "search_env \<Rightarrow> 'e cold_source \<Rightarrow> search_policy \<Rightarrow> search_query \<Rightarrow> utext list \<Rightarrow> fuzzy_token list \<Rightarrow>
   (string \<times> string) list \<Rightarrow> hit_map \<Rightarrow> cache_slot \<Rightarrow> ('e + hit_map) \<times> cache_slot" where
  "cold_loop env src policy q q_words tokens [] by_id slot = (Inr by_id, slot)"
| "cold_loop env src policy q q_words tokens ((conv, bucket) # rest) by_id slot =
     (case cold_source_fetch_bloom_with_cache env src conv bucket slot of (bloom, slot) \<Rightarrow>
      if bloom_rejects env policy q_words bloom
      then cold_loop env src policy q q_words tokens rest by_id slot
      else case cold_source_fetch_text_with_cache env src conv bucket slot of
          (Inl e, slot) \<Rightarrow> (Inl e, slot)
        | (Inr fts_rows, slot) \<Rightarrow>
            (case cold_source_fetch_fuzzy_with_cache env src conv bucket slot of
               (Inl e, slot) \<Rightarrow> (Inl e, slot)
             | (Inr fuzzy_rows, slot) \<Rightarrow> cold_loop env src policy q q_words tokens rest
                 (merge_bucket_rows_into_by_id env q q_words tokens fts_rows fuzzy_rows by_id) slot))"

definition execute_search_with_cold_source_full ::
  "search_env \<Rightarrow> local_db \<Rightarrow> 'e + search_result list \<Rightarrow> search_query \<Rightarrow> search_scope \<Rightarrow> 'e cold_source \<Rightarrow>
   search_policy \<Rightarrow> nat \<Rightarrow> cache_slot \<Rightarrow> ('e + search_result list) \<times> cache_slot" where
  "execute_search_with_cold_source_full env db local_pass q scope src policy limit slot =
     (case local_pass of Inl e \<Rightarrow> (Inl e, slot) | Inr local_results \<Rightarrow>
      if \<not> goes_cold env q scope policy then (Inr local_results, slot)
      else case cs_cold_buckets src of Inl e \<Rightarrow> (Inl e, slot) | Inr buckets \<Rightarrow>
        let in_scope = in_scope_buckets env db q buckets in
        if in_scope = [] then (Inr local_results, slot)
        else let trimmed = trim (se_unicode env) (sq_string q);
                 by_id = local_hits env local_results
             in case cold_loop env src policy q (lowercase_word_set (se_unicode env) trimmed)
                       (generate_tokens (se_unicode env) trimmed) (take (sp_max_cold_buckets policy) in_scope)
                       by_id slot of
                  (Inl e, slot) \<Rightarrow> (Inl e, slot)
                | (Inr by_id', slot) \<Rightarrow> (Inr (finish_search env (map fst by_id) limit by_id'), slot))"

subsection \<open>The parallel and the streaming search\<close>

text \<open>What one worker leaves for one bucket; the two results are empty lists when the filter rejected the
  bucket.  How the workers get there is the theory \<open>Parallel_Fetch\<close>.\<close>

record 'e bucket_prefetch =
  bp_conv :: string
  bp_bucket :: string
  bp_bloom :: "bloom_filter option"
  bp_text :: "'e + fts_row list"
  bp_fuzzy :: "'e + fuzzy_row list"

definition merge_prefetch ::
  "search_env \<Rightarrow> search_policy \<Rightarrow> search_query \<Rightarrow> utext list \<Rightarrow> fuzzy_token list \<Rightarrow> 'e bucket_prefetch \<Rightarrow>
   hit_map \<Rightarrow> hit_map" where
  "merge_prefetch env policy q q_words tokens entry by_id =
     (if bloom_rejects env policy q_words (bp_bloom entry) then by_id
      else case (bp_text entry, bp_fuzzy entry) of
          (Inr fts_rows, Inr fuzzy_rows) \<Rightarrow>
            merge_bucket_rows_into_by_id env q q_words tokens fts_rows fuzzy_rows by_id
        | _ \<Rightarrow> by_id)"

text \<open>The parallel search, given the function that fetches a list of buckets.\<close>

definition execute_search_with_cold_source_full_parallel ::
  "search_env \<Rightarrow> local_db \<Rightarrow> 'e + search_result list \<Rightarrow> search_query \<Rightarrow> search_scope \<Rightarrow> 'e cold_source \<Rightarrow>
   search_policy \<Rightarrow> nat \<Rightarrow> (utext list \<Rightarrow> (string \<times> string) list \<Rightarrow> 'e bucket_prefetch list) \<Rightarrow>
   'e + search_result list" where
  "execute_search_with_cold_source_full_parallel env db local_pass q scope src policy limit fetch_all =
     (case local_pass of Inl e \<Rightarrow> Inl e | Inr local_results \<Rightarrow>
      if \<not> goes_cold env q scope policy then Inr local_results
      else case cs_cold_buckets src of Inl e \<Rightarrow> Inl e | Inr buckets \<Rightarrow>
        let in_scope = in_scope_buckets env db q buckets in
        if in_scope = [] then Inr local_results
        else let trimmed = trim (se_unicode env) (sq_string q);
                 by_id = local_hits env local_results;
                 q_words = lowercase_word_set (se_unicode env) trimmed;
                 tokens = generate_tokens (se_unicode env) trimmed;
                 prefetched = fetch_all q_words (take (sp_max_cold_buckets policy) in_scope)
             in Inr (finish_search env (map fst by_id) limit
                  (fold (merge_prefetch env policy q q_words tokens) prefetched by_id)))"

datatype search_event =
    LocalResults "search_result list"
  | ColdBucketComplete string string "search_result list"
  | SearchComplete "search_result list" nat nat

text \<open>One bucket of the streaming search: the hits it adds, or \<open>None\<close> if it was skipped.\<close>

definition stream_bucket ::
  "search_env \<Rightarrow> 'e cold_source \<Rightarrow> search_policy \<Rightarrow> search_query \<Rightarrow> utext list \<Rightarrow> fuzzy_token list \<Rightarrow>
   string \<Rightarrow> string \<Rightarrow> hit_map \<Rightarrow> cache_slot \<Rightarrow> hit_map option \<times> cache_slot" where
  "stream_bucket env src policy q q_words tokens conv bucket by_id slot =
     (case cold_source_fetch_bloom_with_cache env src conv bucket slot of (bloom, slot) \<Rightarrow>
      if bloom_rejects env policy q_words bloom then (None, slot)
      else case cold_source_fetch_text_with_cache env src conv bucket slot of
          (Inl e, slot) \<Rightarrow> (None, slot)
        | (Inr fts_rows, slot) \<Rightarrow>
            (case cold_source_fetch_fuzzy_with_cache env src conv bucket slot of
               (Inl e, slot) \<Rightarrow> (None, slot)
             | (Inr fuzzy_rows, slot) \<Rightarrow>
                 (Some (merge_bucket_rows_into_by_id env q q_words tokens fts_rows fuzzy_rows by_id), slot)))"

fun stream_loop ::
  "search_env \<Rightarrow> 'e cold_source \<Rightarrow> search_policy \<Rightarrow> search_query \<Rightarrow> utext list \<Rightarrow> fuzzy_token list \<Rightarrow>
   (string \<times> string) list \<Rightarrow> hit_map \<Rightarrow> nat \<Rightarrow> nat \<Rightarrow> cache_slot \<Rightarrow>
   (hit_map \<times> nat \<times> nat) \<times> search_event list \<times> cache_slot" where
  "stream_loop env src policy q q_words tokens [] by_id fetched skipped slot =
     ((by_id, fetched, skipped), [], slot)"
| "stream_loop env src policy q q_words tokens ((conv, bucket) # rest) by_id fetched skipped slot =
     (case stream_bucket env src policy q q_words tokens conv bucket by_id slot of
        (None, slot) \<Rightarrow>
          (case stream_loop env src policy q q_words tokens rest by_id fetched (skipped + 1) slot of
             (r, events, slot) \<Rightarrow> (r, ColdBucketComplete conv bucket [] # events, slot))
      | (Some by_id', slot) \<Rightarrow>
          (let new_hits = map snd (filter (\<lambda>(k, _). k \<notin> fst ` set by_id) by_id') in
           case stream_loop env src policy q q_words tokens rest by_id' (fetched + 1) skipped slot of
             (r, events, slot) \<Rightarrow> (r, ColdBucketComplete conv bucket new_hits # events, slot)))"

text \<open>The events emitted, in order, and the value returned.\<close>

definition execute_search_streaming ::
  "search_env \<Rightarrow> local_db \<Rightarrow> 'e + search_result list \<Rightarrow> search_query \<Rightarrow> search_scope \<Rightarrow> 'e cold_source \<Rightarrow>
   search_policy \<Rightarrow> nat \<Rightarrow> cache_slot \<Rightarrow> search_event list \<times> ('e + search_result list) \<times> cache_slot" where
  "execute_search_streaming env db local_pass q scope src policy limit slot =
     (case local_pass of Inl e \<Rightarrow> ([], Inl e, slot) | Inr local_results \<Rightarrow>
      if \<not> goes_cold env q scope policy
      then ([LocalResults local_results, SearchComplete local_results 0 0], Inr local_results, slot)
      else case cs_cold_buckets src of
          Inl e \<Rightarrow> ([LocalResults local_results, SearchComplete local_results 0 0], Inl e, slot)
        | Inr buckets \<Rightarrow>
            let todo = take (sp_max_cold_buckets policy) (in_scope_buckets env db q buckets) in
            if todo = []
            then ([LocalResults local_results, SearchComplete local_results 0 0], Inr local_results, slot)
            else let trimmed = trim (se_unicode env) (sq_string q);
                     by_id = local_hits env local_results
                 in case stream_loop env src policy q (lowercase_word_set (se_unicode env) trimmed)
                       (generate_tokens (se_unicode env) trimmed) todo by_id 0 0 slot of
                   ((by_id', fetched, skipped), events, slot) \<Rightarrow>
                     let out = finish_search env (map fst by_id) limit by_id' in
                     (LocalResults local_results # events @ [SearchComplete out fetched skipped], Inr out, slot))"

end
