(* ===== verification/Search_Facts.thy ===== *)
theory Search_Facts
  imports Cold_Search
begin

text \<open>
  What holds of the search across the archive: the shard cache does not show in the answers, the three
  entry points agree as long as no fetch fails (and how they differ when one does), the protocol of
  the streaming events, the soundness of every result, and two ways in which the gates in front of
  the buckets lose messages.
\<close>

subsection \<open>The cache does not show\<close>

named_theorems cache_simps "facts about the shards behind the cache"

definition shard_pairs :: "('k, 'v) shard_cache \<Rightarrow> ('k \<times> 'v) set" where
  "shard_pairs c = (\<lambda>(k, e). (k, en_shard e)) ` set (sc_entries c)"

lemma shard_get_pairs:
  "shard_pairs (fst (shard_get k c)) = shard_pairs c"
  "snd (shard_get k c) = Some v \<Longrightarrow> (k, v) \<in> shard_pairs c"
proof -
  show "shard_pairs (fst (shard_get k c)) = shard_pairs c"
  proof (cases "map_of (sc_entries c) k")
    case (Some e)
    let ?f = "\<lambda>t (j, x). if j = k then (j, x\<lparr>en_last_used := t\<rparr>) else (j, x)"
    have "(\<lambda>(k, e). (k, en_shard e)) (?f t p) = (\<lambda>(k, e). (k, en_shard e)) p" for t p
      by (simp split: prod.splits)
    then have "(\<lambda>(k, e). (k, en_shard e)) ` ?f t ` A = (\<lambda>(k, e). (k, en_shard e)) ` A" for t A
      unfolding image_image by (rule image_cong[OF refl])
    then show ?thesis using Some by (simp add: shard_get_def shard_pairs_def Let_def)
  qed (simp add: shard_get_def shard_pairs_def Let_def)
  assume "snd (shard_get k c) = Some v"
  then obtain e where "map_of (sc_entries c) k = Some e" "v = en_shard e"
    by (auto simp: shard_get_def Let_def split: option.splits)
  then show "(k, v) \<in> shard_pairs c" by (force simp: shard_pairs_def dest: map_of_SomeD)
qed

lemma evict_by_age_pairs: "shard_pairs (evict_by_age ks c) \<subseteq> shard_pairs c"
proof (induction ks c rule: evict_by_age.induct)
  case (2 k t rest c)
  show ?case
  proof (cases "sc_bytes c \<le> sc_max_bytes c")
    case False
    show ?thesis
    proof (cases "map_of (sc_entries c) k")
      case None
      then show ?thesis using "2.IH"(1)[OF False None] False by simp
    next
      case (Some e)
      then show ?thesis using "2.IH"(2)[OF False Some] False
        by (fastforce simp: shard_pairs_def lru_drop_def)
    qed
  qed simp
qed simp

lemma shard_put_pairs: "shard_pairs (shard_put sz k v c) \<subseteq> insert (k, v) (shard_pairs c)"
proof -
  have "shard_pairs (evict_lru d) \<subseteq> shard_pairs d" for d :: "('a, 'b) shard_cache"
    by (simp add: evict_lru_def evict_by_age_pairs)
  then show ?thesis
    unfolding shard_put_def Let_def
    by (rule order_trans) (auto simp: shard_pairs_def lru_drop_def split: option.splits)
qed

text \<open>A cached shard is what the source answers.\<close>

definition answers :: "'e cold_source \<Rightarrow> shard_cache_key \<Rightarrow> cached_shard \<Rightarrow> bool" where
  "answers src k v =
     (case v of
        TextShard rows \<Rightarrow> cs_text src (sk_conversation k) (sk_time_bucket k) = Inr rows
      | FuzzyShard rows \<Rightarrow> cs_fuzzy src (sk_conversation k) (sk_time_bucket k) = Inr rows
      | BloomShard f \<Rightarrow> cs_bloom src (sk_conversation k) (sk_time_bucket k) = Inr (Some f))"

lemma answers_key [simp]:
  "answers src (shard_key conv bucket i) (TextShard rows) \<longleftrightarrow> cs_text src conv bucket = Inr rows"
  "answers src (shard_key conv bucket i) (FuzzyShard frows) \<longleftrightarrow> cs_fuzzy src conv bucket = Inr frows"
  "answers src (shard_key conv bucket i) (BloomShard f) \<longleftrightarrow> cs_bloom src conv bucket = Inr (Some f)"
  by (simp_all add: answers_def shard_key_def)

definition coherent :: "'e cold_source \<Rightarrow> cache_slot \<Rightarrow> bool" where
  "coherent src slot = (case slot of None \<Rightarrow> True | Some c \<Rightarrow> \<forall>(k, v) \<in> shard_pairs c. answers src k v)"

lemma coherent_None [simp]: "coherent src None"
  and coherent_new [simp]: "coherent src (Some (new_shard_cache n))"
  by (simp_all add: coherent_def new_shard_cache_def shard_pairs_def)

lemma coherent_lookup:
  assumes "coherent src slot" "cache_lookup k slot = (slot', hit)"
  shows "coherent src slot'" "hit = Some v \<Longrightarrow> answers src k v"
proof -
  have h: "coherent src slot' \<and> (hit = Some v \<longrightarrow> answers src k v)"
  proof (cases slot)
    case (Some c)
    then have "slot' = Some (fst (shard_get k c))" "hit = snd (shard_get k c)"
      using assms(2) by (auto simp: cache_lookup_def map_prod_def split: prod.splits)
    then show ?thesis using assms(1) Some shard_get_pairs[of k c]
      by (auto simp: coherent_def)
  qed (use assms in \<open>simp add: cache_lookup_def\<close>)
  then show "coherent src slot'" "hit = Some v \<Longrightarrow> answers src k v" by blast+
qed

lemma coherent_store:
  assumes "coherent src slot" "answers src k v"
  shows "coherent src (cache_store env k v slot)"
proof (cases slot)
  case (Some c)
  then show ?thesis
    using assms shard_put_pairs[of "approximate_bytes (se_sizes env)" k v c]
    by (fastforce simp: cache_store_def coherent_def)
qed (simp add: cache_store_def)

definition bloom_answer :: "'e cold_source \<Rightarrow> string \<Rightarrow> string \<Rightarrow> bloom_filter option" where
  "bloom_answer src conv bucket = (case cs_bloom src conv bucket of Inl _ \<Rightarrow> None | Inr b \<Rightarrow> b)"

lemma fetch_text_coherent [cache_simps]:
  assumes "coherent src slot"
  shows "fst (cold_source_fetch_text_with_cache env src conv bucket slot) = cs_text src conv bucket"
    "coherent src (snd (cold_source_fetch_text_with_cache env src conv bucket slot))"
proof -
  obtain slot' hit where l: "cache_lookup (shard_key conv bucket TextIndex) slot = (slot', hit)" by fastforce
  have c: "coherent src slot'" by (rule coherent_lookup[OF assms l])
  have "fst (cold_source_fetch_text_with_cache env src conv bucket slot) = cs_text src conv bucket \<and>
      coherent src (snd (cold_source_fetch_text_with_cache env src conv bucket slot))"
    using c coherent_lookup(2)[OF assms l]
    by (auto simp: cold_source_fetch_text_with_cache_def l
        intro!: coherent_store split: option.splits cached_shard.splits sum.splits)
  then show "fst (cold_source_fetch_text_with_cache env src conv bucket slot) = cs_text src conv bucket"
    "coherent src (snd (cold_source_fetch_text_with_cache env src conv bucket slot))" by blast+
qed

lemma fetch_fuzzy_coherent [cache_simps]:
  assumes "coherent src slot"
  shows "fst (cold_source_fetch_fuzzy_with_cache env src conv bucket slot) = cs_fuzzy src conv bucket"
    "coherent src (snd (cold_source_fetch_fuzzy_with_cache env src conv bucket slot))"
proof -
  obtain slot' hit where l: "cache_lookup (shard_key conv bucket FuzzyIndex) slot = (slot', hit)" by fastforce
  have c: "coherent src slot'" by (rule coherent_lookup[OF assms l])
  have "fst (cold_source_fetch_fuzzy_with_cache env src conv bucket slot) = cs_fuzzy src conv bucket \<and>
      coherent src (snd (cold_source_fetch_fuzzy_with_cache env src conv bucket slot))"
    using c coherent_lookup(2)[OF assms l]
    by (auto simp: cold_source_fetch_fuzzy_with_cache_def l
        intro!: coherent_store split: option.splits cached_shard.splits sum.splits)
  then show "fst (cold_source_fetch_fuzzy_with_cache env src conv bucket slot) = cs_fuzzy src conv bucket"
    "coherent src (snd (cold_source_fetch_fuzzy_with_cache env src conv bucket slot))" by blast+
qed

lemma fetch_bloom_coherent [cache_simps]:
  assumes "coherent src slot"
  shows "fst (cold_source_fetch_bloom_with_cache env src conv bucket slot) = bloom_answer src conv bucket"
    "coherent src (snd (cold_source_fetch_bloom_with_cache env src conv bucket slot))"
proof -
  obtain slot' hit where l: "cache_lookup (shard_key conv bucket BloomIndex) slot = (slot', hit)" by fastforce
  have c: "coherent src slot'" by (rule coherent_lookup[OF assms l])
  have "fst (cold_source_fetch_bloom_with_cache env src conv bucket slot) = bloom_answer src conv bucket \<and>
      coherent src (snd (cold_source_fetch_bloom_with_cache env src conv bucket slot))"
    using c coherent_lookup(2)[OF assms l]
    by (auto simp: cold_source_fetch_bloom_with_cache_def bloom_answer_def l
        intro!: coherent_store split: option.splits cached_shard.splits sum.splits)
  then show "fst (cold_source_fetch_bloom_with_cache env src conv bucket slot) = bloom_answer src conv bucket"
    "coherent src (snd (cold_source_fetch_bloom_with_cache env src conv bucket slot))" by blast+
qed

text \<open>The loops over the answers of the source itself.\<close>

fun pure_loop ::
  "search_env \<Rightarrow> 'e cold_source \<Rightarrow> search_policy \<Rightarrow> search_query \<Rightarrow> utext list \<Rightarrow> fuzzy_token list \<Rightarrow>
   (string \<times> string) list \<Rightarrow> hit_map \<Rightarrow> 'e + hit_map" where
  "pure_loop env src policy q q_words tokens [] by_id = Inr by_id"
| "pure_loop env src policy q q_words tokens ((conv, bucket) # rest) by_id =
     (if bloom_rejects env policy q_words (bloom_answer src conv bucket)
      then pure_loop env src policy q q_words tokens rest by_id
      else bindE (cs_text src conv bucket) (\<lambda>fts. bindE (cs_fuzzy src conv bucket) (\<lambda>fuzzy.
        pure_loop env src policy q q_words tokens rest
          (merge_bucket_rows_into_by_id env q q_words tokens fts fuzzy by_id))))"

lemma cold_loop_coherent:
  assumes "coherent src slot"
  shows "fst (cold_loop env src policy q q_words tokens bs by_id slot) =
      pure_loop env src policy q q_words tokens bs by_id \<and>
    coherent src (snd (cold_loop env src policy q q_words tokens bs by_id slot))"
  using assms
proof (induction bs arbitrary: by_id slot)
  case (Cons b bs)
  obtain conv bucket where b: "b = (conv, bucket)" by (cases b)
  obtain bl s1 where f1: "cold_source_fetch_bloom_with_cache env src conv bucket slot = (bl, s1)" by fastforce
  have bl: "bl = bloom_answer src conv bucket" and s1: "coherent src s1"
    using fetch_bloom_coherent[OF Cons.prems, of env conv bucket] f1 by simp_all
  obtain tx s2 where f2: "cold_source_fetch_text_with_cache env src conv bucket s1 = (tx, s2)" by fastforce
  have tx: "cs_text src conv bucket = tx" and s2: "coherent src s2"
    using fetch_text_coherent[OF s1, of env conv bucket] f2 by simp_all
  obtain fz s3 where f3: "cold_source_fetch_fuzzy_with_cache env src conv bucket s2 = (fz, s3)" by fastforce
  have fz: "cs_fuzzy src conv bucket = fz" and s3: "coherent src s3"
    using fetch_fuzzy_coherent[OF s2, of env conv bucket] f3 by simp_all
  show ?case using Cons.IH[OF s1] Cons.IH[OF s3] s2 s3
    by (simp add: b f1 f2 f3 tx fz bl[symmetric] split: sum.splits)
qed simp

lemma search_coherent:
  assumes "coherent src slot"
  shows "fst (execute_search_with_cold_source_full env db local_pass q scope src policy limit slot) =
      fst (execute_search_with_cold_source_full env db local_pass q scope src policy limit None) \<and>
    coherent src (snd (execute_search_with_cold_source_full env db local_pass q scope src policy limit slot))"
proof -
  let ?trim = "trim (se_unicode env) (sq_string q)"
  define loop where "loop = (\<lambda>bs m. cold_loop env src policy q (lowercase_word_set (se_unicode env) ?trim)
     (generate_tokens (se_unicode env) ?trim) bs m)"
  define pure where "pure = (\<lambda>bs m. pure_loop env src policy q (lowercase_word_set (se_unicode env) ?trim)
     (generate_tokens (se_unicode env) ?trim) bs m)"
  have l: "\<exists>s'. loop bs m s = (pure bs m, s') \<and> coherent src s'" if "coherent src s" for bs m s
    using cold_loop_coherent[OF that, of env policy q _ _ bs m] unfolding loop_def pure_def
    by (metis prod.collapse)
  show ?thesis
  proof (cases "\<exists>e. local_pass = Inl e \<or> \<not> goes_cold env q scope policy \<or> cs_cold_buckets src = Inl e")
    case True
    then show ?thesis using assms
      by (auto simp: execute_search_with_cold_source_full_def split: sum.splits)
  next
    case False
    then obtain L B where LB: "local_pass = Inr L" "cs_cold_buckets src = Inr B" "goes_cold env q scope policy"
      by (metis sum.exhaust)
    let ?bs = "take (sp_max_cold_buckets policy) (in_scope_buckets env db q B)"
    obtain s1 s2 where "loop ?bs (local_hits env L) slot = (pure ?bs (local_hits env L), s1)" "coherent src s1"
        "loop ?bs (local_hits env L) None = (pure ?bs (local_hits env L), s2)"
      using l[OF assms] l[OF coherent_None] by meson
    then show ?thesis using LB assms
      by (cases "pure ?bs (local_hits env L)")
        (simp_all add: execute_search_with_cold_source_full_def Let_def loop_def)
  qed
qed

text \<open>A search is called with its local pass, its query, scope, policy and limit.\<close>

type_synonym 'e search_call = "('e + search_result list) \<times> search_query \<times> search_scope \<times> search_policy \<times> nat"

primrec run_searches ::
  "search_env \<Rightarrow> local_db \<Rightarrow> 'e cold_source \<Rightarrow> 'e search_call list \<Rightarrow> cache_slot \<Rightarrow>
   ('e + search_result list) list \<times> cache_slot" where
  "run_searches env db src [] slot = ([], slot)"
| "run_searches env db src (x # xs) slot =
     (case x of (local_pass, q, scope, policy, limit) \<Rightarrow>
      (case execute_search_with_cold_source_full env db local_pass q scope src policy limit slot of (r, slot) \<Rightarrow>
       (case run_searches env db src xs slot of (rs, slot) \<Rightarrow> (r # rs, slot))))"

lemma run_searches_coherent:
  assumes "coherent src slot"
  shows "fst (run_searches env db src calls slot) = fst (run_searches env db src calls None)"
  using assms
proof (induction calls arbitrary: slot)
  case (Cons x xs)
  obtain lp q scope policy limit where x: "x = (lp, q, scope, policy, limit)" by (cases x)
  let ?search = "execute_search_with_cold_source_full env db lp q scope src policy limit"
  obtain r s1 where 1: "?search slot = (r, s1)" by fastforce
  obtain r' s2 where 2: "?search None = (r', s2)" by fastforce
  have same: "r = r'" and c1: "coherent src s1" and c2: "coherent src s2"
    using search_coherent[OF Cons.prems, of env db lp q scope policy limit]
      search_coherent[of src None env db lp q scope policy limit] by (simp_all add: 1 2)
  have "fst (run_searches env db src xs s1) = fst (run_searches env db src xs s2)"
    using Cons.IH[OF c1] Cons.IH[OF c2] by simp
  then show ?case by (simp add: x 1 2 same case_prod_unfold)
qed simp


subsection \<open>The three entry points agree\<close>

definition prefetch_bucket ::
  "search_env \<Rightarrow> 'e cold_source \<Rightarrow> search_policy \<Rightarrow> utext list \<Rightarrow> string \<times> string \<Rightarrow> 'e bucket_prefetch" where
  "prefetch_bucket env src policy q_words = (\<lambda>(conv, bucket).
     let bloom = bloom_answer src conv bucket;
         rejects = bloom_rejects env policy q_words bloom
     in \<lparr>bp_conv = conv, bp_bucket = bucket, bp_bloom = bloom,
         bp_text = (if rejects then Inr [] else cs_text src conv bucket),
         bp_fuzzy = (if rejects then Inr [] else cs_fuzzy src conv bucket)\<rparr>)"

definition merge_all ::
  "search_env \<Rightarrow> 'e cold_source \<Rightarrow> search_policy \<Rightarrow> search_query \<Rightarrow> utext list \<Rightarrow> fuzzy_token list \<Rightarrow>
   (string \<times> string) list \<Rightarrow> hit_map \<Rightarrow> hit_map" where
  "merge_all env src policy q q_words tokens bs by_id =
     fold (merge_prefetch env policy q q_words tokens) (map (prefetch_bucket env src policy q_words) bs) by_id"

lemma pure_loop_merge_all:
  assumes "\<And>c b. \<not> isl (cs_text src c b) \<and> \<not> isl (cs_fuzzy src c b)"
  shows "pure_loop env src policy q q_words tokens bs by_id = Inr (merge_all env src policy q q_words tokens bs by_id)"
proof (induction bs arbitrary: by_id)
  case (Cons b bs)
  obtain conv bucket where b: "b = (conv, bucket)" by (cases b)
  obtain fts fuzzy where "cs_text src conv bucket = Inr fts" "cs_fuzzy src conv bucket = Inr fuzzy"
    using assms[of conv bucket] by (metis isl_def sum.exhaust)
  then show ?case using Cons.IH
    by (simp add: b merge_all_def merge_prefetch_def prefetch_bucket_def Let_def)
qed (simp add: merge_all_def)

lemma stream_bucket_coherent:
  assumes "coherent src slot"
  shows "fst (stream_bucket env src policy q q_words tokens conv bucket by_id slot) =
      (if bloom_rejects env policy q_words (bloom_answer src conv bucket) then None
       else case (cs_text src conv bucket, cs_fuzzy src conv bucket) of
           (Inr fts, Inr fuzzy) \<Rightarrow> Some (merge_bucket_rows_into_by_id env q q_words tokens fts fuzzy by_id)
         | _ \<Rightarrow> None) \<and>
    coherent src (snd (stream_bucket env src policy q q_words tokens conv bucket by_id slot))"
proof -
  obtain bl s1 where f1: "cold_source_fetch_bloom_with_cache env src conv bucket slot = (bl, s1)" by fastforce
  have bl: "bl = bloom_answer src conv bucket" and s1: "coherent src s1"
    using fetch_bloom_coherent[OF assms, of env conv bucket] f1 by simp_all
  obtain tx s2 where f2: "cold_source_fetch_text_with_cache env src conv bucket s1 = (tx, s2)" by fastforce
  have tx: "cs_text src conv bucket = tx" and s2: "coherent src s2"
    using fetch_text_coherent[OF s1, of env conv bucket] f2 by simp_all
  obtain fz s3 where f3: "cold_source_fetch_fuzzy_with_cache env src conv bucket s2 = (fz, s3)" by fastforce
  have fz: "cs_fuzzy src conv bucket = fz" and s3: "coherent src s3"
    using fetch_fuzzy_coherent[OF s2, of env conv bucket] f3 by simp_all
  show ?thesis using s1 s2 s3
    by (simp add: stream_bucket_def f1 f2 f3 tx fz bl split: sum.splits)
qed

lemma stream_loop_merge_all:
  assumes "coherent src slot"
  shows "fst (fst (stream_loop env src policy q q_words tokens bs by_id m n slot)) =
     merge_all env src policy q q_words tokens bs by_id"
  using assms
proof (induction bs arbitrary: by_id m n slot)
  case (Cons b bs)
  obtain conv bucket where b: "b = (conv, bucket)" by (cases b)
  obtain r s1 where sb: "stream_bucket env src policy q q_words tokens conv bucket by_id slot = (r, s1)" by fastforce
  note c = stream_bucket_coherent[OF Cons.prems, of env policy q q_words tokens conv bucket by_id, unfolded sb]
  have s1: "coherent src s1" using c by simp
  have step: "merge_prefetch env policy q q_words tokens (prefetch_bucket env src policy q_words (conv, bucket)) by_id =
      (case r of None \<Rightarrow> by_id | Some m \<Rightarrow> m)"
    using c by (simp add: merge_prefetch_def prefetch_bucket_def Let_def split: sum.splits)
  show ?case using Cons.IH[OF s1] step
    by (cases r) (simp_all add: b sb merge_all_def case_prod_unfold)
qed (simp add: merge_all_def)

text \<open>C17: When no fetch fails, the sequential, the parallel and the streaming search return the same
  results in the same order: the parallel one given, for each bucket, what its workers should leave,
  the streaming one with any cache that is coherent with the source.\<close>

theorem searches_agree:
  assumes "\<And>c b. \<not> isl (cs_text src c b) \<and> \<not> isl (cs_fuzzy src c b)"
    and "0 < sp_max_cold_buckets policy" "coherent src slot"
  shows "execute_search_with_cold_source_full_parallel env db local_pass q scope src policy limit
       (\<lambda>q_words. map (prefetch_bucket env src policy q_words)) =
     fst (execute_search_with_cold_source_full env db local_pass q scope src policy limit slot) \<and>
     fst (snd (execute_search_streaming env db local_pass q scope src policy limit slot)) =
     fst (execute_search_with_cold_source_full env db local_pass q scope src policy limit slot)"
proof (cases "\<exists>e. local_pass = Inl e \<or> \<not> goes_cold env q scope policy \<or> cs_cold_buckets src = Inl e")
  case True
  then show ?thesis
    by (auto simp: execute_search_with_cold_source_full_def execute_search_streaming_def
        execute_search_with_cold_source_full_parallel_def split: sum.splits)
next
  case False
  then obtain L B where LB: "local_pass = Inr L" "cs_cold_buckets src = Inr B" "goes_cold env q scope policy"
    by (metis sum.exhaust)
  let ?trim = "trim (se_unicode env) (sq_string q)"
  let ?w = "lowercase_word_set (se_unicode env) ?trim" and ?k = "generate_tokens (se_unicode env) ?trim"
  let ?in = "in_scope_buckets env db q B"
  let ?bs = "take (sp_max_cold_buckets policy) ?in"
  let ?m = "merge_all env src policy q ?w ?k ?bs (local_hits env L)"
  have seq: "fst (cold_loop env src policy q ?w ?k ?bs (local_hits env L) slot) = Inr ?m"
    using cold_loop_coherent[OF assms(3), of env policy q ?w ?k ?bs "local_hits env L"]
      pure_loop_merge_all[OF assms(1), of env policy q ?w ?k ?bs "local_hits env L"] by simp
  have str: "fst (fst (stream_loop env src policy q ?w ?k ?bs (local_hits env L) 0 0 slot)) = ?m"
    by (rule stream_loop_merge_all[OF assms(3)])
  show ?thesis
  proof (cases "?in = []")
    case True
    then show ?thesis using LB
      by (simp add: execute_search_with_cold_source_full_def execute_search_streaming_def
          execute_search_with_cold_source_full_parallel_def)
  next
    case False
    then have bs: "?bs \<noteq> []" using assms(2) by simp
    show ?thesis using LB False bs seq str
      by (simp add: execute_search_with_cold_source_full_def execute_search_streaming_def
          execute_search_with_cold_source_full_parallel_def Let_def case_prod_unfold merge_all_def del: take_eq_Nil)
  qed
qed

definition quiet_source :: "nat cold_source" where
  "quiet_source = \<lparr>cs_cold_buckets = Inr [(''c'', ''2026-01'')], cs_bloom = (\<lambda>_ _. Inr None),
     cs_text = (\<lambda>_ _. Inr []), cs_fuzzy = (\<lambda>_ _. Inr [])\<rparr>"

theorem searches_agree_witness:
  "\<forall>env db local_pass q scope limit.
   execute_search_with_cold_source_full_parallel env db local_pass q scope quiet_source default_search_policy limit
       (\<lambda>q_words. map (prefetch_bucket env quiet_source default_search_policy q_words)) =
     fst (execute_search_with_cold_source_full env db local_pass q scope quiet_source default_search_policy limit None) \<and>
     fst (snd (execute_search_streaming env db local_pass q scope quiet_source default_search_policy limit None)) =
     fst (execute_search_with_cold_source_full env db local_pass q scope quiet_source default_search_policy limit None)"
  by (intro allI searches_agree) (simp_all add: quiet_source_def default_search_policy_def)

definition broken_source :: "nat cold_source" where
  "broken_source = \<lparr>cs_cold_buckets = Inr [(''c'', ''2026-01'')], cs_bloom = (\<lambda>_ _. Inr None),
     cs_text = (\<lambda>_ _. Inl 7), cs_fuzzy = (\<lambda>_ _. Inr [])\<rparr>"

definition hello_query :: search_query where
  "hello_query = \<lparr>sq_string = [104, 101, 108, 108, 111], sq_sender = None, sq_conversation = None,
     sq_date_from = None, sq_date_to = None, sq_kind = None, sq_target = Global\<rparr>"

definition plain_env :: search_env where
  "plain_env = \<lparr>se_unicode = ascii_only, se_hash = (\<lambda>_ w. [of_nat (length w)]), se_parse_uuid = (\<lambda>_. None),
     se_show_uuid = (\<lambda>_. []), se_sizes = \<lparr>sz_fts_row = 0, sz_fuzzy_row = 0, sz_bloom_filter = 0\<rparr>\<rparr>"

lemma hello_goes_cold: "goes_cold plain_env hello_query IncludeCold default_search_policy"
  by (simp add: goes_cold_def hello_query_def plain_env_def ascii_only_def trim_def default_search_policy_def)

lemma hello_in_scope: "in_scope_buckets plain_env db hello_query bs = bs"
  by (simp add: in_scope_buckets_def hello_query_def effective_target_def resolve_target_def
      bucket_overlaps_date_range_def case_prod_unfold)

text \<open>They do not agree on errors: a text shard that cannot be fetched fails the sequential search
  with the error of the source, while the parallel search leaves the bucket out and answers with the
  rest, and so does the streaming one.\<close>

theorem searches_disagree_on_errors:
  "fst (execute_search_with_cold_source_full plain_env db (Inr []) hello_query IncludeCold broken_source
      default_search_policy limit None) = Inl 7 \<and>
   execute_search_with_cold_source_full_parallel plain_env db (Inr []) hello_query IncludeCold broken_source
      default_search_policy limit (\<lambda>q_words. map (prefetch_bucket plain_env broken_source default_search_policy q_words)) =
      Inr [] \<and>
   fst (snd (execute_search_streaming plain_env db (Inr []) hello_query IncludeCold broken_source
      default_search_policy limit None)) = Inr []"
proof -
  have src: "cs_cold_buckets broken_source = Inr [(''c'', ''2026-01'')]" "cs_text broken_source c b = Inl 7"
    "bloom_answer broken_source c b = None" for c b
    by (simp_all add: broken_source_def bloom_answer_def)
  have keep: "\<not> bloom_rejects plain_env default_search_policy w None" for w
    by (simp add: bloom_rejects_def default_search_policy_def)
  have ten: "take (sp_max_cold_buckets default_search_policy) [x] = [x]" for x :: "string \<times> string"
    by (simp add: default_search_policy_def)
  have none: "finish_search plain_env ids limit [] = []" for ids
    by (simp add: finish_search_def apply_cold_recency_weight_def)
  have seq: "fst (cold_loop plain_env broken_source default_search_policy q w k [(''c'', ''2026-01'')] m None) = Inl 7"
    for q w k m
    using cold_loop_coherent[of broken_source None plain_env default_search_policy q w k "[(''c'', ''2026-01'')]" m]
    by (simp add: src keep)
  have str: "fst (fst (stream_loop plain_env broken_source default_search_policy q w k [(''c'', ''2026-01'')] [] i j None)) = []"
    for q w k i j
    using stream_loop_merge_all[of broken_source None plain_env default_search_policy q w k "[(''c'', ''2026-01'')]" "[]" i j]
    by (simp add: merge_all_def merge_prefetch_def prefetch_bucket_def Let_def src keep)
  show ?thesis using seq str
    by (simp add: execute_search_with_cold_source_full_def execute_search_streaming_def
        execute_search_with_cold_source_full_parallel_def hello_goes_cold src(1) hello_in_scope ten
        Let_def case_prod_unfold local_hits_def none merge_prefetch_def prefetch_bucket_def src keep
        split: sum.splits)
qed

subsection \<open>The events of a streaming search\<close>

primrec is_bucket_event :: "search_event \<Rightarrow> bool" where
  "is_bucket_event (LocalResults _) = False"
| "is_bucket_event (ColdBucketComplete _ _ _) = True"
| "is_bucket_event (SearchComplete _ _ _) = False"

lemma stream_loop_events:
  "case stream_loop env src policy q q_words tokens bs by_id m n slot of ((_, fetched, skipped), events, _) \<Rightarrow>
     list_all is_bucket_event events \<and> length events = length bs \<and> fetched + skipped = m + n + length bs"
proof (induction bs arbitrary: by_id m n slot)
  case (Cons b bs)
  obtain conv bucket where b: "b = (conv, bucket)" by (cases b)
  obtain x s1 where sb: "stream_bucket env src policy q q_words tokens conv bucket by_id slot = (x, s1)" by fastforce
  show ?case
  proof (cases x)
    case None
    show ?thesis using Cons.IH[where by_id = by_id and m = m and n = "Suc n" and slot = s1] by (simp add: b sb None split: prod.splits)
  next
    case (Some y)
    show ?thesis using Cons.IH[where by_id = y and m = "Suc m" and n = n and slot = s1] by (simp add: b sb Some Let_def split: prod.splits)
  qed
qed simp

text \<open>The protocol of the streaming search: unless the local pass fails, the first event carries the
  local results, then one event per opened bucket, then exactly one completion; the completion's two
  counters add up to the buckets opened; and its results are the returned ones, or the local ones if
  the search returns an error.\<close>

theorem streaming_protocol:
  "case local_pass of
     Inl e \<Rightarrow> execute_search_streaming env db local_pass q scope src policy limit slot = ([], Inl e, slot)
   | Inr L \<Rightarrow> \<exists>events out fetched skipped ret slot'.
       execute_search_streaming env db local_pass q scope src policy limit slot =
         (LocalResults L # events @ [SearchComplete out fetched skipped], ret, slot') \<and>
       list_all is_bucket_event events \<and> length events = fetched + skipped \<and>
       (ret = Inr out \<or> (\<exists>e. ret = Inl e \<and> cs_cold_buckets src = Inl e \<and> out = L \<and> events = []))"
proof (cases local_pass)
  case (Inl e)
  then show ?thesis by (simp add: execute_search_streaming_def)
next
  case (Inr L)
  let ?trim = "trim (se_unicode env) (sq_string q)"
  let ?w = "lowercase_word_set (se_unicode env) ?trim" and ?k = "generate_tokens (se_unicode env) ?trim"
  have local_only: "\<exists>events out fetched skipped ret' slot'.
       (LocalResults L # [] @ [SearchComplete L 0 0], ret, slot) =
         (LocalResults L # events @ [SearchComplete out fetched skipped], ret', slot') \<and>
       list_all is_bucket_event events \<and> length events = fetched + skipped \<and>
       (ret' = Inr out \<or> (\<exists>e. ret' = Inl e \<and> cs_cold_buckets src = Inl e \<and> out = L \<and> events = []))"
    if "ret = Inr L \<or> (\<exists>e. ret = Inl e \<and> cs_cold_buckets src = Inl e)" for ret
    using that by (intro exI[of _ "[]"] exI[of _ L] exI[of _ 0] exI[of _ ret] exI[of _ slot]) auto
  show ?thesis
  proof (cases "goes_cold env q scope policy")
    case False
    then show ?thesis using local_only[of "Inr L"] by (simp add: Inr execute_search_streaming_def)
  next
    case cold: True
    show ?thesis
    proof (cases "cs_cold_buckets src")
      case (Inl e)
      then show ?thesis using local_only[of "Inl e"] cold
        by (simp add: \<open>local_pass = Inr L\<close> execute_search_streaming_def)
    next
      case (Inr B)
      let ?bs = "take (sp_max_cold_buckets policy) (in_scope_buckets env db q B)"
      show ?thesis
      proof (cases "?bs = []")
        case True
        then show ?thesis using local_only[of "Inr L"] cold
          by (simp add: \<open>local_pass = Inr L\<close> Inr execute_search_streaming_def del: take_eq_Nil)
      next
        case False
        obtain m a n ev s where sl: "stream_loop env src policy q ?w ?k ?bs (local_hits env L) 0 0 slot =
            ((m, a, n), ev, s)" by (metis prod.exhaust)
        then have "list_all is_bucket_event ev" "length ev = a + n"
          using stream_loop_events[where env = env and src = src and policy = policy and q = q and q_words = ?w and
          tokens = ?k and bs = ?bs and by_id = "local_hits env L" and m = 0 and n = 0 and slot = slot] by simp_all
        then show ?thesis using cold False sl
          by (simp add: \<open>local_pass = Inr L\<close> Inr execute_search_streaming_def Let_def del: take_eq_Nil)
      qed
    qed
  qed
qed

subsection \<open>What a cold result is\<close>

text \<open>A result is a local one whose rank may have grown, or a cold one made from a row that passes the
  filters of the query.\<close>

definition sound_hit ::
  "search_env \<Rightarrow> search_query \<Rightarrow> search_result list \<Rightarrow> fts_row set \<Rightarrow> string \<Rightarrow> search_result \<Rightarrow> bool" where
  "sound_hit env q L rows k r \<longleftrightarrow>
     (\<exists>l \<in> set L. k = se_show_uuid env (sr_message_id l) \<and> r = l\<lparr>sr_rank := sr_rank r\<rparr> \<and> sr_rank l \<le> sr_rank r) \<or>
     (sr_is_cold r \<and> (\<exists>row \<in> rows. ft_message_id row = k \<and> sr_sender_id r = ft_sender_id row \<and>
        sr_created_at_ms r = ft_created_at_ms row \<and> sender_filter_matches q (ft_sender_id row) \<and>
        date_filter_matches q (ft_created_at_ms row)))"

definition sound_hits ::
  "search_env \<Rightarrow> search_query \<Rightarrow> search_result list \<Rightarrow> fts_row set \<Rightarrow> hit_map \<Rightarrow> bool" where
  "sound_hits env q L rows by_id \<longleftrightarrow> (\<forall>k r. (k, r) \<in> set by_id \<longrightarrow> sound_hit env q L rows k r)"

lemma sound_hit_rank:
  assumes "sound_hit env q L rows k r" "0 \<le> x"
  shows "sound_hit env q L rows k (r\<lparr>sr_rank := sr_rank r + x\<rparr>)"
proof -
  consider (l) l where "l \<in> set L" "k = se_show_uuid env (sr_message_id l)" "r = l\<lparr>sr_rank := sr_rank r\<rparr>" "sr_rank l \<le> sr_rank r"
    | (c) "sr_is_cold r" "\<exists>row \<in> rows. ft_message_id row = k \<and> sr_sender_id r = ft_sender_id row \<and>
        sr_created_at_ms r = ft_created_at_ms row \<and> sender_filter_matches q (ft_sender_id row) \<and>
        date_filter_matches q (ft_created_at_ms row)"
    using assms(1) unfolding sound_hit_def by blast
  then show ?thesis
  proof cases
    case l
    define y where "y = sr_rank r"
    have r: "r = l\<lparr>sr_rank := y\<rparr>" using l(3) by (simp add: y_def)
    have "r\<lparr>sr_rank := y + x\<rparr> = l\<lparr>sr_rank := y + x\<rparr>" unfolding r by simp
    then show ?thesis using l(1,2,4) assms(2) unfolding sound_hit_def y_def
      by (intro disjI1 bexI[of _ l]) simp_all
  next
    case c
    then show ?thesis unfolding sound_hit_def by simp
  qed
qed

lemma sound_hits_mono: "sound_hits env q L rows m \<Longrightarrow> rows \<subseteq> rows' \<Longrightarrow> sound_hits env q L rows' m"
  unfolding sound_hits_def sound_hit_def by blast

lemma merge_cold_hit_sound:
  assumes "sound_hits env q L rows m" "0 \<le> x" "row \<in> rows" "ft_message_id row = mid"
    and "sender_filter_matches q (ft_sender_id row)" "date_filter_matches q (ft_created_at_ms row)"
  shows "sound_hits env q L rows
     (merge_cold_hit env mid (ft_conversation_id row) (ft_sender_id row) (ft_created_at_ms row) x m)"
proof (cases "mid \<in> fst ` set m")
  case True
  show ?thesis unfolding sound_hits_def
  proof (intro allI impI)
    fix k r assume "(k, r) \<in> set (merge_cold_hit env mid (ft_conversation_id row) (ft_sender_id row)
        (ft_created_at_ms row) x m)"
    then obtain r0 where "(k, r0) \<in> set m" "r = (if k = mid then r0\<lparr>sr_rank := sr_rank r0 + x\<rparr> else r0)"
      using True by (auto simp: merge_cold_hit_def split: if_splits)
    then show "sound_hit env q L rows k r"
      using assms(1) sound_hit_rank[OF _ assms(2)] by (auto simp: sound_hits_def)
  qed
next
  case False
  have "sound_hit env q L rows mid r" if "sr_is_cold r" "sr_sender_id r = ft_sender_id row"
      "sr_created_at_ms r = ft_created_at_ms row" for r
    unfolding sound_hit_def using that assms(3-6) by blast
  then show ?thesis using False assms(1) by (simp add: merge_cold_hit_def sound_hits_def)
qed

lemma merge_text_row_sound:
  "sound_hits env q L rows m \<Longrightarrow> row \<in> rows \<Longrightarrow> sound_hits env q L rows (merge_text_row env q w row m)"
  by (simp add: merge_text_row_def Let_def bm25_weight_def merge_cold_hit_sound)

lemma fold_sound:
  assumes "\<And>x m. x \<in> set xs \<Longrightarrow> sound_hits env q L rows m \<Longrightarrow> sound_hits env q L rows (f x m)"
    and "sound_hits env q L rows m"
  shows "sound_hits env q L rows (fold f xs m)"
  using assms by (induction xs arbitrary: m) auto

lemma merge_fuzzy_message_sound:
  assumes "sound_hits env q L rows m" "set fts \<subseteq> rows"
  shows "sound_hits env q L rows (merge_fuzzy_message env q tokens fts counts mid m)"
proof (cases "select_one ft_message_id mid (rev fts)")
  case (Some row)
  then have "row \<in> rows" "ft_message_id row = mid" using assms(2) by (auto dest!: select_one_SomeD)
  then show ?thesis using assms(1) Some
    by (simp add: merge_fuzzy_message_def Let_def fuzzy_weight_def merge_cold_hit_sound)
qed (use assms in \<open>simp add: merge_fuzzy_message_def\<close>)

lemma merge_bucket_sound:
  assumes "sound_hits env q L rows m" "set fts \<subseteq> rows"
  shows "sound_hits env q L rows (merge_bucket_rows_into_by_id env q w tokens fts fuzzy m)"
proof -
  have "sound_hits env q L rows (fold (merge_text_row env q w) fts m)"
    using assms by (intro fold_sound merge_text_row_sound) auto
  then show ?thesis
    using assms(2) by (auto simp: merge_bucket_rows_into_by_id_def Let_def intro!: fold_sound merge_fuzzy_message_sound)
qed

text \<open>The rows a search may use: those of the opened buckets the filter did not reject.\<close>

definition opened_rows ::
  "search_env \<Rightarrow> 'e cold_source \<Rightarrow> search_policy \<Rightarrow> utext list \<Rightarrow> (string \<times> string) list \<Rightarrow> fts_row set" where
  "opened_rows env src policy w bs = {row. \<exists>(c, b) \<in> set bs. \<exists>rows. cs_text src c b = Inr rows \<and> row \<in> set rows \<and>
     \<not> bloom_rejects env policy w (bloom_answer src c b)}"

lemma pure_loop_sound:
  assumes "pure_loop env src policy q w tokens bs m = Inr m'" "sound_hits env q L rows m"
    and "opened_rows env src policy w bs \<subseteq> rows"
  shows "sound_hits env q L rows m'"
  using assms
proof (induction bs arbitrary: m)
  case (Cons b bs)
  obtain conv bucket where b: "b = (conv, bucket)" by (cases b)
  have "opened_rows env src policy w bs \<subseteq> opened_rows env src policy w (b # bs)"
    unfolding opened_rows_def list.set by blast
  then have sub: "opened_rows env src policy w bs \<subseteq> rows" using Cons.prems(3) by blast
  show ?case
  proof (cases "bloom_rejects env policy w (bloom_answer src conv bucket)")
    case True
    then show ?thesis using Cons.IH[OF _ Cons.prems(2) sub] Cons.prems(1) by (simp add: b)
  next
    case False
    then obtain fts fuzzy where f: "cs_text src conv bucket = Inr fts" "cs_fuzzy src conv bucket = Inr fuzzy"
        "pure_loop env src policy q w tokens bs (merge_bucket_rows_into_by_id env q w tokens fts fuzzy m) = Inr m'"
      using Cons.prems(1) by (auto simp: b bindE_Inr_iff)
    have "set fts \<subseteq> rows" using Cons.prems(3) f(1) False by (auto simp: opened_rows_def b)
    then show ?thesis using Cons.IH[OF f(3) merge_bucket_sound[OF Cons.prems(2)] sub] by blast
  qed
qed simp

lemma local_hits_sound: "set L \<subseteq> set L' \<Longrightarrow> sound_hits env q L' {} m \<Longrightarrow>
   sound_hits env q L' {} (fold (\<lambda>r. hit_insert (se_show_uuid env (sr_message_id r)) r) L m)"
proof (induction L arbitrary: m)
  case (Cons l L)
  have "sound_hit env q L' {} (se_show_uuid env (sr_message_id l)) l"
    using Cons.prems(1) by (auto simp: sound_hit_def)
  then have "sound_hits env q L' {} (hit_insert (se_show_uuid env (sr_message_id l)) l m)"
    using Cons.prems(2) by (auto simp: hit_insert_def sound_hits_def split: if_splits)
  then show ?case using Cons by simp
qed simp

lemma local_keys: "fst ` set (fold (\<lambda>r. hit_insert (se_show_uuid env (sr_message_id r)) r) L m) =
   fst ` set m \<union> (\<lambda>r. se_show_uuid env (sr_message_id r)) ` set L"
proof (induction L arbitrary: m)
  case (Cons l L)
  have "fst ` set (hit_insert k r m) = insert k (fst ` set m)" for k r
    by (force simp: hit_insert_def image_image)
  then show ?case using Cons by auto
qed simp

lemma weighted_result:
  assumes "r \<in> set (apply_cold_recency_weight env ids results)"
  obtains r0 where "r0 \<in> set results"
    "\<exists>y. r = (if se_show_uuid env (sr_message_id r0) \<in> set ids then r0 else r0\<lparr>sr_rank := y\<rparr>)"
proof -
  define now where "now = Max (set (map sr_created_at_ms results))"
  define f where "f = (\<lambda>r :: search_result. if se_show_uuid env (sr_message_id r) \<in> set ids then r
     else r\<lparr>sr_rank := sr_rank r * (recency_factor now (sr_created_at_ms r) * 1)\<rparr>)"
  have "apply_cold_recency_weight env ids results = map f results"
    by (simp add: apply_cold_recency_weight_def Let_def now_def f_def)
  then obtain r0 where "r0 \<in> set results" "r = f r0" using assms by auto
  then show thesis using that unfolding f_def by metis
qed

lemma finished_hit_sound:
  assumes "sound_hits env q L rows m"
    and "\<And>l. l \<in> set L \<Longrightarrow> se_show_uuid env (sr_message_id l) \<in> set ids"
    and "r \<in> set (finish_search env ids limit m)"
  shows "(\<exists>l \<in> set L. r = l\<lparr>sr_rank := sr_rank r\<rparr> \<and> sr_rank l \<le> sr_rank r) \<or>
     (sr_is_cold r \<and> (\<exists>row \<in> rows. sr_sender_id r = ft_sender_id row \<and>
        sr_created_at_ms r = ft_created_at_ms row \<and> sender_filter_matches q (ft_sender_id row) \<and>
        date_filter_matches q (ft_created_at_ms row)))"
proof -
  have "r \<in> set (apply_cold_recency_weight env ids (map snd m))"
    using assms(3) unfolding finish_search_def by (metis in_set_takeD set_sort)
  then obtain r0 where in_m: "r0 \<in> set (map snd m)" and "\<exists>y. r =
      (if se_show_uuid env (sr_message_id r0) \<in> set ids then r0
       else r0\<lparr>sr_rank := y\<rparr>)"
    by (rule weighted_result)
  then obtain k y where r0: "(k, r0) \<in> set m"
      "r = (if se_show_uuid env (sr_message_id r0) \<in> set ids then r0
            else r0\<lparr>sr_rank := y\<rparr>)"
    by auto
  have h: "sound_hit env q L rows k r0" using assms(1) r0(1) by (simp add: sound_hits_def)
  show ?thesis
  proof (cases "\<exists>l \<in> set L. r0 = l\<lparr>sr_rank := sr_rank r0\<rparr> \<and> sr_rank l \<le> sr_rank r0")
    case True
    then obtain l where l: "l \<in> set L" "r0 = l\<lparr>sr_rank := sr_rank r0\<rparr>" "sr_rank l \<le> sr_rank r0" by blast
    have "sr_message_id r0 = sr_message_id l" by (subst l(2)) simp
    then have "r = r0" using r0(2) assms(2)[OF l(1)] by simp
    then show ?thesis using l by blast
  next
    case False
    then show ?thesis using h r0(2) unfolding sound_hit_def by auto
  qed
qed

text \<open>C24: Every result of a successful search is sound.  It is a result of the local pass, changed at
  most in its rank, which has not dropped; or it is marked cold and comes from a row, in an opened
  bucket within the scope, the date window and the cap of the policy and not rejected by its bloom
  filter, that passes the sender and date filters of the query, with that row's sender and time.  If
  cold buckets were opened, the results are in rank order and at most \<open>limit\<close>.\<close>

theorem cold_search_sound:
  "case fst (execute_search_with_cold_source_full env db (Inr L) q scope src policy limit None) of
     Inl e \<Rightarrow> True
   | Inr out \<Rightarrow> out = L \<or>
       (\<exists>buckets. cs_cold_buckets src = Inr buckets \<and>
          (let rows = opened_rows env src policy
                 (lowercase_word_set (se_unicode env) (trim (se_unicode env) (sq_string q)))
                 (take (sp_max_cold_buckets policy) (in_scope_buckets env db q buckets))
           in list_all (\<lambda>r.
                (\<exists>l \<in> set L. r = l\<lparr>sr_rank := sr_rank r\<rparr> \<and> sr_rank l \<le> sr_rank r) \<or>
                (sr_is_cold r \<and> (\<exists>row \<in> rows. sr_sender_id r = ft_sender_id row \<and>
                   sr_created_at_ms r = ft_created_at_ms row \<and> sender_filter_matches q (ft_sender_id row) \<and>
                   date_filter_matches q (ft_created_at_ms row)))) out) \<and>
          sorted (map result_order out) \<and> length out \<le> limit)"
proof (cases "\<not> goes_cold env q scope policy \<or> (\<exists>e. cs_cold_buckets src = Inl e)")
  case True
  then show ?thesis by (auto simp: execute_search_with_cold_source_full_def split: sum.splits)
next
  case False
  then obtain B where B: "cs_cold_buckets src = Inr B" and cold: "goes_cold env q scope policy"
    by (metis sum.exhaust)
  let ?trim = "trim (se_unicode env) (sq_string q)"
  let ?w = "lowercase_word_set (se_unicode env) ?trim" and ?k = "generate_tokens (se_unicode env) ?trim"
  let ?in = "in_scope_buckets env db q B"
  let ?bs = "take (sp_max_cold_buckets policy) ?in"
  let ?rows = "opened_rows env src policy ?w ?bs"
  let ?pure = "pure_loop env src policy q ?w ?k ?bs (local_hits env L)"
  let ?search = "execute_search_with_cold_source_full env db (Inr L) q scope src policy limit None"
  obtain s where loop: "cold_loop env src policy q ?w ?k ?bs (local_hits env L) None = (?pure, s)"
    using cold_loop_coherent[of src None env policy q ?w ?k ?bs "local_hits env L"] by (metis coherent_None prod.collapse)
  have search: "fst ?search = (if ?in = [] then Inr L
      else map_sum id (finish_search env (map fst (local_hits env L)) limit) ?pure)"
    by (cases ?pure) (simp_all add: execute_search_with_cold_source_full_def cold B Let_def loop)
  show ?thesis
  proof (cases "?in = [] \<or> (\<exists>e. ?pure = Inl e)")
    case True
    then show ?thesis by (auto simp: search)
  next
    case False
    then obtain m where m: "?pure = Inr m" by (metis sum.exhaust)
    have "sound_hits env q L {} (local_hits env L)"
      unfolding local_hits_def by (rule local_hits_sound) (simp_all add: sound_hits_def)
    then have sound: "sound_hits env q L ?rows m"
      using pure_loop_sound[OF m sound_hits_mono order_refl] by blast
    have keys: "se_show_uuid env (sr_message_id l) \<in> set (map fst (local_hits env L))" if "l \<in> set L" for l
      using that local_keys[of env L "[]"] by (simp add: local_hits_def)
    let ?out = "finish_search env (map fst (local_hits env L)) limit m"
    have "list_all (\<lambda>r. (\<exists>l \<in> set L. r = l\<lparr>sr_rank := sr_rank r\<rparr> \<and> sr_rank l \<le> sr_rank r) \<or>
        (sr_is_cold r \<and> (\<exists>row \<in> ?rows. sr_sender_id r = ft_sender_id row \<and>
           sr_created_at_ms r = ft_created_at_ms row \<and> sender_filter_matches q (ft_sender_id row) \<and>
           date_filter_matches q (ft_created_at_ms row)))) ?out"
      unfolding list_all_iff using finished_hit_sound[OF sound keys] by blast
    moreover have "sorted (map result_order ?out) \<and> length ?out \<le> limit"
      by (simp add: finish_search_def sorted_wrt_take take_map[symmetric])
    ultimately show ?thesis using False B by (simp add: search m Let_def)
  qed
qed

subsection \<open>What the gates lose\<close>

text \<open>The bloom gate does not only skip buckets that cannot match.  The filter knows whole words, but
  a row matches a query word that is any substring of its text: if the filter of a bucket rejects the
  query's words, the bucket contributes nothing, also where a row of it passes every filter of the
  query and contains a query word, so that merging it would have added a hit.\<close>

theorem bloom_gate_loses_substrings:
  assumes "cs_bloom src conv bucket = Inr (Some f)" "\<not> bloom_may_match env f q_words"
    and "cs_text src conv bucket = Inr [row]" "cs_fuzzy src conv bucket = Inr []"
    and "sender_filter_matches q (ft_sender_id row)" "date_filter_matches q (ft_created_at_ms row)"
    and "w \<in> set q_words" "contains_text w (str_to_lowercase (se_unicode env) (ft_text row))"
  shows "fst (cold_loop env src policy q q_words tokens [(conv, bucket)] [] None) = Inr [] \<and>
     map fst (merge_bucket_rows_into_by_id env q q_words tokens [row] [] []) = [ft_message_id row]"
proof -
  have "q_words \<noteq> []" using assms(7) by auto
  then have "bloom_rejects env policy q_words (bloom_answer src conv bucket)"
    using assms(1,2) by (simp add: bloom_rejects_def bloom_answer_def)
  moreover have "matched_words env q_words row \<noteq> 0"
    using assms(7,8) by (auto simp: matched_words_def filter_empty_conv)
  ultimately show ?thesis
    using assms(5,6) cold_loop_coherent[of src None env policy q q_words tokens "[(conv, bucket)]" "[]"]
    by (simp add: merge_bucket_rows_into_by_id_def merge_text_row_def merge_cold_hit_def counted_rows_def Let_def)
qed

definition holiday_row :: fts_row where
  "holiday_row = \<lparr>ft_message_id = ''m'', ft_conversation_id = ''c'', ft_sender_id = ''s'',
     ft_created_at_ms = 1769817600000, ft_text = [104, 111, 108, 105, 100, 97, 121, 115]\<rparr>"

definition holiday_filter :: bloom_filter where
  "holiday_filter = from_words (\<lambda>_ w. [of_nat (length w)]) [utf8 [104, 111, 108, 105, 100, 97, 121, 115]] 1"

definition holiday_source :: "nat cold_source" where
  "holiday_source = \<lparr>cs_cold_buckets = Inr [(''c'', ''2026-02'')], cs_bloom = (\<lambda>_ _. Inr (Some holiday_filter)),
     cs_text = (\<lambda>_ _. Inr [holiday_row]), cs_fuzzy = (\<lambda>_ _. Inr [])\<rparr>"

definition holi_query :: search_query where
  "holi_query = hello_query\<lparr>sq_string := [104, 111, 108, 105]\<rparr>"

lemma holiday_text:
  "contains_text [104, 111, 108, 105] (str_to_lowercase (se_unicode plain_env) (ft_text holiday_row))"
  by (simp add: str_to_lowercase_def plain_env_def ascii_only_def holiday_row_def upt_rec_numeral)

lemma holiday_rejected: "\<not> bloom_may_match plain_env holiday_filter [[104, 111, 108, 105]]"
proof -
  let ?h = "\<lambda>(_ :: bytes) w. [of_nat (length w)] :: bytes"
  have "bf_bit_count holiday_filter = 64"
    using from_words_shape[of ?h "[utf8 [104, 111, 108, 105, 100, 97, 121, 115]]" 1]
    by (simp add: same_shape_def holiday_filter_def for_expected_count_def u64_max_def Let_def)
  then have pos: "position ?h holiday_filter w s = length w" if "length w < 64" for w s
    using that by (simp add: position_def le_value_def Let_def unsigned_of_nat take_bit_nat_eq_self)
  have "maybe_contains ?h holiday_filter w = False" if "length w = 4" for w
    using bloom_positives[of ?h "[utf8 [104, 111, 108, 105, 100, 97, 121, 115]]" 1 w] that pos
    unfolding holiday_filter_def[symmetric] by (simp add: utf8_def utf8_char_def list_ex_iff list_all_iff)
      (rule exI[of _ 0], simp)
  then show ?thesis by (simp add: bloom_may_match_def plain_env_def utf8_def utf8_char_def)
qed

theorem bloom_gate_loses_substrings_witness:
  "fst (cold_loop plain_env holiday_source default_search_policy holi_query [[104, 111, 108, 105]] []
      [(''c'', ''2026-02'')] [] None) = Inr [] \<and>
   map fst (merge_bucket_rows_into_by_id plain_env holi_query [[104, 111, 108, 105]] [] [holiday_row] [] []) =
     [ft_message_id holiday_row]"
proof (rule bloom_gate_loses_substrings)
  show "cs_bloom holiday_source ''c'' ''2026-02'' = Inr (Some holiday_filter)"
    "cs_text holiday_source ''c'' ''2026-02'' = Inr [holiday_row]" "cs_fuzzy holiday_source ''c'' ''2026-02'' = Inr []"
    by (simp_all add: holiday_source_def)
  show "sender_filter_matches holi_query (ft_sender_id holiday_row)"
    "date_filter_matches holi_query (ft_created_at_ms holiday_row)"
    by (simp_all add: sender_filter_matches_def date_filter_matches_def holi_query_def hello_query_def)
  show "[104, 111, 108, 105] \<in> set [[104, 111, 108, 105 :: nat]]" by simp
  show "contains_text [104, 111, 108, 105] (str_to_lowercase (se_unicode plain_env) (ft_text holiday_row))"
    by (rule holiday_text)
  show "\<not> bloom_may_match plain_env holiday_filter [[104, 111, 108, 105]]"
    by (rule holiday_rejected)
qed

definition january_source :: "nat cold_source" where
  "january_source = holiday_source\<lparr>cs_cold_buckets := Inr [(''c'', default_time_bucket_for_ms 1769817600000)],
     cs_bloom := (\<lambda>_ _. Inr None)\<rparr>"

definition dated_query :: search_query where
  "dated_query = holi_query\<lparr>sq_date_from := Some 1769817600000, sq_date_to := Some 1769817600000\<rparr>"

text \<open>The wrong month of a bucket's name reaches the answer of a search: the message of 31 January
  2026, in a bucket named as the archive names it, is found by the query without a date, and lost by
  the same query for that very day.\<close>

theorem dated_search_loses_message:
  "in_month 2026 1 (ft_created_at_ms holiday_row) \<and>
   date_filter_matches dated_query (ft_created_at_ms holiday_row) \<and>
   map_sum id (map sr_created_at_ms) (fst (execute_search_with_cold_source_full plain_env db (Inr []) holi_query
      IncludeCold january_source default_search_policy 200 None)) = Inr [ft_created_at_ms holiday_row] \<and>
   fst (execute_search_with_cold_source_full plain_env db (Inr []) dated_query
      IncludeCold january_source default_search_policy 200 None) = Inr []"
proof -
  have cold: "goes_cold plain_env q IncludeCold default_search_policy" if "q \<in> {holi_query, dated_query}" for q
    using that by (auto simp: goes_cold_def holi_query_def dated_query_def hello_query_def plain_env_def
        ascii_only_def trim_def default_search_policy_def)
  have B: "cs_cold_buckets january_source = Inr [(''c'', ''2026-02'')]"
    by (simp add: january_source_def january_filed)
  have open1: "in_scope_buckets plain_env db holi_query [(''c'', ''2026-02'')] = [(''c'', ''2026-02'')]"
    by (simp add: in_scope_buckets_def holi_query_def hello_query_def effective_target_def resolve_target_def
        bucket_overlaps_date_range_def)
  have open2: "in_scope_buckets plain_env db dated_query [(''c'', ''2026-02'')] = []"
    by (simp add: in_scope_buckets_def dated_query_def holi_query_def hello_query_def effective_target_def
        resolve_target_def january_bucket_pruned)
  have words: "lowercase_word_set (se_unicode plain_env) (trim (se_unicode plain_env) (sq_string holi_query)) =
      [[104, 111, 108, 105]]"
    by (simp add: lowercase_word_set_def push_word_def trim_def plain_env_def ascii_only_def holi_query_def
        ascii_punctuation_def between_def)
  have answers: "bloom_answer january_source c b = None" "cs_text january_source c b = Inr [holiday_row]"
    "cs_fuzzy january_source c b = Inr []" for c b
    by (simp_all add: bloom_answer_def january_source_def holiday_source_def)
  have row: "merge_bucket_rows_into_by_id plain_env holi_query [[104, 111, 108, 105]] k [holiday_row] [] [] =
      merge_cold_hit plain_env ''m'' ''c'' ''s'' 1769817600000 2 []" for k
    using holiday_text
    by (simp add: merge_bucket_rows_into_by_id_def merge_text_row_def counted_rows_def Let_def matched_words_def
        sender_filter_matches_def date_filter_matches_def bm25_weight_def holiday_row_def holi_query_def hello_query_def)
  have loop: "fst (cold_loop plain_env january_source default_search_policy holi_query [[104, 111, 108, 105]] k
      [(''c'', ''2026-02'')] [] None) = Inr (merge_cold_hit plain_env ''m'' ''c'' ''s'' 1769817600000 2 [])" for k
    using cold_loop_coherent[of january_source None plain_env default_search_policy holi_query
        "[[104, 111, 108, 105]]" k "[(''c'', ''2026-02'')]" "[]"]
    by (simp add: answers bloom_rejects_def default_search_policy_def row)
  have found: "map_sum id (map sr_created_at_ms) (fst (execute_search_with_cold_source_full plain_env db (Inr []) holi_query
      IncludeCold january_source default_search_policy 200 None)) = Inr [1769817600000]"
  proof -
    have ten: "take (sp_max_cold_buckets default_search_policy) [x] = [x]" for x :: "string \<times> string"
      by (simp add: default_search_policy_def)
    obtain s where "cold_loop plain_env january_source default_search_policy holi_query [[104, 111, 108, 105]]
        (generate_tokens (se_unicode plain_env) (trim (se_unicode plain_env) (sq_string holi_query)))
        [(''c'', ''2026-02'')] [] None = (Inr (merge_cold_hit plain_env ''m'' ''c'' ''s'' 1769817600000 2 []), s)"
      using loop by (metis prod.collapse)
    then show ?thesis
      by (simp add: execute_search_with_cold_source_full_def cold B open1 words local_hits_def ten
          finish_search_def apply_cold_recency_weight_def merge_cold_hit_def del: cold_loop.simps)
  qed
  have lost: "fst (execute_search_with_cold_source_full plain_env db (Inr []) dated_query
      IncludeCold january_source default_search_policy 200 None) = Inr []"
    by (simp add: execute_search_with_cold_source_full_def cold B open2)
  show ?thesis using found lost january_is_january
    by (simp add: holiday_row_def date_filter_matches_def dated_query_def)
qed

end
