(* ===== verification/Parallel_Fetch.thy ===== *)
theory Parallel_Fetch
  imports Search_Facts
begin

text \<open>
  The worker pool of the parallel search (\<open>parallel_fetch_buckets\<close> of \<open>search/query_engine.rs\<close>).  The
  workers share an atomic cursor, the mutex around the shard cache and one slot per bucket.  A step is
  one atomic action of one worker: claiming an index, a lookup in the cache, a fetch with its store
  in the cache, or filling a slot; any worker may take the next step.
\<close>

datatype 'e phase =
    Idle
  | BloomLookup nat
  | BloomFetch nat
  | TextLookup nat "bloom_filter option"
  | TextFetch nat "bloom_filter option"
  | FuzzyLookup nat "bloom_filter option" "'e + fts_row list"
  | FuzzyFetch nat "bloom_filter option" "'e + fts_row list"
  | Filling nat "'e bucket_prefetch"
  | Finished

record 'e pool =
  pl_cursor :: nat
  pl_cache :: cache_slot
  pl_slots :: "'e bucket_prefetch option list"
  pl_phases :: "'e phase list"

record 'e fetch_job =
  fj_env :: search_env
  fj_source :: "'e cold_source"
  fj_policy :: search_policy
  fj_words :: "utext list"
  fj_buckets :: "(string \<times> string) list"

definition job_key :: "'e fetch_job \<Rightarrow> nat \<Rightarrow> index_type \<Rightarrow> shard_cache_key" where
  "job_key j i t = shard_key (fst (fj_buckets j ! i)) (snd (fj_buckets j ! i)) t"

definition filled :: "'e fetch_job \<Rightarrow> nat \<Rightarrow> bloom_filter option \<Rightarrow> 'e + fts_row list \<Rightarrow> 'e + fuzzy_row list \<Rightarrow> 'e phase" where
  "filled j i bloom fts fuzzy = Filling i
     \<lparr>bp_conv = fst (fj_buckets j ! i), bp_bucket = snd (fj_buckets j ! i), bp_bloom = bloom,
      bp_text = fts, bp_fuzzy = fuzzy\<rparr>"

definition after_bloom :: "'e fetch_job \<Rightarrow> nat \<Rightarrow> bloom_filter option \<Rightarrow> 'e phase" where
  "after_bloom j i bloom =
     (if bloom_rejects (fj_env j) (fj_policy j) (fj_words j) bloom then filled j i bloom (Inr []) (Inr [])
      else TextLookup i bloom)"

text \<open>The next action of a worker in a phase: its new phase and the shared state.\<close>

fun worker_step :: "'e fetch_job \<Rightarrow> 'e phase \<Rightarrow> 'e pool \<Rightarrow> 'e phase \<times> 'e pool" where
  "worker_step j Idle p =
     (if pl_cursor p < length (fj_buckets j) then BloomLookup (pl_cursor p) else Finished,
      p\<lparr>pl_cursor := pl_cursor p + 1\<rparr>)"
| "worker_step j (BloomLookup i) p =
     (case cache_lookup (job_key j i BloomIndex) (pl_cache p) of (c, hit) \<Rightarrow>
        (case hit of Some (BloomShard f) \<Rightarrow> after_bloom j i (Some f) | _ \<Rightarrow> BloomFetch i, p\<lparr>pl_cache := c\<rparr>))"
| "worker_step j (BloomFetch i) p =
     (case cs_bloom (fj_source j) (fst (fj_buckets j ! i)) (snd (fj_buckets j ! i)) of
        Inr (Some f) \<Rightarrow> (after_bloom j i (Some f),
          p\<lparr>pl_cache := cache_store (fj_env j) (job_key j i BloomIndex) (BloomShard f) (pl_cache p)\<rparr>)
      | _ \<Rightarrow> (after_bloom j i None, p))"
| "worker_step j (TextLookup i b) p =
     (case cache_lookup (job_key j i TextIndex) (pl_cache p) of (c, hit) \<Rightarrow>
        (case hit of Some (TextShard rows) \<Rightarrow> FuzzyLookup i b (Inr rows) | _ \<Rightarrow> TextFetch i b, p\<lparr>pl_cache := c\<rparr>))"
| "worker_step j (TextFetch i b) p =
     (case cs_text (fj_source j) (fst (fj_buckets j ! i)) (snd (fj_buckets j ! i)) of
        Inl e \<Rightarrow> (FuzzyLookup i b (Inl e), p)
      | Inr rows \<Rightarrow> (FuzzyLookup i b (Inr rows),
          p\<lparr>pl_cache := cache_store (fj_env j) (job_key j i TextIndex) (TextShard rows) (pl_cache p)\<rparr>))"
| "worker_step j (FuzzyLookup i b fts) p =
     (case cache_lookup (job_key j i FuzzyIndex) (pl_cache p) of (c, hit) \<Rightarrow>
        (case hit of Some (FuzzyShard rows) \<Rightarrow> filled j i b fts (Inr rows) | _ \<Rightarrow> FuzzyFetch i b fts, p\<lparr>pl_cache := c\<rparr>))"
| "worker_step j (FuzzyFetch i b fts) p =
     (case cs_fuzzy (fj_source j) (fst (fj_buckets j ! i)) (snd (fj_buckets j ! i)) of
        Inl e \<Rightarrow> (filled j i b fts (Inl e), p)
      | Inr rows \<Rightarrow> (filled j i b fts (Inr rows),
          p\<lparr>pl_cache := cache_store (fj_env j) (job_key j i FuzzyIndex) (FuzzyShard rows) (pl_cache p)\<rparr>))"
| "worker_step j (Filling i entry) p = (Idle, p\<lparr>pl_slots := (pl_slots p)[i := Some entry]\<rparr>)"
| "worker_step j Finished p = (Finished, p)"

inductive pool_step :: "'e fetch_job \<Rightarrow> 'e pool \<Rightarrow> 'e pool \<Rightarrow> bool" for j where
  work: "w < length (pl_phases p) \<Longrightarrow> pl_phases p ! w \<noteq> Finished \<Longrightarrow>
     worker_step j (pl_phases p ! w) p = (ph, p') \<Longrightarrow>
     pool_step j p (p'\<lparr>pl_phases := (pl_phases p)[w := ph]\<rparr>)"

inductive_cases pool_stepE: "pool_step j p q"

definition start_pool :: "'e fetch_job \<Rightarrow> cache_slot \<Rightarrow> nat \<Rightarrow> 'e pool" where
  "start_pool j cache concurrency =
     \<lparr>pl_cursor = 0, pl_cache = cache, pl_slots = replicate (length (fj_buckets j)) None,
      pl_phases = replicate (min (max concurrency 1) (length (fj_buckets j))) Idle\<rparr>"

definition collected :: "'e pool \<Rightarrow> 'e bucket_prefetch list" where
  "collected p = map the (filter (\<lambda>s. s \<noteq> None) (pl_slots p))"

subsection \<open>The invariant of the pool\<close>

abbreviation expected :: "'e fetch_job \<Rightarrow> nat \<Rightarrow> 'e bucket_prefetch" where
  "expected j i \<equiv> prefetch_bucket (fj_env j) (fj_source j) (fj_policy j) (fj_words j) (fj_buckets j ! i)"

definition good_bloom :: "'e fetch_job \<Rightarrow> nat \<Rightarrow> bloom_filter option \<Rightarrow> bool" where
  "good_bloom j i b \<longleftrightarrow>
     b = bloom_answer (fj_source j) (fst (fj_buckets j ! i)) (snd (fj_buckets j ! i)) \<and>
     \<not> bloom_rejects (fj_env j) (fj_policy j) (fj_words j) b"

definition good_text :: "'e fetch_job \<Rightarrow> nat \<Rightarrow> 'e + fts_row list \<Rightarrow> bool" where
  "good_text j i r \<longleftrightarrow> r = cs_text (fj_source j) (fst (fj_buckets j ! i)) (snd (fj_buckets j ! i))"

fun good_phase :: "'e fetch_job \<Rightarrow> 'e phase \<Rightarrow> bool" where
  "good_phase j (TextLookup i b) = good_bloom j i b"
| "good_phase j (TextFetch i b) = good_bloom j i b"
| "good_phase j (FuzzyLookup i b r) = (good_bloom j i b \<and> good_text j i r)"
| "good_phase j (FuzzyFetch i b r) = (good_bloom j i b \<and> good_text j i r)"
| "good_phase j (Filling i e) = (e = expected j i)"
| "good_phase j _ = True"

fun claimed :: "'e phase \<Rightarrow> nat option" where
  "claimed Idle = None"
| "claimed (BloomLookup i) = Some i"
| "claimed (BloomFetch i) = Some i"
| "claimed (TextLookup i _) = Some i"
| "claimed (TextFetch i _) = Some i"
| "claimed (FuzzyLookup i _ _) = Some i"
| "claimed (FuzzyFetch i _ _) = Some i"
| "claimed (Filling i _) = Some i"
| "claimed Finished = None"

definition pool_inv :: "'e fetch_job \<Rightarrow> 'e pool \<Rightarrow> bool" where
  "pool_inv j p \<longleftrightarrow>
     coherent (fj_source j) (pl_cache p) \<and>
     length (pl_slots p) = length (fj_buckets j) \<and>
     (\<forall>ph \<in> set (pl_phases p). good_phase j ph) \<and>
     (\<forall>i < length (fj_buckets j). pl_slots p ! i = None \<or> pl_slots p ! i = Some (expected j i)) \<and>
     (\<forall>i < length (fj_buckets j). i < pl_cursor p \<longrightarrow>
        pl_slots p ! i \<noteq> None \<or> Some i \<in> claimed ` set (pl_phases p)) \<and>
     (Finished \<in> set (pl_phases p) \<longrightarrow> length (fj_buckets j) \<le> pl_cursor p)"

lemma after_bloom_good:
  assumes "b = bloom_answer (fj_source j) (fst (fj_buckets j ! i)) (snd (fj_buckets j ! i))"
  shows "good_phase j (after_bloom j i b) \<and> claimed (after_bloom j i b) = Some i \<and> after_bloom j i b \<noteq> Finished"
  using assms
  by (cases "fj_buckets j ! i")
    (simp add: after_bloom_def filled_def good_bloom_def prefetch_bucket_def Let_def)

lemma filled_good:
  assumes "good_bloom j i b" "good_text j i r"
    and "f = cs_fuzzy (fj_source j) (fst (fj_buckets j ! i)) (snd (fj_buckets j ! i))"
  shows "good_phase j (filled j i b r f) \<and> claimed (filled j i b r f) = Some i \<and> filled j i b r f \<noteq> Finished"
  using assms
  by (cases "fj_buckets j ! i") (auto simp: filled_def good_bloom_def good_text_def prefetch_bucket_def Let_def)

text \<open>An action between claiming and filling keeps the claim and the slots, and is right.\<close>

lemma fetching_step:
  assumes "coherent (fj_source j) (pl_cache p)" "good_phase j ph" "claimed ph = Some i"
    and "\<forall>e. ph \<noteq> Filling i e" "worker_step j ph p = (ph', p')"
  shows "good_phase j ph' \<and> claimed ph' = Some i \<and> ph' \<noteq> Finished \<and>
     coherent (fj_source j) (pl_cache p') \<and> pl_slots p' = pl_slots p \<and> pl_cursor p' = pl_cursor p"
proof -
  note look = coherent_lookup[OF assms(1)]
  note store = coherent_store[OF assms(1)]
  show ?thesis
  proof (cases ph)
    case (BloomLookup k)
    obtain c hit where l: "cache_lookup (job_key j k BloomIndex) (pl_cache p) = (c, hit)" by fastforce
    have "coherent (fj_source j) c" by (rule look(1)[OF l])
    moreover have "bloom_answer (fj_source j) (fst (fj_buckets j ! k)) (snd (fj_buckets j ! k)) = Some f"
      if "hit = Some (BloomShard f)" for f
      using look(2)[OF l that] by (simp add: job_key_def bloom_answer_def)
    ultimately show ?thesis using assms(3,5) BloomLookup l after_bloom_good[of "Some _" j k]
      by (auto split: option.splits cached_shard.splits)
  next
    case (BloomFetch k)
    then show ?thesis using assms(1,3,5) after_bloom_good[of _ j k] store
      by (auto simp: bloom_answer_def job_key_def split: sum.splits option.splits)
  next
    case (TextLookup k b)
    obtain c hit where l: "cache_lookup (job_key j k TextIndex) (pl_cache p) = (c, hit)" by fastforce
    have "coherent (fj_source j) c" by (rule look(1)[OF l])
    moreover have "good_text j k (Inr rows)" if "hit = Some (TextShard rows)" for rows
      using look(2)[OF l that] by (simp add: job_key_def good_text_def)
    ultimately show ?thesis using assms(2,3,5) TextLookup l
      by (auto split: option.splits cached_shard.splits)
  next
    case (TextFetch k b)
    then show ?thesis using assms(1,2,3,5) store
      by (auto simp: good_text_def job_key_def split: sum.splits)
  next
    case (FuzzyLookup k b r)
    obtain c hit where l: "cache_lookup (job_key j k FuzzyIndex) (pl_cache p) = (c, hit)" by fastforce
    have c: "coherent (fj_source j) c" by (rule look(1)[OF l])
    have "good_phase j (filled j k b r (Inr rows)) \<and> claimed (filled j k b r (Inr rows)) = Some k \<and>
        filled j k b r (Inr rows) \<noteq> Finished" if "hit = Some (FuzzyShard rows)" for rows
      using look(2)[OF l that] assms(2) FuzzyLookup by (intro filled_good) (simp_all add: job_key_def)
    then show ?thesis using assms(2,3,5) FuzzyLookup l c
      by (auto split: option.splits cached_shard.splits)
  next
    case (FuzzyFetch k b r)
    then have "good_phase j (filled j k b r f) \<and> claimed (filled j k b r f) = Some k \<and> filled j k b r f \<noteq> Finished"
      if "cs_fuzzy (fj_source j) (fst (fj_buckets j ! k)) (snd (fj_buckets j ! k)) = f" for f
      using assms(2) that by (intro filled_good) simp_all
    then show ?thesis using assms(1,3,5) FuzzyFetch store
      by (auto simp: job_key_def split: sum.splits)
  qed (use assms in auto)
qed

lemma in_set_update_other: "x \<in> set xs \<Longrightarrow> w < length xs \<Longrightarrow> xs ! w \<noteq> x \<Longrightarrow> x \<in> set (xs[w := y])"
  by (metis in_set_conv_nth length_list_update nth_list_update_neq)

lemma claims_update_other:
  assumes "Some i \<in> claimed ` set phs" "w < length phs" "claimed (phs ! w) \<noteq> Some i"
  shows "Some i \<in> claimed ` set (phs[w := ph])"
proof -
  obtain x where "x \<in> set phs" "claimed x = Some i" using assms(1) by auto
  moreover have "phs ! w \<noteq> x" using assms(3) calculation by auto
  ultimately show ?thesis using in_set_update_other[of x phs w ph] assms(2) by force
qed

lemma claims_update_same:
  assumes "w < length phs" "claimed ph = claimed (phs ! w)"
  shows "claimed ` set (phs[w := ph]) = claimed ` set phs"
proof -
  have "map claimed (phs[w := ph]) = map claimed phs"
    using assms by (simp add: map_update) (metis list_update_id nth_map)
  then show ?thesis by (metis set_map)
qed

lemma pool_step_inv:
  assumes "pool_inv j p" "pool_step j p q"
  shows "pool_inv j q"
proof -
  let ?phs = "pl_phases p"
  let ?n = "length (fj_buckets j)"
  from assms(2) obtain w ph p' where q: "q = p'\<lparr>pl_phases := ?phs[w := ph]\<rparr>" and w: "w < length ?phs"
    and alive: "?phs ! w \<noteq> Finished" and st: "worker_step j (?phs ! w) p = (ph, p')"
    by (auto elim: pool_stepE)
  have c: "coherent (fj_source j) (pl_cache p)" and len: "length (pl_slots p) = ?n"
    and good: "\<And>x. x \<in> set ?phs \<Longrightarrow> good_phase j x"
    and slots: "\<And>i. i < ?n \<Longrightarrow> pl_slots p ! i = None \<or> pl_slots p ! i = Some (expected j i)"
    and cover: "\<And>i. i < ?n \<Longrightarrow> i < pl_cursor p \<Longrightarrow> pl_slots p ! i \<noteq> None \<or> Some i \<in> claimed ` set ?phs"
    and fin: "Finished \<in> set ?phs \<Longrightarrow> ?n \<le> pl_cursor p"
    using assms(1) unfolding pool_inv_def by blast+
  have mem: "x = ph \<or> x \<in> set ?phs" if "x \<in> set (?phs[w := ph])" for x
    using that set_update_subset_insert by fastforce
  have here: "?phs ! w \<in> set ?phs" using w by simp
  consider (idle) "?phs ! w = Idle" | (fill) i e where "?phs ! w = Filling i e"
    | (fetch) i where "claimed (?phs ! w) = Some i" "\<forall>e. ?phs ! w \<noteq> Filling i e"
    using alive by (cases "?phs ! w") auto
  then show ?thesis
  proof cases
    case idle
    let ?i = "pl_cursor p"
    have ph: "ph = (if ?i < ?n then BloomLookup ?i else Finished)" and p': "p' = p\<lparr>pl_cursor := ?i + 1\<rparr>"
      using st idle by simp_all
    have "pl_slots p ! i \<noteq> None \<or> Some i \<in> claimed ` set (?phs[w := ph])" if "i < ?n" "i < ?i + 1" for i
    proof (cases "i < ?i")
      case True
      then show ?thesis using cover[OF \<open>i < ?n\<close> True] claims_update_other[OF _ w] idle by auto
    next
      case False
      then have "claimed ph = Some i" using that by (simp add: ph)
      moreover have "ph \<in> set (?phs[w := ph])" using w by (rule set_update_memI)
      ultimately show ?thesis by force
    qed
    moreover have "Finished \<in> set (?phs[w := ph]) \<Longrightarrow> ?n \<le> ?i + 1"
      using mem fin ph by (fastforce split: if_splits)
    moreover have "good_phase j x" if "x \<in> set (?phs[w := ph])" for x
      using mem[OF that] good by (auto simp: ph)
    ultimately show ?thesis using c len slots by (auto simp: q p' pool_inv_def)
  next
    case (fill i e)
    have ph: "ph = Idle" and p': "p' = p\<lparr>pl_slots := (pl_slots p)[i := Some e]\<rparr>" using st fill by simp_all
    have e: "e = expected j i" using good[OF here] fill by simp
    have "(pl_slots p)[i := Some e] ! k \<noteq> None \<or> Some k \<in> claimed ` set (?phs[w := ph])"
      if "k < ?n" "k < pl_cursor p" for k
    proof (cases "k = i")
      case True
      then show ?thesis using that len by simp
    next
      case False
      then show ?thesis using cover[OF that] claims_update_other[OF _ w] fill by auto
    qed
    moreover have "(pl_slots p)[i := Some e] ! k = None \<or> (pl_slots p)[i := Some e] ! k = Some (expected j k)"
      if "k < ?n" for k
      using slots[OF that] e len that by (cases "k = i") simp_all
    moreover have "good_phase j x" if "x \<in> set (?phs[w := ph])" for x
      using mem[OF that] good by (auto simp: ph)
    moreover have "Finished \<in> set (?phs[w := ph]) \<Longrightarrow> ?n \<le> pl_cursor p"
      using mem fin ph by fastforce
    ultimately show ?thesis using c len by (auto simp: q p' pool_inv_def)
  next
    case (fetch i)
    note f = fetching_step[OF c good[OF here] fetch st]
    have "claimed ` set (?phs[w := ph]) = claimed ` set ?phs"
      using f fetch(1) by (intro claims_update_same[OF w]) simp
    moreover have "good_phase j x" if "x \<in> set (?phs[w := ph])" for x
      using mem[OF that] good f by auto
    moreover have "Finished \<in> set (?phs[w := ph]) \<Longrightarrow> ?n \<le> pl_cursor p"
      using mem fin f by metis
    ultimately show ?thesis using f len slots cover by (auto simp: q pool_inv_def)
  qed
qed

lemma start_pool_inv: "coherent (fj_source j) cache \<Longrightarrow> pool_inv j (start_pool j cache k)"
  by (auto simp: pool_inv_def start_pool_def)

lemma reachable_inv: "(pool_step j)\<^sup>*\<^sup>* p q \<Longrightarrow> pool_inv j p \<Longrightarrow> pool_inv j q"
  by (induction rule: rtranclp_induct) (auto intro: pool_step_inv)

lemma pool_step_workers: "pool_step j p q \<Longrightarrow> length (pl_phases q) = length (pl_phases p)"
  by (auto elim: pool_stepE)

lemma stuck_finished:
  assumes "\<not> (\<exists>q. pool_step j p q)"
  shows "set (pl_phases p) \<subseteq> {Finished}"
proof
  fix x assume "x \<in> set (pl_phases p)"
  then obtain w where w: "w < length (pl_phases p)" "pl_phases p ! w = x" by (auto simp: in_set_conv_nth)
  obtain ph p' where "worker_step j x p = (ph, p')" by fastforce
  then show "x \<in> {Finished}" using pool_step.work[OF w(1), of j ph p'] assms w(2) by auto
qed

text \<open>The schedule of a pool with one worker; \<open>None\<close> when it has stopped earlier.\<close>

fun solo_run :: "'e fetch_job \<Rightarrow> nat \<Rightarrow> 'e pool \<Rightarrow> 'e pool option" where
  "solo_run j 0 p = Some p"
| "solo_run j (Suc k) p = (case pl_phases p of
      [ph] \<Rightarrow> if ph = Finished then None
        else (case worker_step j ph p of (ph', p') \<Rightarrow> solo_run j k (p'\<lparr>pl_phases := [ph']\<rparr>))
    | _ \<Rightarrow> None)"

lemma solo_run_steps: "solo_run j k p = Some q \<Longrightarrow> (pool_step j ^^ k) p q"
proof (induction k arbitrary: p)
  case (Suc k)
  then obtain ph where ph: "pl_phases p = [ph]" "ph \<noteq> Finished"
    by (auto split: list.splits if_splits)
  obtain ph' p' where st: "worker_step j ph p = (ph', p')" by fastforce
  have "pool_step j p (p'\<lparr>pl_phases := [ph']\<rparr>)"
    using pool_step.work[of 0 p j ph' p'] ph st by simp
  moreover have "(pool_step j ^^ k) (p'\<lparr>pl_phases := [ph']\<rparr>) q"
    using Suc ph st by simp
  ultimately show ?case by (metis relpowp_Suc_I2)
qed simp

definition quiet_job :: "nat fetch_job" where
  "quiet_job = \<lparr>fj_env = plain_env, fj_source = quiet_source, fj_policy = default_search_policy, fj_words = [],
     fj_buckets = [(''c'', ''2026-01'')]\<rparr>"

definition quiet_end :: "nat pool" where
  "quiet_end = \<lparr>pl_cursor = 2, pl_cache = None,
     pl_slots = [Some \<lparr>bp_conv = ''c'', bp_bucket = ''2026-01'', bp_bloom = None, bp_text = Inr [], bp_fuzzy = Inr []\<rparr>],
     pl_phases = [Finished]\<rparr>"

lemma quiet_run: "solo_run quiet_job 9 (start_pool quiet_job None 4) = Some quiet_end"
  by (simp add: eval_nat_numeral quiet_job_def quiet_end_def quiet_source_def start_pool_def after_bloom_def
      filled_def bloom_rejects_def default_search_policy_def cache_lookup_def cache_store_def job_key_def)

lemma quiet_stuck: "\<not> (\<exists>q. pool_step quiet_job quiet_end q)"
  by (auto simp: quiet_end_def elim!: pool_stepE)

text \<open>C7: However the workers interleave, the pool delivers what the sequential loop would fetch: when no
  worker can move, every bucket has been fetched exactly as its own shards say, in the order of the
  buckets, and the cache is still coherent.\<close>

theorem parallel_fetch_correct:
  assumes "coherent (fj_source j) cache" "(pool_step j)\<^sup>*\<^sup>* (start_pool j cache concurrency) p"
    and "\<not> (\<exists>q. pool_step j p q)"
  shows "collected p = map (prefetch_bucket (fj_env j) (fj_source j) (fj_policy j) (fj_words j)) (fj_buckets j) \<and>
     coherent (fj_source j) (pl_cache p)"
proof -
  let ?n = "length (fj_buckets j)"
  have inv: "pool_inv j p" using reachable_inv[OF assms(2) start_pool_inv[OF assms(1)]] .
  have workers: "length (pl_phases p) = min (max concurrency 1) ?n"
    using assms(2) by (induction rule: rtranclp_induct) (simp_all add: start_pool_def pool_step_workers)
  have done_: "set (pl_phases p) \<subseteq> {Finished}" using stuck_finished[OF assms(3)] .
  have "pl_slots p ! i = Some (expected j i)" if i: "i < ?n" for i
  proof -
    have "pl_phases p \<noteq> []" using workers i by (auto simp: min_def max_def split: if_splits)
    then have "Finished \<in> set (pl_phases p)" using done_ by (cases "pl_phases p") auto
    then have "i < pl_cursor p" using inv i by (auto simp: pool_inv_def)
    moreover have "Some i \<notin> claimed ` set (pl_phases p)" using done_ by auto
    ultimately show ?thesis using inv i unfolding pool_inv_def by blast
  qed
  then have "pl_slots p = map (\<lambda>i. Some (expected j i)) [0..<?n]"
    using inv by (intro nth_equalityI) (simp_all add: pool_inv_def)
  then have "collected p = map (\<lambda>i. expected j i) [0..<?n]"
    by (simp add: collected_def filter_map o_def)
  also have "\<dots> = map (prefetch_bucket (fj_env j) (fj_source j) (fj_policy j) (fj_words j)) (fj_buckets j)"
    by (rule nth_equalityI) simp_all
  finally show ?thesis using inv by (simp add: pool_inv_def)
qed

theorem parallel_fetch_correct_witness:
  "collected quiet_end =
     map (prefetch_bucket plain_env quiet_source default_search_policy []) [(''c'', ''2026-01'')]"
  using parallel_fetch_correct[of quiet_job None 4 quiet_end] quiet_stuck
    relpowp_imp_rtranclp[OF solo_run_steps[OF quiet_run]]
  by (simp add: quiet_job_def)

subsection \<open>Every schedule ends\<close>

fun phase_rank :: "'e phase \<Rightarrow> nat" where
  "phase_rank Finished = 0"
| "phase_rank Idle = 1"
| "phase_rank (Filling _ _) = 2"
| "phase_rank (FuzzyFetch _ _ _) = 3"
| "phase_rank (FuzzyLookup _ _ _) = 4"
| "phase_rank (TextFetch _ _) = 5"
| "phase_rank (TextLookup _ _) = 6"
| "phase_rank (BloomFetch _) = 7"
| "phase_rank (BloomLookup _) = 8"

definition pool_measure :: "'e fetch_job \<Rightarrow> 'e pool \<Rightarrow> nat" where
  "pool_measure j p = 8 * (length (fj_buckets j) - pl_cursor p) + (\<Sum>ph \<leftarrow> pl_phases p. phase_rank ph)"

lemma sum_list_update_nat:
  "w < length xs \<Longrightarrow> (\<Sum>x \<leftarrow> xs[w := y]. f x) + f (xs ! w) = (\<Sum>x \<leftarrow> xs. f x :: nat) + f y"
proof (induction xs arbitrary: w)
  case (Cons x xs)
  then show ?case by (cases w) (simp_all add: ac_simps)
qed simp

lemma worker_step_measure:
  assumes "worker_step j ph p = (ph', p')" "ph \<noteq> Finished"
  shows "8 * (length (fj_buckets j) - pl_cursor p') + phase_rank ph' <
     8 * (length (fj_buckets j) - pl_cursor p) + phase_rank ph"
  using assms
  by (cases ph) (auto simp: after_bloom_def filled_def split: prod.splits option.splits cached_shard.splits
      sum.splits if_splits)

lemma pool_step_measure:
  assumes "pool_step j p q"
  shows "pool_measure j q < pool_measure j p"
proof -
  from assms obtain w ph p' where q: "q = p'\<lparr>pl_phases := (pl_phases p)[w := ph]\<rparr>"
    and w: "w < length (pl_phases p)" and alive: "pl_phases p ! w \<noteq> Finished"
    and st: "worker_step j (pl_phases p ! w) p = (ph, p')"
    by (auto elim: pool_stepE)
  show ?thesis
    using worker_step_measure[OF st alive] sum_list_update_nat[OF w, of phase_rank ph]
    by (simp add: pool_measure_def q)
qed

text \<open>C27: The pool never deadlocks and never spins: no schedule of \<open>n\<close> buckets takes more than \<open>9 n\<close> steps.
  (A state in which no worker can move is a complete result, by the property before.)\<close>

theorem parallel_fetch_terminates:
  assumes "(pool_step j ^^ k) (start_pool j cache concurrency) p"
  shows "k \<le> 9 * length (fj_buckets j)"
proof -
  have "pool_measure j p + k \<le> pool_measure j (start_pool j cache concurrency)"
    using assms
  proof (induction k arbitrary: p)
    case (Suc k)
    then obtain q where "(pool_step j ^^ k) (start_pool j cache concurrency) q" "pool_step j q p" by auto
    then show ?case using Suc.IH[of q] pool_step_measure[of j q p] by linarith
  qed simp
  moreover have "pool_measure j (start_pool j cache concurrency) \<le> 9 * length (fj_buckets j)"
    by (simp add: pool_measure_def start_pool_def sum_list_replicate)
  ultimately show ?thesis by linarith
qed

theorem parallel_fetch_terminates_witness:
  "(pool_step quiet_job ^^ 9) (start_pool quiet_job None 4) quiet_end \<and> 9 \<le> 9 * length (fj_buckets quiet_job)"
  using parallel_fetch_terminates[OF solo_run_steps[OF quiet_run]] solo_run_steps[OF quiet_run] by simp

end
