(* ===== verification/Event_Cbor.thy ===== *)
theory Event_Cbor
  imports Manifests
begin

text \<open>
  The hand-rolled CBOR encoder of the journal payloads (\<open>message/processor.rs\<close>): text strings, integers, and
  the four payload shapes.  A Rust string is taken as the list of its UTF-8 bytes.  The reference is the
  reader of RFC 8949 below, which the source does not contain: the payloads are read by other programs.
\<close>

subsection \<open>The encoder\<close>

definition be_bytes :: "nat \<Rightarrow> nat \<Rightarrow> bytes" where
  "be_bytes k n = rev (le_bytes k n)"

definition push_cbor_uint_with_major :: "byte \<Rightarrow> 64 word \<Rightarrow> bytes \<Rightarrow> bytes" where
  "push_cbor_uint_with_major major v out =
     (let m = push_bit 5 major in
      if v < 24 then out @ [or m (ucast v)]
      else if v \<le> 0xff then out @ [or m 24, ucast v]
      else if v \<le> 0xffff then out @ [or m 25] @ be_bytes 2 (unat v)
      else if v \<le> 0xffffffff then out @ [or m 26] @ be_bytes 4 (unat v)
      else out @ [or m 27] @ be_bytes 8 (unat v))"

definition push_cbor_uint :: "64 word \<Rightarrow> bytes \<Rightarrow> bytes" where
  "push_cbor_uint v out = push_cbor_uint_with_major 0 v out"

definition push_cbor_int :: "int \<Rightarrow> bytes \<Rightarrow> bytes" where
  "push_cbor_int v out = (if v \<ge> 0 then push_cbor_uint (word_of_int v) out
     else push_cbor_uint_with_major 1 (word_of_int (- (v + 1))) out)"

definition push_cbor_text :: "string \<Rightarrow> bytes \<Rightarrow> bytes" where
  "push_cbor_text s out =
     (let len = length s;
          out = (if len < 24 then out @ [or 0x60 (word_of_nat len)]
                 else if len \<le> 0xff then out @ [0x78, word_of_nat len]
                 else if len \<le> 0xffff then out @ [0x79] @ be_bytes 2 len
                 else out @ [0x7a] @ be_bytes 4 (len mod 2 ^ 32))
      in out @ ascii_bytes s)"

definition encode_event_payload :: "string \<Rightarrow> string \<Rightarrow> string \<Rightarrow> int \<Rightarrow> bytes" where
  "encode_event_payload message_id conversation_id sender_id created_at_ms =
     push_cbor_int created_at_ms (push_cbor_text sender_id (push_cbor_text conversation_id
       (push_cbor_text message_id [0x84])))"

definition encode_edit_event_payload :: "string \<Rightarrow> int \<Rightarrow> bytes" where
  "encode_edit_event_payload message_id edited_at_ms =
     push_cbor_int edited_at_ms (push_cbor_text ''edited_at_ms'' (push_cbor_text message_id
       (push_cbor_text ''message_id'' [0xa2])))"

definition encode_delete_event_payload :: "string \<Rightarrow> string \<Rightarrow> bytes" where
  "encode_delete_event_payload message_id scope =
     push_cbor_text scope (push_cbor_text ''scope'' (push_cbor_text message_id
       (push_cbor_text ''message_id'' [0xa2])))"

definition encode_media_delete_event_payload :: "string \<Rightarrow> string \<Rightarrow> bytes" where
  "encode_media_delete_event_payload asset_id message_id =
     push_cbor_text message_id (push_cbor_text ''message_id'' (push_cbor_text asset_id
       (push_cbor_text ''asset_id'' [0xa2])))"

subsection \<open>A reader of RFC 8949\<close>

text \<open>The head of an item: the major type in the three high bits of the first byte, the argument in the
  five low ones or in the 1, 2, 4 or 8 bytes that follow, most significant first.\<close>

definition be_value :: "bytes \<Rightarrow> nat" where
  "be_value bs = foldl (\<lambda>a b. a * 256 + unat b) 0 bs"

definition read_argument :: "nat \<Rightarrow> bytes \<Rightarrow> (nat \<times> bytes) option" where
  "read_argument k bs = (if length bs < k then None else Some (be_value (take k bs), drop k bs))"

fun read_head :: "bytes \<Rightarrow> (nat \<times> nat \<times> bytes) option" where
  "read_head [] = None"
| "read_head (b # bs) =
     (let major = unat b div 32; info = unat b mod 32 in
      map_option (Pair major)
        (if info < 24 then Some (info, bs)
         else if info = 24 then read_argument 1 bs
         else if info = 25 then read_argument 2 bs
         else if info = 26 then read_argument 4 bs
         else if info = 27 then read_argument 8 bs else None))"

datatype cbor = CInt int | CText string | CArray "cbor list" | CMap "(cbor \<times> cbor) list"

fun read_scalar :: "bytes \<Rightarrow> (cbor \<times> bytes) option" where
  "read_scalar bs = (case read_head bs of
      Some (0, n, rest) \<Rightarrow> Some (CInt (int n), rest)
    | Some (Suc 0, n, rest) \<Rightarrow> Some (CInt (- int n - 1), rest)
    | Some (Suc (Suc (Suc 0)), n, rest) \<Rightarrow>
        if length rest < n then None else Some (CText (map (\<lambda>b. char_of (unat b)) (take n rest)), drop n rest)
    | _ \<Rightarrow> None)"

primrec read_scalars :: "nat \<Rightarrow> bytes \<Rightarrow> (cbor list \<times> bytes) option" where
  "read_scalars 0 bs = Some ([], bs)"
| "read_scalars (Suc k) bs = Option.bind (read_scalar bs) (\<lambda>(x, bs).
     map_option (\<lambda>(xs, bs). (x # xs, bs)) (read_scalars k bs))"

fun pair_up :: "'a list \<Rightarrow> ('a \<times> 'a) list" where
  "pair_up (x # y # zs) = (x, y) # pair_up zs"
| "pair_up _ = []"

text \<open>A whole text: one array or map of scalars and nothing after it.\<close>

definition read_payload :: "bytes \<Rightarrow> cbor option" where
  "read_payload bs = (case read_head bs of
      Some (major, n, rest) \<Rightarrow>
        if major = 4 then (case read_scalars n rest of Some (xs, []) \<Rightarrow> Some (CArray xs) | _ \<Rightarrow> None)
        else if major = 5 then (case read_scalars (2 * n) rest of Some (xs, []) \<Rightarrow> Some (CMap (pair_up xs)) | _ \<Rightarrow> None)
        else None
    | None \<Rightarrow> None)"

subsection \<open>The reader inverts the encoder\<close>

lemma length_be_bytes [simp]: "length (be_bytes k n) = k"
  by (simp add: be_bytes_def)

lemma be_value_snoc: "be_value (bs @ [b]) = be_value bs * 256 + unat b"
  by (simp add: be_value_def)

lemma be_value_be_bytes: "n < 256 ^ k \<Longrightarrow> be_value (be_bytes k n) = n"
proof (induction k arbitrary: n)
  case 0
  then show ?case by (simp add: be_value_def be_bytes_def)
next
  case (Suc k)
  have "be_value (be_bytes k (n div 256)) = n div 256"
    using Suc.prems by (intro Suc.IH) (simp add: less_mult_imp_div_less mult.commute)
  moreover have "unat (word_of_nat (n mod 256) :: byte) = n mod 256" by (simp add: unat_of_nat)
  ultimately show ?case
    by (simp add: be_bytes_def be_value_snoc)
qed

lemma read_argument_be:
  "n < 256 ^ k \<Longrightarrow> read_argument k (be_bytes k n @ rest) = Some (n, rest)"
  by (simp add: read_argument_def be_value_be_bytes)

text \<open>The two halves of the first byte do not overlap.\<close>

lemma head_byte:
  assumes "unat major < 8" "n < 32"
  shows "unat (or (push_bit 5 major) (word_of_nat n) :: byte) = 32 * unat major + n"
proof -
  have "and (push_bit 5 major) (word_of_nat n) = (0 :: byte)"
  proof (rule bit_word_eqI)
    fix i assume "i < LENGTH(8)"
    show "bit (and (push_bit 5 major) (word_of_nat n) :: byte) i \<longleftrightarrow> bit (0 :: byte) i"
    proof (cases "i < 5")
      case False
      then have "\<not> bit n i"
        using assms(2) less_le_trans[of n "2 ^ 5" "2 ^ i"] power_increasing[of 5 i "2 :: nat"]
        by (simp add: bit_iff_odd div_eq_0_iff)
      then show ?thesis by (simp add: bit_simps)
    qed (simp add: bit_simps)
  qed
  then have "or (push_bit 5 major) (word_of_nat n) = push_bit 5 major + (word_of_nat n :: byte)"
    by (simp add: disjunctive_add_eq_or)
  moreover have "unat (push_bit 5 major) = 32 * unat major"
    using assms(1) by (simp add: push_bit_eq_mult unat_word_ariths)
  moreover have "unat (word_of_nat n :: byte) = n" using assms(2) by (simp add: unat_of_nat)
  ultimately show ?thesis using assms by (simp add: unat_word_ariths)
qed

lemma read_head_pushed:
  fixes major :: byte
  assumes "unat major < 8"
  shows "n < 24 \<Longrightarrow> read_head (or (push_bit 5 major) (word_of_nat n) # rest) = Some (unat major, n, rest)"
    "n < 256 \<Longrightarrow> read_head (or (push_bit 5 major) 24 # word_of_nat n # rest) = Some (unat major, n, rest)"
    "n < 2 ^ 16 \<Longrightarrow> read_head (or (push_bit 5 major) 25 # be_bytes 2 n @ rest) = Some (unat major, n, rest)"
    "n < 2 ^ 32 \<Longrightarrow> read_head (or (push_bit 5 major) 26 # be_bytes 4 n @ rest) = Some (unat major, n, rest)"
    "n < 2 ^ 64 \<Longrightarrow> read_head (or (push_bit 5 major) 27 # be_bytes 8 n @ rest) = Some (unat major, n, rest)"
proof -
  note b = head_byte[OF assms]
  show "n < 24 \<Longrightarrow> read_head (or (push_bit 5 major) (word_of_nat n) # rest) = Some (unat major, n, rest)"
    using b[of n] by (simp add: Let_def)
  show "n < 256 \<Longrightarrow> read_head (or (push_bit 5 major) 24 # word_of_nat n # rest) = Some (unat major, n, rest)"
    using b[of 24] by (simp add: Let_def read_argument_def be_value_def unat_of_nat)
  show "n < 2 ^ 16 \<Longrightarrow> read_head (or (push_bit 5 major) 25 # be_bytes 2 n @ rest) = Some (unat major, n, rest)"
    using b[of 25] read_argument_be[of n 2 rest] by (simp add: Let_def)
  show "n < 2 ^ 32 \<Longrightarrow> read_head (or (push_bit 5 major) 26 # be_bytes 4 n @ rest) = Some (unat major, n, rest)"
    using b[of 26] read_argument_be[of n 4 rest] by (simp add: Let_def)
  show "n < 2 ^ 64 \<Longrightarrow> read_head (or (push_bit 5 major) 27 # be_bytes 8 n @ rest) = Some (unat major, n, rest)"
    using b[of 27] read_argument_be[of n 8 rest] by (simp add: Let_def)
qed

lemma read_uint_with_major:
  assumes "unat major < 8"
  shows "\<exists>item. push_cbor_uint_with_major major v out = out @ item \<and>
     (\<forall>rest. read_head (item @ rest) = Some (unat major, unat v, rest))"
proof -
  note h = read_head_pushed[OF assms, of "unat v"]
  have "unat v < 2 ^ 64" using unsigned_less[of v, where ?'a = nat] by simp
  then show ?thesis
    using h by (simp add: push_cbor_uint_with_major_def Let_def word_less_nat_alt word_le_nat_alt)
qed

lemma unat_word_of_int64: "0 \<le> w \<Longrightarrow> w < 2 ^ 64 \<Longrightarrow> unat (word_of_int w :: 64 word) = nat w"
  by (simp add: unat_eq_nat_uint uint_word_of_int)

lemma read_int:
  assumes "- (2 ^ 63) \<le> v" "v < 2 ^ 63"
  shows "\<exists>item. push_cbor_int v out = out @ item \<and> (\<forall>rest. read_scalar (item @ rest) = Some (CInt v, rest))"
proof (cases "v \<ge> 0")
  case True
  then have u: "unat (word_of_int v :: 64 word) = nat v" using assms by (intro unat_word_of_int64) simp_all
  have "unat (0 :: byte) < 8" by simp
  from read_uint_with_major[OF this, of "word_of_int v" out, unfolded u]
  obtain item where item: "push_cbor_uint_with_major 0 (word_of_int v) out = out @ item"
    "\<forall>rest. read_head (item @ rest) = Some (unat (0 :: byte), nat v, rest)" by blast
  then show ?thesis using True by (intro exI[of _ item]) (simp add: push_cbor_int_def push_cbor_uint_def)
next
  case False
  then have u: "unat (word_of_int (- (v + 1)) :: 64 word) = nat (- (v + 1))"
    using assms by (intro unat_word_of_int64) simp_all
  have "unat (1 :: byte) < 8" by simp
  from read_uint_with_major[OF this, of "word_of_int (- (v + 1))" out, unfolded u]
  obtain item where item: "push_cbor_uint_with_major 1 (word_of_int (- (v + 1))) out = out @ item"
    "\<forall>rest. read_head (item @ rest) = Some (unat (1 :: byte), nat (- (v + 1)), rest)" by blast
  then show ?thesis using False by (intro exI[of _ item]) (simp add: push_cbor_int_def)
qed

lemma ascii_roundtrip: "map (\<lambda>b. char_of (unat b)) (ascii_bytes s) = s"
proof -
  have "char_of (unat (of_char c :: byte)) = c" for c
  proof -
    have "(of_char c :: byte) = of_nat (of_char c)" by (simp only: of_nat_of_char)
    then have "unat (of_char c :: byte) = of_char c mod 256" by (simp only: unat_of_nat) simp
    also have "\<dots> = of_char c" using nat_of_char_less_256[of c] by simp
    finally show ?thesis by simp
  qed
  then show ?thesis by (simp add: ascii_bytes_def o_def)
qed

lemma read_text:
  assumes "length s < 2 ^ 32"
  shows "\<exists>item. push_cbor_text s out = out @ item \<and> (\<forall>rest. read_scalar (item @ rest) = Some (CText s, rest))"
proof -
  have m: "unat (3 :: byte) < 8" "push_bit 5 (3 :: byte) = 0x60" "or (0x60 :: byte) 24 = 0x78"
    "or (0x60 :: byte) 25 = 0x79" "or (0x60 :: byte) 26 = 0x7a" by simp_all
  note h = read_head_pushed[OF m(1), of "length s", unfolded m]
  have "\<exists>head. push_cbor_text s out = out @ head @ ascii_bytes s \<and>
      (\<forall>rest. read_head (head @ rest) = Some (3, length s, rest))"
    using h assms by (auto simp: push_cbor_text_def Let_def)
  then obtain head where head: "push_cbor_text s out = out @ head @ ascii_bytes s"
    "\<And>rest. read_head (head @ rest) = Some (3, length s, rest)" by blast
  have "length (ascii_bytes s) = length s" by (simp add: ascii_bytes_def)
  then have "read_scalar ((head @ ascii_bytes s) @ rest) = Some (CText s, rest)" for rest
    using head(2)[of "ascii_bytes s @ rest"] ascii_roundtrip[of s] by (simp add: numeral_3_eq_3)
  then show ?thesis using head(1) by blast
qed

subsection \<open>The payloads\<close>

definition i64_range :: "int \<Rightarrow> bool" where
  "i64_range t \<longleftrightarrow> - (2 ^ 63) \<le> t \<and> t < 2 ^ 63"

definition encodes :: "bytes \<Rightarrow> cbor \<Rightarrow> bool" where
  "encodes item x \<longleftrightarrow> (\<forall>rest. read_scalar (item @ rest) = Some (x, rest))"

lemma read_scalars_items:
  "list_all2 encodes items xs \<Longrightarrow> read_scalars (length xs) (concat items @ rest) = Some (xs, rest)"
  by (induction items xs rule: list_all2_induct) (simp_all add: encodes_def)

lemma pushed_text: "length s < 2 ^ 32 \<Longrightarrow> \<exists>item. push_cbor_text s out = out @ item \<and> encodes item (CText s)"
  using read_text[of s out] by (simp only: encodes_def)

lemma pushed_int: "i64_range v \<Longrightarrow> \<exists>item. push_cbor_int v out = out @ item \<and> encodes item (CInt v)"
  using read_int[of v out] by (simp only: encodes_def i64_range_def)

lemma read_array4:
  "list_all2 encodes [a, b, c, d] xs \<Longrightarrow> read_payload (((([0x84] @ a) @ b) @ c) @ d) = Some (CArray xs)"
proof -
  assume e: "list_all2 encodes [a, b, c, d] xs"
  have "length xs = 4" using list_all2_lengthD[OF e] by simp
  then show ?thesis using read_scalars_items[OF e, of "[]"] by (simp add: read_payload_def)
qed

lemma read_map2:
  "list_all2 encodes [a, b, c, d] xs \<Longrightarrow> read_payload (((([0xa2] @ a) @ b) @ c) @ d) = Some (CMap (pair_up xs))"
proof -
  assume e: "list_all2 encodes [a, b, c, d] xs"
  have "length xs = 4" using list_all2_lengthD[OF e] by simp
  then show ?thesis using read_scalars_items[OF e, of "[]"] by (simp add: read_payload_def)
qed

text \<open>The payloads of the backup journal are what they are documented to be.  Read by the rules of RFC 8949,
  each encoder's output is exactly its array or map, with nothing after it, for any strings of fewer than
  2^32 bytes and any 64-bit time.\<close>

theorem journal_payloads_decode:
  assumes "length m < 2 ^ 32" "length c < 2 ^ 32" "length s < 2 ^ 32" "i64_range t"
  shows "read_payload (encode_event_payload m c s t) = Some (CArray [CText m, CText c, CText s, CInt t]) \<and>
    read_payload (encode_edit_event_payload m t) =
      Some (CMap [(CText ''message_id'', CText m), (CText ''edited_at_ms'', CInt t)]) \<and>
    read_payload (encode_delete_event_payload m s) =
      Some (CMap [(CText ''message_id'', CText m), (CText ''scope'', CText s)]) \<and>
    read_payload (encode_media_delete_event_payload c m) =
      Some (CMap [(CText ''asset_id'', CText c), (CText ''message_id'', CText m)])"
proof -
  have pushed: "\<exists>item. push_cbor_text x out = out @ item \<and> encodes item (CText x)" if "length x < 2 ^ 32" for x out
    using that by (rule pushed_text)
  obtain tx where tx: "\<And>x out. length x < 2 ^ 32 \<Longrightarrow> push_cbor_text x out = out @ tx x out \<and> encodes (tx x out) (CText x)"
    using pushed by metis
  obtain ti where ti: "\<And>out. push_cbor_int t out = out @ ti out \<and> encodes (ti out) (CInt t)"
    using pushed_int[OF assms(4)] by metis
  have lit: "length ''message_id'' < 2 ^ 32" "length ''edited_at_ms'' < 2 ^ 32" "length ''scope'' < 2 ^ 32"
    "length ''asset_id'' < 2 ^ 32" by simp_all
  note t = tx[OF assms(1)] tx[OF assms(2)] tx[OF assms(3)] tx[OF lit(1)] tx[OF lit(2)] tx[OF lit(3)] tx[OF lit(4)]
  note app = t[THEN conjunct1] ti[THEN conjunct1] and enc = t[THEN conjunct2] ti[THEN conjunct2]
  show ?thesis
  proof (intro conjI)
    show "read_payload (encode_event_payload m c s t) = Some (CArray [CText m, CText c, CText s, CInt t])"
      unfolding encode_event_payload_def app by (rule read_array4) (simp add: enc)
    show "read_payload (encode_edit_event_payload m t) =
      Some (CMap [(CText ''message_id'', CText m), (CText ''edited_at_ms'', CInt t)])"
      unfolding encode_edit_event_payload_def app
      by (rule trans[OF read_map2[where xs = "[CText ''message_id'', CText m, CText ''edited_at_ms'', CInt t]"]]) (simp_all add: enc)
    show "read_payload (encode_delete_event_payload m s) =
      Some (CMap [(CText ''message_id'', CText m), (CText ''scope'', CText s)])"
      unfolding encode_delete_event_payload_def app
      by (rule trans[OF read_map2[where xs = "[CText ''message_id'', CText m, CText ''scope'', CText s]"]]) (simp_all add: enc)
    show "read_payload (encode_media_delete_event_payload c m) =
      Some (CMap [(CText ''asset_id'', CText c), (CText ''message_id'', CText m)])"
      unfolding encode_media_delete_event_payload_def app
      by (rule trans[OF read_map2[where xs = "[CText ''asset_id'', CText c, CText ''message_id'', CText m]"]]) (simp_all add: enc)
  qed
qed

theorem journal_payloads_decode_witness:
  "read_payload (encode_event_payload ''m1'' ''c1'' ''user'' 1700000000000) =
     Some (CArray [CText ''m1'', CText ''c1'', CText ''user'', CInt 1700000000000])"
  using journal_payloads_decode[of "''m1''" "''c1''" "''user''" 1700000000000] by (simp add: i64_range_def)

end
