(* ===== verification/Keys.thy ===== *)
theory Keys
  imports Backup_Journal Event_Cbor
begin

text \<open>
  The key tree (\<open>crypto/key_hierarchy.rs\<close>) and AES key wrap (\<open>crypto/key_wrap.rs\<close>).  HKDF-SHA256 and AES-KW
  are libraries, kept in the record \<open>key_library\<close>: \<open>kl_hkdf\<close> takes the salt, the input key, the info and
  the length of the output.  \<open>with_keys\<close> puts the derivations and the wrapping of this theory into the
  record \<open>library\<close> the backup theories use.
\<close>

subsection \<open>Derivation\<close>

record key_library =
  kl_hkdf :: "bytes option \<Rightarrow> bytes \<Rightarrow> bytes \<Rightarrow> nat \<Rightarrow> bytes option"
  kl_wrap :: "bytes \<Rightarrow> bytes \<Rightarrow> bytes option"
  kl_unwrap :: "bytes \<Rightarrow> bytes \<Rightarrow> bytes option"

definition key_len :: nat where "key_len = 32"

definition archive_root_info :: string where "archive_root_info = ''kchat-archive-root-v1''"
definition backup_root_info :: string where "backup_root_info = ''kchat-backup-root-v1''"
definition search_root_info :: string where "search_root_info = ''kchat-search-root-v1''"
definition profile_private_data_info :: string where "profile_private_data_info = ''kchat-profile-private-data-v1''"
definition archive_segment_info :: string where "archive_segment_info = ''kchat-archive-segment-v1''"
definition archive_manifest_info :: string where "archive_manifest_info = ''kchat-archive-manifest-v1''"
definition backup_segment_info :: string where "backup_segment_info = ''kchat-backup-segment-v1''"
definition backup_manifest_info :: string where "backup_manifest_info = ''kchat-backup-manifest-v1''"
definition text_index_shard_info :: string where "text_index_shard_info = ''kchat-text-index-shard-v1''"
definition vector_index_shard_info :: string where "vector_index_shard_info = ''kchat-vector-index-shard-v1''"
definition media_index_shard_info :: string where "media_index_shard_info = ''kchat-media-index-shard-v1''"
definition bloom_index_shard_info :: string where "bloom_index_shard_info = ''kchat-bloom-index-shard-v1''"
definition archive_epoch_info :: string where "archive_epoch_info = ''kchat-archive-epoch-v1''"
definition b2b_tenant_root_info :: string where "b2b_tenant_root_info = ''kchat-b2b-tenant-root-v1''"
definition b2b_archive_epoch_info :: string where "b2b_archive_epoch_info = ''kchat-b2b-archive-epoch-v1''"
definition b2b_text_index_shard_info :: string where "b2b_text_index_shard_info = ''kchat-b2b-text-index-shard-v1''"

lemmas info_defs = archive_root_info_def backup_root_info_def search_root_info_def profile_private_data_info_def
  archive_segment_info_def archive_manifest_info_def backup_segment_info_def backup_manifest_info_def
  text_index_shard_info_def vector_index_shard_info_def media_index_shard_info_def bloom_index_shard_info_def
  archive_epoch_info_def b2b_tenant_root_info_def b2b_archive_epoch_info_def b2b_text_index_shard_info_def

definition kdf_derive :: "key_library \<Rightarrow> bytes \<Rightarrow> bytes \<Rightarrow> crypto_error + bytes" where
  "kdf_derive K parent info = (case kl_hkdf K None parent info key_len of
       None \<Rightarrow> Inl (Kdf ''hkdf-sha256 expand failed'') | Some k \<Rightarrow> Inr k)"

definition derive_with_id :: "key_library \<Rightarrow> bytes \<Rightarrow> string \<Rightarrow> bytes \<Rightarrow> crypto_error + bytes" where
  "derive_with_id K parent label ident = kdf_derive K parent (ascii_bytes label @ ident)"

text \<open>The first id goes in with its length, which saturates, as four big-endian bytes.\<close>

definition id_len_bytes :: "bytes \<Rightarrow> bytes" where
  "id_len_bytes ident = rev (le_bytes 4 (min (length ident) (2 ^ 32 - 1)))"

definition derive_with_two_ids :: "key_library \<Rightarrow> bytes \<Rightarrow> string \<Rightarrow> bytes \<Rightarrow> bytes \<Rightarrow> crypto_error + bytes" where
  "derive_with_two_ids K parent label id_a id_b =
     kdf_derive K parent (ascii_bytes label @ id_len_bytes id_a @ id_a @ id_b)"

definition derive_archive_root :: "key_library \<Rightarrow> bytes \<Rightarrow> crypto_error + bytes" where
  "derive_archive_root K master = kdf_derive K master (ascii_bytes archive_root_info)"
definition derive_backup_root :: "key_library \<Rightarrow> bytes \<Rightarrow> crypto_error + bytes" where
  "derive_backup_root K master = kdf_derive K master (ascii_bytes backup_root_info)"
definition derive_search_root :: "key_library \<Rightarrow> bytes \<Rightarrow> crypto_error + bytes" where
  "derive_search_root K master = kdf_derive K master (ascii_bytes search_root_info)"
definition derive_profile_private_data :: "key_library \<Rightarrow> bytes \<Rightarrow> crypto_error + bytes" where
  "derive_profile_private_data K master = kdf_derive K master (ascii_bytes profile_private_data_info)"

definition derive_archive_segment :: "key_library \<Rightarrow> bytes \<Rightarrow> bytes \<Rightarrow> crypto_error + bytes" where
  "derive_archive_segment K root ident = derive_with_id K root archive_segment_info ident"
definition derive_archive_manifest :: "key_library \<Rightarrow> bytes \<Rightarrow> bytes \<Rightarrow> crypto_error + bytes" where
  "derive_archive_manifest K root ident = derive_with_id K root archive_manifest_info ident"
definition derive_backup_segment :: "key_library \<Rightarrow> bytes \<Rightarrow> bytes \<Rightarrow> crypto_error + bytes" where
  "derive_backup_segment K root ident = derive_with_id K root backup_segment_info ident"
definition derive_backup_manifest :: "key_library \<Rightarrow> bytes \<Rightarrow> bytes \<Rightarrow> crypto_error + bytes" where
  "derive_backup_manifest K root ident = derive_with_id K root backup_manifest_info ident"
definition derive_text_index_shard :: "key_library \<Rightarrow> bytes \<Rightarrow> bytes \<Rightarrow> crypto_error + bytes" where
  "derive_text_index_shard K root ident = derive_with_id K root text_index_shard_info ident"
definition derive_vector_index_shard :: "key_library \<Rightarrow> bytes \<Rightarrow> bytes \<Rightarrow> crypto_error + bytes" where
  "derive_vector_index_shard K root ident = derive_with_id K root vector_index_shard_info ident"
definition derive_media_index_shard :: "key_library \<Rightarrow> bytes \<Rightarrow> bytes \<Rightarrow> crypto_error + bytes" where
  "derive_media_index_shard K root ident = derive_with_id K root media_index_shard_info ident"
definition derive_bloom_index_shard :: "key_library \<Rightarrow> bytes \<Rightarrow> bytes \<Rightarrow> crypto_error + bytes" where
  "derive_bloom_index_shard K root ident = derive_with_id K root bloom_index_shard_info ident"

definition derive_b2b_tenant_root :: "key_library \<Rightarrow> bytes \<Rightarrow> string \<Rightarrow> crypto_error + bytes" where
  "derive_b2b_tenant_root K master tenant = derive_with_id K master b2b_tenant_root_info (ascii_bytes tenant)"
definition derive_b2b_archive_epoch :: "key_library \<Rightarrow> bytes \<Rightarrow> string \<Rightarrow> string \<Rightarrow> crypto_error + bytes" where
  "derive_b2b_archive_epoch K root tenant epoch =
     derive_with_two_ids K root b2b_archive_epoch_info (ascii_bytes tenant) (ascii_bytes epoch)"
definition derive_b2b_text_index_shard :: "key_library \<Rightarrow> bytes \<Rightarrow> string \<Rightarrow> string \<Rightarrow> crypto_error + bytes" where
  "derive_b2b_text_index_shard K root tenant shard =
     derive_with_two_ids K root b2b_text_index_shard_info (ascii_bytes tenant) (ascii_bytes shard)"

definition derive_archive_epoch_key :: "key_library \<Rightarrow> bytes \<Rightarrow> string \<Rightarrow> crypto_error + bytes" where
  "derive_archive_epoch_key K root epoch_id = derive_with_id K root archive_epoch_info (ascii_bytes epoch_id)"
definition derive_archive_segment_key :: "key_library \<Rightarrow> bytes \<Rightarrow> string \<Rightarrow> crypto_error + bytes" where
  "derive_archive_segment_key K epoch segment_id = derive_with_id K epoch archive_segment_info (ascii_bytes segment_id)"
definition derive_archive_manifest_key :: "key_library \<Rightarrow> bytes \<Rightarrow> string \<Rightarrow> crypto_error + bytes" where
  "derive_archive_manifest_key K epoch manifest_id = derive_with_id K epoch archive_manifest_info (ascii_bytes manifest_id)"

lemmas derive_defs = derive_with_id_def derive_with_two_ids_def derive_archive_root_def derive_backup_root_def
  derive_search_root_def derive_profile_private_data_def derive_archive_segment_def derive_archive_manifest_def
  derive_backup_segment_def derive_backup_manifest_def derive_text_index_shard_def derive_vector_index_shard_def
  derive_media_index_shard_def derive_bloom_index_shard_def derive_b2b_tenant_root_def
  derive_b2b_archive_epoch_def derive_b2b_text_index_shard_def derive_archive_epoch_key_def

subsection \<open>Wrapping\<close>

definition wrapped_key_len :: nat where "wrapped_key_len = key_len + 8"

definition wrap_key :: "key_library \<Rightarrow> bytes \<Rightarrow> bytes \<Rightarrow> crypto_error + bytes" where
  "wrap_key K wrapping_key key_to_wrap = (case kl_wrap K wrapping_key key_to_wrap of
      None \<Rightarrow> Inl (Aead ''aes-kw wrap failed'') | Some w \<Rightarrow> Inr w)"

definition unwrap_key :: "key_library \<Rightarrow> bytes \<Rightarrow> bytes \<Rightarrow> crypto_error + bytes" where
  "unwrap_key K wrapping_key wrapped =
     (if length wrapped \<noteq> wrapped_key_len then Inl (InvalidInput ''aes-kw unwrap: wrapped key must be 40 bytes'')
      else (case kl_unwrap K wrapping_key wrapped of
          None \<Rightarrow> Inl (Aead ''aes-kw unwrap failed'') | Some k \<Rightarrow> Inr k))"

definition wrap_k_asset :: "key_library \<Rightarrow> bytes \<Rightarrow> bytes \<Rightarrow> crypto_error + bytes" where
  "wrap_k_asset K k_asset root = wrap_key K root k_asset"

definition unwrap_k_asset :: "key_library \<Rightarrow> bytes \<Rightarrow> bytes \<Rightarrow> crypto_error + bytes" where
  "unwrap_k_asset K wrapped root = unwrap_key K root wrapped"

text \<open>Documented behaviour: HKDF yields up to 255 blocks of 32 bytes, of the length asked for; AES-KW wraps
  a 32-byte key in 40 bytes and unwraps it under the same key.\<close>

definition keys_sound :: "key_library \<Rightarrow> bool" where
  "keys_sound K \<longleftrightarrow>
     (\<forall>s k i n. n \<le> 255 * 32 \<longrightarrow> (\<exists>b. kl_hkdf K s k i n = Some b \<and> length b = n)) \<and>
     (\<forall>r k. length k = key_len \<longrightarrow> (\<exists>w. kl_wrap K r k = Some w)) \<and>
     (\<forall>r k w. kl_wrap K r k = Some w \<longrightarrow> length w = length k + 8 \<and> kl_unwrap K r w = Some k)"

lemma keys_soundD:
  assumes "keys_sound K"
  shows "n \<le> 255 * 32 \<Longrightarrow> \<exists>b. kl_hkdf K s k i n = Some b \<and> length b = n"
    "length k = key_len \<Longrightarrow> \<exists>w. kl_wrap K r k = Some w"
    "kl_wrap K r k = Some w \<Longrightarrow> length w = length k + 8 \<and> kl_unwrap K r w = Some k"
  using assms by (auto simp: keys_sound_def)

lemma kdf_derive_total:
  assumes "keys_sound K"
  obtains k where "kdf_derive K p i = Inr k" "length k = key_len"
  using keys_soundD(1)[OF assms, of key_len None p i] by (auto simp: kdf_derive_def key_len_def)

lemma wrap_key_total:
  assumes "keys_sound K" "length k = key_len"
  obtains w where "wrap_key K r k = Inr w" "length w = wrapped_key_len" "unwrap_key K r w = Inr k"
proof -
  obtain w where w: "kl_wrap K r k = Some w" using keys_soundD(2)[OF assms] by blast
  show thesis
    using keys_soundD(3)[OF assms(1) w] assms(2) w
    by (intro that[of w]) (simp_all add: wrap_key_def unwrap_key_def wrapped_key_len_def)
qed

lemma wrap_unwrap:
  assumes "keys_sound K" "wrap_key K r k = Inr w"
  shows "length w = length k + 8 \<and> (length k = key_len \<longrightarrow> unwrap_key K r w = Inr k)"
  using keys_soundD(3)[OF assms(1)] assms(2)
  by (auto simp: wrap_key_def unwrap_key_def wrapped_key_len_def split: option.splits)

subsection \<open>The backup's library\<close>

definition ok_or_none :: "'e + 'a \<Rightarrow> 'a option" where
  "ok_or_none r = (case r of Inl _ \<Rightarrow> None | Inr x \<Rightarrow> Some x)"

text \<open>The wrap of a key that is not 32 bytes does not type-check in the source.\<close>

definition with_keys :: "key_library \<Rightarrow> library \<Rightarrow> library" where
  "with_keys K L = L\<lparr>
     lb_derive_segment := (\<lambda>root i. ok_or_none (derive_backup_segment K root i)),
     lb_derive_manifest := (\<lambda>root i. ok_or_none (derive_backup_manifest K root i)),
     lb_wrap_key := (\<lambda>k root. if length k = key_len then ok_or_none (wrap_k_asset K k root) else None),
     lb_unwrap_key := (\<lambda>w root. ok_or_none (unwrap_k_asset K w root))\<rparr>"

lemma ok_or_none_Some [simp]: "ok_or_none r = Some x \<longleftrightarrow> r = Inr x"
  by (cases r) (simp_all add: ok_or_none_def)

lemma with_keys_sound:
  assumes "keys_sound K" "library_sound L"
  shows "library_sound (with_keys K L)"
  using assms(2) wrap_unwrap[OF assms(1)]
  by (auto simp: library_sound_def with_keys_def wrap_k_asset_def unwrap_k_asset_def split: if_splits)

subsection \<open>Separation\<close>

text \<open>The nodes of the tree below one parent.\<close>

datatype key_node =
    ArchiveRootNode | BackupRootNode | SearchRootNode | ProfileNode
  | ArchiveSegmentNode bytes | ArchiveManifestNode bytes | BackupSegmentNode bytes | BackupManifestNode bytes
  | TextShardNode bytes | VectorShardNode bytes | MediaShardNode bytes | BloomShardNode bytes
  | ArchiveEpochNode string | TenantRootNode string
  | TenantEpochNode string string | TenantShardNode string string

fun derive_node :: "key_library \<Rightarrow> bytes \<Rightarrow> key_node \<Rightarrow> crypto_error + bytes" where
  "derive_node K p ArchiveRootNode = derive_archive_root K p"
| "derive_node K p BackupRootNode = derive_backup_root K p"
| "derive_node K p SearchRootNode = derive_search_root K p"
| "derive_node K p ProfileNode = derive_profile_private_data K p"
| "derive_node K p (ArchiveSegmentNode i) = derive_archive_segment K p i"
| "derive_node K p (ArchiveManifestNode i) = derive_archive_manifest K p i"
| "derive_node K p (BackupSegmentNode i) = derive_backup_segment K p i"
| "derive_node K p (BackupManifestNode i) = derive_backup_manifest K p i"
| "derive_node K p (TextShardNode i) = derive_text_index_shard K p i"
| "derive_node K p (VectorShardNode i) = derive_vector_index_shard K p i"
| "derive_node K p (MediaShardNode i) = derive_media_index_shard K p i"
| "derive_node K p (BloomShardNode i) = derive_bloom_index_shard K p i"
| "derive_node K p (ArchiveEpochNode e) = derive_archive_epoch_key K p e"
| "derive_node K p (TenantRootNode t) = derive_b2b_tenant_root K p t"
| "derive_node K p (TenantEpochNode t e) = derive_b2b_archive_epoch K p t e"
| "derive_node K p (TenantShardNode t s) = derive_b2b_text_index_shard K p t s"

fun node_label :: "key_node \<Rightarrow> string" where
  "node_label ArchiveRootNode = archive_root_info"
| "node_label BackupRootNode = backup_root_info"
| "node_label SearchRootNode = search_root_info"
| "node_label ProfileNode = profile_private_data_info"
| "node_label (ArchiveSegmentNode i) = archive_segment_info"
| "node_label (ArchiveManifestNode i) = archive_manifest_info"
| "node_label (BackupSegmentNode i) = backup_segment_info"
| "node_label (BackupManifestNode i) = backup_manifest_info"
| "node_label (TextShardNode i) = text_index_shard_info"
| "node_label (VectorShardNode i) = vector_index_shard_info"
| "node_label (MediaShardNode i) = media_index_shard_info"
| "node_label (BloomShardNode i) = bloom_index_shard_info"
| "node_label (ArchiveEpochNode e) = archive_epoch_info"
| "node_label (TenantRootNode t) = b2b_tenant_root_info"
| "node_label (TenantEpochNode t e) = b2b_archive_epoch_info"
| "node_label (TenantShardNode t s) = b2b_text_index_shard_info"

fun node_ids :: "key_node \<Rightarrow> bytes" where
  "node_ids (ArchiveSegmentNode i) = i"
| "node_ids (ArchiveManifestNode i) = i"
| "node_ids (BackupSegmentNode i) = i"
| "node_ids (BackupManifestNode i) = i"
| "node_ids (TextShardNode i) = i"
| "node_ids (VectorShardNode i) = i"
| "node_ids (MediaShardNode i) = i"
| "node_ids (BloomShardNode i) = i"
| "node_ids (ArchiveEpochNode e) = ascii_bytes e"
| "node_ids (TenantRootNode t) = ascii_bytes t"
| "node_ids (TenantEpochNode t e) = id_len_bytes (ascii_bytes t) @ ascii_bytes t @ ascii_bytes e"
| "node_ids (TenantShardNode t s) = id_len_bytes (ascii_bytes t) @ ascii_bytes t @ ascii_bytes s"
| "node_ids _ = []"

text \<open>The ids of a tenant's keys are shorter than 4 GiB.\<close>

fun node_ok :: "key_node \<Rightarrow> bool" where
  "node_ok (TenantEpochNode t e) \<longleftrightarrow> length t < 2 ^ 32"
| "node_ok (TenantShardNode t s) \<longleftrightarrow> length t < 2 ^ 32"
| "node_ok _ \<longleftrightarrow> True"

definition key_labels :: "string list" where
  "key_labels = [archive_root_info, backup_root_info, search_root_info, profile_private_data_info,
     archive_segment_info, archive_manifest_info, backup_segment_info, backup_manifest_info,
     text_index_shard_info, vector_index_shard_info, media_index_shard_info, bloom_index_shard_info,
     archive_epoch_info, b2b_tenant_root_info, b2b_archive_epoch_info, b2b_text_index_shard_info]"

fun prefix_clash :: "string \<Rightarrow> string list \<Rightarrow> bool" where
  "prefix_clash x ys \<longleftrightarrow> list_ex (\<lambda>y. take (min (length x) (length y)) x = take (min (length x) (length y)) y) ys"

fun clash_free :: "string list \<Rightarrow> bool" where
  "clash_free [] \<longleftrightarrow> True"
| "clash_free (x # xs) \<longleftrightarrow> \<not> prefix_clash x xs \<and> clash_free xs"

lemma key_labels_clash_free: "clash_free key_labels"
  unfolding key_labels_def info_defs by code_simp

lemma ascii_bytes_inject [simp]: "ascii_bytes s = ascii_bytes t \<longleftrightarrow> s = t"
  by (metis ascii_roundtrip)

lemma ascii_bytes_take: "ascii_bytes (take n s) = take n (ascii_bytes s)" "length (ascii_bytes s) = length s"
  by (simp_all add: ascii_bytes_def take_map)

lemma clash_free_append:
  assumes "clash_free ls" "l \<in> set ls" "m \<in> set ls" "ascii_bytes l @ x = ascii_bytes m @ y"
  shows "l = m"
proof -
  have clash: "take (min (length a) (length b)) a = take (min (length a) (length b)) b"
    if "ascii_bytes a @ u = ascii_bytes b @ v" for a b u v
    using arg_cong[OF that, of "take (min (length a) (length b))"]
    by (subst ascii_bytes_inject[symmetric]) (simp add: ascii_bytes_take)
  show ?thesis
    using assms(1,2,3)
  proof (induction ls)
    case (Cons k ks)
    then show ?case
      using clash[OF assms(4)] clash[OF assms(4)[symmetric]] by (auto simp: list_ex_iff)
  qed simp
qed

lemma node_label_mem: "node_label a \<in> set key_labels"
  by (cases a) (simp_all add: key_labels_def)

lemma derive_node_kdf: "derive_node K p a = kdf_derive K p (ascii_bytes (node_label a) @ node_ids a)"
  by (cases a) (simp_all add: derive_defs Let_def ascii_bytes_take)

lemma two_ids_inject:
  assumes "id_len_bytes (ascii_bytes s) @ ascii_bytes s @ x = id_len_bytes (ascii_bytes t) @ ascii_bytes t @ y"
    and "length s < 4294967296" "length t < 4294967296"
  shows "s = t \<and> x = y"
proof -
  have "le_bytes 4 (length s) = le_bytes 4 (length t)" and *: "ascii_bytes s @ x = ascii_bytes t @ y"
    using assms by (simp_all add: id_len_bytes_def ascii_bytes_take min_absorb1)
  then have "length s = length t" using assms(2,3) by (simp add: le_bytes_inject)
  then show ?thesis using * by (simp add: ascii_bytes_take)
qed

lemma node_inject:
  assumes "ascii_bytes (node_label a) @ node_ids a = ascii_bytes (node_label b) @ node_ids b"
    and "node_ok a" "node_ok b"
  shows "a = b"
proof -
  have "node_label a = node_label b"
    using clash_free_append[OF key_labels_clash_free node_label_mem node_label_mem assms(1)] .
  moreover have "distinct key_labels" unfolding key_labels_def info_defs by code_simp
  ultimately show ?thesis
    using assms by (cases a; cases b) (simp_all add: key_labels_def, (metis two_ids_inject ascii_bytes_inject)+)
qed

text \<open>C36: Two derivations of the key tree agree under every HKDF exactly when they are the same node under the
  same parent: no label, id or pair of ids gives the input of another (the tenant's id shorter than 4 GiB).\<close>

theorem derivations_separate:
  assumes "node_ok a" "node_ok b"
  shows "(\<forall>K :: key_library. derive_node K p a = derive_node K q b) \<longleftrightarrow> p = q \<and> a = b"
proof
  assume all: "\<forall>K :: key_library. derive_node K p a = derive_node K q b"
  let ?info = "\<lambda>n. ascii_bytes (node_label n) @ node_ids n"
  let ?K = "\<lparr>kl_hkdf = \<lambda>s k i n. Some (if k = p \<and> i = ?info a then [1] else [0]),
    kl_wrap = \<lambda>_ _. None, kl_unwrap = \<lambda>_ _. None\<rparr>"
  have "derive_node ?K p a = derive_node ?K q b" using all by blast
  then have "q = p \<and> ?info b = ?info a" by (simp add: derive_node_kdf kdf_derive_def split: if_splits)
  then show "p = q \<and> a = b" using node_inject assms by metis
qed simp

theorem derivations_separate_witness:
  "(\<forall>K :: key_library. derive_node K [7] (TenantEpochNode ''tenant-a'' ''1'') = derive_node K [7] (TenantEpochNode ''tenant-'' ''a1''))
     \<longleftrightarrow> [7 :: byte] = [7] \<and> TenantEpochNode ''tenant-a'' ''1'' = TenantEpochNode ''tenant-'' ''a1''"
  by (rule derivations_separate) simp_all

end
