(* ===== verification/Epoch_Keys.thy ===== *)
theory Epoch_Keys
  imports Keys
begin

text \<open>
  The rotating keys of the archive: the manager of \<open>archive/epoch_keys.rs\<close> and the slot that holds it in
  \<open>archive/coordinator.rs\<close>.  The specification keeps the current epoch and the set of retired ones; the
  manager's keys are then those the root derives for them.
\<close>

definition lift_crypto :: "crypto_error + 'a \<Rightarrow> core_error + 'a" where
  "lift_crypto = map_sum CryptoFailure id"

lemma lift_crypto_simps [simp]: "lift_crypto (Inr x) = Inr x" "lift_crypto (Inl e) = Inl (CryptoFailure e)"
  by (simp_all add: lift_crypto_def)

subsection \<open>The manager\<close>

text \<open>A \<open>BTreeMap\<close> is the list of its entries, keys ascending.\<close>

fun btree_insert :: "'k::linorder \<Rightarrow> 'v \<Rightarrow> ('k \<times> 'v) list \<Rightarrow> ('k \<times> 'v) list" where
  "btree_insert k v [] = [(k, v)]"
| "btree_insert k v ((k', v') # xs) =
     (if k < k' then (k, v) # (k', v') # xs else if k = k' then (k, v) # xs else (k', v') # btree_insert k v xs)"

record epoch_key_manager =
  em_current_epoch_id :: string
  em_current_epoch_key :: bytes
  em_prior_epoch_keys :: "(string \<times> bytes) list"

definition new_epoch_manager :: "key_library \<Rightarrow> bytes \<Rightarrow> string \<Rightarrow> core_error + epoch_key_manager" where
  "new_epoch_manager K root epoch_id =
     map_sum id (\<lambda>key. \<lparr>em_current_epoch_id = epoch_id, em_current_epoch_key = key, em_prior_epoch_keys = []\<rparr>)
       (lift_crypto (derive_archive_epoch_key K root epoch_id))"

text \<open>The outgoing key is retired before the new one is derived; an error in between leaves it retired.\<close>

definition rotate_epoch ::
  "key_library \<Rightarrow> bytes \<Rightarrow> string \<Rightarrow> epoch_key_manager \<Rightarrow> (core_error + unit) \<times> epoch_key_manager" where
  "rotate_epoch K root new_epoch_id m =
     (if new_epoch_id = em_current_epoch_id m
      then (Inl (StorageFailure ''rotate_epoch: new_epoch_id matches current epoch id''), m)
      else if new_epoch_id \<in> fst ` set (em_prior_epoch_keys m)
      then (Inl (StorageFailure ''rotate_epoch: new_epoch_id already retired''), m)
      else (case lift_crypto (wrap_key K root (em_current_epoch_key m)) of
          Inl e \<Rightarrow> (Inl e, m)
        | Inr wrapped \<Rightarrow>
            let m = m\<lparr>em_prior_epoch_keys := btree_insert (em_current_epoch_id m) wrapped (em_prior_epoch_keys m)\<rparr> in
            (case lift_crypto (derive_archive_epoch_key K root new_epoch_id) of
               Inl e \<Rightarrow> (Inl e, m)
             | Inr key \<Rightarrow> (Inr (), m\<lparr>em_current_epoch_key := key, em_current_epoch_id := new_epoch_id\<rparr>))))"

definition wrapped_prior_epoch_key :: "string \<Rightarrow> epoch_key_manager \<Rightarrow> bytes option" where
  "wrapped_prior_epoch_key epoch_id m = map_of (em_prior_epoch_keys m) epoch_id"

definition unwrap_prior_epoch_key :: "key_library \<Rightarrow> string \<Rightarrow> bytes \<Rightarrow> epoch_key_manager \<Rightarrow> core_error + bytes" where
  "unwrap_prior_epoch_key K epoch_id root m = (case wrapped_prior_epoch_key epoch_id m of
      None \<Rightarrow> Inl (StorageFailure ''unwrap_prior_epoch_key: epoch is not retired or has been deleted'')
    | Some wrapped \<Rightarrow> lift_crypto (unwrap_key K root wrapped))"

definition delete_epoch_key :: "string \<Rightarrow> epoch_key_manager \<Rightarrow> bool \<times> epoch_key_manager" where
  "delete_epoch_key epoch_id m =
     (epoch_id \<in> fst ` set (em_prior_epoch_keys m),
      m\<lparr>em_prior_epoch_keys := filter (\<lambda>e. fst e \<noteq> epoch_id) (em_prior_epoch_keys m)\<rparr>)"

definition retired_epoch_ids :: "epoch_key_manager \<Rightarrow> string list" where
  "retired_epoch_ids m = map fst (em_prior_epoch_keys m)"

definition wrapped_prior_epoch_keys_for_manifest :: "epoch_key_manager \<Rightarrow> wrapped_epoch_key_ref list" where
  "wrapped_prior_epoch_keys_for_manifest m =
     map (\<lambda>(i, w). \<lparr>wek_epoch_id = i, wek_wrapped_key = w\<rparr>) (em_prior_epoch_keys m)"

definition ingest_wrapped_prior_epoch_key ::
  "wrapped_epoch_key_ref \<Rightarrow> epoch_key_manager \<Rightarrow> core_error + epoch_key_manager" where
  "ingest_wrapped_prior_epoch_key w m =
     (if wek_epoch_id w = em_current_epoch_id m
      then Inl (StorageFailure ''ingest_wrapped_prior_epoch_key: epoch_id matches current epoch'')
      else if length (wek_wrapped_key w) \<noteq> wrapped_key_len
      then Inl (StorageFailure ''ingest_wrapped_prior_epoch_key: wrapped_key length'')
      else if wek_epoch_id w \<in> fst ` set (em_prior_epoch_keys m)
      then Inl (StorageFailure ''ingest_wrapped_prior_epoch_key: epoch_id already known'')
      else Inr (m\<lparr>em_prior_epoch_keys := btree_insert (wek_epoch_id w) (wek_wrapped_key w) (em_prior_epoch_keys m)\<rparr>))"

subsection \<open>The coordinator's slot\<close>

definition no_epoch_manager :: core_error where
  "no_epoch_manager = StorageFailure ''epoch_key_manager''"

definition install_epoch_key_manager ::
  "key_library \<Rightarrow> bytes \<Rightarrow> string \<Rightarrow> epoch_key_manager option \<Rightarrow> (core_error + unit) \<times> epoch_key_manager option" where
  "install_epoch_key_manager K root epoch_id slot = (case new_epoch_manager K root epoch_id of
      Inl e \<Rightarrow> (Inl e, slot) | Inr m \<Rightarrow> (Inr (), Some m))"

definition rotate_archive_epoch ::
  "key_library \<Rightarrow> bytes \<Rightarrow> string \<Rightarrow> epoch_key_manager option \<Rightarrow>
   (core_error + wrapped_epoch_key_ref) \<times> epoch_key_manager option" where
  "rotate_archive_epoch K root new_epoch_id slot = (case slot of
      None \<Rightarrow> (Inl no_epoch_manager, None)
    | Some m \<Rightarrow>
        let outgoing_id = em_current_epoch_id m in
        (case rotate_epoch K root new_epoch_id m of
           (Inl e, m) \<Rightarrow> (Inl e, Some m)
         | (Inr _, m) \<Rightarrow> (case wrapped_prior_epoch_key outgoing_id m of
               None \<Rightarrow> (Inl (StorageFailure ''rotate_archive_epoch: outgoing key not retired''), Some m)
             | Some wrapped \<Rightarrow> (Inr \<lparr>wek_epoch_id = outgoing_id, wek_wrapped_key = wrapped\<rparr>, Some m))))"

definition recover_epoch_key :: "key_library \<Rightarrow> string \<Rightarrow> bytes \<Rightarrow> epoch_key_manager option \<Rightarrow> core_error + bytes" where
  "recover_epoch_key K epoch_id root slot = (case slot of
      None \<Rightarrow> Inl no_epoch_manager | Some m \<Rightarrow> unwrap_prior_epoch_key K epoch_id root m)"

definition delete_archive_epoch_key :: "string \<Rightarrow> epoch_key_manager option \<Rightarrow> (core_error + bool) \<times> epoch_key_manager option" where
  "delete_archive_epoch_key epoch_id slot = (case slot of
      None \<Rightarrow> (Inl no_epoch_manager, None)
    | Some m \<Rightarrow> let (found, m) = delete_epoch_key epoch_id m in (Inr found, Some m))"

subsection \<open>Maps\<close>

lemma btree_insert_set: "fst ` set (btree_insert k v xs) = insert k (fst ` set xs)"
proof (induction xs)
  case (Cons x xs)
  then show ?case by (cases x) (simp add: insert_commute)
qed simp

lemma btree_insert_sorted:
  "sorted_wrt (<) (map fst xs) \<Longrightarrow> sorted_wrt (<) (map fst (btree_insert k v xs))"
proof (induction xs)
  case (Cons x xs)
  obtain k' v' where x: "x = (k', v')" by (cases x)
  have "\<forall>y \<in> fst ` set (btree_insert k v xs). k' < y" if "k' < k"
    using Cons.prems that unfolding btree_insert_set by (auto simp: x)
  then show ?case using Cons by (auto simp: x)
qed simp

lemma map_of_btree_insert: "map_of (btree_insert k v xs) = (map_of xs)(k \<mapsto> v)"
  by (induction xs) (auto simp: fun_eq_iff)

lemma btree_insert_last:
  "\<forall>y \<in> fst ` set xs. y < k \<Longrightarrow> btree_insert k v xs = xs @ [(k, v)]"
  by (induction xs) auto

subsection \<open>Histories\<close>

datatype epoch_op = Rotate string | DeleteEpoch string

fun run_epoch :: "key_library \<Rightarrow> bytes \<Rightarrow> epoch_op \<Rightarrow> epoch_key_manager \<Rightarrow> epoch_key_manager" where
  "run_epoch K root (Rotate i) m = snd (rotate_epoch K root i m)"
| "run_epoch K root (DeleteEpoch i) m = snd (delete_epoch_key i m)"

definition run_epochs :: "key_library \<Rightarrow> bytes \<Rightarrow> epoch_op list \<Rightarrow> epoch_key_manager \<Rightarrow> epoch_key_manager" where
  "run_epochs K root ops m = fold (run_epoch K root) ops m"

fun spec_epoch :: "epoch_op \<Rightarrow> string \<times> string set \<Rightarrow> string \<times> string set" where
  "spec_epoch (Rotate i) (cur, ret) = (if i = cur \<or> i \<in> ret then (cur, ret) else (i, insert cur ret))"
| "spec_epoch (DeleteEpoch i) (cur, ret) = (cur, ret - {i})"

text \<open>What the root makes of the current epoch and the retired ones.\<close>

definition epoch_key :: "key_library \<Rightarrow> bytes \<Rightarrow> string \<Rightarrow> bytes" where
  "epoch_key K root i = (case derive_archive_epoch_key K root i of Inr k \<Rightarrow> k | Inl _ \<Rightarrow> [])"

definition wrapped_epoch_key :: "key_library \<Rightarrow> bytes \<Rightarrow> string \<Rightarrow> bytes" where
  "wrapped_epoch_key K root i = (case wrap_key K root (epoch_key K root i) of Inr w \<Rightarrow> w | Inl _ \<Rightarrow> [])"

definition manager_ok :: "key_library \<Rightarrow> bytes \<Rightarrow> string \<times> string set \<Rightarrow> epoch_key_manager \<Rightarrow> bool" where
  "manager_ok K root s m \<longleftrightarrow> em_current_epoch_id m = fst s \<and> em_current_epoch_key m = epoch_key K root (fst s) \<and>
     sorted_wrt (<) (map fst (em_prior_epoch_keys m)) \<and>
     map_of (em_prior_epoch_keys m) = (\<lambda>i. if i \<in> snd s then Some (wrapped_epoch_key K root i) else None) \<and>
     fst s \<notin> snd s"

lemma epoch_key_total:
  assumes "keys_sound K"
  shows "derive_archive_epoch_key K root i = Inr (epoch_key K root i)" "length (epoch_key K root i) = key_len"
proof -
  obtain k where "kdf_derive K root (ascii_bytes archive_epoch_info @ ascii_bytes i) = Inr k" "length k = key_len"
    using kdf_derive_total[OF assms] .
  then show "derive_archive_epoch_key K root i = Inr (epoch_key K root i)" "length (epoch_key K root i) = key_len"
    by (simp_all add: epoch_key_def derive_archive_epoch_key_def derive_with_id_def)
qed

lemma wrapped_epoch_key_total:
  assumes "keys_sound K"
  shows "wrap_key K root (epoch_key K root i) = Inr (wrapped_epoch_key K root i)"
    "length (wrapped_epoch_key K root i) = wrapped_key_len"
    "unwrap_key K root (wrapped_epoch_key K root i) = Inr (epoch_key K root i)"
proof -
  obtain w where "wrap_key K root (epoch_key K root i) = Inr w" "length w = wrapped_key_len"
    "unwrap_key K root w = Inr (epoch_key K root i)"
    using wrap_key_total[OF assms epoch_key_total(2)[OF assms]] .
  then show "wrap_key K root (epoch_key K root i) = Inr (wrapped_epoch_key K root i)"
    "length (wrapped_epoch_key K root i) = wrapped_key_len"
    "unwrap_key K root (wrapped_epoch_key K root i) = Inr (epoch_key K root i)"
    by (simp_all add: wrapped_epoch_key_def)
qed

lemma manager_ok_keys: "manager_ok K root s m \<Longrightarrow> fst ` set (em_prior_epoch_keys m) = snd s"
  by (auto simp: manager_ok_def dom_map_of_conv_image_fst[symmetric] split: if_splits)

lemma new_manager_ok:
  assumes "keys_sound K"
  shows "\<exists>m. new_epoch_manager K root e = Inr m \<and> manager_ok K root (e, {}) m"
  by (simp add: new_epoch_manager_def epoch_key_total[OF assms] manager_ok_def)

lemma rotate_ok:
  assumes "keys_sound K" "manager_ok K root s m"
  shows "manager_ok K root (spec_epoch (Rotate i) s) (snd (rotate_epoch K root i m)) \<and>
    (fst (rotate_epoch K root i m) = Inr () \<longleftrightarrow> i \<noteq> fst s \<and> i \<notin> snd s)"
proof -
  obtain cur ret where s: "s = (cur, ret)" by (cases s)
  have m: "em_current_epoch_id m = cur" "em_current_epoch_key m = epoch_key K root cur"
    "fst ` set (em_prior_epoch_keys m) = ret"
    using assms(2) manager_ok_keys[OF assms(2)] by (simp_all add: manager_ok_def s)
  show ?thesis
  proof (cases "i = cur \<or> i \<in> ret")
    case True
    then show ?thesis using assms(2) m by (auto simp: rotate_epoch_def s)
  next
    case False
    then have "rotate_epoch K root i m = (Inr (), \<lparr>em_current_epoch_id = i, em_current_epoch_key = epoch_key K root i,
        em_prior_epoch_keys = btree_insert cur (wrapped_epoch_key K root cur) (em_prior_epoch_keys m)\<rparr>)"
      using m by (simp add: rotate_epoch_def Let_def epoch_key_total[OF assms(1)] wrapped_epoch_key_total[OF assms(1)])
    then show ?thesis
      using assms(2) False
      by (auto simp: s manager_ok_def btree_insert_sorted map_of_btree_insert)
  qed
qed

lemma delete_ok:
  assumes "manager_ok K root s m"
  shows "manager_ok K root (spec_epoch (DeleteEpoch i) s) (snd (delete_epoch_key i m)) \<and>
    fst (delete_epoch_key i m) = (i \<in> snd s)"
proof -
  obtain cur ret where s: "s = (cur, ret)" by (cases s)
  have "map_of (filter (\<lambda>e. fst e \<noteq> i) xs) = (map_of xs)(i := None)" for xs :: "(string \<times> bytes) list"
    by (induction xs) (auto simp: fun_eq_iff)
  moreover have "sorted_wrt (<) (map fst xs) \<Longrightarrow> sorted_wrt (<) (map fst (filter P xs))" for P and xs :: "(string \<times> bytes) list"
    by (induction xs) auto
  ultimately show ?thesis
    using assms manager_ok_keys[OF assms] by (auto simp: s delete_epoch_key_def manager_ok_def fun_eq_iff)
qed

lemma history_ok:
  assumes "keys_sound K" "manager_ok K root s m"
  shows "manager_ok K root (fold spec_epoch ops s) (run_epochs K root ops m)"
  using assms(2)
proof (induction ops arbitrary: s m)
  case (Cons x xs)
  have "manager_ok K root (spec_epoch x s) (run_epoch K root x m)"
    using rotate_ok[OF assms(1) Cons.prems] delete_ok[OF Cons.prems] by (cases x) simp_all
  then show ?case using Cons.IH by (simp add: run_epochs_def)
qed (simp add: run_epochs_def)

lemma unwrap_ok:
  assumes "keys_sound K" "manager_ok K root s m"
  shows "unwrap_prior_epoch_key K i root m = (if i \<in> snd s then Inr (epoch_key K root i)
    else Inl (StorageFailure ''unwrap_prior_epoch_key: epoch is not retired or has been deleted''))"
  using assms(2) wrapped_epoch_key_total(3)[OF assms(1)]
  by (auto simp: unwrap_prior_epoch_key_def wrapped_prior_epoch_key_def manager_ok_def)

text \<open>Two managers of the same state are equal: the entries of an ordered map are its keys in order.\<close>

lemma sorted_assoc_eq:
  assumes "sorted_wrt (<) (map fst xs)" "sorted_wrt (<) (map fst ys)" "map_of xs = map_of ys"
  shows "xs = (ys :: ('k::linorder \<times> 'v) list)"
proof -
  have d: "distinct (map fst xs)" "distinct (map fst ys)" using assms by (simp_all add: strict_sorted_iff)
  have "set xs = set ys" using d assms(3) map_of_eq_Some_iff by (metis subset_antisym subsetI surj_pair)
  moreover have "sorted (map fst xs)" "sorted (map fst ys)" using assms by (simp_all add: strict_sorted_iff)
  ultimately show ?thesis
    using d map_sorted_distinct_set_unique[of fst xs ys] by (simp add: distinct_map)
qed

lemma manager_unique: "manager_ok K root s m \<Longrightarrow> manager_ok K root s m' \<Longrightarrow> m = (m' :: epoch_key_manager)"
  unfolding manager_ok_def by (intro epoch_key_manager.equality) (simp_all add: sorted_assoc_eq)

text \<open>C9: After any sequence of rotations and deletions under one root, the manager holds the key the root derives
  for the current epoch, the retired epochs are those of the specification in order, each of them unwraps to
  the key the root derives for it, and no other id unwraps.\<close>

theorem epoch_keys_refine:
  fixes ops i
  assumes "keys_sound K" "new_epoch_manager K root e = Inr m" "fold spec_epoch ops (e, {}) = (cur, ret)"
  defines "m' \<equiv> run_epochs K root ops m"
  shows "em_current_epoch_id m' = cur \<and> derive_archive_epoch_key K root cur = Inr (em_current_epoch_key m') \<and>
    cur \<notin> ret \<and> set (retired_epoch_ids m') = ret \<and> sorted_wrt (<) (retired_epoch_ids m') \<and>
    unwrap_prior_epoch_key K i root m' = (if i \<in> ret then lift_crypto (derive_archive_epoch_key K root i)
      else Inl (StorageFailure ''unwrap_prior_epoch_key: epoch is not retired or has been deleted''))"
proof -
  have ok: "manager_ok K root (cur, ret) m'"
    using new_manager_ok[OF assms(1), of root e] history_ok[OF assms(1), of root "(e, {})" m ops] assms(2,3)
    by (auto simp: m'_def)
  then show ?thesis
    using unwrap_ok[OF assms(1) ok, of i] manager_ok_keys[OF ok] epoch_key_total(1)[OF assms(1)]
    by (simp add: manager_ok_def retired_epoch_ids_def)
qed

text \<open>Deleting a retired epoch's key drops it from the manager, and rotating to that epoch's id again is accepted
  and makes the very key current that the deletion dropped: the root derives it anew.\<close>

theorem deleted_epoch_key_comes_back:
  fixes ops i
  assumes "keys_sound K" "new_epoch_manager K root e = Inr m0"
  defines "m \<equiv> run_epochs K root ops m0"
  assumes "unwrap_prior_epoch_key K i root m = Inr k"
  shows "fst (delete_epoch_key i m) \<and> (\<forall>k. unwrap_prior_epoch_key K i root (snd (delete_epoch_key i m)) \<noteq> Inr k) \<and>
    fst (rotate_epoch K root i (snd (delete_epoch_key i m))) = Inr () \<and>
    em_current_epoch_key (snd (rotate_epoch K root i (snd (delete_epoch_key i m)))) = k"
proof -
  obtain cur ret where s: "fold spec_epoch ops (e, {}) = (cur, ret)" by fastforce
  have ok: "manager_ok K root (cur, ret) m"
    using new_manager_ok[OF assms(1), of root e] history_ok[OF assms(1), of root "(e, {})" m0 ops] assms(2) s
    by (auto simp: m_def)
  have i: "i \<in> ret" "k = epoch_key K root i" using unwrap_ok[OF assms(1) ok, of i] assms(4) by (auto split: if_splits)
  then have "i \<noteq> cur" using ok by (auto simp: manager_ok_def)
  note del = delete_ok[OF ok, of i]
  then have ok': "manager_ok K root (cur, ret - {i}) (snd (delete_epoch_key i m))" by simp
  show ?thesis
    using del unwrap_ok[OF assms(1) ok', of i] rotate_ok[OF assms(1) ok', of i] i \<open>i \<noteq> cur\<close>
    by (auto simp: manager_ok_def)
qed

lemma ingest_all:
  assumes "keys_sound K" "manager_ok K root (cur, S) m" "distinct is" "set is \<inter> S = {}" "cur \<notin> set is"
  shows "\<exists>m'. foldE ingest_wrapped_prior_epoch_key
      (map (\<lambda>i. \<lparr>wek_epoch_id = i, wek_wrapped_key = wrapped_epoch_key K root i\<rparr>) is) m = Inr m' \<and>
    manager_ok K root (cur, S \<union> set is) m'"
  using assms(2-)
proof (induction "is" arbitrary: S m)
  case (Cons i "is")
  let ?m = "m\<lparr>em_prior_epoch_keys := btree_insert i (wrapped_epoch_key K root i) (em_prior_epoch_keys m)\<rparr>"
  have "i \<notin> fst ` set (em_prior_epoch_keys m)" using manager_ok_keys[OF Cons.prems(1)] Cons.prems(3) by auto
  then have step: "ingest_wrapped_prior_epoch_key \<lparr>wek_epoch_id = i, wek_wrapped_key = wrapped_epoch_key K root i\<rparr> m = Inr ?m"
    using Cons.prems wrapped_epoch_key_total(2)[OF assms(1)]
    by (auto simp: ingest_wrapped_prior_epoch_key_def manager_ok_def)
  have "manager_ok K root (cur, insert i S) ?m"
    using Cons.prems by (auto simp: manager_ok_def btree_insert_sorted map_of_btree_insert fun_eq_iff)
  from Cons.IH[OF this] Cons.prems show ?case by (simp add: step)
qed simp

text \<open>The wrapped keys a manager puts into a manifest rebuild it: a fresh manager at the current epoch that takes
  them in, in any order, ends as the manager they came from.\<close>

theorem manifest_rebuilds_manager:
  fixes ops
  assumes "keys_sound K" "new_epoch_manager K root e = Inr m0"
  defines "m \<equiv> run_epochs K root ops m0"
  assumes "mset ws = mset (wrapped_prior_epoch_keys_for_manifest m)"
    and "new_epoch_manager K root (em_current_epoch_id m) = Inr fresh"
  shows "foldE ingest_wrapped_prior_epoch_key ws fresh = Inr m"
proof -
  let ?w = "\<lambda>i. \<lparr>wek_epoch_id = i, wek_wrapped_key = wrapped_epoch_key K root i\<rparr>"
  obtain cur ret where s: "fold spec_epoch ops (e, {}) = (cur, ret)" by fastforce
  have ok: "manager_ok K root (cur, ret) m"
    using new_manager_ok[OF assms(1), of root e] history_ok[OF assms(1), of root "(e, {})" m0 ops] assms(2) s
    by (auto simp: m_def)
  then have m: "em_current_epoch_id m = cur" "cur \<notin> ret" by (simp_all add: manager_ok_def)
  have keys: "distinct (map fst (em_prior_epoch_keys m))" using ok by (simp add: manager_ok_def strict_sorted_iff)
  have "wrapped_prior_epoch_keys_for_manifest m = map ?w (map fst (em_prior_epoch_keys m))"
    unfolding wrapped_prior_epoch_keys_for_manifest_def map_map
  proof (rule map_cong)
    fix x
    assume "x \<in> set (em_prior_epoch_keys m)"
    then have "map_of (em_prior_epoch_keys m) (fst x) = Some (snd x)" using map_of_eq_Some_iff[OF keys] by simp
    then show "(case x of (i, w) \<Rightarrow> \<lparr>wek_epoch_id = i, wek_wrapped_key = w\<rparr>) = (?w \<circ> fst) x"
      using ok by (auto simp: manager_ok_def split: prod.split if_splits)
  qed simp
  then have perm: "mset ws = mset (map ?w (map fst (em_prior_epoch_keys m)))" using assms(4) by simp
  define xs where "xs = map wek_epoch_id ws"
  have "\<forall>w \<in> set ws. ?w (wek_epoch_id w) = w" using mset_eq_setD[OF perm] by auto
  then have xs: "ws = map ?w xs" unfolding xs_def map_map by (intro map_idI[symmetric]) simp
  have "mset xs = mset (map fst (em_prior_epoch_keys m))"
    using arg_cong[OF perm, of "image_mset wek_epoch_id"] by (simp add: xs_def image_mset.compositionality comp_def)
  then have "distinct xs" "set xs = ret"
    using keys manager_ok_keys[OF ok] by (metis mset_eq_imp_distinct_iff, metis list.set_map mset_eq_setD snd_conv)
  moreover have "manager_ok K root (cur, {}) fresh"
    using new_manager_ok[OF assms(1), of root cur] assms(5) m(1) by auto
  ultimately obtain m' where "foldE ingest_wrapped_prior_epoch_key ws fresh = Inr m'" "manager_ok K root (cur, ret) m'"
    using ingest_all[OF assms(1), of root cur "{}" fresh xs] m(2) xs by auto
  then show ?thesis using manager_unique ok by blast
qed

subsection \<open>A concrete key library\<close>

definition toy_keys :: key_library where
  "toy_keys = \<lparr>kl_hkdf = \<lambda>s k i n. Some (take n (i @ replicate n 0)),
     kl_wrap = \<lambda>r k. Some (k @ replicate 8 0), kl_unwrap = \<lambda>r w. Some (take (length w - 8) w)\<rparr>"

lemma toy_keys_sound: "keys_sound toy_keys"
proof -
  have "length (take n (i @ replicate n 0)) = n" for n and i :: bytes by (simp add: min_def)
  then have "\<exists>b. kl_hkdf toy_keys s k i n = Some b \<and> length b = n" for s k i n by (simp add: toy_keys_def del: take_append)
  then show ?thesis unfolding keys_sound_def by (simp add: toy_keys_def)
qed

definition toy_root :: bytes where "toy_root = replicate 32 5"

lemma toy_manager:
  obtains m where "new_epoch_manager toy_keys toy_root ''a'' = Inr m" "manager_ok toy_keys toy_root (''a'', {}) m"
  using new_manager_ok[OF toy_keys_sound] by blast

theorem epoch_keys_refine_witness:
  "\<exists>m. new_epoch_manager toy_keys toy_root ''a'' = Inr m \<and>
     unwrap_prior_epoch_key toy_keys ''b'' toy_root
       (run_epochs toy_keys toy_root [Rotate ''b'', Rotate ''c'', DeleteEpoch ''a''] m) =
     lift_crypto (derive_archive_epoch_key toy_keys toy_root ''b'')"
proof -
  obtain m where m: "new_epoch_manager toy_keys toy_root ''a'' = Inr m" using toy_manager .
  have "fold spec_epoch [Rotate ''b'', Rotate ''c'', DeleteEpoch ''a''] (''a'', {}) = (''c'', {''b''})" by auto
  from epoch_keys_refine[OF toy_keys_sound m this, of "''b''"] m show ?thesis by auto
qed

theorem deleted_epoch_key_comes_back_witness:
  "\<exists>m k. new_epoch_manager toy_keys toy_root ''a'' = Inr m \<and>
     unwrap_prior_epoch_key toy_keys ''a'' toy_root (run_epochs toy_keys toy_root [Rotate ''b''] m) = Inr k \<and>
     em_current_epoch_key (snd (rotate_epoch toy_keys toy_root ''a''
       (snd (delete_epoch_key ''a'' (run_epochs toy_keys toy_root [Rotate ''b''] m))))) = k"
proof -
  obtain m where m: "new_epoch_manager toy_keys toy_root ''a'' = Inr m" "manager_ok toy_keys toy_root (''a'', {}) m"
    using toy_manager .
  have "manager_ok toy_keys toy_root (''b'', {''a''}) (run_epochs toy_keys toy_root [Rotate ''b''] m)"
    using history_ok[OF toy_keys_sound m(2), of "[Rotate ''b'']"] by simp
  then have k: "unwrap_prior_epoch_key toy_keys ''a'' toy_root (run_epochs toy_keys toy_root [Rotate ''b''] m) =
      Inr (epoch_key toy_keys toy_root ''a'')"
    using unwrap_ok[OF toy_keys_sound] by simp
  with deleted_epoch_key_comes_back[OF toy_keys_sound m(1) k] m show ?thesis by blast
qed

theorem manifest_rebuilds_manager_witness:
  "\<exists>m fresh. new_epoch_manager toy_keys toy_root ''c'' = Inr fresh \<and> em_current_epoch_id m = ''c'' \<and>
     foldE ingest_wrapped_prior_epoch_key (rev (wrapped_prior_epoch_keys_for_manifest m)) fresh = Inr m"
proof -
  obtain m where m: "new_epoch_manager toy_keys toy_root ''a'' = Inr m" "manager_ok toy_keys toy_root (''a'', {}) m"
    using toy_manager .
  let ?m = "run_epochs toy_keys toy_root [Rotate ''b'', Rotate ''c''] m"
  have cur: "em_current_epoch_id ?m = ''c''"
    using history_ok[OF toy_keys_sound m(2), of "[Rotate ''b'', Rotate ''c'']"] by (simp add: manager_ok_def)
  obtain fresh where "new_epoch_manager toy_keys toy_root ''c'' = Inr fresh"
    using new_manager_ok[OF toy_keys_sound] by blast
  then show ?thesis
    using manifest_rebuilds_manager[OF toy_keys_sound m(1), of "rev (wrapped_prior_epoch_keys_for_manifest ?m)"] cur
    by auto
qed

end
