(* ===== verification/Convergent.thy ===== *)
theory Convergent
  imports Epoch_Keys
begin

text \<open>
  Pattern C convergent encryption (\<open>crypto/convergent.rs\<close>): the key of an object comes from its hash and the
  tenant, the nonce of a chunk from the key and the index, and the ciphertext is a sequence of frames of
  24 bytes of nonce, the length of the body as four big-endian bytes, and the body.  The AEAD and HKDF
  are parameters.  \<open>usize\<close> is a natural; a chunk size of 0 has been replaced before the loops run.
\<close>

subsection \<open>The code\<close>

definition default_chunk_size :: nat where "default_chunk_size = 16 * 1024 * 1024"
definition convergent_dek_info :: string where "convergent_dek_info = ''zkof-convergent-dek-v1''"
definition convergent_nonce_info :: string where "convergent_nonce_info = ''zkof-nonce-v1''"
definition chunk_header_size :: nat where "chunk_header_size = 24 + 4"
definition tag_len :: nat where "tag_len = 16"

definition derive_convergent_dek :: "key_library \<Rightarrow> bytes \<Rightarrow> string \<Rightarrow> crypto_error + bytes" where
  "derive_convergent_dek K content_hash tenant_id =
     (if content_hash = [] then Inl (InvalidInput ''convergent DEK: contentHash is required'')
      else if tenant_id = [] then Inl (InvalidInput ''convergent DEK: tenantID is required'')
      else (case kl_hkdf K (Some (ascii_bytes tenant_id)) content_hash (ascii_bytes convergent_dek_info) 32 of
          None \<Rightarrow> Inl (Kdf ''convergent DEK: hkdf expand failed'') | Some k \<Rightarrow> Inr k))"

definition derive_convergent_nonce :: "key_library \<Rightarrow> bytes \<Rightarrow> 64 word \<Rightarrow> nat \<Rightarrow> crypto_error + bytes" where
  "derive_convergent_nonce K dek chunk_index nonce_size =
     (case kl_hkdf K None dek (ascii_bytes convergent_nonce_info @ be_bytes 8 (unat chunk_index)) nonce_size of
        None \<Rightarrow> Inl (Kdf ''convergent nonce: hkdf expand failed'') | Some n \<Rightarrow> Inr n)"

definition effective_chunk_size :: "nat \<Rightarrow> nat" where
  "effective_chunk_size chunk_size = (if chunk_size = 0 then default_chunk_size else chunk_size)"

function encrypt_chunks ::
  "crypto \<Rightarrow> key_library \<Rightarrow> bytes \<Rightarrow> nat \<Rightarrow> 64 word \<Rightarrow> bytes \<Rightarrow> bytes \<Rightarrow> crypto_error + bytes" where
  "encrypt_chunks cr K dek chunk_size chunk_index plaintext out =
     (if plaintext = [] \<or> chunk_size = 0 then Inr out
      else
        bindE (derive_convergent_nonce K dek chunk_index 24) (\<lambda>nonce.
        case cr_seal cr dek nonce (take chunk_size plaintext) [] of
          None \<Rightarrow> Inl (Aead ''Pattern C: seal failed'')
        | Some sealed \<Rightarrow>
            if length sealed \<ge> 2 ^ 32 then Inl (Frame ''ciphertext length exceeds u32'')
            else encrypt_chunks cr K dek chunk_size (chunk_index + 1) (drop chunk_size plaintext)
                   (out @ nonce @ be_bytes 4 (length sealed) @ sealed)))"
  by pat_completeness auto
termination by (relation "measure (\<lambda>(_, _, _, _, _, p, _). length p)") auto

declare encrypt_chunks.simps [simp del]

definition encrypt_object_pattern_c ::
  "crypto \<Rightarrow> key_library \<Rightarrow> bytes \<Rightarrow> bytes \<Rightarrow> nat \<Rightarrow> crypto_error + bytes" where
  "encrypt_object_pattern_c cr K plaintext dek chunk_size =
     (if length dek \<noteq> 32 then Inl (InvalidInput ''Pattern C: DEK must be 32 bytes'')
      else encrypt_chunks cr K dek (effective_chunk_size chunk_size) 0 plaintext [])"

function decrypt_frames :: "crypto \<Rightarrow> bytes \<Rightarrow> nat \<Rightarrow> bytes \<Rightarrow> bytes \<Rightarrow> crypto_error + bytes" where
  "decrypt_frames cr dek max_ct rest out =
     (if rest = [] then Inr out
      else if length rest < chunk_header_size then Inl (Frame ''truncated frame header'')
      else
        let nonce = take 24 rest;
            ct_len = be_value (take 4 (drop 24 rest))
        in if ct_len = 0 \<or> ct_len > max_ct then Inl (Frame ''frame length out of bounds'')
           else if chunk_header_size + ct_len > length rest then Inl (Frame ''frame body truncated'')
           else (case cr_open cr dek nonce (take ct_len (drop chunk_header_size rest)) [] of
               None \<Rightarrow> Inl (Aead ''Pattern C: open failed'')
             | Some p \<Rightarrow> decrypt_frames cr dek max_ct (drop (chunk_header_size + ct_len) rest) (out @ p)))"
  by pat_completeness auto
termination by (relation "measure (\<lambda>(_, _, _, r, _). length r)") auto

declare decrypt_frames.simps [simp del]

definition decrypt_object_pattern_c :: "crypto \<Rightarrow> bytes \<Rightarrow> bytes \<Rightarrow> nat \<Rightarrow> crypto_error + bytes" where
  "decrypt_object_pattern_c cr ciphertext dek chunk_size =
     (if length dek \<noteq> 32 then Inl (InvalidInput ''Pattern C: DEK must be 32 bytes'')
      else let max_ct = effective_chunk_size chunk_size + tag_len in
        if max_ct \<ge> 2 ^ 32 then Inl (Frame ''chunk_size exceeds u32 range'')
        else decrypt_frames cr dek max_ct ciphertext [])"

subsection \<open>Round trip\<close>

text \<open>Documented behaviour of XChaCha20-Poly1305: under a 32-byte key and a 24-byte nonce every message of less
  than 256 GiB seals, to 16 bytes more, and opens again.\<close>

definition xchacha_sound :: "crypto \<Rightarrow> bool" where
  "xchacha_sound cr \<longleftrightarrow> (\<forall>k n p a. length k = 32 \<longrightarrow> length n = 24 \<longrightarrow> length p < 2 ^ 38 \<longrightarrow>
     (\<exists>c. cr_seal cr k n p a = Some c \<and> length c = length p + 16 \<and> cr_open cr k n c a = Some p))"

lemma xchacha_soundE:
  assumes "xchacha_sound cr" "length k = 32" "length n = 24" "length p < 2 ^ 38"
  obtains c where "cr_seal cr k n p a = Some c" "length c = length p + 16" "cr_open cr k n c a = Some p"
  using assms unfolding xchacha_sound_def by metis

lemma decrypt_frame:
  assumes "length n = 24" "length c < 2 ^ 32" "0 < length c" "length c \<le> max_ct" "cr_open cr dek n c [] = Some p"
  shows "decrypt_frames cr dek max_ct ((n @ be_bytes 4 (length c) @ c) @ rest) out = decrypt_frames cr dek max_ct rest (out @ p)"
proof -
  have "be_value (be_bytes 4 (length c)) = length c" using assms(2) by (intro be_value_be_bytes) simp
  then show ?thesis
    using assms by (subst decrypt_frames.simps) (simp add: chunk_header_size_def Let_def)
qed

definition frames :: "nat \<Rightarrow> nat \<Rightarrow> nat" where
  "frames chunk_size n = (n + chunk_size - 1) div chunk_size"

lemma frames_step: "0 < cs \<Longrightarrow> 0 < n \<Longrightarrow> frames cs n = Suc (frames cs (n - cs))"
proof -
  assume *: "0 < cs" "0 < n"
  show ?thesis
  proof (cases "n \<le> cs")
    case True
    then have "n + cs - 1 = n - 1 + cs" "n - 1 < cs" using * by auto
    then have "(n + cs - 1) div cs = 1" using * by (simp only: div_add_self2) simp
    then show ?thesis using True * by (simp add: frames_def)
  next
    case False
    then have "n + cs - 1 = n - cs + cs - 1 + cs" using * by simp
    then have "(n + cs - 1) div cs = Suc ((n - cs + cs - 1) div cs)" using * by (simp only: div_add_self2)
    then show ?thesis by (simp only: frames_def)
  qed
qed

lemma encrypt_chunks_roundtrip:
  assumes "keys_sound K" "xchacha_sound cr" "length dek = 32" "0 < cs" "cs + 16 < 2 ^ 32"
  shows "\<exists>c. encrypt_chunks cr K dek cs i p out = Inr (out @ c) \<and>
    length c = length p + 44 * frames cs (length p) \<and>
    (\<forall>acc. decrypt_frames cr dek (cs + 16) c acc = Inr (acc @ p))"
proof (induction "length p" arbitrary: p i out rule: less_induct)
  case less
  show ?case
  proof (cases "p = []")
    case True
    then show ?thesis
      using assms(4) by (simp add: encrypt_chunks.simps frames_def decrypt_frames.simps)
  next
    case False
    obtain n where n: "derive_convergent_nonce K dek i 24 = Inr n" "length n = 24"
      using keys_soundD(1)[OF assms(1), of 24 None dek "ascii_bytes convergent_nonce_info @ be_bytes 8 (unat i)"]
      by (auto simp: derive_convergent_nonce_def)
    have chunk: "length (take cs p) < 2 ^ 38" using assms(5) by simp
    obtain s where s: "cr_seal cr dek n (take cs p) [] = Some s" "length s = length (take cs p) + 16"
        "cr_open cr dek n s [] = Some (take cs p)"
      using xchacha_soundE[OF assms(2,3) n(2) chunk] .
    have len: "length s < 2 ^ 32" "0 < length s" "length s \<le> cs + 16" using s(2) assms(5) by simp_all
    obtain c where c: "encrypt_chunks cr K dek cs (i + 1) (drop cs p) (out @ n @ be_bytes 4 (length s) @ s) =
          Inr ((out @ n @ be_bytes 4 (length s) @ s) @ c)"
        "length c = length (drop cs p) + 44 * frames cs (length (drop cs p))"
        "\<forall>acc. decrypt_frames cr dek (cs + 16) c acc = Inr (acc @ drop cs p)"
      using less.hyps[of "drop cs p" "i + 1" "out @ n @ be_bytes 4 (length s) @ s"] False assms(4) by auto
    let ?c = "(n @ be_bytes 4 (length s) @ s) @ c"
    have "encrypt_chunks cr K dek cs i p out = Inr (out @ ?c)"
      using False assms(4) n(1) s(1) len(1) c(1) by (subst encrypt_chunks.simps) simp
    moreover have "length ?c = length p + 44 * frames cs (length p)"
      using frames_step[OF assms(4), of "length p"] False c(2) s(2) n(2) by simp
    moreover have "decrypt_frames cr dek (cs + 16) ?c acc = Inr (acc @ p)" for acc
      using decrypt_frame[OF n(2) len s(3)] c(3) by simp
    ultimately show ?thesis by blast
  qed
qed

lemma pattern_c_round:
  assumes "keys_sound K" "xchacha_sound cr" "length dek = 32" "effective_chunk_size cs + 16 < 2 ^ 32"
  shows "\<exists>c. encrypt_object_pattern_c cr K p dek cs = Inr c \<and>
    length c = length p + 44 * frames (effective_chunk_size cs) (length p) \<and>
    decrypt_object_pattern_c cr c dek cs = Inr p"
proof -
  have "0 < effective_chunk_size cs" by (simp add: effective_chunk_size_def default_chunk_size_def)
  from encrypt_chunks_roundtrip[OF assms(1-3) this assms(4), of 0 p "[]"]
  obtain c where "encrypt_chunks cr K dek (effective_chunk_size cs) 0 p [] = Inr c"
      "length c = length p + 44 * frames (effective_chunk_size cs) (length p)"
      "decrypt_frames cr dek (effective_chunk_size cs + 16) c [] = Inr p"
    by (metis append_Nil)
  then show ?thesis
    using assms(3,4) by (simp add: encrypt_object_pattern_c_def decrypt_object_pattern_c_def tag_len_def Let_def)
qed

text \<open>C19: Sealing an object in convergent mode always succeeds, makes it longer by 44 bytes for each chunk, and
  opening the result with the same key and chunk size gives the object back.\<close>

theorem pattern_c_roundtrip:
  assumes "keys_sound K" "xchacha_sound cr" "length dek = 32" "effective_chunk_size cs + 16 < 2 ^ 32"
  shows "\<exists>c. encrypt_object_pattern_c cr K p dek cs = Inr c \<and>
    length c = length p + 44 * frames (effective_chunk_size cs) (length p) \<and>
    decrypt_object_pattern_c cr c dek cs = Inr p"
  by (rule pattern_c_round[OF assms])

lemma derive_convergent_dek_total:
  assumes "keys_sound K" "h \<noteq> []" "t \<noteq> []"
  shows "\<exists>k. derive_convergent_dek K h t = Inr k \<and> length k = 32"
  using keys_soundD(1)[OF assms(1), of 32 "Some (ascii_bytes t)" h "ascii_bytes convergent_dek_info"] assms(2,3)
  by (auto simp: derive_convergent_dek_def)

definition tag_crypto :: crypto where
  "tag_crypto = toy_crypto\<lparr>cr_seal := (\<lambda>k n p a. Some (replicate 16 0 @ p)), cr_open := (\<lambda>k n c a. Some (drop 16 c))\<rparr>"

lemma tag_crypto_sound: "xchacha_sound tag_crypto"
  by (simp add: xchacha_sound_def tag_crypto_def)

theorem pattern_c_roundtrip_witness:
  "\<exists>c. encrypt_object_pattern_c tag_crypto toy_keys [1, 2, 3] toy_root 2 = Inr c \<and>
     length c = length [1, 2, 3 :: byte] + 44 * frames (effective_chunk_size 2) (length [1, 2, 3 :: byte]) \<and>
     decrypt_object_pattern_c tag_crypto c toy_root 2 = Inr [1, 2, 3]"
  by (rule pattern_c_roundtrip) (simp_all add: toy_keys_sound tag_crypto_sound toy_root_def effective_chunk_size_def)

end
