(* ===== verification/Archive_Journal.thy ===== *)
theory Archive_Journal
  imports Backup_Journal Tokenizer
begin

text \<open>
  The archive event journal (\<open>archive/event_journal.rs\<close>) and the payload of its events
  (\<open>archive/body_payload.rs\<close>).  The state \<open>message_store\<close> adds the journal's two tables to the database of
  \<open>Schema\<close>.  The text form of UUIDs, the Unicode tables, the CBOR codec of the payload and the text embedder
  are libraries, kept in the record \<open>message_env\<close>.
\<close>

subsection \<open>Events\<close>

datatype archive_event_type =
    AMessageReceived
  | AMessageEdited
  | AMessageDeleted
  | AMediaReceived
  | AConversationCreated
  | AConversationDeleted

primrec archive_type_str :: "archive_event_type \<Rightarrow> string" where
  "archive_type_str AMessageReceived = ''message_received''"
| "archive_type_str AMessageEdited = ''message_edited''"
| "archive_type_str AMessageDeleted = ''message_deleted''"
| "archive_type_str AMediaReceived = ''media_received''"
| "archive_type_str AConversationCreated = ''conversation_created''"
| "archive_type_str AConversationDeleted = ''conversation_deleted''"

definition parse_archive_type :: "string \<Rightarrow> core_error + archive_event_type" where
  "parse_archive_type s =
     (if s = ''message_received'' then Inr AMessageReceived
      else if s = ''message_edited'' then Inr AMessageEdited
      else if s = ''message_deleted'' then Inr AMessageDeleted
      else if s = ''media_received'' then Inr AMediaReceived
      else if s = ''conversation_created'' then Inr AConversationCreated
      else if s = ''conversation_deleted'' then Inr AConversationDeleted
      else Inl (StorageFailure ''unknown archive event_type''))"

lemma parse_archive_type_str [simp]: "parse_archive_type (archive_type_str t) = Inr t"
  by (cases t) (simp_all add: parse_archive_type_def)

record archive_event =
  ae_event_type :: archive_event_type
  ae_conversation_id :: uuid
  ae_message_id :: "uuid option"
  ae_payload :: bytes
  ae_created_at_ms :: int

subsection \<open>Payloads\<close>

record archive_message_body_payload =
  ab_magic :: string
  ab_text_content :: "utext option"

record message_env =
  me_unicode :: unicode
  me_show_uuid :: "uuid \<Rightarrow> string"
  me_parse_uuid :: "string \<Rightarrow> uuid option"
  me_encode_body :: "archive_message_body_payload \<Rightarrow> bytes option"
  me_decode_body :: "bytes \<Rightarrow> archive_message_body_payload option"
  me_embedder :: "(utext \<Rightarrow> bytes option) option"

definition archive_body_payload_magic :: string where
  "archive_body_payload_magic = ''KCHAT_ARCHIVE_BODY_PAYLOAD_V1''"

definition encode_body_payload :: "message_env \<Rightarrow> utext option \<Rightarrow> core_error + bytes" where
  "encode_body_payload E text_content =
     storage ''archive body payload encode''
       (me_encode_body E \<lparr>ab_magic = archive_body_payload_magic, ab_text_content = text_content\<rparr>)"

definition try_decode_text :: "message_env \<Rightarrow> bytes \<Rightarrow> utext option" where
  "try_decode_text E raw = Option.bind (me_decode_body E raw) (\<lambda>p.
     if ab_magic p \<noteq> archive_body_payload_magic then None
     else Option.bind (ab_text_content p) (\<lambda>t. if t = [] then None else Some t))"

subsection \<open>The journal\<close>

record archive_row =
  ar_event_seq :: int
  ar_event_type :: string
  ar_conversation_id :: string
  ar_message_id :: "string option"
  ar_payload :: bytes
  ar_created_at_ms :: int

record message_store =
  ms_db :: local_db
  ms_archive :: "archive_row list"
  ms_archive_seq :: int
  ms_archive_cursor :: "int option"

definition write_archive_event :: "message_env \<Rightarrow> archive_event \<Rightarrow> message_store \<Rightarrow> message_store" where
  "write_archive_event E e st =
     (let n = ms_archive_seq st + 1 in
      st\<lparr>ms_archive := ms_archive st @ [\<lparr>ar_event_seq = n, ar_event_type = archive_type_str (ae_event_type e),
           ar_conversation_id = me_show_uuid E (ae_conversation_id e),
           ar_message_id = map_option (me_show_uuid E) (ae_message_id e),
           ar_payload = ae_payload e, ar_created_at_ms = ae_created_at_ms e\<rparr>], ms_archive_seq := n\<rparr>)"

text \<open>An unknown type is an error here, where the backup journal skips the row.\<close>

definition read_archive_row :: "message_env \<Rightarrow> archive_row \<Rightarrow> core_error + int \<times> archive_event" where
  "read_archive_row E r =
     bindE (parse_archive_type (ar_event_type r)) (\<lambda>t.
     bindE (storage ''invalid conversation_id'' (me_parse_uuid E (ar_conversation_id r))) (\<lambda>cid.
     bindE (case ar_message_id r of None \<Rightarrow> Inr None
       | Some s \<Rightarrow> map_sum id Some (storage ''invalid message_id'' (me_parse_uuid E s))) (\<lambda>mid.
     Inr (ar_event_seq r, \<lparr>ae_event_type = t, ae_conversation_id = cid, ae_message_id = mid,
       ae_payload = ar_payload r, ae_created_at_ms = ar_created_at_ms r\<rparr>))))"

definition read_archive_events_since ::
  "message_env \<Rightarrow> int \<Rightarrow> nat \<Rightarrow> message_store \<Rightarrow> core_error + (int \<times> archive_event) list" where
  "read_archive_events_since E after_seq limit st =
     mapE (read_archive_row E)
       (take limit (sort_key ar_event_seq (filter (\<lambda>r. ar_event_seq r > after_seq) (ms_archive st))))"

definition read_archive_cursor :: "message_store \<Rightarrow> int" where
  "read_archive_cursor st = (case ms_archive_cursor st of None \<Rightarrow> 0 | Some c \<Rightarrow> c)"

definition advance_archive_cursor :: "int \<Rightarrow> message_store \<Rightarrow> core_error + message_store" where
  "advance_archive_cursor new_cursor st =
     (if new_cursor < read_archive_cursor st then Inl (StorageFailure ''archive cursor cannot go backwards'')
      else Inr (st\<lparr>ms_archive_cursor := Some new_cursor\<rparr>))"

definition read_archive_unsegmented :: "message_env \<Rightarrow> nat \<Rightarrow> message_store \<Rightarrow> core_error + (int \<times> archive_event) list" where
  "read_archive_unsegmented E limit st = read_archive_events_since E (read_archive_cursor st) limit st"

text \<open>Documented behaviour of the UUID text form and of the codec.\<close>

definition env_sound :: "message_env \<Rightarrow> bool" where
  "env_sound E \<longleftrightarrow> (\<forall>u. me_parse_uuid E (me_show_uuid E u) = Some u) \<and>
     (\<forall>p b. me_encode_body E p = Some b \<longrightarrow> me_decode_body E b = Some p)"

lemma env_soundD: "env_sound E \<Longrightarrow> me_parse_uuid E (me_show_uuid E u) = Some u"
  "env_sound E \<Longrightarrow> me_encode_body E p = Some b \<Longrightarrow> me_decode_body E b = Some p"
  by (simp_all add: env_sound_def)

lemma body_payload_roundtrip:
  assumes "env_sound E" "encode_body_payload E (Some t) = Inr raw" "t \<noteq> []"
  shows "try_decode_text E raw = Some t"
  using assms by (auto simp: encode_body_payload_def err_simps try_decode_text_def dest: env_soundD(2))

lemma read_written_archive_row:
  assumes "env_sound E"
  shows "read_archive_row E (last (ms_archive (write_archive_event E e st))) = Inr (ms_archive_seq st + 1, e)"
  by (cases "ae_message_id e")
    (simp_all add: read_archive_row_def write_archive_event_def Let_def env_soundD(1)[OF assms])

end
