(* ===== verification/Archive_Segments.thy ===== *)
theory Archive_Segments
  imports Convergent Archive_Journal
begin

text \<open>
  Archive segments: the builder (\<open>archive/segment_builder.rs\<close>), the blob on the wire and its opening
  (\<open>archive/download.rs\<close>), the two uploads and their routing (\<open>archive/upload.rs\<close>, \<open>archive/routing.rs\<close>), the
  fetch of a bucket (\<open>archive/prefetch.rs\<close>) with its dummy requests (\<open>archive/privacy.rs\<close>), and the tombstones of
  the compaction (\<open>archive/compaction.rs\<close>).  The codec of the payload and zstd are in \<open>archive_library\<close>; the blob
  service and the S3 client are in \<open>remote\<close>, over a state \<open>'w\<close> of their own.
\<close>

subsection \<open>Libraries and services\<close>

record archive_segment_payload =
  sp_magic :: bytes
  sp_conversation_id :: string
  sp_time_bucket :: string
  sp_events :: "archive_event list"

record archive_library =
  al_env :: message_env
  al_crypto :: crypto
  al_keys :: key_library
  al_encode :: "archive_segment_payload \<Rightarrow> bytes option"
  al_decode :: "bytes \<Rightarrow> archive_segment_payload option"
  al_compress :: "bytes \<Rightarrow> bytes option"
  al_decompress :: "bytes \<Rightarrow> bytes option"

record 'w remote =
  rm_init_blob_upload :: "nat \<Rightarrow> bytes \<Rightarrow> 'w \<Rightarrow> (core_error + string) \<times> 'w"
  rm_upload_chunk :: "string \<Rightarrow> nat \<Rightarrow> bytes \<Rightarrow> bytes \<Rightarrow> 'w \<Rightarrow> (core_error + unit) \<times> 'w"
  rm_commit_blob :: "string \<Rightarrow> 'w \<Rightarrow> (core_error + bytes) \<times> 'w"
  rm_fetch_archive_segment :: "string \<Rightarrow> 'w \<Rightarrow> core_error + bytes"
  rm_put_object :: "string \<Rightarrow> string \<Rightarrow> bytes \<Rightarrow> 'w \<Rightarrow> (core_error + unit) \<times> 'w"
  rm_get_object :: "string \<Rightarrow> string \<Rightarrow> 'w \<Rightarrow> core_error + bytes"

text \<open>Documented behaviour of the codec and of zstd.\<close>

definition archive_sound :: "archive_library \<Rightarrow> bool" where
  "archive_sound A \<longleftrightarrow> env_sound (al_env A) \<and> keys_sound (al_keys A) \<and> xchacha_sound (al_crypto A) \<and>
     (\<forall>p b. al_encode A p = Some b \<longrightarrow> al_decode A b = Some p) \<and>
     (\<forall>b c. al_compress A b = Some c \<longrightarrow> al_decompress A c = Some b) \<and>
     (\<forall>b. length (cr_blake3 (al_crypto A) b) = 32)"

lemma archive_soundD:
  assumes "archive_sound A"
  shows "env_sound (al_env A)" "keys_sound (al_keys A)" "xchacha_sound (al_crypto A)"
    "al_encode A p = Some b \<Longrightarrow> al_decode A b = Some p"
    "al_compress A b = Some c \<Longrightarrow> al_decompress A c = Some b"
    "length (cr_blake3 (al_crypto A) b) = 32"
  using assms by (simp_all add: archive_sound_def)

subsection \<open>The builder\<close>

definition archive_segment_payload_magic :: bytes where
  "archive_segment_payload_magic = ascii_bytes ''KCHAT_ARC_SEG_PAYLOAD_V1''"

record segment_build_request =
  br_conversation_id :: uuid
  br_time_bucket :: string
  br_events :: "archive_event list"
  br_segment_type :: segment_type

definition message_delta :: "uuid \<Rightarrow> string \<Rightarrow> archive_event list \<Rightarrow> segment_build_request" where
  "message_delta cid bucket events =
     \<lparr>br_conversation_id = cid, br_time_bucket = bucket, br_events = events, br_segment_type = MessageDelta\<rparr>"

record built_archive_segment =
  bs_segment_id :: uuid
  bs_conversation_id :: uuid
  bs_time_bucket :: string
  bs_segment_type :: segment_type
  bs_nonce :: bytes
  bs_ciphertext :: bytes
  bs_merkle_root :: bytes
  bs_event_count :: nat

definition is_backup_segment :: "segment_type \<Rightarrow> bool" where
  "is_backup_segment t \<longleftrightarrow> t = EventsSegment"

definition is_archive_segment :: "segment_type \<Rightarrow> bool" where
  "is_archive_segment t \<longleftrightarrow> \<not> is_backup_segment t"

definition archive_segment_aad :: "uuid \<Rightarrow> bytes \<Rightarrow> bytes" where
  "archive_segment_aad segment_id merkle_root =
     ascii_bytes ''KCHAT_ARCHIVE_SEGMENT_V1'' @ uuid_bytes segment_id @ merkle_root"

text \<open>An ordered map from conversation and bucket to the events, in order of arrival.\<close>

definition group_events_by_bucket ::
  "(archive_event \<Rightarrow> string) \<Rightarrow> archive_event list \<Rightarrow> ((uuid \<times> string) \<times> archive_event list) list" where
  "group_events_by_bucket time_bucket_for events =
     fold (\<lambda>e out. let key = (ae_conversation_id e, time_bucket_for e);
                       group = (case map_of out key of None \<Rightarrow> [] | Some es \<Rightarrow> es)
                   in btree_insert key (group @ [e]) out) events []"

text \<open>The fresh id and the nonce are arguments.\<close>

definition build_segment ::
  "archive_library \<Rightarrow> uuid \<Rightarrow> bytes \<Rightarrow> segment_build_request \<Rightarrow> bytes \<Rightarrow> core_error + built_archive_segment" where
  "build_segment A segment_id nonce req k_segment =
     (if br_events req = [] then Inl (StorageFailure ''ArchiveSegmentBuilder::build_segment: empty events list'')
      else if \<not> is_archive_segment (br_segment_type req)
      then Inl (StorageFailure ''ArchiveSegmentBuilder::build_segment: not an archive segment type'')
      else
        bindE (storage ''archive segment CBOR encode'' (al_encode A
            \<lparr>sp_magic = archive_segment_payload_magic, sp_conversation_id = me_show_uuid (al_env A) (br_conversation_id req),
             sp_time_bucket = br_time_bucket req, sp_events = br_events req\<rparr>)) (\<lambda>cbor.
        let merkle_root = cr_blake3 (al_crypto A) cbor in
        bindE (storage ''archive segment encode'' (al_compress A cbor)) (\<lambda>compressed.
        bindE (aead_seal (al_crypto A) k_segment nonce compressed (archive_segment_aad segment_id merkle_root)) (\<lambda>ciphertext.
        Inr \<lparr>bs_segment_id = segment_id, bs_conversation_id = br_conversation_id req,
             bs_time_bucket = br_time_bucket req, bs_segment_type = br_segment_type req, bs_nonce = nonce,
             bs_ciphertext = ciphertext, bs_merkle_root = merkle_root, bs_event_count = length (br_events req)\<rparr>))))"

definition decrypt_segment :: "archive_library \<Rightarrow> built_archive_segment \<Rightarrow> bytes \<Rightarrow> core_error + archive_segment_payload" where
  "decrypt_segment A seg k_segment =
     bindE (aead_open (al_crypto A) k_segment (bs_nonce seg) (bs_ciphertext seg)
         (archive_segment_aad (bs_segment_id seg) (bs_merkle_root seg))) (\<lambda>compressed.
     bindE (storage ''archive segment decode'' (al_decompress A compressed)) (\<lambda>cbor.
     bindE (storage ''archive segment CBOR decode'' (al_decode A cbor)) (\<lambda>payload.
     if sp_magic payload \<noteq> archive_segment_payload_magic
     then Inl (StorageFailure ''archive segment payload magic mismatch'')
     else if cr_blake3 (al_crypto A) cbor \<noteq> bs_merkle_root seg
     then Inl (StorageFailure ''archive segment plaintext merkle_root mismatch'')
     else Inr payload)))"

subsection \<open>The blob\<close>

definition archive_segment_blob_header_len :: nat where "archive_segment_blob_header_len = 16 + 32 + 24"

definition encode_archive_segment_blob :: "uuid \<Rightarrow> bytes \<Rightarrow> bytes \<Rightarrow> bytes \<Rightarrow> bytes" where
  "encode_archive_segment_blob segment_id merkle_root nonce ciphertext =
     uuid_bytes segment_id @ merkle_root @ nonce @ ciphertext"

record decoded_archive_segment_blob =
  dg_segment_id :: uuid
  dg_merkle_root :: bytes
  dg_nonce :: bytes
  dg_ciphertext :: bytes

definition uuid_of_bytes :: "bytes \<Rightarrow> uuid" where
  "uuid_of_bytes b = word_of_nat (be_value b)"

definition decode_archive_segment_blob :: "bytes \<Rightarrow> core_error + decoded_archive_segment_blob" where
  "decode_archive_segment_blob raw =
     (if length raw < archive_segment_blob_header_len then Inl (StorageFailure ''archive segment blob too short'')
      else Inr \<lparr>dg_segment_id = uuid_of_bytes (take 16 raw), dg_merkle_root = take 32 (drop 16 raw),
        dg_nonce = take 24 (drop 48 raw), dg_ciphertext = drop archive_segment_blob_header_len raw\<rparr>)"

definition decrypt_archive_segment :: "archive_library \<Rightarrow> bytes \<Rightarrow> bytes \<Rightarrow> core_error + bytes" where
  "decrypt_archive_segment A raw k_segment =
     bindE (decode_archive_segment_blob raw) (\<lambda>d.
     bindE (aead_open (al_crypto A) k_segment (dg_nonce d) (dg_ciphertext d)
         (archive_segment_aad (dg_segment_id d) (dg_merkle_root d))) (\<lambda>compressed.
     bindE (storage ''archive segment decode'' (al_decompress A compressed)) (\<lambda>cbor.
     if cr_blake3 (al_crypto A) cbor \<noteq> dg_merkle_root d
     then Inl (StorageFailure ''archive segment plaintext merkle_root mismatch'') else Inr cbor)))"

definition decode_archive_segment_payload :: "archive_library \<Rightarrow> bytes \<Rightarrow> core_error + archive_segment_payload" where
  "decode_archive_segment_payload A cbor =
     bindE (storage ''archive segment CBOR decode'' (al_decode A cbor)) (\<lambda>payload.
     if sp_magic payload \<noteq> archive_segment_payload_magic
     then Inl (StorageFailure ''archive segment payload magic mismatch'') else Inr payload)"

subsection \<open>Upload\<close>

definition upload_archive_segment ::
  "archive_library \<Rightarrow> 'w remote \<Rightarrow> built_archive_segment \<Rightarrow> 'w \<Rightarrow> (core_error + string) \<times> 'w" where
  "upload_archive_segment A R seg w =
     (let ciphertext_root = cr_blake3 (al_crypto A) (bs_ciphertext seg) in
      case rm_init_blob_upload R (length (bs_ciphertext seg)) ciphertext_root w of
        (Inl e, w) \<Rightarrow> (Inl e, w)
      | (Inr blob_id, w) \<Rightarrow>
          (case rm_upload_chunk R blob_id 0 (bs_ciphertext seg) (cr_sha256 (al_crypto A) (bs_ciphertext seg)) w of
             (Inl e, w) \<Rightarrow> (Inl e, w)
           | (Inr _, w) \<Rightarrow>
               (case rm_commit_blob R blob_id w of
                  (Inl e, w) \<Rightarrow> (Inl e, w)
                | (Inr merkle_root, w) \<Rightarrow>
                    if merkle_root \<noteq> ciphertext_root
                    then (Inl (StorageFailure ''archive upload: server merkle_root mismatch''), w)
                    else (Inr blob_id, w))))"

fun segment_type_as_str :: "segment_type \<Rightarrow> string" where
  "segment_type_as_str EventsSegment = ''events''"
| "segment_type_as_str MessageDelta = ''message_delta''"
| "segment_type_as_str TimelineSkeleton = ''timeline_skeleton''"
| "segment_type_as_str MediaKeyDelta = ''media_key_delta''"
| "segment_type_as_str SearchTextSegment = ''search_text_index''"
| "segment_type_as_str SearchVectorSegment = ''search_vector_index''"
| "segment_type_as_str MediaIndexSegment = ''media_index''"
| "segment_type_as_str Checkpoint = ''checkpoint''"

text \<open>The insert fails on a segment id that is there.\<close>

definition persist_segment_map_row ::
  "archive_library \<Rightarrow> built_archive_segment \<Rightarrow> string \<Rightarrow> string \<Rightarrow> local_db \<Rightarrow> core_error + local_db" where
  "persist_segment_map_row A seg blob_id backend db =
     (let i = me_show_uuid (al_env A) (bs_segment_id seg) in
      if i \<in> sm_segment_id ` set (db_segment_map db) then Inl (StorageFailure ''archive_segment_map'')
      else Inr (db\<lparr>db_segment_map := db_segment_map db @ [\<lparr>sm_segment_id = i,
        sm_conversation_id = me_show_uuid (al_env A) (bs_conversation_id seg), sm_time_bucket = bs_time_bucket seg,
        sm_segment_type = segment_type_as_str (bs_segment_type seg), sm_blob_id = blob_id,
        sm_storage_backend = backend, sm_merkle_root = bs_merkle_root seg, sm_state = ArchiveUploaded\<rparr>]\<rparr>))"

subsection \<open>The S3 adapter and the routing\<close>

record zk_fabric_sink_config =
  zf_endpoint_url :: string
  zf_access_key :: string
  zf_secret_key :: string
  zf_bucket :: string

definition bucket_char :: "char \<Rightarrow> bool" where
  "bucket_char c \<longleftrightarrow> (CHR ''a'' \<le> c \<and> c \<le> CHR ''z'') \<or> (CHR ''0'' \<le> c \<and> c \<le> CHR ''9'') \<or> c = CHR ''-''"

definition validate_zk_config :: "zk_fabric_sink_config \<Rightarrow> core_error + unit" where
  "validate_zk_config c =
     (if zf_endpoint_url c = [] then Inl (StorageFailure ''ZkFabricSinkConfig: endpoint_url must not be empty'')
      else if take 7 (zf_endpoint_url c) \<noteq> ''http://'' \<and> take 8 (zf_endpoint_url c) \<noteq> ''https://''
      then Inl (StorageFailure ''ZkFabricSinkConfig: endpoint_url must start with http:// or https://'')
      else if zf_access_key c = [] then Inl (StorageFailure ''ZkFabricSinkConfig: access_key must not be empty'')
      else if zf_secret_key c = [] then Inl (StorageFailure ''ZkFabricSinkConfig: secret_key must not be empty'')
      else if length (zf_bucket c) < 3 \<or> length (zf_bucket c) > 63
      then Inl (StorageFailure ''ZkFabricSinkConfig: bucket must be 3..=63 chars'')
      else if \<not> list_all bucket_char (zf_bucket c)
      then Inl (StorageFailure ''ZkFabricSinkConfig: bucket contains characters outside [a-z0-9-]'')
      else Inr ())"

record s3_zkof_archive_adapter =
  za_config :: zk_fabric_sink_config
  za_tenant_id :: string

definition new_s3_adapter :: "zk_fabric_sink_config \<Rightarrow> string \<Rightarrow> core_error + s3_zkof_archive_adapter" where
  "new_s3_adapter c tenant_id =
     bindE (validate_zk_config c) (\<lambda>_.
     if tenant_id = [] then Inl (StorageFailure ''S3ZkofArchiveAdapter: tenant_id must not be empty'')
     else Inr \<lparr>za_config = c, za_tenant_id = tenant_id\<rparr>)"

definition storage_error :: "string \<Rightarrow> crypto_error + 'a \<Rightarrow> core_error + 'a" where
  "storage_error what = map_sum (\<lambda>_. StorageFailure what) id"

definition pattern_c_seal :: "archive_library \<Rightarrow> s3_zkof_archive_adapter \<Rightarrow> bytes \<Rightarrow> core_error + bytes" where
  "pattern_c_seal A z plaintext =
     bindE (storage_error ''S3ZkofArchiveAdapter: derive DEK''
       (derive_convergent_dek (al_keys A) (cr_blake3 (al_crypto A) plaintext) (za_tenant_id z))) (\<lambda>dek.
     storage_error ''S3ZkofArchiveAdapter: pattern C seal''
       (encrypt_object_pattern_c (al_crypto A) (al_keys A) plaintext dek default_chunk_size))"

definition pattern_c_open ::
  "archive_library \<Rightarrow> s3_zkof_archive_adapter \<Rightarrow> bytes \<Rightarrow> bytes \<Rightarrow> core_error + bytes" where
  "pattern_c_open A z ciphertext plaintext_hash =
     bindE (storage_error ''S3ZkofArchiveAdapter: derive DEK''
       (derive_convergent_dek (al_keys A) plaintext_hash (za_tenant_id z))) (\<lambda>dek.
     storage_error ''S3ZkofArchiveAdapter: pattern C open''
       (decrypt_object_pattern_c (al_crypto A) ciphertext dek default_chunk_size))"

definition zkof_archive_segment_key :: "string \<Rightarrow> string" where
  "zkof_archive_segment_key segment_id = ''archive/segments/'' @ segment_id"

definition zkof_upload_segment ::
  "archive_library \<Rightarrow> 'w remote \<Rightarrow> s3_zkof_archive_adapter \<Rightarrow> built_archive_segment \<Rightarrow> 'w \<Rightarrow> (core_error + string) \<times> 'w" where
  "zkof_upload_segment A R z seg w =
     (let blob = encode_archive_segment_blob (bs_segment_id seg) (bs_merkle_root seg) (bs_nonce seg) (bs_ciphertext seg);
          key = zkof_archive_segment_key (me_show_uuid (al_env A) (bs_segment_id seg))
      in case pattern_c_seal A z blob of
           Inl e \<Rightarrow> (Inl e, w)
         | Inr sealed \<Rightarrow>
             (case rm_put_object R (zf_bucket (za_config z)) key sealed w of
                (Inl e, w) \<Rightarrow> (Inl e, w) | (Inr _, w) \<Rightarrow> (Inr key, w)))"

definition zkof_fetch_segment :: "'w remote \<Rightarrow> s3_zkof_archive_adapter \<Rightarrow> string \<Rightarrow> 'w \<Rightarrow> core_error + bytes" where
  "zkof_fetch_segment R z segment_id w =
     rm_get_object R (zf_bucket (za_config z)) (zkof_archive_segment_key segment_id) w"

definition route_archive_upload ::
  "archive_library \<Rightarrow> 'w remote \<Rightarrow> archive_backend \<Rightarrow> s3_zkof_archive_adapter \<Rightarrow> built_archive_segment \<Rightarrow> 'w \<Rightarrow>
   (core_error + string) \<times> 'w" where
  "route_archive_upload A R backend z seg w = (case backend of
      KChat \<Rightarrow> upload_archive_segment A R seg w | Zkof \<Rightarrow> zkof_upload_segment A R z seg w)"

definition route_archive_download ::
  "'w remote \<Rightarrow> archive_backend \<Rightarrow> s3_zkof_archive_adapter \<Rightarrow> string \<Rightarrow> 'w \<Rightarrow> core_error + bytes" where
  "route_archive_download R backend z segment_id w = (case backend of
      KChat \<Rightarrow> rm_fetch_archive_segment R segment_id w | Zkof \<Rightarrow> zkof_fetch_segment R z segment_id w)"

text \<open>The router of the download path: the S3 configuration is there or not.\<close>

definition router_fetch ::
  "'w remote \<Rightarrow> zk_fabric_sink_config option \<Rightarrow> storage_backend \<Rightarrow> string \<Rightarrow> 'w \<Rightarrow> core_error + bytes" where
  "router_fetch R cfg backend segment_id w = (case backend of
      KChatBackend \<Rightarrow> rm_fetch_archive_segment R segment_id w
    | ZkObjectFabric \<Rightarrow> (case cfg of
          None \<Rightarrow> Inl (StorageFailure ''ArchiveSegmentRouter: zk_object_fabric segment without s3 client'')
        | Some c \<Rightarrow> rm_get_object R (zf_bucket c) (''archive/segments/'' @ segment_id) w))"

definition build_router :: "archive_backend \<Rightarrow> zk_fabric_sink_config option \<Rightarrow> core_error + zk_fabric_sink_config option" where
  "build_router backend installed = (case backend of
      KChat \<Rightarrow> Inr None
    | Zkof \<Rightarrow> (case installed of
          None \<Rightarrow> Inl (StorageFailure ''zkof_archive_backend'') | Some c \<Rightarrow> Inr (Some c)))"

definition fetch_and_decrypt_segment_for_backend ::
  "archive_library \<Rightarrow> 'w remote \<Rightarrow> zk_fabric_sink_config option \<Rightarrow> storage_backend \<Rightarrow> string \<Rightarrow> bytes \<Rightarrow> 'w \<Rightarrow>
   core_error + bytes" where
  "fetch_and_decrypt_segment_for_backend A R cfg backend segment_id k_segment w =
     bindE (router_fetch R cfg backend segment_id w) (\<lambda>blob. decrypt_archive_segment A blob k_segment)"

subsection \<open>Fetching a bucket\<close>

record prefetched_segment =
  pf_segment_id :: string
  pf_blob_id :: string
  pf_storage_backend :: string
  pf_ciphertext :: bytes

text \<open>A scan of the table, in the order of its rows.\<close>

definition bucket_rows :: "string \<Rightarrow> string \<Rightarrow> local_db \<Rightarrow> segment_map_row list" where
  "bucket_rows cid bucket db = filter (\<lambda>r. sm_conversation_id r = cid \<and> sm_time_bucket r = bucket) (db_segment_map db)"

definition backend_or_default :: "string \<Rightarrow> storage_backend" where
  "backend_or_default s = (case parse_backend s of Inl _ \<Rightarrow> KChatBackend | Inr b \<Rightarrow> b)"

definition ensure_all_kchat_backend :: "segment_map_row list \<Rightarrow> core_error + unit" where
  "ensure_all_kchat_backend rows =
     (if list_all (\<lambda>r. backend_or_default (sm_storage_backend r) = KChatBackend) rows then Inr ()
      else Inl (StorageFailure ''batch_prefetch_bucket: segment needs an ArchiveSegmentRouter''))"

definition prefetched :: "segment_map_row \<Rightarrow> bytes \<Rightarrow> prefetched_segment" where
  "prefetched r ciphertext = \<lparr>pf_segment_id = sm_segment_id r, pf_blob_id = sm_blob_id r,
     pf_storage_backend = sm_storage_backend r, pf_ciphertext = ciphertext\<rparr>"

definition batch_prefetch_bucket ::
  "'w remote \<Rightarrow> string \<Rightarrow> string \<Rightarrow> local_db \<Rightarrow> 'w \<Rightarrow> core_error + prefetched_segment list" where
  "batch_prefetch_bucket R cid bucket db w =
     bindE (ensure_all_kchat_backend (bucket_rows cid bucket db)) (\<lambda>_.
     mapE (\<lambda>r. map_sum id (prefetched r) (rm_fetch_archive_segment R (sm_segment_id r) w)) (bucket_rows cid bucket db))"

definition batch_prefetch_bucket_with_router ::
  "'w remote \<Rightarrow> zk_fabric_sink_config option \<Rightarrow> string \<Rightarrow> string \<Rightarrow> local_db \<Rightarrow> 'w \<Rightarrow>
   core_error + prefetched_segment list" where
  "batch_prefetch_bucket_with_router R cfg cid bucket db w =
     mapE (\<lambda>r. map_sum id (prefetched r)
         (router_fetch R cfg (backend_or_default (sm_storage_backend r)) (sm_segment_id r) w)) (bucket_rows cid bucket db)"

datatype privacy_level = StandardPrivacy | HighPrivacy

definition max_padding_per_bucket :: nat where "max_padding_per_bucket = 32"
definition default_padding_multiplier :: nat where "default_padding_multiplier = 2"

definition should_pad :: "privacy_level \<Rightarrow> bool" where
  "should_pad level \<longleftrightarrow> level = HighPrivacy"

definition compute_padding_count :: "nat \<Rightarrow> nat" where
  "compute_padding_count real_count =
     (if real_count = 0 then 0 else min (min (real_count * default_padding_multiplier) u64_max) max_padding_per_bucket)"

text \<open>\<open>dummies\<close> is the supply of fresh ids and \<open>shuffle\<close> the permutation the random generator picks.\<close>

definition pad_with_dummy_requests ::
  "string list \<Rightarrow> (string list \<Rightarrow> string list) \<Rightarrow> string list \<Rightarrow> nat \<Rightarrow> string list" where
  "pad_with_dummy_requests dummies shuffle real_segment_ids padding_count =
     shuffle (real_segment_ids @ take padding_count dummies)"

text \<open>The rows are kept in a hash map by id; the errors of dummy fetches are dropped.\<close>

fun padded_fetches ::
  "'w remote \<Rightarrow> segment_map_row list \<Rightarrow> string list \<Rightarrow> prefetched_segment list \<Rightarrow> 'w \<Rightarrow> core_error + prefetched_segment list" where
  "padded_fetches R real_rows [] out w = Inr out"
| "padded_fetches R real_rows (i # is) out w = (case select_one sm_segment_id i real_rows of
      Some r \<Rightarrow> bindE (rm_fetch_archive_segment R i w) (\<lambda>c. padded_fetches R real_rows is (out @ [prefetched r c]) w)
    | None \<Rightarrow> padded_fetches R real_rows is out w)"

definition batch_prefetch_bucket_with_padding ::
  "'w remote \<Rightarrow> privacy_level \<Rightarrow> string list \<Rightarrow> (string list \<Rightarrow> string list) \<Rightarrow> string \<Rightarrow> string \<Rightarrow> local_db \<Rightarrow> 'w \<Rightarrow>
   core_error + prefetched_segment list" where
  "batch_prefetch_bucket_with_padding R level dummies shuffle cid bucket db w =
     (if \<not> should_pad level then batch_prefetch_bucket R cid bucket db w
      else let rows = bucket_rows cid bucket db in
        bindE (ensure_all_kchat_backend rows) (\<lambda>_.
        let ids = map sm_segment_id rows in
        padded_fetches R rows (pad_with_dummy_requests dummies shuffle ids (compute_padding_count (length ids))) [] w))"

subsection \<open>Tombstones\<close>

definition apply_archive_tombstones :: "archive_event list \<Rightarrow> archive_event list" where
  "apply_archive_tombstones events =
     (let deleted_messages = set (List.map_filter (\<lambda>e. if ae_event_type e = AMessageDeleted
            then map_option (Pair (ae_conversation_id e)) (ae_message_id e) else None) events);
          deleted_conversations = ae_conversation_id ` set (filter (\<lambda>e. ae_event_type e = AConversationDeleted) events)
      in filter (\<lambda>e. ae_event_type e \<noteq> AMessageDeleted \<and> ae_event_type e \<noteq> AConversationDeleted \<and>
           ae_conversation_id e \<notin> deleted_conversations \<and>
           (case ae_message_id e of None \<Rightarrow> True | Some mid \<Rightarrow> (ae_conversation_id e, mid) \<notin> deleted_messages)) events)"

end
