(* ===== verification/Archive_Facts.thy ===== *)
theory Archive_Facts
  imports Archive_Segments
begin

text \<open>
  What the archive's segments promise: a sealed segment opens to the events it was made of, what each upload
  leaves on its backend, and that the dummy requests change nothing but the order of the answers.
\<close>

subsection \<open>Blobs\<close>

lemma be_value_uuid: "word_of_nat (be_value (uuid_bytes u)) = u"
proof -
  have "unat u < 256 ^ 16" using unsigned_less[of u, where ?'a = nat] by simp
  then have "be_value (uuid_bytes u) = unat u" using be_value_be_bytes by (simp add: uuid_bytes_def be_bytes_def)
  then show ?thesis by simp
qed

lemma blob_roundtrip:
  assumes "length mroot = 32" "length nonce = 24"
  shows "decode_archive_segment_blob (encode_archive_segment_blob i mroot nonce c) =
    Inr \<lparr>dg_segment_id = i, dg_merkle_root = mroot, dg_nonce = nonce, dg_ciphertext = c\<rparr>"
  using assms be_value_uuid[of i]
  by (simp add: decode_archive_segment_blob_def encode_archive_segment_blob_def archive_segment_blob_header_len_def uuid_of_bytes_def)

lemma decoded_ciphertext_length:
  "decode_archive_segment_blob raw = Inr d \<Longrightarrow> length raw = length (dg_ciphertext d) + 72"
  by (auto simp: decode_archive_segment_blob_def archive_segment_blob_header_len_def split: if_splits)

lemma length_blob [simp]:
  "length mroot = 32 \<Longrightarrow> length nonce = 24 \<Longrightarrow> length (encode_archive_segment_blob i mroot nonce c) = length c + 72"
  by (simp add: encode_archive_segment_blob_def)

subsection \<open>Segments\<close>

definition payload_of :: "archive_library \<Rightarrow> segment_build_request \<Rightarrow> archive_segment_payload" where
  "payload_of A req = \<lparr>sp_magic = archive_segment_payload_magic,
     sp_conversation_id = me_show_uuid (al_env A) (br_conversation_id req),
     sp_time_bucket = br_time_bucket req, sp_events = br_events req\<rparr>"

lemma build_segmentE:
  assumes "build_segment A i nonce req k = Inr seg"
  obtains cbor z c where "al_encode A (payload_of A req) = Some cbor" "al_compress A cbor = Some z"
    "cr_seal (al_crypto A) k nonce z (archive_segment_aad i (cr_blake3 (al_crypto A) cbor)) = Some c"
    "seg = \<lparr>bs_segment_id = i, bs_conversation_id = br_conversation_id req, bs_time_bucket = br_time_bucket req,
      bs_segment_type = br_segment_type req, bs_nonce = nonce, bs_ciphertext = c,
      bs_merkle_root = cr_blake3 (al_crypto A) cbor, bs_event_count = length (br_events req)\<rparr>"
    "br_events req \<noteq> []" "is_archive_segment (br_segment_type req)"
proof -
  have seal: "aead_seal cr k n p a = Inr c \<longleftrightarrow> cr_seal cr k n p a = Some c" for cr k n p a c
    by (auto simp: aead_seal_def split: option.splits)
  show thesis
    using assms that by (auto simp: build_segment_def payload_of_def Let_def err_simps seal split: if_splits)
qed

definition segment_blob :: "built_archive_segment \<Rightarrow> bytes" where
  "segment_blob seg = encode_archive_segment_blob (bs_segment_id seg) (bs_merkle_root seg) (bs_nonce seg) (bs_ciphertext seg)"

definition segment_parts_ok :: "archive_library \<Rightarrow> uuid \<Rightarrow> bytes \<Rightarrow> segment_build_request \<Rightarrow> bool" where
  "segment_parts_ok A i nonce req \<longleftrightarrow> length nonce = 24 \<and>
     (\<forall>z. al_compress A (the (al_encode A (payload_of A req))) = Some z \<longrightarrow> length z < 2 ^ 38)"

lemma opened_segment:
  assumes A: "archive_sound A" and parts: "segment_parts_ok A i nonce req" "length k = 32"
    and built: "build_segment A i nonce req k = Inr seg"
  shows "\<exists>cbor. decrypt_archive_segment A (segment_blob seg) k = Inr cbor \<and>
      decode_archive_segment_payload A cbor = Inr (payload_of A req)"
    "decrypt_segment A seg k = Inr (payload_of A req)"
proof -
  obtain cbor z c where cbor: "al_encode A (payload_of A req) = Some cbor" and z: "al_compress A cbor = Some z"
    and c: "cr_seal (al_crypto A) k nonce z (archive_segment_aad i (cr_blake3 (al_crypto A) cbor)) = Some c"
    and seg: "seg = \<lparr>bs_segment_id = i, bs_conversation_id = br_conversation_id req, bs_time_bucket = br_time_bucket req,
      bs_segment_type = br_segment_type req, bs_nonce = nonce, bs_ciphertext = c,
      bs_merkle_root = cr_blake3 (al_crypto A) cbor, bs_event_count = length (br_events req)\<rparr>"
    using build_segmentE[OF built] by metis
  have n: "length nonce = 24" and "length z < 2 ^ 38" using parts(1) cbor z by (auto simp: segment_parts_ok_def)
  then have opened: "cr_open (al_crypto A) k nonce c (archive_segment_aad i (cr_blake3 (al_crypto A) cbor)) = Some z"
    using xchacha_soundE[OF archive_soundD(3)[OF A] parts(2) n, of z] c by (metis option.inject)
  note undone = archive_soundD(4)[OF A cbor] archive_soundD(5)[OF A z]
  have magic: "sp_magic (payload_of A req) = archive_segment_payload_magic" by (simp add: payload_of_def)
  have "decrypt_archive_segment A (segment_blob seg) k = Inr cbor"
    using blob_roundtrip[OF archive_soundD(6)[OF A] n] opened undone
    by (simp add: decrypt_archive_segment_def segment_blob_def seg aead_open_def)
  moreover have "decode_archive_segment_payload A cbor = Inr (payload_of A req)"
    using undone magic by (simp add: decode_archive_segment_payload_def)
  ultimately show "\<exists>cbor. decrypt_archive_segment A (segment_blob seg) k = Inr cbor \<and>
      decode_archive_segment_payload A cbor = Inr (payload_of A req)" by blast
  show "decrypt_segment A seg k = Inr (payload_of A req)"
    using opened undone magic by (simp add: decrypt_segment_def seg aead_open_def)
qed

text \<open>C18: A segment that was built opens under its key to the payload it was built from, magic, conversation, bucket and
  events in order, both directly and through its blob on the wire.\<close>

theorem segment_opens:
  assumes "archive_sound A" "segment_parts_ok A i nonce req" "length k = 32" "build_segment A i nonce req k = Inr seg"
  shows "decrypt_segment A seg k = Inr (payload_of A req) \<and>
    (case decrypt_archive_segment A (segment_blob seg) k of Inl e \<Rightarrow> False
     | Inr cbor \<Rightarrow> decode_archive_segment_payload A cbor = Inr (payload_of A req))"
  using opened_segment[OF assms] by auto

subsection \<open>What the uploads leave\<close>

lemma segment_lengths:
  assumes "archive_sound A" "segment_parts_ok A i nonce req" "build_segment A i nonce req k = Inr seg"
  shows "length (bs_merkle_root seg) = 32" "length (bs_nonce seg) = 24" "bs_segment_id seg = i"
  using build_segmentE[OF assms(3)] archive_soundD(6)[OF assms(1)] assms(2)
  by (metis built_archive_segment.select_convs(1,5,7) segment_parts_ok_def)+

lemma pattern_c_adapter:
  assumes A: "archive_sound A" and z: "za_tenant_id z \<noteq> []"
  shows "\<exists>c. pattern_c_seal A z p = Inr c \<and> length c = length p + 44 * frames default_chunk_size (length p) \<and>
    pattern_c_open A z c (cr_blake3 (al_crypto A) p) = Inr p"
proof -
  have "cr_blake3 (al_crypto A) p \<noteq> []" using archive_soundD(6)[OF A, of p] by auto
  then obtain dek where dek: "derive_convergent_dek (al_keys A) (cr_blake3 (al_crypto A) p) (za_tenant_id z) = Inr dek"
      "length dek = 32"
    using derive_convergent_dek_total[OF archive_soundD(2)[OF A]] z by blast
  have cs: "effective_chunk_size default_chunk_size = default_chunk_size" "default_chunk_size + 16 < 2 ^ 32"
    by (simp_all add: effective_chunk_size_def default_chunk_size_def)
  show ?thesis
    using pattern_c_round[OF archive_soundD(2,3)[OF A] dek(2), of default_chunk_size p] dek(1) cs
    by (auto simp: pattern_c_seal_def pattern_c_open_def storage_error_def)
qed

text \<open>Documented behaviour of the services: an object that was put is what a get of its key returns, and a segment's
  id fetches the bytes of its chunk.\<close>

definition object_store :: "'w remote \<Rightarrow> bool" where
  "object_store R \<longleftrightarrow> (\<forall>b k x w w'. rm_put_object R b k x w = (Inr (), w') \<longrightarrow> rm_get_object R b k w' = Inr x)"


text \<open>The blob service is sent the ciphertext without the header of 72 bytes that the download reads the id, the root
  and the nonce from: what it gives back decodes, when it decodes at all, to another ciphertext, and a short
  one does not decode.\<close>

theorem kchat_upload_lacks_header:
  assumes served: "rm_fetch_archive_segment R sid w' = Inr (bs_ciphertext seg)"
    and up: "route_archive_upload A R KChat z seg w = (Inr blob_id, w')"
  shows "(\<exists>h s1 u s2. rm_init_blob_upload R (length (bs_ciphertext seg)) (cr_blake3 (al_crypto A) (bs_ciphertext seg)) w = (Inr h, s1) \<and>
      rm_upload_chunk R h 0 (bs_ciphertext seg) (cr_sha256 (al_crypto A) (bs_ciphertext seg)) s1 = (Inr u, s2)) \<and>
    (case router_fetch R cfg KChatBackend sid w' of Inl e \<Rightarrow> False
     | Inr raw \<Rightarrow> (case decode_archive_segment_blob raw of
           Inl e \<Rightarrow> length (bs_ciphertext seg) < 72 | Inr d \<Rightarrow> dg_ciphertext d \<noteq> bs_ciphertext seg))"
proof -
  have "\<exists>h s1 u s2. rm_init_blob_upload R (length (bs_ciphertext seg)) (cr_blake3 (al_crypto A) (bs_ciphertext seg)) w = (Inr h, s1) \<and>
      rm_upload_chunk R h 0 (bs_ciphertext seg) (cr_sha256 (al_crypto A) (bs_ciphertext seg)) s1 = (Inr u, s2)"
    using up by (auto simp: route_archive_upload_def upload_archive_segment_def Let_def split: prod.splits sum.splits)
  moreover have "case decode_archive_segment_blob (bs_ciphertext seg) of
      Inl e \<Rightarrow> length (bs_ciphertext seg) < 72 | Inr d \<Rightarrow> dg_ciphertext d \<noteq> bs_ciphertext seg"
    using decoded_ciphertext_length[of "bs_ciphertext seg"]
    by (auto simp: decode_archive_segment_blob_def archive_segment_blob_header_len_def split: sum.splits if_splits)
  ultimately show ?thesis using served by (simp add: router_fetch_def)
qed

subsection \<open>Dummy requests\<close>

lemma padded_fetches_ok:
  assumes "\<And>r. r \<in> set rows \<Longrightarrow> rm_fetch_archive_segment R (sm_segment_id r) w = Inr (c r)"
  shows "padded_fetches R rows is out w = Inr (out @ List.map_filter
    (\<lambda>i. map_option (\<lambda>r. prefetched r (c r)) (select_one sm_segment_id i rows)) is)"
proof (induction "is" arbitrary: out)
  case (Cons i "is")
  show ?case
  proof (cases "select_one sm_segment_id i rows")
    case None
    then show ?thesis using Cons by (simp add: map_filter_simps)
  next
    case (Some r)
    then have "r \<in> set rows" "sm_segment_id r = i" using select_one_SomeD[OF Some] by auto
    then have "rm_fetch_archive_segment R i w = Inr (c r)" using assms by auto
    then show ?thesis using Cons Some by (simp add: map_filter_simps)
  qed
qed (simp add: map_filter_simps)

lemma mapE_fetch_iff:
  "mapE (\<lambda>r. map_sum id (p r) (f r)) xs = Inr ys \<longleftrightarrow> (\<exists>c. (\<forall>r \<in> set xs. f r = Inr (c r)) \<and> ys = map (\<lambda>r. p r (c r)) xs)"
proof
  assume ok: "mapE (\<lambda>r. map_sum id (p r) (f r)) xs = Inr ys"
  define c where "c = (\<lambda>r. case f r of Inr x \<Rightarrow> x | Inl _ \<Rightarrow> undefined)"
  have "(\<forall>r \<in> set xs. f r = Inr (c r)) \<and> ys = map (\<lambda>r. p r (c r)) xs"
    using ok by (induction xs arbitrary: ys) (auto simp: err_simps c_def)
  then show "\<exists>c. (\<forall>r \<in> set xs. f r = Inr (c r)) \<and> ys = map (\<lambda>r. p r (c r)) xs" by blast
next
  assume "\<exists>c. (\<forall>r \<in> set xs. f r = Inr (c r)) \<and> ys = map (\<lambda>r. p r (c r)) xs"
  then show "mapE (\<lambda>r. map_sum id (p r) (f r)) xs = Inr ys"
    by (induction xs arbitrary: ys) (auto simp: err_simps)
qed

lemma map_filter_own_keys:
  assumes "distinct (map sm_segment_id rows)"
  shows "List.map_filter (\<lambda>i. map_option g (select_one sm_segment_id i rows)) (map sm_segment_id rows) = map g rows"
proof -
  have "List.map_filter (\<lambda>i. map_option g (select_one sm_segment_id i rows)) (map sm_segment_id xs) = map g xs"
    if "set xs \<subseteq> set rows" for xs
    using that
  proof (induction xs)
    case (Cons r xs)
    then have "select_one sm_segment_id (sm_segment_id r) rows = Some r" using select_one_Some_iff[OF assms] by simp
    then show ?case using Cons by (simp add: map_filter_simps)
  qed (simp add: map_filter_simps)
  then show ?thesis by blast
qed

lemma bucket_ids_distinct:
  "distinct (map sm_segment_id (db_segment_map db)) \<Longrightarrow> distinct (map sm_segment_id (bucket_rows cid bucket db))"
  by (simp add: bucket_rows_def distinct_map_filter)

text \<open>With dummy requests the prefetch of a bucket returns the segments it returns without them, in another order,
  whatever the shuffle and the dummy ids, as long as no dummy is a real id.\<close>

theorem padding_is_transparent:
  assumes keys: "distinct (map sm_segment_id (db_segment_map db))"
    and dummies: "set dummies \<inter> sm_segment_id ` set (db_segment_map db) = {}"
    and shuffle: "\<And>xs. mset (shuffle xs) = mset xs"
    and plain: "batch_prefetch_bucket R cid bucket db w = Inr segs"
  shows "\<exists>segs'. batch_prefetch_bucket_with_padding R level dummies shuffle cid bucket db w = Inr segs' \<and>
    mset segs' = mset segs"
proof (cases "should_pad level")
  case False
  then show ?thesis using plain by (simp add: batch_prefetch_bucket_with_padding_def)
next
  case True
  let ?rows = "bucket_rows cid bucket db" and ?ids = "map sm_segment_id (bucket_rows cid bucket db)"
  let ?asked = "pad_with_dummy_requests dummies shuffle ?ids (compute_padding_count (length ?ids))"
  obtain c where all: "ensure_all_kchat_backend ?rows = Inr ()"
    and c: "\<And>r. r \<in> set ?rows \<Longrightarrow> rm_fetch_archive_segment R (sm_segment_id r) w = Inr (c r)"
    and segs: "segs = map (\<lambda>r. prefetched r (c r)) ?rows"
    using plain by (auto simp: batch_prefetch_bucket_def err_simps mapE_fetch_iff)
  let ?g = "\<lambda>i. map_option (\<lambda>r. prefetched r (c r)) (select_one sm_segment_id i ?rows)"
  have none: "?g i = None" if "i \<in> set dummies" for i
    using that dummies by (auto simp: select_one_None_iff bucket_rows_def)
  have filter_mset: "mset (List.map_filter h xs) = mset (List.map_filter h ys)" if "mset xs = mset ys" for h :: "string \<Rightarrow> prefetched_segment option" and xs ys
    using that by (simp add: List.map_filter_def mset_filter image_mset_filter_mset_swap)
  have "List.map_filter ?g (take n dummies) = []" for n
    using none by (auto simp: List.map_filter_def filter_empty_conv dest: in_set_takeD)
  then have "List.map_filter ?g (?ids @ take n dummies) = segs" for n
    using map_filter_own_keys[OF bucket_ids_distinct[OF keys], of "\<lambda>r. prefetched r (c r)" cid bucket]
    by (simp add: List.map_filter_def segs)
  then have "mset (List.map_filter ?g ?asked) = mset segs"
    using filter_mset[OF shuffle] by (simp add: pad_with_dummy_requests_def)
  moreover have "batch_prefetch_bucket_with_padding R level dummies shuffle cid bucket db w = Inr (List.map_filter ?g ?asked)"
    using True all padded_fetches_ok[where R = R and rows = ?rows and w = w and c = c and out = "[]"] c
    by (simp add: batch_prefetch_bucket_with_padding_def Let_def)
  ultimately show ?thesis by blast
qed

end
