(* ===== verification/Messages.thy ===== *)
theory Messages
  imports Archive_Journal Event_Cbor Fuzzy_Search
begin

text \<open>
  The message processor (\<open>message/processor.rs\<close>): validation, and \<open>MessagePersister\<close>, which writes one
  message's skeleton, media, body, search rows and journal entries in one savepoint; with the batch
  ingest of \<open>core_impl.rs\<close> on top.  The clock readings of a call are arguments.
\<close>

subsection \<open>Types\<close>

record media_descriptor =
  dsc_asset_id :: uuid
  dsc_mime_type :: string
  dsc_bytes_total :: "64 word"
  dsc_chunk_count :: "32 word"
  dsc_merkle_root :: bytes
  dsc_blob_id :: uuid
  dsc_wrapped_k_asset :: bytes
  dsc_storage_sink :: "string option"

record ingested_message =
  im_message_id :: uuid
  im_conversation_id :: uuid
  im_sender_id :: string
  im_created_at_ms :: int
  im_text_content :: "utext option"
  im_media_descriptors :: "media_descriptor list"
  im_reply_to :: "uuid option"

datatype outbox_status = Pending | Sending | Sent | Failed

record outbox_entry =
  ob_client_message_id :: uuid
  ob_conversation_id :: uuid
  ob_text_content :: utext
  ob_reply_to :: "uuid option"
  ob_created_at_ms :: int
  ob_status :: outbox_status

datatype processor_error =
    InvalidMessage string
  | DuplicateMessage
  | StoreFailure core_error
  | Db db_error
  | IllegalTransition state_transition_error

datatype delete_scope = ForMe | ForEveryone

primrec scope_label :: "delete_scope \<Rightarrow> string" where
  "scope_label ForMe = ''for_me''"
| "scope_label ForEveryone = ''for_everyone''"

subsection \<open>Validation\<close>

definition validate_ingest :: "ingested_message \<Rightarrow> processor_error + unit" where
  "validate_ingest m =
     (if im_message_id m = 0 then Inl (InvalidMessage ''message_id must not be nil'')
      else if im_conversation_id m = 0 then Inl (InvalidMessage ''conversation_id must not be nil'')
      else if im_sender_id m = [] then Inl (InvalidMessage ''sender_id must not be empty'')
      else if im_created_at_ms m \<le> 0 then Inl (InvalidMessage ''created_at_ms must be positive'')
      else if im_text_content m = None \<and> im_media_descriptors m = []
      then Inl (InvalidMessage ''message has neither text nor media'')
      else if im_text_content m = Some [] then Inl (InvalidMessage ''text_content must not be empty when present'')
      else Inr ())"

definition is_duplicate :: "uuid \<Rightarrow> uuid set \<Rightarrow> bool" where
  "is_duplicate message_id existing_ids \<longleftrightarrow> message_id \<in> existing_ids"

definition create_outbox_entry :: "uuid \<Rightarrow> int \<Rightarrow> uuid \<Rightarrow> utext \<Rightarrow> uuid option \<Rightarrow> processor_error + outbox_entry" where
  "create_outbox_entry fresh now conversation_id txt reply_to =
     (if txt = [] then Inl (InvalidMessage ''outbox text_content must not be empty'')
      else Inr \<lparr>ob_client_message_id = fresh, ob_conversation_id = conversation_id, ob_text_content = txt,
        ob_reply_to = reply_to, ob_created_at_ms = now, ob_status = Pending\<rparr>)"

text \<open>The version of a UUID is in the four bits below the 48 of its first half.\<close>

definition get_version_num :: "uuid \<Rightarrow> nat" where
  "get_version_num u = unat (and (drop_bit 76 u) 15)"

subsection \<open>Statements\<close>

definition on_db :: "(local_db \<Rightarrow> db_error + local_db) \<Rightarrow> message_store \<Rightarrow> processor_error + message_store" where
  "on_db f st = map_sum Db (\<lambda>db. st\<lparr>ms_db := db\<rparr>) (f (ms_db st))"

definition with_db :: "(local_db \<Rightarrow> local_db) \<Rightarrow> message_store \<Rightarrow> message_store" where
  "with_db f st = st\<lparr>ms_db := f (ms_db st)\<rparr>"

definition skeleton_exists :: "string \<Rightarrow> message_store \<Rightarrow> bool" where
  "skeleton_exists mid st \<longleftrightarrow> row_count (\<lambda>s. sk_message_id s = mid) (db_skeletons (ms_db st)) > 0"

definition insert_fts_row :: "string \<Rightarrow> string \<Rightarrow> string \<Rightarrow> int \<Rightarrow> utext \<Rightarrow> local_db \<Rightarrow> local_db" where
  "insert_fts_row mid cid sender created txt db = db\<lparr>db_fts := db_fts db @
     [\<lparr>ft_message_id = mid, ft_conversation_id = cid, ft_sender_id = sender, ft_created_at_ms = created, ft_text = txt\<rparr>]\<rparr>"

definition journal_entry :: "string \<Rightarrow> string \<Rightarrow> string \<Rightarrow> bytes \<Rightarrow> int \<Rightarrow> backup_event" where
  "journal_entry ty cid mid payload t = \<lparr>be_event_seq = 0, be_event_type = ty, be_conversation_id = Some cid,
     be_message_id = Some mid, be_payload = payload, be_created_at_ms = t\<rparr>"

text \<open>The savepoint around each of the operations.\<close>

definition in_savepoint ::
  "(message_store \<Rightarrow> processor_error + message_store) \<Rightarrow> message_store \<Rightarrow> (processor_error + unit) \<times> message_store" where
  "in_savepoint f st = savepoint (\<lambda>st. bindE (f st) (\<lambda>st. Inr (st, ()))) st"

text \<open>Body, full-text and fuzzy rows of a new message.\<close>

definition insert_text :: "message_env \<Rightarrow> message_skeleton \<Rightarrow> utext \<Rightarrow> message_store \<Rightarrow> processor_error + message_store" where
  "insert_text E s txt st =
     bindE (on_db (insert_message_body \<lparr>bd_message_id = sk_message_id s, bd_text = Some txt,
         bd_language = None, bd_rich_meta = None\<rparr>) st) (\<lambda>st.
     Inr (with_db (index_message (me_unicode E) (sk_message_id s) txt \<circ>
       insert_fts_row (sk_message_id s) (sk_conversation_id s) (sk_sender_id s) (sk_created_at_ms s) txt) st))"

definition bump_conversation :: "message_skeleton \<Rightarrow> local_db \<Rightarrow> local_db" where
  "bump_conversation s db =
     fst (update_conversation_last_message (sk_conversation_id s) (sk_message_id s) (sk_created_at_ms s) db)"

subsection \<open>Ingest\<close>

definition ingest_skeleton :: "message_env \<Rightarrow> ingested_message \<Rightarrow> int \<Rightarrow> message_skeleton" where
  "ingest_skeleton E m received_at = \<lparr>sk_message_id = me_show_uuid E (im_message_id m),
     sk_conversation_id = me_show_uuid E (im_conversation_id m), sk_sender_id = im_sender_id m,
     sk_created_at_ms = im_created_at_ms m, sk_received_at_ms = received_at,
     sk_kind = (if im_media_descriptors m \<noteq> [] then MediaKind else TextKind),
     sk_body_state = LocalPlainAvailable,
     sk_media_state = (if im_media_descriptors m \<noteq> [] then Some ThumbnailOnly else None),
     sk_archive_state = NotArchived, sk_backup_state = NotBackedUp,
     sk_reply_to = map_option (me_show_uuid E) (im_reply_to m), sk_edited_at_ms = None, sk_deleted_at_ms = None\<rparr>"

definition asset_of :: "message_env \<Rightarrow> message_skeleton \<Rightarrow> media_descriptor \<Rightarrow> media_asset" where
  "asset_of E s d = \<lparr>ma_asset_id = me_show_uuid E (dsc_asset_id d), ma_message_id = sk_message_id s,
     ma_mime_type = dsc_mime_type d, ma_bytes_total = sint (dsc_bytes_total d), ma_bytes_local = 0,
     ma_media_state = ThumbnailOnly, ma_wrapped_k_asset = dsc_wrapped_k_asset d,
     ma_chunk_count = sint (dsc_chunk_count d), ma_merkle_root = dsc_merkle_root d,
     ma_blob_id = me_show_uuid E (dsc_blob_id d),
     ma_storage_sink = (case dsc_storage_sink d of Some s \<Rightarrow> s | None \<Rightarrow> ''kchat_backend'')\<rparr>"

definition persist_ingested_message_inner ::
  "message_env \<Rightarrow> ingested_message \<Rightarrow> int \<Rightarrow> int \<Rightarrow> message_store \<Rightarrow> processor_error + message_store" where
  "persist_ingested_message_inner E m received_at journaled_at st =
     (if im_media_descriptors m = [] \<and> im_text_content m = None
      then Inl (InvalidMessage ''message has neither text nor media'')
      else let s = ingest_skeleton E m received_at in
        bindE (on_db (insert_message_skeleton s) st) (\<lambda>st.
        bindE (foldE (\<lambda>d. on_db (insert_media_asset (asset_of E s d))) (im_media_descriptors m) st) (\<lambda>st.
        bindE (case im_text_content m of None \<Rightarrow> Inr st | Some txt \<Rightarrow> insert_text E s txt st) (\<lambda>st.
        let st = with_db (bump_conversation s) st;
            payload = encode_event_payload (sk_message_id s) (sk_conversation_id s) (sk_sender_id s) (sk_created_at_ms s)
        in bindE (on_db (insert_backup_event (journal_entry ''message_received'' (sk_conversation_id s)
             (sk_message_id s) payload journaled_at)) st) (\<lambda>st.
           bindE (map_sum StoreFailure id (encode_body_payload E (im_text_content m))) (\<lambda>archive_payload.
           Inr (write_archive_event E \<lparr>ae_event_type = AMessageReceived, ae_conversation_id = im_conversation_id m,
             ae_message_id = Some (im_message_id m), ae_payload = archive_payload,
             ae_created_at_ms = sk_created_at_ms s\<rparr> st)))))))"

definition persist_ingested_message ::
  "message_env \<Rightarrow> ingested_message \<Rightarrow> int \<Rightarrow> int \<Rightarrow> message_store \<Rightarrow> (processor_error + unit) \<times> message_store" where
  "persist_ingested_message E m received_at journaled_at st =
     (case validate_ingest m of
        Inl e \<Rightarrow> (Inl e, st)
      | Inr _ \<Rightarrow>
          if skeleton_exists (me_show_uuid E (im_message_id m)) st then (Inl DuplicateMessage, st)
          else in_savepoint (persist_ingested_message_inner E m received_at journaled_at) st)"

subsection \<open>Outbox\<close>

definition outbox_skeleton :: "message_env \<Rightarrow> outbox_entry \<Rightarrow> message_skeleton" where
  "outbox_skeleton E e = \<lparr>sk_message_id = me_show_uuid E (ob_client_message_id e),
     sk_conversation_id = me_show_uuid E (ob_conversation_id e), sk_sender_id = ''self'',
     sk_created_at_ms = ob_created_at_ms e, sk_received_at_ms = ob_created_at_ms e, sk_kind = TextKind,
     sk_body_state = LocalPlainAvailable, sk_media_state = None, sk_archive_state = NotArchived,
     sk_backup_state = NotBackedUp, sk_reply_to = map_option (me_show_uuid E) (ob_reply_to e),
     sk_edited_at_ms = None, sk_deleted_at_ms = None\<rparr>"

definition persist_outbox_entry_inner ::
  "message_env \<Rightarrow> outbox_entry \<Rightarrow> int \<Rightarrow> message_store \<Rightarrow> processor_error + message_store" where
  "persist_outbox_entry_inner E e journaled_at st =
     (let s = outbox_skeleton E e in
      bindE (on_db (insert_message_skeleton s) st) (\<lambda>st.
      bindE (insert_text E s (ob_text_content e) st) (\<lambda>st.
      let st = with_db (bump_conversation s) st;
          payload = encode_event_payload (sk_message_id s) (sk_conversation_id s) ''self'' (ob_created_at_ms e)
      in bindE (on_db (insert_backup_event (journal_entry ''outbox_pending'' (sk_conversation_id s)
           (sk_message_id s) payload journaled_at)) st) (\<lambda>st.
         bindE (map_sum StoreFailure id (encode_body_payload E (Some (ob_text_content e)))) (\<lambda>archive_payload.
         Inr (write_archive_event E \<lparr>ae_event_type = AMessageReceived, ae_conversation_id = ob_conversation_id e,
           ae_message_id = Some (ob_client_message_id e), ae_payload = archive_payload,
           ae_created_at_ms = ob_created_at_ms e\<rparr> st))))))"

definition persist_outbox_entry ::
  "message_env \<Rightarrow> outbox_entry \<Rightarrow> int \<Rightarrow> message_store \<Rightarrow> (processor_error + uuid) \<times> message_store" where
  "persist_outbox_entry E e journaled_at st =
     (if ob_text_content e = [] then (Inl (InvalidMessage ''outbox text_content must not be empty''), st)
      else if get_version_num (ob_client_message_id e) \<noteq> 7
      then (Inl (InvalidMessage ''client_message_id must be a UUID v7''), st)
      else if skeleton_exists (me_show_uuid E (ob_client_message_id e)) st then (Inl DuplicateMessage, st)
      else (case in_savepoint (persist_outbox_entry_inner E e journaled_at) st of
          (Inl err, st) \<Rightarrow> (Inl err, st) | (Inr _, st) \<Rightarrow> (Inr (ob_client_message_id e), st)))"

definition check_duplicate :: "string \<Rightarrow> message_store \<Rightarrow> bool" where
  "check_duplicate client_message_id st = skeleton_exists client_message_id st"

definition mark_sent :: "string \<Rightarrow> int \<Rightarrow> message_store \<Rightarrow> (processor_error + unit) \<times> message_store" where
  "mark_sent client_message_id now st = (case get_message_skeleton client_message_id (ms_db st) of
      None \<Rightarrow> (Inl (InvalidMessage (''no outbox entry with client_message_id='' @ client_message_id)), st)
    | Some s \<Rightarrow> (case on_db (insert_backup_event (journal_entry ''outbox_sent'' (sk_conversation_id s) client_message_id
          (encode_event_payload client_message_id (sk_conversation_id s) (sk_sender_id s) (sk_created_at_ms s)) now)) st of
        Inl e \<Rightarrow> (Inl e, st) | Inr st \<Rightarrow> (Inr (), st)))"

subsection \<open>Edit\<close>

definition stored_id :: "message_env \<Rightarrow> string \<Rightarrow> string \<Rightarrow> processor_error + uuid" where
  "stored_id E what s = map_sum StoreFailure id (storage (''invalid '' @ what @ '' in store'') (me_parse_uuid E s))"

definition edit_message_inner ::
  "message_env \<Rightarrow> message_skeleton \<Rightarrow> utext \<Rightarrow> int \<Rightarrow> message_store \<Rightarrow> processor_error + message_store" where
  "edit_message_inner E s new_text edited_at st =
     (let mid = sk_message_id s;
          st = with_db (delete_vector_row mid \<circ> index_message (me_unicode E) mid new_text \<circ> unindex_message mid \<circ>
            insert_fts_row mid (sk_conversation_id s) (sk_sender_id s) (sk_created_at_ms s) new_text \<circ>
            delete_fts_row mid \<circ> update_skeleton_edited mid edited_at \<circ> update_message_body_text mid new_text) st
      in bindE (on_db (insert_backup_event (journal_entry ''message_edited'' (sk_conversation_id s) mid
           (encode_edit_event_payload mid edited_at) edited_at)) st) (\<lambda>st.
         bindE (stored_id E ''conversation_id'' (sk_conversation_id s)) (\<lambda>cid.
         bindE (stored_id E ''message_id'' mid) (\<lambda>m.
         bindE (map_sum StoreFailure id (encode_body_payload E (Some new_text))) (\<lambda>archive_payload.
         Inr (write_archive_event E \<lparr>ae_event_type = AMessageEdited, ae_conversation_id = cid,
           ae_message_id = Some m, ae_payload = archive_payload, ae_created_at_ms = edited_at\<rparr> st))))))"

definition edit_message ::
  "message_env \<Rightarrow> string \<Rightarrow> utext \<Rightarrow> int \<Rightarrow> message_store \<Rightarrow> (processor_error + unit) \<times> message_store" where
  "edit_message E mid new_text now st =
     (if new_text = [] then (Inl (InvalidMessage ''edit text_content must not be empty''), st)
      else (case get_message_skeleton mid (ms_db st) of
          None \<Rightarrow> (Inl (InvalidMessage (''no message with id='' @ mid)), st)
        | Some s \<Rightarrow>
            if sk_body_state s \<noteq> LocalPlainAvailable
            then (Inl (InvalidMessage (''edit requires body_state=local_plain_available, found '' @ show_body (sk_body_state s))), st)
            else in_savepoint (edit_message_inner E s new_text now) st))"

subsection \<open>Delete\<close>

definition delete_inner_tx ::
  "message_env \<Rightarrow> message_skeleton \<Rightarrow> delete_scope \<Rightarrow> body_state \<Rightarrow> int \<Rightarrow> message_store \<Rightarrow> processor_error + message_store" where
  "delete_inner_tx E s scope target deleted_at st =
     (let mid = sk_message_id s;
          st = with_db (unindex_message mid \<circ> delete_vector_row mid \<circ> delete_fts_row mid \<circ>
            update_skeleton_deleted mid deleted_at target) st;
          st = (if scope = ForEveryone then with_db (delete_message_body mid) st else st);
          payload = encode_delete_event_payload mid (scope_label scope)
      in bindE (on_db (insert_backup_event (journal_entry ''message_deleted'' (sk_conversation_id s) mid payload deleted_at)) st) (\<lambda>st.
         bindE (foldE (\<lambda>a. on_db (insert_backup_event (journal_entry ''media_deleted'' (sk_conversation_id s) mid
              (encode_media_delete_event_payload (ma_asset_id a) mid) deleted_at)))
            (list_media_assets_by_message mid (ms_db st)) st) (\<lambda>st.
         bindE (stored_id E ''conversation_id'' (sk_conversation_id s)) (\<lambda>cid.
         bindE (stored_id E ''message_id'' mid) (\<lambda>m.
         Inr (write_archive_event E \<lparr>ae_event_type = AMessageDeleted, ae_conversation_id = cid,
           ae_message_id = Some m, ae_payload = payload, ae_created_at_ms = deleted_at\<rparr> st))))))"

definition delete_inner ::
  "message_env \<Rightarrow> string \<Rightarrow> delete_scope \<Rightarrow> int \<Rightarrow> message_store \<Rightarrow> (processor_error + unit) \<times> message_store" where
  "delete_inner E mid scope now st = (case get_message_skeleton mid (ms_db st) of
      None \<Rightarrow> (Inl (InvalidMessage (''no message with id='' @ mid)), st)
    | Some s \<Rightarrow>
        let target = (case scope of ForMe \<Rightarrow> DeletedForMe | ForEveryone \<Rightarrow> DeletedForEveryone) in
        (case body_try_transition (sk_body_state s) target of
           Inl e \<Rightarrow> (Inl (IllegalTransition e), st)
         | Inr _ \<Rightarrow> in_savepoint (delete_inner_tx E s scope target now) st))"

definition delete_for_me :: "message_env \<Rightarrow> string \<Rightarrow> int \<Rightarrow> message_store \<Rightarrow> (processor_error + unit) \<times> message_store" where
  "delete_for_me E mid now st = delete_inner E mid ForMe now st"

definition delete_for_everyone :: "message_env \<Rightarrow> string \<Rightarrow> int \<Rightarrow> message_store \<Rightarrow> (processor_error + unit) \<times> message_store" where
  "delete_for_everyone E mid now st = delete_inner E mid ForEveryone now st"

subsection \<open>Batch ingest\<close>

definition xlmr_model_version :: string where "xlmr_model_version = ''xlmr@v1''"

text \<open>The upsert of the embedding cache, whose key is the message and the model; the embedder gives the
  quantised vector.\<close>

definition cache_put :: "string \<Rightarrow> string \<Rightarrow> bytes \<Rightarrow> local_db \<Rightarrow> local_db" where
  "cache_put mid version blob db =
     (let hit = (\<lambda>v. vr_message_id v = mid \<and> vr_model_version v = version) in
      if list_ex hit (db_vectors db)
      then db\<lparr>db_vectors := update_where hit (vr_embedding_update (\<lambda>_. blob)) (db_vectors db)\<rparr>
      else db\<lparr>db_vectors := db_vectors db @ [\<lparr>vr_message_id = mid, vr_embedding = blob, vr_model_version = version\<rparr>]\<rparr>)"

definition maybe_embed_text_message :: "message_env \<Rightarrow> ingested_message \<Rightarrow> message_store \<Rightarrow> message_store" where
  "maybe_embed_text_message E m st = (case (im_text_content m, me_embedder E) of
      (Some body, Some embedder) \<Rightarrow>
        let mid = me_show_uuid E (im_message_id m) in
        if list_ex (\<lambda>v. vr_message_id v = mid \<and> vr_model_version v = xlmr_model_version) (db_vectors (ms_db st)) then st
        else (case embedder body of None \<Rightarrow> st | Some blob \<Rightarrow> with_db (cache_put mid xlmr_model_version blob) st)
    | _ \<Rightarrow> st)"

record ingest_result =
  ir_new_messages :: nat
  ir_updated_messages :: nat
  ir_duplicate_count :: nat
  ir_next_cursor :: "string option"

definition no_ingest :: ingest_result where
  "no_ingest = \<lparr>ir_new_messages = 0, ir_updated_messages = 0, ir_duplicate_count = 0, ir_next_cursor = None\<rparr>"

text \<open>The loop stops at the first error that is not a duplicate; what it wrote before stays.\<close>

fun ingest_loop ::
  "message_env \<Rightarrow> (ingested_message \<times> int \<times> int) list \<Rightarrow> ingest_result \<Rightarrow> message_store \<Rightarrow>
   (processor_error + ingest_result) \<times> message_store" where
  "ingest_loop E [] res st = (Inr res, st)"
| "ingest_loop E ((m, received_at, journaled_at) # ms) res st =
     (case persist_ingested_message E m received_at journaled_at st of
        (Inr _, st) \<Rightarrow> ingest_loop E ms (res\<lparr>ir_new_messages := ir_new_messages res + 1\<rparr>) (maybe_embed_text_message E m st)
      | (Inl e, st) \<Rightarrow>
          if e = DuplicateMessage then ingest_loop E ms (res\<lparr>ir_duplicate_count := ir_duplicate_count res + 1\<rparr>) st
          else (Inl e, st))"

definition ingest_messages ::
  "message_env \<Rightarrow> (ingested_message \<times> int \<times> int) list \<Rightarrow> message_store \<Rightarrow> (processor_error + ingest_result) \<times> message_store" where
  "ingest_messages E messages st = ingest_loop E messages no_ingest st"

end
