(* ===== verification/Message_Facts.thy ===== *)
theory Message_Facts
  imports Messages Backup_Facts
begin

text \<open>
  What the message processor promises: a map from message ids to views is the specification, every
  operation simulates its step on it, and the five tables a reader or a search looks at are functions of
  the map.  Then what the journals keep of each operation.
\<close>

subsection \<open>Effect of the statements\<close>

primrec add_rows :: "string \<Rightarrow> fuzzy_token list \<Rightarrow> fuzzy_token list \<Rightarrow> fuzzy_row list \<Rightarrow> fuzzy_row list" where
  "add_rows mid [] seen rows = rows"
| "add_rows mid (k # ks) seen rows =
     (if k \<in> set seen then add_rows mid ks seen rows
      else add_rows mid ks (k # seen) (if token_row mid k \<in> set rows then rows else rows @ [token_row mid k]))"

lemma index_message_rows:
  "index_message uc mid t db = db\<lparr>db_fuzzy := add_rows mid (generate_tokens uc t) [] (db_fuzzy db)\<rparr>"
proof -
  have "fst (fold (\<lambda>k (db, seen).
      if k \<in> set seen then (db, seen) else (insert_or_ignore (token_row mid k) db, k # seen)) ks (db, seen)) =
    db\<lparr>db_fuzzy := add_rows mid ks seen (db_fuzzy db)\<rparr>" for ks seen
    by (induction ks arbitrary: db seen) (simp_all add: insert_or_ignore_def)
  from this[of "generate_tokens uc t" "[]"] show ?thesis by (simp add: index_message_def Let_def)
qed

lemma index_is_cong: "db_fuzzy db = db_fuzzy db' \<Longrightarrow> index_is db S = index_is db' S"
  by (simp add: index_is_def)

lemma on_db_Inr_iff [err_simps]: "on_db f st = Inr st' \<longleftrightarrow> (\<exists>db. f (ms_db st) = Inr db \<and> st' = st\<lparr>ms_db := db\<rparr>)"
  by (auto simp: on_db_def err_simps)

lemma with_db_simps [simp]: "ms_db (with_db f st) = f (ms_db st)" "ms_archive (with_db f st) = ms_archive st"
  "ms_archive_seq (with_db f st) = ms_archive_seq st"
  by (simp_all add: with_db_def)

lemma in_savepoint_Inr: "in_savepoint f st = (Inr u, st') \<longleftrightarrow> f st = Inr st'"
  by (auto simp: in_savepoint_def savepoint_Inr err_simps)

lemma in_savepoint_Inl: "in_savepoint f st = (Inl e, st') \<Longrightarrow> st' = st"
  by (simp add: in_savepoint_def savepoint_Inl)

lemma write_archive_db [simp]: "ms_db (write_archive_event E e st) = ms_db st"
  by (simp add: write_archive_event_def Let_def)

lemma insert_event_effect:
  assumes "insert_backup_event (journal_entry ty cid mid p t) db = Inr db'"
  shows "db' = db\<lparr>db_events := db_events db @ [(journal_entry ty cid mid p t)\<lparr>be_event_seq := db_event_seq db + 1\<rparr>],
    db_event_seq := db_event_seq db + 1\<rparr>"
  using assms by (simp add: insert_backup_event_def journal_entry_def Let_def)

lemma insert_media_effect:
  "insert_media_asset a db = Inr db' \<Longrightarrow> db' = db\<lparr>db_media := db_media db @ [a]\<rparr>"
  by (auto simp: insert_media_asset_def split: if_splits)

lemma insert_media_fold:
  assumes "foldE (\<lambda>d. on_db (insert_media_asset (a d))) ds st = Inr st'"
  shows "st' = st\<lparr>ms_db := (ms_db st)\<lparr>db_media := db_media (ms_db st) @ map a ds\<rparr>\<rparr> \<and> (db_wf (ms_db st) \<longrightarrow> db_wf (ms_db st'))"
  using assms
proof (induction ds arbitrary: st)
  case (Cons d ds)
  then obtain db where i: "insert_media_asset (a d) (ms_db st) = Inr db"
    and r: "foldE (\<lambda>d. on_db (insert_media_asset (a d))) ds (st\<lparr>ms_db := db\<rparr>) = Inr st'"
    by (auto simp: err_simps)
  show ?case using Cons.IH[OF r] insert_media_wf[OF i] by (auto simp: insert_media_effect[OF i])
qed simp

text \<open>What adding a message does to the five tables: ingest and outbox share it.\<close>

definition body_row :: "string \<Rightarrow> utext \<Rightarrow> message_body" where
  "body_row mid t = \<lparr>bd_message_id = mid, bd_text = Some t, bd_language = None, bd_rich_meta = None\<rparr>"

definition fts_of :: "message_skeleton \<Rightarrow> utext \<Rightarrow> fts_row" where
  "fts_of s t = \<lparr>ft_message_id = sk_message_id s, ft_conversation_id = sk_conversation_id s,
     ft_sender_id = sk_sender_id s, ft_created_at_ms = sk_created_at_ms s, ft_text = t\<rparr>"

definition adds_message :: "unicode \<Rightarrow> message_skeleton \<Rightarrow> utext option \<Rightarrow> local_db \<Rightarrow> local_db \<Rightarrow> bool" where
  "adds_message uc s t db db' \<longleftrightarrow>
     sk_message_id s \<notin> sk_message_id ` set (db_skeletons db) \<and>
     db_skeletons db' = db_skeletons db @ [s] \<and>
     db_bodies db' = db_bodies db @ (case t of None \<Rightarrow> [] | Some t \<Rightarrow> [body_row (sk_message_id s) t]) \<and>
     db_fts db' = db_fts db @ (case t of None \<Rightarrow> [] | Some t \<Rightarrow> [fts_of s t]) \<and>
     db_vectors db' = db_vectors db \<and>
     db_fuzzy db' = (case t of None \<Rightarrow> db_fuzzy db | Some t \<Rightarrow> db_fuzzy (index_message uc (sk_message_id s) t db)) \<and>
     (db_wf db \<longrightarrow> db_wf db')"

lemma insert_text_effect:
  assumes "insert_text E s t st = Inr st'"
  shows "st' = st\<lparr>ms_db := (ms_db st)\<lparr>db_bodies := db_bodies (ms_db st) @ [body_row (sk_message_id s) t],
      db_fts := db_fts (ms_db st) @ [fts_of s t],
      db_fuzzy := db_fuzzy (index_message (me_unicode E) (sk_message_id s) t (ms_db st))\<rparr>\<rparr> \<and>
    (db_wf (ms_db st) \<longrightarrow> db_wf (ms_db st'))"
proof -
  obtain db where i: "insert_message_body (body_row (sk_message_id s) t) (ms_db st) = Inr db"
    and st': "st' = st\<lparr>ms_db := index_message (me_unicode E) (sk_message_id s) t (db\<lparr>db_fts := db_fts db @ [fts_of s t]\<rparr>)\<rparr>"
    using assms by (auto simp: insert_text_def err_simps insert_fts_row_def body_row_def fts_of_def with_db_def)
  have db: "db = (ms_db st)\<lparr>db_bodies := db_bodies (ms_db st) @ [body_row (sk_message_id s) t]\<rparr>"
    using i by (auto simp: insert_message_body_def split: if_splits)
  show ?thesis
    using insert_body_wf[OF i] unindexed_update_wf(3)[OF unindexed_update_wf(1)]
    by (simp add: st' db index_message_rows)
qed

lemma bump_conversation_effect:
  "bump_conversation s db = db\<lparr>db_conversations := db_conversations (bump_conversation s db)\<rparr>"
  "db_wf db \<Longrightarrow> db_wf (bump_conversation s db)"
  by (simp_all add: bump_conversation_def update_conversation_last_message_def Let_def conversation_update_wf)

lemma bump_conversation_fields [simp]:
  "db_skeletons (bump_conversation s db) = db_skeletons db" "db_bodies (bump_conversation s db) = db_bodies db"
  "db_fts (bump_conversation s db) = db_fts db" "db_fuzzy (bump_conversation s db) = db_fuzzy db"
  "db_vectors (bump_conversation s db) = db_vectors db" "db_events (bump_conversation s db) = db_events db"
  "db_event_seq (bump_conversation s db) = db_event_seq db" "db_media (bump_conversation s db) = db_media db"
  by (simp_all add: bump_conversation_def update_conversation_last_message_def Let_def)

lemma insert_skeleton_effect:
  assumes "insert_message_skeleton s db = Inr db'"
  shows "sk_message_id s \<notin> sk_message_id ` set (db_skeletons db) \<and> sk_conversation_id s \<in> cv_id ` set (db_conversations db)
    \<and> db' = db\<lparr>db_skeletons := db_skeletons db @ [s]\<rparr>"
  using assms by (auto simp: insert_message_skeleton_def split: if_splits)

lemma ingest_adds:
  assumes "persist_ingested_message_inner E m received_at journaled_at st = Inr st'"
  shows "adds_message (me_unicode E) (ingest_skeleton E m received_at) (im_text_content m) (ms_db st) (ms_db st')"
proof -
  let ?s = "ingest_skeleton E m received_at"
  obtain db1 st2 st3 db4 where s: "insert_message_skeleton ?s (ms_db st) = Inr db1"
    and a: "foldE (\<lambda>d. on_db (insert_media_asset (asset_of E ?s d))) (im_media_descriptors m) (st\<lparr>ms_db := db1\<rparr>) = Inr st2"
    and t: "(case im_text_content m of None \<Rightarrow> Inr st2 | Some txt \<Rightarrow> insert_text E ?s txt st2) = Inr st3"
    and j: "insert_backup_event (journal_entry ''message_received'' (sk_conversation_id ?s) (sk_message_id ?s)
        (encode_event_payload (sk_message_id ?s) (sk_conversation_id ?s) (sk_sender_id ?s) (sk_created_at_ms ?s))
        journaled_at) (bump_conversation ?s (ms_db st3)) = Inr db4"
    and st': "ms_db st' = db4"
    using assms by (auto simp: persist_ingested_message_inner_def Let_def err_simps split: if_splits)
  note s' = insert_skeleton_effect[OF s] and a' = insert_media_fold[OF a] and j' = insert_event_effect[OF j]
  have wf: "db_wf (ms_db st) \<Longrightarrow> db_wf (ms_db st2)" using insert_skeleton_wf[OF s] conjunct2[OF a'] by simp
  have wf2: "db_wf (ms_db st3) \<Longrightarrow> db_wf (ms_db st')"
    using insert_backup_event_wf[OF j] bump_conversation_effect(2) st' by simp
  show ?thesis
  proof (cases "im_text_content m")
    case None
    then have st3: "st3 = st2" using t by simp
    then have "db_wf (ms_db st) \<Longrightarrow> db_wf (ms_db st')" using wf wf2 by simp
    then show ?thesis using None s' conjunct1[OF a'] j' by (simp add: adds_message_def st' st3)
  next
    case (Some x)
    then have "insert_text E ?s x st2 = Inr st3" using t by simp
    note t' = insert_text_effect[OF this]
    have "db_wf (ms_db st) \<Longrightarrow> db_wf (ms_db st')" using wf wf2 conjunct2[OF t'] by simp
    then show ?thesis using Some conjunct1[OF t'] s' conjunct1[OF a'] j' by (simp add: adds_message_def st' index_message_rows)
  qed
qed

lemma outbox_adds:
  assumes "persist_outbox_entry_inner E e journaled_at st = Inr st'"
  shows "adds_message (me_unicode E) (outbox_skeleton E e) (Some (ob_text_content e)) (ms_db st) (ms_db st')"
proof -
  let ?s = "outbox_skeleton E e"
  obtain db1 st3 db4 where s: "insert_message_skeleton ?s (ms_db st) = Inr db1"
    and t: "insert_text E ?s (ob_text_content e) (st\<lparr>ms_db := db1\<rparr>) = Inr st3"
    and j: "insert_backup_event (journal_entry ''outbox_pending'' (sk_conversation_id ?s) (sk_message_id ?s)
        (encode_event_payload (sk_message_id ?s) (sk_conversation_id ?s) ''self'' (ob_created_at_ms e))
        journaled_at) (bump_conversation ?s (ms_db st3)) = Inr db4"
    and st': "ms_db st' = db4"
    using assms by (auto simp: persist_outbox_entry_inner_def Let_def err_simps)
  note s' = insert_skeleton_effect[OF s] and t' = insert_text_effect[OF t] and j' = insert_event_effect[OF j]
  have "db_wf (ms_db st) \<Longrightarrow> db_wf (ms_db st')"
    using insert_skeleton_wf[OF s] conjunct2[OF t'] insert_backup_event_wf[OF j] bump_conversation_effect(2) st' by simp
  then show ?thesis using s' t' j' by (simp add: adds_message_def st' index_message_rows)
qed

subsection \<open>The specification: a map from ids to views\<close>

text \<open>A view has the text the searches see while the message is in plain text on the device, and the
  text of its body row, which a message received without text never gets.\<close>

record message_view =
  mv_conversation :: string
  mv_sender :: string
  mv_created_at_ms :: int
  mv_state :: body_state
  mv_text :: "utext option"
  mv_body :: "utext option"

type_synonym message_map = "string \<Rightarrow> message_view option"

definition view_of :: "message_skeleton \<Rightarrow> utext option \<Rightarrow> message_view" where
  "view_of s t = \<lparr>mv_conversation = sk_conversation_id s, mv_sender = sk_sender_id s,
     mv_created_at_ms = sk_created_at_ms s, mv_state = sk_body_state s, mv_text = t, mv_body = t\<rparr>"

definition searchable_text :: "message_map \<Rightarrow> string \<Rightarrow> utext option" where
  "searchable_text M mid = (case M mid of None \<Rightarrow> None
     | Some v \<Rightarrow> if mv_state v = LocalPlainAvailable then mv_text v else None)"

definition index_spec :: "unicode \<Rightarrow> message_map \<Rightarrow> string \<Rightarrow> fuzzy_token set" where
  "index_spec uc M mid = (case searchable_text M mid of None \<Rightarrow> {} | Some t \<Rightarrow> set (generate_tokens uc t))"

definition fts_view :: "string \<Rightarrow> message_view \<Rightarrow> utext \<Rightarrow> fts_row" where
  "fts_view mid v t = \<lparr>ft_message_id = mid, ft_conversation_id = mv_conversation v, ft_sender_id = mv_sender v,
     ft_created_at_ms = mv_created_at_ms v, ft_text = t\<rparr>"

definition shows_messages :: "unicode \<Rightarrow> local_db \<Rightarrow> message_map \<Rightarrow> bool" where
  "shows_messages uc db M \<longleftrightarrow> db_wf db \<and>
     (\<forall>mid. map_option (\<lambda>s. (sk_conversation_id s, sk_sender_id s, sk_created_at_ms s, sk_body_state s))
        (get_message_skeleton mid db) =
      map_option (\<lambda>v. (mv_conversation v, mv_sender v, mv_created_at_ms v, mv_state v)) (M mid)) \<and>
     set (db_bodies db) = {body_row mid t | mid v t. M mid = Some v \<and> mv_body v = Some t} \<and>
     distinct (map ft_message_id (db_fts db)) \<and>
     set (db_fts db) = {fts_view mid v t | mid v t. M mid = Some v \<and> searchable_text M mid = Some t} \<and>
     index_is db (index_spec uc M) \<and>
     vr_message_id ` set (db_vectors db) \<subseteq> {mid. searchable_text M mid \<noteq> None}"

lemma showsD:
  assumes "shows_messages uc db M"
  shows "db_wf db" "distinct (map ft_message_id (db_fts db))" "index_is db (index_spec uc M)"
    "set (db_bodies db) = {body_row mid t | mid v t. M mid = Some v \<and> mv_body v = Some t}"
    "set (db_fts db) = {fts_view mid v t | mid v t. M mid = Some v \<and> searchable_text M mid = Some t}"
    "\<And>v. v \<in> set (db_vectors db) \<Longrightarrow> searchable_text M (vr_message_id v) \<noteq> None"
  using assms by (auto simp: shows_messages_def)

lemma shows_skeleton:
  assumes "shows_messages uc db M"
  shows "map_option (\<lambda>s. (sk_conversation_id s, sk_sender_id s, sk_created_at_ms s, sk_body_state s))
        (get_message_skeleton mid db) =
      map_option (\<lambda>v. (mv_conversation v, mv_sender v, mv_created_at_ms v, mv_state v)) (M mid)"
  using assms by (simp add: shows_messages_def)

lemma shows_None_iff:
  assumes "shows_messages uc db M"
  shows "M mid = None \<longleftrightarrow> mid \<notin> sk_message_id ` set (db_skeletons db)"
proof -
  have "M mid = None \<longleftrightarrow> get_message_skeleton mid db = None"
    using shows_skeleton[OF assms, of mid] by (cases "M mid"; cases "get_message_skeleton mid db") simp_all
  then show ?thesis by (simp add: get_message_skeleton_def select_one_None_iff)
qed

lemma shows_SomeD:
  assumes "shows_messages uc db M" "get_message_skeleton mid db = Some s"
  shows "\<exists>v. M mid = Some v \<and> mv_conversation v = sk_conversation_id s \<and> mv_sender v = sk_sender_id s \<and>
    mv_created_at_ms v = sk_created_at_ms s \<and> mv_state v = sk_body_state s \<and> sk_message_id s = mid"
  using shows_skeleton[OF assms(1), of mid] select_one_SomeD[of sk_message_id mid "db_skeletons db" s] assms(2)
  by (cases "M mid") (simp_all add: get_message_skeleton_def)

lemma body_row_simps [simp]: "bd_message_id (body_row mid t) = mid" "bd_text (body_row mid t) = Some t"
  "bd_text_update (\<lambda>_. Some t') (body_row mid t) = body_row mid t'"
  by (simp_all add: body_row_def)

lemma fts_view_simps [simp]: "ft_message_id (fts_view mid v t) = mid" "ft_text (fts_view mid v t) = t"
  by (simp_all add: fts_view_def)

lemma searchable_upd [simp]: "searchable_text (M(mid \<mapsto> v)) mid' =
    (if mid' = mid then if mv_state v = LocalPlainAvailable then mv_text v else None else searchable_text M mid')"
  by (simp add: searchable_text_def)

lemma index_spec_upd: "index_spec uc (M(mid \<mapsto> v)) = (index_spec uc M)(mid :=
    (if mv_state v = LocalPlainAvailable then case mv_text v of None \<Rightarrow> {} | Some t \<Rightarrow> set (generate_tokens uc t) else {}))"
  by (rule ext) (auto simp: index_spec_def)

lemma select_one_snoc: "select_one key k (xs @ [x]) =
    (case select_one key k xs of None \<Rightarrow> if key x = k then Some x else None | Some r \<Rightarrow> Some r)"
  by (induction xs) (simp_all add: select_one_def)

lemma adds_shows:
  assumes sh: "shows_messages uc db M" and add: "adds_message uc s t db db'"
    and live: "sk_body_state s = LocalPlainAvailable"
  shows "shows_messages uc db' (M(sk_message_id s \<mapsto> view_of s t))"
proof -
  let ?mid = "sk_message_id s" and ?M = "M(sk_message_id s \<mapsto> view_of s t)"
  note a = add[unfolded adds_message_def]
  have fresh: "M ?mid = None" using shows_None_iff[OF sh] a by metis
  have none: "searchable_text M ?mid = None" by (simp add: searchable_text_def fresh)
  have fid: "?mid \<notin> ft_message_id ` set (db_fts db)" using showsD(5)[OF sh] fresh by auto
  have "db_wf db'" using showsD(1)[OF sh] a by blast
  moreover have "map_option (\<lambda>s. (sk_conversation_id s, sk_sender_id s, sk_created_at_ms s, sk_body_state s))
        (get_message_skeleton mid db') =
      map_option (\<lambda>v. (mv_conversation v, mv_sender v, mv_created_at_ms v, mv_state v)) (?M mid)" for mid
  proof -
    have "get_message_skeleton mid db' = (case get_message_skeleton mid db of
        None \<Rightarrow> if mid = ?mid then Some s else None | Some s' \<Rightarrow> Some s')"
      using a by (auto simp add: get_message_skeleton_def select_one_snoc)
    then show ?thesis using shows_skeleton[OF sh, of mid] fresh
      by (auto simp: view_of_def split: option.splits)
  qed
  moreover have "set (db_bodies db') = {body_row mid t | mid v t. ?M mid = Some v \<and> mv_body v = Some t}"
  proof -
    have "set (db_bodies db') = {body_row mid t | mid v t. M mid = Some v \<and> mv_body v = Some t} \<union>
        (case t of None \<Rightarrow> {} | Some t \<Rightarrow> {body_row ?mid t})"
      using a showsD(4)[OF sh] by (simp split: option.splits)
    also have "\<dots> = {body_row mid t | mid v t. ?M mid = Some v \<and> mv_body v = Some t}"
      using fresh by (auto simp: view_of_def split: option.splits if_splits) (metis option.distinct(1))+
    finally show ?thesis .
  qed
  moreover have "distinct (map ft_message_id (db_fts db'))"
    using showsD(2)[OF sh] a fid by (auto simp: fts_of_def split: option.splits)
  moreover have "set (db_fts db') = {fts_view mid v t | mid v t. ?M mid = Some v \<and> searchable_text ?M mid = Some t}"
  proof -
    have "set (db_fts db') = {fts_view mid v t | mid v t. M mid = Some v \<and> searchable_text M mid = Some t} \<union>
        (case t of None \<Rightarrow> {} | Some t \<Rightarrow> {fts_view ?mid (view_of s (Some t)) t})"
      using a showsD(5)[OF sh] by (simp add: fts_of_def fts_view_def view_of_def split: option.splits)
    also have "\<dots> = {fts_view mid v t | mid v t. ?M mid = Some v \<and> searchable_text ?M mid = Some t}"
      using fresh live by (auto simp: view_of_def split: option.splits if_splits) (metis option.distinct(1))+
    finally show ?thesis .
  qed
  moreover have "index_is db' (index_spec uc ?M)"
  proof (cases t)
    case None
    then have "index_spec uc ?M = index_spec uc M" using none by (simp add: index_spec_upd view_of_def fun_upd_idem_iff) (simp add: index_spec_def)
    then show ?thesis using showsD(3)[OF sh] a None index_is_cong[of db' db] by simp
  next
    case (Some x)
    then have "index_spec uc ?M = spec_fuzzy uc (IndexText ?mid x) (index_spec uc M)"
      using none live by (auto simp: index_spec_upd view_of_def index_spec_def)
    then show ?thesis
      using index_message_is[OF showsD(3)[OF sh], of uc ?mid x] a Some index_is_cong[of db' "index_message uc ?mid x db"]
      by simp
  qed
  moreover have "vr_message_id ` set (db_vectors db') \<subseteq> {mid. searchable_text ?M mid \<noteq> None}"
  proof -
    have "searchable_text M (vr_message_id x) \<noteq> None \<and> vr_message_id x \<noteq> ?mid" if "x \<in> set (db_vectors db)" for x
      using showsD(6)[OF sh that] none by metis
    then show ?thesis using a by auto
  qed
  ultimately show ?thesis unfolding shows_messages_def by blast
qed

text \<open>Statements on the journals and on the conversations leave what is shown alone.\<close>

lemma shows_cong:
  assumes "shows_messages uc db M" "db_skeletons db' = db_skeletons db" "db_bodies db' = db_bodies db"
    "db_fts db' = db_fts db" "db_fuzzy db' = db_fuzzy db" "db_vectors db' = db_vectors db" "db_wf db'"
  shows "shows_messages uc db' M"
  using assms index_is_cong[of db' db] by (simp add: shows_messages_def get_message_skeleton_def)

lemma shows_event:
  assumes "shows_messages uc db M" "insert_backup_event (journal_entry ty cid mid p t) db = Inr db'"
  shows "shows_messages uc db' M"
  using insert_event_effect[OF assms(2)] insert_backup_event_wf[OF assms(2) showsD(1)[OF assms(1)]]
  by (intro shows_cong[OF assms(1)]) simp_all

lemma shows_events:
  assumes "shows_messages uc (ms_db st) M"
    and "foldE (\<lambda>a. on_db (insert_backup_event (journal_entry ty cid mid (p a) t))) as st = Inr st'"
  shows "shows_messages uc (ms_db st') M"
  using assms(2,1) by (rule foldE_invariant[where P = "\<lambda>st. shows_messages uc (ms_db st) M"])
    (auto simp: err_simps intro: shows_event)

text \<open>Changing one message: its view changes, the others keep their rows.\<close>

lemma shows_update:
  assumes sh: "shows_messages uc db M" and v: "M mid = Some v" and wf: "db_wf db'"
    and skel: "db_skeletons db' = update_where (\<lambda>s. sk_message_id s = mid) f (db_skeletons db)"
      "\<And>s. sk_message_id (f s) = sk_message_id s" "\<And>s. sk_conversation_id (f s) = sk_conversation_id s"
      "\<And>s. sk_sender_id (f s) = sk_sender_id s" "\<And>s. sk_created_at_ms (f s) = sk_created_at_ms s"
      "\<And>s. sk_body_state s = mv_state v \<Longrightarrow> sk_body_state (f s) = mv_state v'"
    and same: "mv_conversation v' = mv_conversation v" "mv_sender v' = mv_sender v" "mv_created_at_ms v' = mv_created_at_ms v"
    and bodies: "set (db_bodies db') = {b \<in> set (db_bodies db). bd_message_id b \<noteq> mid} \<union>
      {body_row mid t | t. mv_body v' = Some t}"
    and fts: "db_fts db' = delete_where (\<lambda>r. ft_message_id r = mid) (db_fts db) @ fs"
      "fs = (case searchable_text (M(mid \<mapsto> v')) mid of None \<Rightarrow> [] | Some t \<Rightarrow> [fts_view mid v' t])"
    and fuzzy: "db_fuzzy db' = db_fuzzy (case searchable_text (M(mid \<mapsto> v')) mid of
      None \<Rightarrow> unindex_message mid db | Some t \<Rightarrow> index_message uc mid t (unindex_message mid db))"
    and vectors: "db_vectors db' = delete_where (\<lambda>r. vr_message_id r = mid) (db_vectors db)"
  shows "shows_messages uc db' (M(mid \<mapsto> v'))"
proof -
  let ?M = "M(mid \<mapsto> v')"
  have "map_option (\<lambda>s. (sk_conversation_id s, sk_sender_id s, sk_created_at_ms s, sk_body_state s))
        (get_message_skeleton m db') =
      map_option (\<lambda>v. (mv_conversation v, mv_sender v, mv_created_at_ms v, mv_state v)) (?M m)" for m
  proof -
    have "get_message_skeleton m db' =
        map_option (\<lambda>r. if sk_message_id r = mid then f r else r) (get_message_skeleton m db)"
      unfolding get_message_skeleton_def skel(1) by (rule select_one_update_where) (rule skel(2))
    moreover have "sk_message_id r = m" if "get_message_skeleton m db = Some r" for r
      using that select_one_SomeD by (metis get_message_skeleton_def)
    ultimately show ?thesis using shows_skeleton[OF sh, of m] v same skel(2-)
      by (cases "get_message_skeleton m db"; cases "m = mid") auto
  qed
  moreover have "set (db_bodies db') = {body_row m t | m v t. ?M m = Some v \<and> mv_body v = Some t}"
    unfolding bodies showsD(4)[OF sh] by (auto split: if_splits)
  moreover have "distinct (map ft_message_id (db_fts db'))"
    unfolding fts using showsD(2)[OF sh] by (auto simp: distinct_delete_where simp del: searchable_upd split: option.splits)
  moreover have "set (db_fts db') = {fts_view m v t | m v t. ?M m = Some v \<and> searchable_text ?M m = Some t}"
    unfolding fts set_append set_delete_where showsD(5)[OF sh] by (auto split: option.splits if_splits) (metis option.inject)+
  moreover have "index_is db' (index_spec uc ?M)"
  proof -
    note un = unindex_message_is[OF showsD(3)[OF sh], of mid uc]
    show ?thesis
    proof (cases "searchable_text ?M mid")
      case None
      then have "index_spec uc ?M = spec_fuzzy uc (Unindex mid) (index_spec uc M)"
        by (auto simp: index_spec_upd split: if_splits)
      then show ?thesis using un fuzzy None index_is_cong[of db' "unindex_message mid db"] by (simp del: searchable_upd)
    next
      case (Some t)
      then have "index_spec uc ?M = spec_fuzzy uc (IndexText mid t) (spec_fuzzy uc (Unindex mid) (index_spec uc M))"
        by (auto simp: index_spec_upd split: if_splits)
      then show ?thesis
        using index_message_is[OF un, of uc mid t] fuzzy Some
          index_is_cong[of db' "index_message uc mid t (unindex_message mid db)"]
        by (simp del: searchable_upd spec_fuzzy.simps)
    qed
  qed
  moreover have "vr_message_id ` set (db_vectors db') \<subseteq> {m. searchable_text ?M m \<noteq> None}"
    unfolding vectors using showsD(6)[OF sh] by auto
  ultimately show ?thesis using wf unfolding shows_messages_def by blast
qed

subsection \<open>Every operation simulates its step\<close>

lemma set_update_where_split: "set (update_where P f rows) = {r \<in> set rows. \<not> P r} \<union> f ` {r \<in> set rows. P r}"
  by (auto simp: update_where_def)

lemma edit_shows:
  assumes sh: "shows_messages (me_unicode E) (ms_db st) M"
    and s: "get_message_skeleton mid (ms_db st) = Some s" "sk_body_state s = LocalPlainAvailable"
    and run: "edit_message_inner E s t now st = Inr st'" and v: "M mid = Some v"
  shows "shows_messages (me_unicode E) (ms_db st') (M(mid \<mapsto> v\<lparr>mv_text := Some t, mv_body := map_option (\<lambda>_. t) (mv_body v)\<rparr>))"
proof -
  let ?uc = "me_unicode E" and ?v = "v\<lparr>mv_text := Some t, mv_body := map_option (\<lambda>_. t) (mv_body v)\<rparr>"
  obtain mv: "sk_message_id s = mid" "mv_conversation v = sk_conversation_id s" "mv_sender v = sk_sender_id s"
      "mv_created_at_ms v = sk_created_at_ms s" "mv_state v = LocalPlainAvailable"
    using shows_SomeD[OF sh s(1)] v s(2) by auto
  define db2 where "db2 = (delete_vector_row mid \<circ> index_message ?uc mid t \<circ> unindex_message mid \<circ>
      insert_fts_row mid (sk_conversation_id s) (sk_sender_id s) (sk_created_at_ms s) t \<circ>
      delete_fts_row mid \<circ> update_skeleton_edited mid now \<circ> update_message_body_text mid t) (ms_db st)"
  obtain db3 where ev: "insert_backup_event (journal_entry ''message_edited'' (sk_conversation_id s) mid
        (encode_edit_event_payload mid now) now) db2 = Inr db3" and st': "ms_db st' = db3"
    using run mv(1) by (auto simp: edit_message_inner_def Let_def err_simps db2_def)
  note defs = db2_def delete_vector_row_def index_message_rows unindex_message_def insert_fts_row_def delete_fts_row_def
    update_skeleton_edited_def update_message_body_text_def
  have "db_wf db2"
    unfolding defs o_apply by (intro unindexed_update_wf skeleton_update_wf body_update_wf showsD(1)[OF sh]) simp_all
  moreover have "set (db_bodies db2) = {b \<in> set (db_bodies (ms_db st)). bd_message_id b \<noteq> mid} \<union>
      {body_row mid t | t. mv_body ?v = Some t}"
  proof -
    have "{b \<in> set (db_bodies (ms_db st)). bd_message_id b = mid} = {body_row mid t | t. mv_body v = Some t}"
      using v by (auto simp: showsD(4)[OF sh])
    then have "set (db_bodies db2) = {b \<in> set (db_bodies (ms_db st)). bd_message_id b \<noteq> mid} \<union>
        bd_text_update (\<lambda>_. Some t) ` {body_row mid t | t. mv_body v = Some t}"
      by (simp add: defs set_update_where_split)
    then show ?thesis by (cases "mv_body v") auto
  qed
  ultimately have "shows_messages ?uc db2 (M(mid \<mapsto> ?v))"
    by (intro shows_update[OF sh v, where f = "sk_edited_at_ms_update (\<lambda>_. Some now)"])
      (simp_all add: defs mv fts_view_def)
  then show ?thesis using shows_event[OF _ ev] st' by simp
qed

definition delete_view :: "delete_scope \<Rightarrow> message_view \<Rightarrow> message_view" where
  "delete_view scope v = (case scope of
      ForMe \<Rightarrow> v\<lparr>mv_state := DeletedForMe\<rparr>
    | ForEveryone \<Rightarrow> v\<lparr>mv_state := DeletedForEveryone, mv_body := None\<rparr>)"

lemma delete_shows:
  assumes sh: "shows_messages (me_unicode E) (ms_db st) M"
    and s: "get_message_skeleton mid (ms_db st) = Some s"
    and run: "delete_inner_tx E s scope (case scope of ForMe \<Rightarrow> DeletedForMe | ForEveryone \<Rightarrow> DeletedForEveryone) now st = Inr st'"
    and v: "M mid = Some v"
  shows "shows_messages (me_unicode E) (ms_db st') (M(mid \<mapsto> delete_view scope v))"
proof -
  let ?uc = "me_unicode E" and ?target = "case scope of ForMe \<Rightarrow> DeletedForMe | ForEveryone \<Rightarrow> DeletedForEveryone"
  have mid: "sk_message_id s = mid" using shows_SomeD[OF sh s(1)] by blast
  define db1 where "db1 = (unindex_message mid \<circ> delete_vector_row mid \<circ> delete_fts_row mid \<circ>
      update_skeleton_deleted mid now ?target) (ms_db st)"
  define db2 where "db2 = (if scope = ForEveryone then delete_message_body mid db1 else db1)"
  obtain db3 st4 where ev: "insert_backup_event (journal_entry ''message_deleted'' (sk_conversation_id s) mid
        (encode_delete_event_payload mid (scope_label scope)) now) db2 = Inr db3"
    and evs: "foldE (\<lambda>a. on_db (insert_backup_event (journal_entry ''media_deleted'' (sk_conversation_id s) mid
        (encode_media_delete_event_payload (ma_asset_id a) mid) now)))
        (list_media_assets_by_message mid db3) (st\<lparr>ms_db := db3\<rparr>) = Inr st4"
    and st': "ms_db st' = ms_db st4"
    using run mid by (cases scope) (auto simp: delete_inner_tx_def Let_def err_simps db1_def db2_def with_db_def)
  note defs = db1_def db2_def delete_vector_row_def unindex_message_def delete_fts_row_def update_skeleton_deleted_def
    delete_message_body_def
  have "db_wf db1"
    unfolding defs o_apply by (intro unindexed_update_wf skeleton_update_wf showsD(1)[OF sh]) simp_all
  then have "db_wf db2" by (simp add: db2_def delete_message_body_def delete_body_wf)
  moreover have "set (db_bodies db2) = {b \<in> set (db_bodies (ms_db st)). bd_message_id b \<noteq> mid} \<union>
      {body_row mid t | t. mv_body (delete_view scope v) = Some t}"
    using v by (cases scope) (auto simp: defs showsD(4)[OF sh] delete_view_def)
  ultimately have "shows_messages ?uc db2 (M(mid \<mapsto> delete_view scope v))"
    by (intro shows_update[OF sh v, where f = "\<lambda>s. s\<lparr>sk_body_state := ?target, sk_deleted_at_ms := Some now\<rparr>" and fs = "[]"])
      (cases scope; simp add: defs delete_view_def)+
  then have "shows_messages ?uc (ms_db (st\<lparr>ms_db := db3\<rparr>)) (M(mid \<mapsto> delete_view scope v))"
    using shows_event[OF _ ev] by simp
  from shows_events[OF this evs] show ?thesis by (simp add: st')
qed

text \<open>The operations of the processor as one type, and the step each makes on the map.\<close>

datatype message_op =
    AddConversation conversation
  | Ingest ingested_message int int
  | Send outbox_entry int
  | ConfirmSent string int
  | EditText string utext int
  | HideForMe string int
  | EraseForEveryone string int

definition just_db :: "processor_error + message_store \<Rightarrow> message_store \<Rightarrow> (processor_error + unit) \<times> message_store" where
  "just_db r st = (case r of Inl e \<Rightarrow> (Inl e, st) | Inr st' \<Rightarrow> (Inr (), st'))"

fun run_message :: "message_env \<Rightarrow> message_op \<Rightarrow> message_store \<Rightarrow> (processor_error + unit) \<times> message_store" where
  "run_message E (AddConversation c) st = just_db (on_db (insert_conversation c) st) st"
| "run_message E (Ingest m received_at journaled_at) st =
     (case persist_ingested_message E m received_at journaled_at st of
        (Inl e, st) \<Rightarrow> (Inl e, st) | (Inr _, st) \<Rightarrow> (Inr (), maybe_embed_text_message E m st))"
| "run_message E (Send e journaled_at) st =
     (case persist_outbox_entry E e journaled_at st of (Inl err, st) \<Rightarrow> (Inl err, st) | (Inr _, st) \<Rightarrow> (Inr (), st))"
| "run_message E (ConfirmSent mid now) st = mark_sent mid now st"
| "run_message E (EditText mid t now) st = edit_message E mid t now st"
| "run_message E (HideForMe mid now) st = delete_for_me E mid now st"
| "run_message E (EraseForEveryone mid now) st = delete_for_everyone E mid now st"

fun spec_message :: "message_env \<Rightarrow> message_op \<Rightarrow> message_map \<Rightarrow> message_map" where
  "spec_message E (AddConversation c) M = M"
| "spec_message E (Ingest m received_at journaled_at) M =
     M(me_show_uuid E (im_message_id m) \<mapsto> view_of (ingest_skeleton E m received_at) (im_text_content m))"
| "spec_message E (Send e journaled_at) M =
     M(me_show_uuid E (ob_client_message_id e) \<mapsto> view_of (outbox_skeleton E e) (Some (ob_text_content e)))"
| "spec_message E (ConfirmSent mid now) M = M"
| "spec_message E (EditText mid t now) M =
     M(mid := map_option (\<lambda>v. v\<lparr>mv_text := Some t, mv_body := map_option (\<lambda>_. t) (mv_body v)\<rparr>) (M mid))"
| "spec_message E (HideForMe mid now) M = M(mid := map_option (delete_view ForMe) (M mid))"
| "spec_message E (EraseForEveryone mid now) M = M(mid := map_option (delete_view ForEveryone) (M mid))"

definition empty_message_store :: message_store where
  "empty_message_store = \<lparr>ms_db = empty_db, ms_archive = [], ms_archive_seq = 0, ms_archive_cursor = None\<rparr>"

definition message_step :: "message_env \<Rightarrow> message_op \<Rightarrow> message_store \<times> message_map \<Rightarrow> message_store \<times> message_map" where
  "message_step E op = (\<lambda>(st, M). case run_message E op st of
      (Inl _, st') \<Rightarrow> (st', M) | (Inr _, st') \<Rightarrow> (st', spec_message E op M))"

definition messages_after :: "message_env \<Rightarrow> message_op list \<Rightarrow> message_store \<times> message_map" where
  "messages_after E ops = fold (message_step E) ops (empty_message_store, Map.empty)"

lemma shows_empty: "shows_messages uc (ms_db empty_message_store) Map.empty"
  by (simp add: shows_messages_def empty_message_store_def db_wf_empty)
    (simp add: empty_db_def get_message_skeleton_def select_one_def searchable_text_def index_is_def index_spec_def)

lemma cache_put_shows:
  assumes "shows_messages uc db M" "searchable_text M mid \<noteq> None"
  shows "shows_messages uc (cache_put mid version blob db) M"
proof -
  have "vr_message_id ` set (db_vectors (cache_put mid version blob db)) \<subseteq> insert mid (vr_message_id ` set (db_vectors db))"
    by (auto simp: cache_put_def Let_def set_update_where)
  moreover have "insert mid (vr_message_id ` set (db_vectors db)) \<subseteq> {mid. searchable_text M mid \<noteq> None}"
    using assms(2) showsD(6)[OF assms(1)] by auto
  ultimately have "vr_message_id ` set (db_vectors (cache_put mid version blob db)) \<subseteq> {mid. searchable_text M mid \<noteq> None}"
    by (rule subset_trans)
  moreover have "db_wf (cache_put mid version blob db)"
    using showsD(1)[OF assms(1)] by (simp add: cache_put_def Let_def unindexed_update_wf)
  moreover have "db_skeletons (cache_put mid version blob db) = db_skeletons db" "db_bodies (cache_put mid version blob db) = db_bodies db"
    "db_fts (cache_put mid version blob db) = db_fts db" "db_fuzzy (cache_put mid version blob db) = db_fuzzy db"
    by (simp_all add: cache_put_def Let_def)
  ultimately show ?thesis
    using assms index_is_cong[of "cache_put mid version blob db" db] unfolding shows_messages_def get_message_skeleton_def
    by simp
qed

lemma maybe_embed_shows:
  assumes "shows_messages (me_unicode E) (ms_db st) M"
    "im_text_content m \<noteq> None \<Longrightarrow> searchable_text M (me_show_uuid E (im_message_id m)) \<noteq> None"
  shows "shows_messages (me_unicode E) (ms_db (maybe_embed_text_message E m st)) M"
  using assms by (auto simp: maybe_embed_text_message_def Let_def intro: cache_put_shows split: option.splits)

lemma ingest_step:
  assumes sh: "shows_messages (me_unicode E) (ms_db st) M"
    and run: "persist_ingested_message E m received_at journaled_at st = (Inr u, st')"
  shows "shows_messages (me_unicode E) (ms_db (maybe_embed_text_message E m st'))
    (spec_message E (Ingest m received_at journaled_at) M)"
proof -
  have "persist_ingested_message_inner E m received_at journaled_at st = Inr st'"
    using run by (simp add: persist_ingested_message_def in_savepoint_Inr split: sum.splits if_splits)
  from adds_shows[OF sh ingest_adds[OF this]]
  have "shows_messages (me_unicode E) (ms_db st') (spec_message E (Ingest m received_at journaled_at) M)"
    by (simp add: ingest_skeleton_def)
  then show ?thesis by (rule maybe_embed_shows) (simp add: view_of_def ingest_skeleton_def)
qed

lemma outbox_step:
  assumes sh: "shows_messages (me_unicode E) (ms_db st) M" and run: "persist_outbox_entry E e t st = (Inr u, st')"
  shows "shows_messages (me_unicode E) (ms_db st') (spec_message E (Send e t) M)"
proof -
  have "persist_outbox_entry_inner E e t st = Inr st'"
    using run by (auto simp: persist_outbox_entry_def in_savepoint_Inr split: if_splits prod.splits sum.splits)
  from adds_shows[OF sh outbox_adds[OF this]] show ?thesis by (simp add: outbox_skeleton_def)
qed

lemma edit_step:
  assumes sh: "shows_messages (me_unicode E) (ms_db st) M" and run: "edit_message E mid t now st = (Inr u, st')"
  shows "shows_messages (me_unicode E) (ms_db st') (spec_message E (EditText mid t now) M)"
proof -
  obtain s where s: "get_message_skeleton mid (ms_db st) = Some s" "sk_body_state s = LocalPlainAvailable"
    and inner: "edit_message_inner E s t now st = Inr st'"
    using run by (auto simp: edit_message_def in_savepoint_Inr split: if_splits option.splits)
  obtain v where v: "M mid = Some v" using shows_SomeD[OF sh s(1)] by blast
  show ?thesis using edit_shows[OF sh s inner v] v by simp
qed

lemma delete_step:
  assumes sh: "shows_messages (me_unicode E) (ms_db st) M" and run: "delete_inner E mid scope now st = (Inr u, st')"
  shows "shows_messages (me_unicode E) (ms_db st') (M(mid := map_option (delete_view scope) (M mid)))"
proof -
  obtain s where s: "get_message_skeleton mid (ms_db st) = Some s"
    and inner: "delete_inner_tx E s scope (case scope of ForMe \<Rightarrow> DeletedForMe | ForEveryone \<Rightarrow> DeletedForEveryone) now st = Inr st'"
    using run by (auto simp: delete_inner_def in_savepoint_Inr Let_def split: sum.splits option.splits)
  obtain v where v: "M mid = Some v" using shows_SomeD[OF sh s(1)] by blast
  show ?thesis using delete_shows[OF sh s inner v] v by simp
qed

lemma mark_sent_step:
  assumes sh: "shows_messages uc (ms_db st) M" and run: "mark_sent mid now st = (Inr u, st')"
  shows "shows_messages uc (ms_db st') M"
  using run sh by (auto simp: mark_sent_def err_simps intro: shows_event split: option.splits sum.splits)

lemma failed_message_keeps: "run_message E op st = (Inl e, st') \<Longrightarrow> st' = st"
  by (cases op) (auto simp: just_db_def persist_ingested_message_def persist_outbox_entry_def mark_sent_def
      edit_message_def delete_for_me_def delete_for_everyone_def delete_inner_def Let_def
      dest: in_savepoint_Inl split: sum.splits prod.splits if_splits option.splits)

lemma message_simulates:
  assumes "shows_messages (me_unicode E) (ms_db st) M" "run_message E op st = (Inr u, st')"
  shows "shows_messages (me_unicode E) (ms_db st') (spec_message E op M)"
proof (cases op)
  case (AddConversation c)
  then obtain db where i: "insert_conversation c (ms_db st) = Inr db" "st' = st\<lparr>ms_db := db\<rparr>"
    using assms(2) by (auto simp: just_db_def err_simps split: sum.splits)
  have "shows_messages (me_unicode E) db M"
    using i(1) insert_conversation_wf[OF i(1) showsD(1)[OF assms(1)]]
    by (intro shows_cong[OF assms(1)]) (auto simp: insert_conversation_def split: if_splits)
  then show ?thesis using i AddConversation by simp
qed (use assms in \<open>auto simp: delete_for_me_def delete_for_everyone_def simp del: spec_message.simps(2,3,5)
    dest: ingest_step outbox_step edit_step delete_step mark_sent_step split: prod.splits sum.splits\<close>)

end
