(* ===== verification/Message_Histories.thy ===== *)
theory Message_Histories
  imports Message_Facts
begin

text \<open>
  The properties of the message processor under every history of its operations: the tables are what the
  specification says, the fuzzy search sees exactly the live texts, both journals get the rows of each
  operation, a batch can be delivered twice; and where the code falls short of its comments.
\<close>

subsection \<open>Histories\<close>

lemma step_fst: "fst (message_step E op s) = snd (run_message E op (fst s))"
  by (cases s) (auto simp: message_step_def split: prod.splits sum.splits)

lemma messages_after_snoc: "messages_after E (ops @ [op]) = message_step E op (messages_after E ops)"
  by (simp add: messages_after_def)

lemma history_shows: "shows_messages (me_unicode E) (ms_db (fst (messages_after E ops))) (snd (messages_after E ops))"
proof (induction ops rule: rev_induct)
  case Nil
  then show ?case using shows_empty by (simp add: messages_after_def)
next
  case (snoc op ops)
  obtain st M where s: "messages_after E ops = (st, M)" by fastforce
  show ?case
    using snoc message_simulates[of E st M op] failed_message_keeps[of E op st]
    by (cases "run_message E op st"; cases "fst (run_message E op st)")
      (auto simp: messages_after_snoc s message_step_def)
qed

text \<open>An invariant of every operation is one of every history.\<close>

lemma history_induct:
  assumes "P (fst (messages_after E ops))"
    and "\<And>op st. P st \<Longrightarrow> op \<in> set ops' \<Longrightarrow> P (snd (run_message E op st))"
  shows "P (fst (messages_after E (ops @ ops')))"
  using assms(2)
proof (induction ops' rule: rev_induct)
  case (snoc op ops')
  then show ?case by (simp flip: append_assoc add: messages_after_snoc step_fst)
qed (use assms(1) in simp)


text \<open>C15: A fuzzy search after any history: a message is found exactly when its current text is live and
  covers enough of the query's tokens in some script; its score is the share of the query it covers, and
  the results come best first, once each, cut at the limit.  Hidden, erased and overwritten texts are not
  found.\<close>

theorem fuzzy_search_of_messages:
  "let (st, M) = messages_after E ops;
       uc = me_unicode E;
       tokens = generate_tokens uc query;
       covered = (\<lambda>mid. case searchable_text M mid of None \<Rightarrow> {} | Some t \<Rightarrow> set (generate_tokens uc t));
       accepted = {mid. \<exists>s. tokens_of tokens s \<noteq> {} \<and>
          fuzzy_min_overlap s * card (tokens_of tokens s) \<le> card (tokens_of tokens s \<inter> covered mid)}
   in \<exists>ms. search_fuzzy uc query limit (ms_db st) = take limit ms \<and>
        distinct (map fm_message_id ms) \<and> sorted (map (\<lambda>m. (- fm_score m, fm_message_id m)) ms) \<and>
        set ms = (\<lambda>mid. \<lparr>fm_message_id = mid,
           fm_score = card (set tokens \<inter> covered mid) / card (set tokens)\<rparr>) ` accepted"
proof -
  obtain st M where s: "messages_after E ops = (st, M)" by fastforce
  have "index_is (ms_db st) (index_spec (me_unicode E) M)"
    using showsD(3)[OF history_shows[of E ops]] by (simp add: s)
  from search_fuzzy_index[OF this, of "me_unicode E" query limit]
  show ?thesis unfolding s Let_def case_prod_conv index_spec_def .
qed

subsection \<open>What the journals keep\<close>

text \<open>The rows a call appends to the two journals.\<close>

definition journals :: "message_store \<Rightarrow> message_store \<Rightarrow> backup_event list \<Rightarrow> archive_row list \<Rightarrow> bool" where
  "journals st st' evs rows \<longleftrightarrow> db_events (ms_db st') = db_events (ms_db st) @ evs \<and> ms_archive st' = ms_archive st @ rows"

definition archived_as :: "message_env \<Rightarrow> archive_event_type \<Rightarrow> string \<Rightarrow> utext option \<Rightarrow> archive_row \<Rightarrow> bool" where
  "archived_as E ty mid t row \<longleftrightarrow> ar_event_type row = archive_type_str ty \<and> ar_message_id row = Some mid \<and>
     encode_body_payload E t = Inr (ar_payload row)"

lemma journals_trans: "journals st st1 evs rows \<Longrightarrow> journals st1 st2 evs' rows' \<Longrightarrow> journals st st2 (evs @ evs') (rows @ rows')"
  by (simp add: journals_def)

lemma journals_archive: "journals st (write_archive_event E e st) [] [\<lparr>ar_event_seq = ms_archive_seq st + 1,
    ar_event_type = archive_type_str (ae_event_type e), ar_conversation_id = me_show_uuid E (ae_conversation_id e),
    ar_message_id = map_option (me_show_uuid E) (ae_message_id e), ar_payload = ae_payload e,
    ar_created_at_ms = ae_created_at_ms e\<rparr>]"
  by (simp add: journals_def write_archive_event_def Let_def)

lemma insert_text_journals: "insert_text E s t st = Inr st' \<Longrightarrow> journals st st' [] []"
  using insert_text_effect[of E s t st st'] by (simp add: journals_def)

lemma ingest_journals:
  assumes "persist_ingested_message_inner E m r j st = Inr st'"
  shows "\<exists>ev row. journals st st' [ev] [row] \<and> be_event_type ev = ''message_received'' \<and>
    archived_as E AMessageReceived (me_show_uuid E (im_message_id m)) (im_text_content m) row"
proof -
  let ?s = "ingest_skeleton E m r"
  obtain db1 st2 st3 db4 raw where s: "insert_message_skeleton ?s (ms_db st) = Inr db1"
    and a: "foldE (\<lambda>d. on_db (insert_media_asset (asset_of E ?s d))) (im_media_descriptors m) (st\<lparr>ms_db := db1\<rparr>) = Inr st2"
    and t: "(case im_text_content m of None \<Rightarrow> Inr st2 | Some txt \<Rightarrow> insert_text E ?s txt st2) = Inr st3"
    and ev: "insert_backup_event (journal_entry ''message_received'' (sk_conversation_id ?s) (sk_message_id ?s)
        (encode_event_payload (sk_message_id ?s) (sk_conversation_id ?s) (sk_sender_id ?s) (sk_created_at_ms ?s))
        j) (bump_conversation ?s (ms_db st3)) = Inr db4"
    and raw: "encode_body_payload E (im_text_content m) = Inr raw"
    and st': "st' = write_archive_event E \<lparr>ae_event_type = AMessageReceived, ae_conversation_id = im_conversation_id m,
        ae_message_id = Some (im_message_id m), ae_payload = raw, ae_created_at_ms = sk_created_at_ms ?s\<rparr>
        ((with_db (bump_conversation ?s) st3)\<lparr>ms_db := db4\<rparr>)"
    using assms by (auto simp: persist_ingested_message_inner_def Let_def err_simps split: if_splits)
  have "journals st st2 [] []" using insert_skeleton_effect[OF s] insert_media_fold[OF a] by (simp add: journals_def)
  moreover have "journals st2 st3 [] []" using t insert_text_journals by (auto simp: journals_def split: option.splits)
  ultimately have "journals st st3 [] []" by (auto dest: journals_trans)
  then show ?thesis
    using insert_event_effect[OF ev] raw
    by (auto simp: journals_def archived_as_def st' write_archive_event_def Let_def journal_entry_def)
qed

lemma outbox_journals:
  assumes "persist_outbox_entry_inner E e j st = Inr st'"
  shows "\<exists>ev row. journals st st' [ev] [row] \<and> be_event_type ev = ''outbox_pending'' \<and>
    archived_as E AMessageReceived (me_show_uuid E (ob_client_message_id e)) (Some (ob_text_content e)) row"
proof -
  let ?s = "outbox_skeleton E e"
  obtain db1 st3 db4 raw where s: "insert_message_skeleton ?s (ms_db st) = Inr db1"
    and t: "insert_text E ?s (ob_text_content e) (st\<lparr>ms_db := db1\<rparr>) = Inr st3"
    and ev: "insert_backup_event (journal_entry ''outbox_pending'' (sk_conversation_id ?s) (sk_message_id ?s)
        (encode_event_payload (sk_message_id ?s) (sk_conversation_id ?s) ''self'' (ob_created_at_ms e))
        j) (bump_conversation ?s (ms_db st3)) = Inr db4"
    and raw: "encode_body_payload E (Some (ob_text_content e)) = Inr raw"
    and st': "st' = write_archive_event E \<lparr>ae_event_type = AMessageReceived, ae_conversation_id = ob_conversation_id e,
        ae_message_id = Some (ob_client_message_id e), ae_payload = raw, ae_created_at_ms = ob_created_at_ms e\<rparr>
        ((with_db (bump_conversation ?s) st3)\<lparr>ms_db := db4\<rparr>)"
    using assms by (auto simp: persist_outbox_entry_inner_def Let_def err_simps)
  have "journals st st3 [] []" using insert_skeleton_effect[OF s] insert_text_journals[OF t] by (simp add: journals_def)
  then show ?thesis
    using insert_event_effect[OF ev] raw
    by (auto simp: journals_def archived_as_def st' write_archive_event_def Let_def journal_entry_def)
qed

lemma edit_journals:
  assumes "edit_message_inner E s t now st = Inr st'"
  shows "\<exists>ev row. journals st st' [ev] [row] \<and> be_event_type ev = ''message_edited'' \<and> ar_event_type row = ''message_edited'' \<and>
    encode_body_payload E (Some t) = Inr (ar_payload row)"
  using assms
  by (auto simp: edit_message_inner_def Let_def err_simps journals_def write_archive_event_def journal_entry_def
      delete_vector_row_def index_message_rows unindex_message_def insert_fts_row_def delete_fts_row_def
      update_skeleton_edited_def update_message_body_text_def insert_backup_event_def)

lemma media_events_journals:
  assumes "foldE (\<lambda>a. on_db (insert_backup_event (journal_entry ty cid mid (p a) t))) as st = Inr st'"
  shows "\<exists>evs. journals st st' evs [] \<and> map be_event_type evs = replicate (length as) ty"
  using assms
proof (induction as arbitrary: st)
  case (Cons a as)
  then obtain db where i: "insert_backup_event (journal_entry ty cid mid (p a) t) (ms_db st) = Inr db"
    and r: "foldE (\<lambda>a. on_db (insert_backup_event (journal_entry ty cid mid (p a) t))) as (st\<lparr>ms_db := db\<rparr>) = Inr st'"
    by (auto simp: err_simps)
  obtain evs where "journals (st\<lparr>ms_db := db\<rparr>) st' evs []" "map be_event_type evs = replicate (length as) ty"
    using Cons.IH[OF r] by blast
  then show ?case using insert_event_effect[OF i]
    by (intro exI[of _ "(journal_entry ty cid mid (p a) t)\<lparr>be_event_seq := db_event_seq (ms_db st) + 1\<rparr> # evs"])
      (simp add: journals_def journal_entry_def)
qed (simp add: journals_def)

lemma delete_journals:
  assumes "delete_inner_tx E s scope target now st = Inr st'"
  shows "\<exists>evs row. journals st st' evs [row] \<and> ar_event_type row = ''message_deleted'' \<and>
    map be_event_type evs = ''message_deleted'' #
      replicate (length (list_media_assets_by_message (sk_message_id s) (ms_db st))) ''media_deleted''"
proof -
  let ?mid = "sk_message_id s"
  define db1 where "db1 = (unindex_message ?mid \<circ> delete_vector_row ?mid \<circ> delete_fts_row ?mid \<circ>
      update_skeleton_deleted ?mid now target) (ms_db st)"
  define db2 where "db2 = (if scope = ForEveryone then delete_message_body ?mid db1 else db1)"
  obtain db3 st4 cid m where ev: "insert_backup_event (journal_entry ''message_deleted'' (sk_conversation_id s) ?mid
        (encode_delete_event_payload ?mid (scope_label scope)) now) db2 = Inr db3"
    and evs: "foldE (\<lambda>a. on_db (insert_backup_event (journal_entry ''media_deleted'' (sk_conversation_id s) ?mid
        (encode_media_delete_event_payload (ma_asset_id a) ?mid) now)))
        (list_media_assets_by_message ?mid db3) (st\<lparr>ms_db := db3\<rparr>) = Inr st4"
    and st': "st' = write_archive_event E \<lparr>ae_event_type = AMessageDeleted, ae_conversation_id = cid,
        ae_message_id = Some m, ae_payload = encode_delete_event_payload ?mid (scope_label scope), ae_created_at_ms = now\<rparr> st4"
    using assms by (cases scope) (auto simp: delete_inner_tx_def Let_def err_simps db1_def db2_def with_db_def)
  note defs = db1_def db2_def delete_vector_row_def unindex_message_def delete_fts_row_def update_skeleton_deleted_def
    delete_message_body_def
  obtain es where es: "journals (st\<lparr>ms_db := db3\<rparr>) st4 es []"
      "map be_event_type es = replicate (length (list_media_assets_by_message ?mid db3)) ''media_deleted''"
    using media_events_journals[OF evs] by blast
  have "db_events db2 = db_events (ms_db st)" "db_media db2 = db_media (ms_db st)" by (simp_all add: defs)
  then have db3: "db_events db3 = db_events (ms_db st) @ [(journal_entry ''message_deleted'' (sk_conversation_id s) ?mid
        (encode_delete_event_payload ?mid (scope_label scope)) now)\<lparr>be_event_seq := db_event_seq db2 + 1\<rparr>]"
      "list_media_assets_by_message ?mid db3 = list_media_assets_by_message ?mid (ms_db st)"
    using insert_event_effect[OF ev] by (simp_all add: list_media_assets_by_message_def)
  show ?thesis
    using es db3 unfolding st'
    by (intro exI[of _ "(journal_entry ''message_deleted'' (sk_conversation_id s) ?mid
        (encode_delete_event_payload ?mid (scope_label scope)) now)\<lparr>be_event_seq := db_event_seq db2 + 1\<rparr> # es"])
      (auto simp: journals_def write_archive_event_def Let_def journal_entry_def)
qed

definition op_assets :: "message_op \<Rightarrow> local_db \<Rightarrow> nat" where
  "op_assets op db = (case op of HideForMe mid now \<Rightarrow> length (list_media_assets_by_message mid db)
    | EraseForEveryone mid now \<Rightarrow> length (list_media_assets_by_message mid db) | _ \<Rightarrow> 0)"

definition op_backup_types :: "message_op \<Rightarrow> local_db \<Rightarrow> string list" where
  "op_backup_types op db = (case op of
      AddConversation c \<Rightarrow> []
    | Ingest m r j \<Rightarrow> [''message_received'']
    | Send e j \<Rightarrow> [''outbox_pending'']
    | ConfirmSent mid now \<Rightarrow> [''outbox_sent'']
    | EditText mid t now \<Rightarrow> [''message_edited'']
    | HideForMe mid now \<Rightarrow> ''message_deleted'' # replicate (op_assets op db) ''media_deleted''
    | EraseForEveryone mid now \<Rightarrow> ''message_deleted'' # replicate (op_assets op db) ''media_deleted'')"

definition op_archive_types :: "message_op \<Rightarrow> string list" where
  "op_archive_types op = (case op of
      AddConversation c \<Rightarrow> []
    | Ingest m r j \<Rightarrow> [''message_received'']
    | Send e j \<Rightarrow> [''message_received'']
    | ConfirmSent mid now \<Rightarrow> []
    | EditText mid t now \<Rightarrow> [''message_edited'']
    | HideForMe mid now \<Rightarrow> [''message_deleted'']
    | EraseForEveryone mid now \<Rightarrow> [''message_deleted''])"

lemma embed_journals: "journals st (maybe_embed_text_message E m st) [] []"
  by (simp add: journals_def maybe_embed_text_message_def cache_put_def Let_def split: option.splits)

lemma skeleton_id: "get_message_skeleton mid db = Some s \<Longrightarrow> sk_message_id s = mid"
  using select_one_SomeD unfolding get_message_skeleton_def by metis

lemma delete_run_journals:
  assumes "delete_inner E mid scope now st = (Inr u, st')"
  shows "\<exists>evs row. journals st st' evs [row] \<and> ar_event_type row = ''message_deleted'' \<and>
    map be_event_type evs = ''message_deleted'' # replicate (length (list_media_assets_by_message mid (ms_db st))) ''media_deleted''"
proof -
  obtain s target where s: "get_message_skeleton mid (ms_db st) = Some s"
    and inner: "delete_inner_tx E s scope target now st = Inr st'"
    using assms by (auto simp: delete_inner_def in_savepoint_Inr Let_def split: sum.splits option.splits)
  show ?thesis using delete_journals[OF inner] unfolding skeleton_id[OF s] .
qed

lemma ingest_run_journals:
  assumes "run_message E (Ingest m r j) st = (Inr u, st')"
  shows "\<exists>ev row. journals st st' [ev] [row] \<and> be_event_type ev = ''message_received'' \<and>
    archived_as E AMessageReceived (me_show_uuid E (im_message_id m)) (im_text_content m) row"
proof -
  obtain st1 where inner: "persist_ingested_message_inner E m r j st = Inr st1" and st': "st' = maybe_embed_text_message E m st1"
    using assms by (auto simp: persist_ingested_message_def in_savepoint_Inr split: sum.splits if_splits prod.splits)
  show ?thesis using ingest_journals[OF inner] embed_journals[of st1 E m] unfolding st' by (auto simp: journals_def)
qed

lemma journal_types:
  assumes run: "run_message E op st = (Inr u, st')"
  shows "\<exists>evs rows. journals st st' evs rows \<and> map be_event_type evs = op_backup_types op (ms_db st) \<and>
    map ar_event_type rows = op_archive_types op"
proof (cases op)
  case (AddConversation c)
  then have "journals st st' [] []"
    using run by (auto simp: just_db_def err_simps journals_def insert_conversation_def split: sum.splits if_splits)
  then show ?thesis using AddConversation by (auto simp: op_backup_types_def op_archive_types_def)
next
  case (Ingest m r j)
  then obtain ev row where "journals st st' [ev] [row]" "be_event_type ev = ''message_received''" "ar_event_type row = ''message_received''"
    using ingest_run_journals run by (fastforce simp: archived_as_def)
  then show ?thesis using Ingest
    by (intro exI[of _ "[ev]"] exI[of _ "[row]"]) (simp add: op_backup_types_def op_archive_types_def)
next
  case (Send e j)
  then have "persist_outbox_entry_inner E e j st = Inr st'"
    using run by (auto simp: persist_outbox_entry_def in_savepoint_Inr split: if_splits prod.splits sum.splits)
  then obtain ev row where "journals st st' [ev] [row]" "be_event_type ev = ''outbox_pending''" "ar_event_type row = ''message_received''"
    using outbox_journals by (fastforce simp: archived_as_def)
  then show ?thesis using Send
    by (intro exI[of _ "[ev]"] exI[of _ "[row]"]) (simp add: op_backup_types_def op_archive_types_def)
next
  case (ConfirmSent mid now)
  then obtain s :: message_skeleton and p db where "insert_backup_event (journal_entry ''outbox_sent'' (sk_conversation_id s) mid p now) (ms_db st) = Inr db"
    and st': "st' = st\<lparr>ms_db := db\<rparr>"
    using run by (auto simp: mark_sent_def err_simps split: option.splits sum.splits)
  note ev = insert_event_effect[OF this(1)]
  show ?thesis using ConfirmSent
    by (intro exI[of _ "[(journal_entry ''outbox_sent'' (sk_conversation_id s) mid p now)\<lparr>be_event_seq := db_event_seq (ms_db st) + 1\<rparr>]"]
        exI[of _ "[]"]) (simp add: op_backup_types_def op_archive_types_def journals_def st' ev journal_entry_def)
next
  case (EditText mid t now)
  then obtain s where "edit_message_inner E s t now st = Inr st'"
    using run by (auto simp: edit_message_def in_savepoint_Inr split: if_splits option.splits)
  from edit_journals[OF this] obtain ev row where "journals st st' [ev] [row]" "be_event_type ev = ''message_edited''"
      "ar_event_type row = ''message_edited''"
    by blast
  then show ?thesis using EditText
    by (intro exI[of _ "[ev]"] exI[of _ "[row]"]) (simp add: op_backup_types_def op_archive_types_def)
next
  case (HideForMe mid now)
  then obtain evs row where "journals st st' evs [row]" "ar_event_type row = ''message_deleted''"
      "map be_event_type evs = ''message_deleted'' # replicate (length (list_media_assets_by_message mid (ms_db st))) ''media_deleted''"
    using delete_run_journals run by (fastforce simp: delete_for_me_def)
  then show ?thesis using HideForMe
    by (intro exI[of _ evs] exI[of _ "[row]"]) (simp add: op_backup_types_def op_archive_types_def op_assets_def)
next
  case (EraseForEveryone mid now)
  then obtain evs row where "journals st st' evs [row]" "ar_event_type row = ''message_deleted''"
      "map be_event_type evs = ''message_deleted'' # replicate (length (list_media_assets_by_message mid (ms_db st))) ''media_deleted''"
    using delete_run_journals run by (fastforce simp: delete_for_everyone_def)
  then show ?thesis using EraseForEveryone
    by (intro exI[of _ evs] exI[of _ "[row]"]) (simp add: op_backup_types_def op_archive_types_def op_assets_def)
qed

lemma archive_grows: "\<exists>rows. ms_archive (snd (run_message E op st)) = ms_archive st @ rows"
proof (cases "run_message E op st")
  case (Pair r st')
  then show ?thesis
  proof (cases r)
    case (Inl e)
    then show ?thesis using Pair failed_message_keeps by fastforce
  next
    case (Inr u)
    then show ?thesis using Pair journal_types[of E op st u st'] by (auto simp: journals_def)
  qed
qed

text \<open>What each successful call leaves in the two journals.  An erased message gets one tombstone for
  itself and one for each of its assets in the backup journal; a sent message gets an archive event like a
  received one, but no backup event of a type the backup knows.\<close>

theorem journals_of_operation:
  "case run_message E op st of
     (Inl e, st') \<Rightarrow> st' = st
   | (Inr u, st') \<Rightarrow>
       map be_event_type (db_events (ms_db st')) = map be_event_type (db_events (ms_db st)) @ op_backup_types op (ms_db st) \<and>
       map ar_event_type (ms_archive st') = map ar_event_type (ms_archive st) @ op_archive_types op"
proof (cases "run_message E op st")
  case (Pair r st')
  then show ?thesis
    using failed_message_keeps[of E op st] journal_types[of E op st _ st']
    by (cases r) (auto simp: journals_def)
qed

subsection \<open>Delivering a batch twice\<close>

lemma skeleton_exists_iff: "skeleton_exists mid st \<longleftrightarrow> mid \<in> sk_message_id ` set (db_skeletons (ms_db st))"
  by (auto simp: skeleton_exists_def row_count_def filter_empty_conv image_iff)

lemma embed_skeletons [simp]: "db_skeletons (ms_db (maybe_embed_text_message E m st)) = db_skeletons (ms_db st)"
  by (simp add: maybe_embed_text_message_def cache_put_def Let_def split: option.splits)

lemma persist_skeletons:
  assumes "persist_ingested_message E m r j st = (Inr u, st')"
  shows "validate_ingest m = Inr () \<and> db_skeletons (ms_db st') = db_skeletons (ms_db st) @ [ingest_skeleton E m r]"
proof -
  have "persist_ingested_message_inner E m r j st = Inr st'" "validate_ingest m = Inr ()"
    using assms by (auto simp: persist_ingested_message_def in_savepoint_Inr split: sum.splits if_splits)
  then show ?thesis using ingest_adds[of E m r j st st'] by (simp add: adds_message_def)
qed

lemma on_db_not_duplicate [simp]: "on_db f st \<noteq> Inl DuplicateMessage"
  by (cases "f (ms_db st)") (simp_all add: on_db_def)

lemma foldE_not_duplicate:
  "(\<And>x st. f x st \<noteq> Inl DuplicateMessage) \<Longrightarrow> foldE f xs st \<noteq> Inl DuplicateMessage"
  by (induction xs arbitrary: st) (auto simp: bindE_Inl_iff)

lemma inner_not_duplicate: "persist_ingested_message_inner E m r j st \<noteq> Inl DuplicateMessage"
proof -
  have "map_sum StoreFailure id x \<noteq> Inl DuplicateMessage" for x :: "core_error + bytes" by (cases x) simp_all
  then show ?thesis
    by (auto simp: persist_ingested_message_inner_def Let_def bindE_Inl_iff foldE_not_duplicate insert_text_def
        split: option.splits)
qed

lemma persist_duplicate:
  assumes "persist_ingested_message E m r j st = (Inl DuplicateMessage, st')"
  shows "st' = st \<and> validate_ingest m = Inr () \<and> skeleton_exists (me_show_uuid E (im_message_id m)) st"
proof -
  have "in_savepoint (persist_ingested_message_inner E m r j) st \<noteq> (Inl DuplicateMessage, st')"
    by (auto simp: in_savepoint_def savepoint_Inl bindE_Inl_iff inner_not_duplicate)
  moreover have "validate_ingest m \<noteq> Inl DuplicateMessage" by (simp add: validate_ingest_def)
  ultimately show ?thesis
    using assms by (auto simp: persist_ingested_message_def split: sum.splits if_splits)
qed

lemma replay_known:
  assumes "\<And>m r j. (m, r, j) \<in> set ms \<Longrightarrow> validate_ingest m = Inr () \<and> skeleton_exists (me_show_uuid E (im_message_id m)) st"
  shows "ingest_loop E ms res st = (Inr (res\<lparr>ir_duplicate_count := ir_duplicate_count res + length ms\<rparr>), st)"
  using assms
proof (induction ms arbitrary: res)
  case (Cons x ms)
  obtain m r j where x: "x = (m, r, j)" by (cases x)
  have "persist_ingested_message E m r j st = (Inl DuplicateMessage, st)"
    using Cons.prems[of m r j] by (simp add: x persist_ingested_message_def)
  moreover have "ingest_loop E ms res st = (Inr (res\<lparr>ir_duplicate_count := ir_duplicate_count res + length ms\<rparr>), st)" for res
  proof (rule Cons.IH)
    fix m r j assume "(m, r, j) \<in> set ms"
    then show "validate_ingest m = Inr () \<and> skeleton_exists (me_show_uuid E (im_message_id m)) st"
      using Cons.prems[of m r j] by simp
  qed
  ultimately show ?case by (simp add: x)
qed simp

lemma loop_delivers:
  assumes "ingest_loop E ms res st = (Inr res', st')"
  shows "set (db_skeletons (ms_db st)) \<subseteq> set (db_skeletons (ms_db st')) \<and>
    (\<forall>(m, r, j) \<in> set ms. validate_ingest m = Inr () \<and> skeleton_exists (me_show_uuid E (im_message_id m)) st')"
  using assms
proof (induction ms arbitrary: res st)
  case (Cons x ms)
  obtain m r j where x: "x = (m, r, j)" by (cases x)
  let ?id = "me_show_uuid E (im_message_id m)"
  obtain res1 st1 where rest: "ingest_loop E ms res1 st1 = (Inr res', st')"
    and m: "validate_ingest m = Inr ()" "skeleton_exists ?id st1"
      "set (db_skeletons (ms_db st)) \<subseteq> set (db_skeletons (ms_db st1))"
  proof (cases "persist_ingested_message E m r j st")
    case (Pair r1 st1)
    show ?thesis
    proof (cases r1)
      case (Inl e)
      then have "e = DuplicateMessage" using Cons.prems Pair by (simp add: x split: if_splits)
      then show ?thesis
        using persist_duplicate[of E m r j st st1] Cons.prems Pair Inl by (intro that[of _ st]) (auto simp: x)
    next
      case (Inr u)
      then have new: "validate_ingest m = Inr ()"
          "db_skeletons (ms_db st1) = db_skeletons (ms_db st) @ [ingest_skeleton E m r]"
        using persist_skeletons[of E m r j st u st1] Pair by simp_all
      show ?thesis
        using new Cons.prems Pair Inr
        by (intro that[of _ "maybe_embed_text_message E m st1"])
          (auto simp: x skeleton_exists_iff ingest_skeleton_def)
    qed
  qed
  show ?case using Cons.IH[OF rest] m by (auto simp: x skeleton_exists_iff)
qed simp

text \<open>A batch that was ingested completely can be delivered again, for instance after a lost
  acknowledgement: every message counts as a duplicate and the store, journals and embeddings included,
  stays as it is.\<close>

theorem ingest_replay:
  assumes "ingest_messages E ms st = (Inr res, st')"
  shows "ingest_messages E ms st' = (Inr (no_ingest\<lparr>ir_duplicate_count := length ms\<rparr>), st')"
proof -
  have "validate_ingest m = Inr () \<and> skeleton_exists (me_show_uuid E (im_message_id m)) st'" if "(m, r, j) \<in> set ms" for m r j
    using loop_delivers[of E ms no_ingest st res st'] assms that by (auto simp: ingest_messages_def)
  from replay_known[OF this] show ?thesis by (simp add: ingest_messages_def no_ingest_def)
qed

subsection \<open>Where the code falls short of its comments\<close>

lemma op_archive_survives:
  assumes "row \<in> set (ms_archive (fst (messages_after E ops)))"
  shows "row \<in> set (ms_archive (fst (messages_after E (ops @ ops'))))"
proof (rule history_induct[where P = "\<lambda>st. row \<in> set (ms_archive st)", OF assms])
  fix op and st :: message_store assume "row \<in> set (ms_archive st)"
  then show "row \<in> set (ms_archive (snd (run_message E op st)))" using archive_grows[of E op st] by auto
qed

lemma messages_after_Inr:
  "run_message E op (fst (messages_after E ops)) = (Inr u, st') \<Longrightarrow> fst (messages_after E (ops @ [op])) = st'"
  by (simp add: messages_after_snoc step_fst)

text \<open>Erasing a message for everyone takes its text out of the bodies, of both search indexes and of the
  embeddings, but not out of the archive journal, from whose rows the segments of the archive are built:
  the text can still be decoded there, whatever happened between the two calls.\<close>

theorem erased_text_stays_in_archive:
  assumes E: "env_sound E" and t: "im_text_content m = Some t" and mid: "mid = me_show_uuid E (im_message_id m)"
    and ingest: "run_message E (Ingest m r j) (fst (messages_after E ops)) = (Inr (), st1)"
    and erase: "run_message E (EraseForEveryone mid now) (fst (messages_after E (ops @ Ingest m r j # ops'))) = (Inr (), st2)"
  shows "get_message_body mid (ms_db st2) = None \<and> mid \<notin> ft_message_id ` set (db_fts (ms_db st2)) \<and>
    mid \<notin> fz_message_id ` set (db_fuzzy (ms_db st2)) \<and> mid \<notin> vr_message_id ` set (db_vectors (ms_db st2)) \<and>
    (\<exists>row \<in> set (ms_archive st2). ar_message_id row = Some mid \<and> try_decode_text E (ar_payload row) = Some t)"
proof -
  obtain st M where s: "messages_after E (ops @ Ingest m r j # ops') = (st, M)" by fastforce
  have sh: "shows_messages (me_unicode E) (ms_db st) M" using history_shows[of E "ops @ Ingest m r j # ops'"] by (simp add: s)
  note sh2 = message_simulates[OF sh erase[unfolded s fst_conv]]
  let ?M = "spec_message E (EraseForEveryone mid now) M"
  have gone: "searchable_text ?M mid = None" "\<And>v. ?M mid = Some v \<Longrightarrow> mv_body v = None"
    by (auto simp: searchable_text_def delete_view_def split: option.splits)
  have "get_message_body mid (ms_db st2) = None"
    using showsD(4)[OF sh2] gone(2) by (fastforce simp: get_message_body_def select_one_None_iff)
  moreover have "mid \<notin> ft_message_id ` set (db_fts (ms_db st2))" using showsD(5)[OF sh2] gone(1) by auto
  moreover have "mid \<notin> fz_message_id ` set (db_fuzzy (ms_db st2))"
    using showsD(3)[OF sh2] gone(1) by (auto simp: index_is_def index_spec_def split: option.splits)
  moreover have "mid \<notin> vr_message_id ` set (db_vectors (ms_db st2))" using showsD(6)[OF sh2] gone(1) by (metis imageE)
  moreover obtain ev row where jr: "journals (fst (messages_after E ops)) st1 [ev] [row]"
    and row: "archived_as E AMessageReceived mid (Some t) row"
    using ingest_run_journals[OF ingest] t mid by auto
  moreover have "t \<noteq> []"
    using ingest t by (auto simp: persist_ingested_message_def validate_ingest_def split: if_splits prod.splits)
  moreover have "row \<in> set (ms_archive st2)"
  proof -
    have "row \<in> set (ms_archive (fst (messages_after E (ops @ [Ingest m r j]))))"
      using jr messages_after_Inr[OF ingest] by (simp add: journals_def)
    from op_archive_survives[OF this, of "ops' @ [EraseForEveryone mid now]"]
    show ?thesis using messages_after_Inr[OF erase] by simp
  qed
  ultimately show ?thesis
    using body_payload_roundtrip[OF E, of t "ar_payload row"] by (auto simp: archived_as_def)
qed

text \<open>Editing a message that came without text, a caption for its media: the call succeeds and the
  new text is found by search, but no body row is written, so no timeline shows it.\<close>

theorem edit_without_body_not_stored:
  assumes nobody: "get_message_body mid (ms_db (fst (messages_after E ops))) = None"
    and edit: "run_message E (EditText mid t now) (fst (messages_after E ops)) = (Inr (), st')"
  shows "get_message_body mid (ms_db st') = None \<and>
    (\<exists>f \<in> set (db_fts (ms_db st')). ft_message_id f = mid \<and> ft_text f = t) \<and>
    (\<exists>s. get_message_skeleton mid (ms_db st') = Some s \<and> sk_body_state s = LocalPlainAvailable \<and>
       tl_text (to_timeline_row (ms_db st') s) = None)"
proof -
  obtain st M where s: "messages_after E ops = (st, M)" by fastforce
  have sh: "shows_messages (me_unicode E) (ms_db st) M" using history_shows[of E ops] by (simp add: s)
  note edit = edit[unfolded s fst_conv]
  note sh2 = message_simulates[OF sh edit]
  obtain sk where sk: "get_message_skeleton mid (ms_db st) = Some sk" "sk_body_state sk = LocalPlainAvailable"
    using edit by (auto simp: edit_message_def split: if_splits option.splits)
  obtain v where v: "M mid = Some v" "mv_state v = LocalPlainAvailable" using shows_SomeD[OF sh sk(1)] sk(2) by metis
  have none: "mv_body v = None"
  proof (rule ccontr)
    assume "mv_body v \<noteq> None"
    then obtain x where "mv_body v = Some x" by blast
    then have "body_row mid x \<in> set (db_bodies (ms_db st))" using showsD(4)[OF sh] v by auto
    then have "mid \<in> bd_message_id ` set (db_bodies (ms_db st))" by (metis body_row_simps(1) imageI)
    then show False using nobody by (simp add: s get_message_body_def select_one_None_iff)
  qed
  let ?v = "v\<lparr>mv_text := Some t, mv_body := map_option (\<lambda>_. t) (mv_body v)\<rparr>"
  have M2: "spec_message E (EditText mid t now) M = M(mid \<mapsto> ?v)" using v by simp
  note sh2 = sh2[unfolded M2]
  have gone: "get_message_body mid (ms_db st') = None"
    using showsD(4)[OF sh2] none by (auto simp: get_message_body_def select_one_None_iff split: if_splits)
  moreover have "fts_view mid ?v t \<in> set (db_fts (ms_db st'))" unfolding showsD(5)[OF sh2] using v by auto
  moreover obtain s' where "get_message_skeleton mid (ms_db st') = Some s'" "sk_body_state s' = LocalPlainAvailable"
    using shows_skeleton[OF sh2, of mid] v by auto
  ultimately show ?thesis using skeleton_id[of mid "ms_db st'"] by (force simp: to_timeline_row_def)
qed

text \<open>Skeletons stay, and only ingesting a new message adds an embedding.\<close>

definition message_ids :: "message_store \<Rightarrow> string set" where
  "message_ids st = sk_message_id ` set (db_skeletons (ms_db st))"

definition embedded_ids :: "message_store \<Rightarrow> string set" where
  "embedded_ids st = vr_message_id ` set (db_vectors (ms_db st))"

definition keeps_ids :: "message_store \<Rightarrow> message_store \<Rightarrow> bool" where
  "keeps_ids st st' \<longleftrightarrow> message_ids st \<subseteq> message_ids st' \<and> embedded_ids st' \<inter> message_ids st \<subseteq> embedded_ids st"

lemma update_where_keys: "(\<And>r. key (f r) = key r) \<Longrightarrow> key ` set (update_where P f rows) = key ` set rows"
  by (simp add: map_update_where flip: set_map)

lemmas ids_defs = keeps_ids_def message_ids_def embedded_ids_def

lemma adds_keeps_ids: "adds_message uc s t (ms_db st) (ms_db st') \<Longrightarrow> keeps_ids st st'"
  by (auto simp: adds_message_def ids_defs)

lemma embed_ids: "embedded_ids (maybe_embed_text_message E m st) \<subseteq> insert (me_show_uuid E (im_message_id m)) (embedded_ids st)"
  by (auto simp: maybe_embed_text_message_def cache_put_def Let_def embedded_ids_def set_update_where split: option.splits if_splits)

lemma ingest_keeps_ids:
  assumes "persist_ingested_message_inner E m r j st = Inr st1"
  shows "keeps_ids st (maybe_embed_text_message E m st1)"
proof -
  have add: "adds_message (me_unicode E) (ingest_skeleton E m r) (im_text_content m) (ms_db st) (ms_db st1)"
    using assms by (rule ingest_adds)
  then have "me_show_uuid E (im_message_id m) \<notin> message_ids st"
    by (simp add: adds_message_def message_ids_def ingest_skeleton_def)
  moreover have "message_ids (maybe_embed_text_message E m st1) = message_ids st1" by (simp add: message_ids_def)
  ultimately show ?thesis using adds_keeps_ids[OF add] embed_ids[of E m st1] unfolding keeps_ids_def by blast
qed

lemma edit_ids:
  assumes "edit_message_inner E s t now st = Inr st'"
  shows "keeps_ids st st' \<and> sk_message_id s \<notin> embedded_ids st'"
proof -
  obtain db where "insert_backup_event (journal_entry ''message_edited'' (sk_conversation_id s) (sk_message_id s)
        (encode_edit_event_payload (sk_message_id s) now) now)
      ((delete_vector_row (sk_message_id s) \<circ> index_message (me_unicode E) (sk_message_id s) t \<circ> unindex_message (sk_message_id s) \<circ>
        insert_fts_row (sk_message_id s) (sk_conversation_id s) (sk_sender_id s) (sk_created_at_ms s) t \<circ>
        delete_fts_row (sk_message_id s) \<circ> update_skeleton_edited (sk_message_id s) now \<circ>
        update_message_body_text (sk_message_id s) t) (ms_db st)) = Inr db" and st': "ms_db st' = db"
    using assms by (auto simp: edit_message_inner_def Let_def err_simps)
  note ev = insert_event_effect[OF this(1)]
  show ?thesis
    by (auto simp: ids_defs st' ev delete_vector_row_def index_message_rows unindex_message_def insert_fts_row_def
        delete_fts_row_def update_skeleton_edited_def update_message_body_text_def update_where_keys)
qed

lemma event_fold_ids:
  assumes "foldE (\<lambda>a. on_db (insert_backup_event (journal_entry ty cid mid (p a) t))) as st = Inr st'"
  shows "db_skeletons (ms_db st') = db_skeletons (ms_db st) \<and> db_vectors (ms_db st') = db_vectors (ms_db st)"
proof (rule foldE_invariant[OF assms, where P = "\<lambda>x. db_skeletons (ms_db x) = db_skeletons (ms_db st) \<and> db_vectors (ms_db x) = db_vectors (ms_db st)"])
  fix a and x x' :: message_store
  assume "db_skeletons (ms_db x) = db_skeletons (ms_db st) \<and> db_vectors (ms_db x) = db_vectors (ms_db st)"
    and "on_db (insert_backup_event (journal_entry ty cid mid (p a) t)) x = Inr x'"
  then show "db_skeletons (ms_db x') = db_skeletons (ms_db st) \<and> db_vectors (ms_db x') = db_vectors (ms_db st)"
    by (auto simp: err_simps dest: insert_event_effect)
qed simp

lemma delete_keeps_ids:
  assumes "delete_inner_tx E s scope target now st = Inr st'"
  shows "keeps_ids st st'"
proof -
  let ?mid = "sk_message_id s"
  define db1 where "db1 = (unindex_message ?mid \<circ> delete_vector_row ?mid \<circ> delete_fts_row ?mid \<circ>
      update_skeleton_deleted ?mid now target) (ms_db st)"
  define db2 where "db2 = (if scope = ForEveryone then delete_message_body ?mid db1 else db1)"
  obtain db3 st4 where ev: "insert_backup_event (journal_entry ''message_deleted'' (sk_conversation_id s) ?mid
        (encode_delete_event_payload ?mid (scope_label scope)) now) db2 = Inr db3"
    and evs: "foldE (\<lambda>a. on_db (insert_backup_event (journal_entry ''media_deleted'' (sk_conversation_id s) ?mid
        (encode_media_delete_event_payload (ma_asset_id a) ?mid) now)))
        (list_media_assets_by_message ?mid db3) (st\<lparr>ms_db := db3\<rparr>) = Inr st4"
    and st': "ms_db st' = ms_db st4"
    using assms by (cases scope) (auto simp: delete_inner_tx_def Let_def err_simps db1_def db2_def with_db_def)
  have "db_skeletons db2 = update_where (\<lambda>s. sk_message_id s = ?mid)
      (\<lambda>s. s\<lparr>sk_body_state := target, sk_deleted_at_ms := Some now\<rparr>) (db_skeletons (ms_db st))"
    "set (db_vectors db2) \<subseteq> set (db_vectors (ms_db st))"
    by (auto simp: db1_def db2_def delete_vector_row_def unindex_message_def delete_fts_row_def update_skeleton_deleted_def
        delete_message_body_def)
  then show ?thesis using event_fold_ids[OF evs] insert_event_effect[OF ev]
    by (auto simp: ids_defs st' update_where_keys)
qed

lemma op_keeps_ids:
  assumes "run_message E op st = (Inr u, st')"
  shows "keeps_ids st st'"
  using assms
proof (cases op)
  case (AddConversation c)
  then show ?thesis
    using assms by (auto simp: just_db_def err_simps insert_conversation_def ids_defs split: sum.splits if_splits)
next
  case (Ingest m r j)
  then show ?thesis
    using assms ingest_keeps_ids
    by (fastforce simp: persist_ingested_message_def in_savepoint_Inr split: sum.splits if_splits prod.splits)
next
  case (Send e j)
  then show ?thesis
    using assms adds_keeps_ids outbox_adds
    by (fastforce simp: persist_outbox_entry_def in_savepoint_Inr split: if_splits prod.splits sum.splits)
next
  case (ConfirmSent mid now)
  then show ?thesis
    using assms by (auto simp: mark_sent_def err_simps ids_defs dest!: insert_event_effect split: option.splits sum.splits)
next
  case (EditText mid t now)
  then show ?thesis
    using assms edit_ids by (fastforce simp: edit_message_def in_savepoint_Inr split: if_splits option.splits)
qed (use assms delete_keeps_ids in \<open>fastforce simp: delete_for_me_def delete_for_everyone_def delete_inner_def
    in_savepoint_Inr Let_def split: sum.splits option.splits\<close>)+

text \<open>An edit drops the message's embedding, and no later call writes one: the ingest that would is
  refused as a duplicate.  The message stays out of semantic search.\<close>

theorem edited_message_never_embedded:
  assumes edit: "run_message E (EditText mid t now) (fst (messages_after E ops)) = (Inr (), st')"
  shows "mid \<notin> vr_message_id ` set (db_vectors (ms_db (fst (messages_after E (ops @ EditText mid t now # ops')))))"
proof -
  let ?P = "\<lambda>st. mid \<in> message_ids st \<and> mid \<notin> embedded_ids st"
  obtain s where s: "get_message_skeleton mid (ms_db (fst (messages_after E ops))) = Some s"
    and inner: "edit_message_inner E s t now (fst (messages_after E ops)) = Inr st'"
    using edit by (auto simp: edit_message_def in_savepoint_Inr split: if_splits option.splits)
  have "mid \<in> message_ids (fst (messages_after E ops))"
    using s select_one_SomeD by (fastforce simp: get_message_skeleton_def message_ids_def)
  then have "?P st'" using edit_ids[OF inner] skeleton_id[OF s] by (auto simp: keeps_ids_def)
  then have start: "?P (fst (messages_after E (ops @ [EditText mid t now])))" using messages_after_Inr[OF edit] by simp
  have "?P (snd (run_message E op st))" if "?P st" for op and st :: message_store
  proof (cases "run_message E op st")
    case (Pair r st2)
    then show ?thesis using that op_keeps_ids[of E op st _ st2] failed_message_keeps[of E op st _ st2]
      by (cases r) (auto simp: keeps_ids_def)
  qed
  from history_induct[of ?P E "ops @ [EditText mid t now]" ops', OF start this]
  show ?thesis by (simp add: embedded_ids_def)
qed

end
