(* ===== verification/Rehydration.thy ===== *)
theory Rehydration
  imports Archive_Facts Message_Histories
begin

text \<open>
  The methods of \<open>core_impl.rs\<close> that bring the archive back into the local store: the body of one message, the
  cold results of a search, the skeletons of a bucket, and the compaction of a bucket.  The keys of the
  segments are the caller's function; a search result is cut down to the four fields read here.  The
  rows of the segment map come in table order.
\<close>

subsection \<open>One body\<close>

definition rehydrate_message_body_locally ::
  "message_env \<Rightarrow> uuid \<Rightarrow> utext \<Rightarrow> body_state \<Rightarrow> message_store \<Rightarrow> (core_error + unit) \<times> message_store" where
  "rehydrate_message_body_locally E mid text_content new_body_state ms =
     savepoint (\<lambda>ms. case rehydrate_message_body (me_show_uuid E mid) text_content new_body_state (ms_db ms) of
         (Inl e, _) \<Rightarrow> Inl (StorageFailure ''rehydrate_message_body'')
       | (Inr _, db) \<Rightarrow> Inr (ms\<lparr>ms_db := index_message (me_unicode E) (me_show_uuid E mid) text_content
           (unindex_message (me_show_uuid E mid) db)\<rparr>, ())) ms"

subsection \<open>Cold results\<close>

record cold_hit =
  ch_message_id :: uuid
  ch_conversation_id :: uuid
  ch_created_at_ms :: int
  ch_is_cold :: bool

definition group_cold_results :: "cold_hit list \<Rightarrow> ((uuid \<times> string) \<times> uuid set) list" where
  "group_cold_results results =
     fold (\<lambda>r buckets. let key = (ch_conversation_id r, default_time_bucket_for_ms (ch_created_at_ms r));
                           ids = (case map_of buckets key of None \<Rightarrow> {} | Some ids \<Rightarrow> ids)
                       in btree_insert key (insert (ch_message_id r) ids) buckets)
       (filter ch_is_cold results) []"

text \<open>The guards of the loop over events: what is left is a wanted message and its text.\<close>

definition event_body :: "message_env \<Rightarrow> uuid \<Rightarrow> uuid set \<Rightarrow> archive_event \<Rightarrow> (uuid \<times> utext) option" where
  "event_body E conv_id wanted_ids e = (case ae_message_id e of
      None \<Rightarrow> None
    | Some mid \<Rightarrow>
        if ae_conversation_id e \<noteq> conv_id \<or> mid \<notin> wanted_ids then None
        else if ae_event_type e \<noteq> AMessageReceived \<and> ae_event_type e \<noteq> AMessageEdited then None
        else map_option (Pair mid) (try_decode_text E (ae_payload e)))"

fun hydrate_events ::
  "message_env \<Rightarrow> uuid \<Rightarrow> uuid set \<Rightarrow> archive_event list \<Rightarrow> nat \<Rightarrow> message_store \<Rightarrow> (core_error + nat) \<times> message_store" where
  "hydrate_events E conv_id wanted_ids [] hydrated ms = (Inr hydrated, ms)"
| "hydrate_events E conv_id wanted_ids (e # es) hydrated ms = (case event_body E conv_id wanted_ids e of
      None \<Rightarrow> hydrate_events E conv_id wanted_ids es hydrated ms
    | Some (mid, txt) \<Rightarrow> (case rehydrate_message_body_locally E mid txt LocalPlainAvailable ms of
          (Inl err, ms) \<Rightarrow> (Inl err, ms)
        | (Inr _, ms) \<Rightarrow> hydrate_events E conv_id wanted_ids es (hydrated + 1) ms))"

definition open_prefetched ::
  "archive_library \<Rightarrow> (string \<Rightarrow> core_error + bytes) \<Rightarrow> prefetched_segment \<Rightarrow> core_error + archive_segment_payload" where
  "open_prefetched A key_for_segment seg =
     bindE (key_for_segment (pf_segment_id seg)) (\<lambda>k.
     bindE (decrypt_archive_segment A (pf_ciphertext seg) k) (\<lambda>plaintext.
     decode_archive_segment_payload A plaintext))"

fun hydrate_segments ::
  "archive_library \<Rightarrow> (string \<Rightarrow> core_error + bytes) \<Rightarrow> uuid \<Rightarrow> uuid set \<Rightarrow> prefetched_segment list \<Rightarrow> nat \<Rightarrow>
   message_store \<Rightarrow> (core_error + nat) \<times> message_store" where
  "hydrate_segments A keys conv_id wanted_ids [] hydrated ms = (Inr hydrated, ms)"
| "hydrate_segments A keys conv_id wanted_ids (seg # segs) hydrated ms = (case open_prefetched A keys seg of
      Inl err \<Rightarrow> (Inl err, ms)
    | Inr payload \<Rightarrow> (case hydrate_events (al_env A) conv_id wanted_ids (sp_events payload) hydrated ms of
          (Inl err, ms) \<Rightarrow> (Inl err, ms)
        | (Inr n, ms) \<Rightarrow> hydrate_segments A keys conv_id wanted_ids segs n ms))"

fun hydrate_buckets ::
  "archive_library \<Rightarrow> 'w remote \<Rightarrow> zk_fabric_sink_config option \<Rightarrow> (string \<Rightarrow> core_error + bytes) \<Rightarrow> 'w \<Rightarrow>
   ((uuid \<times> string) \<times> uuid set) list \<Rightarrow> nat \<Rightarrow> message_store \<Rightarrow> (core_error + nat) \<times> message_store" where
  "hydrate_buckets A R router keys w [] hydrated ms = (Inr hydrated, ms)"
| "hydrate_buckets A R router keys w (((conv_id, time_bucket), wanted_ids) # buckets) hydrated ms =
     (case batch_prefetch_bucket_with_router R router (me_show_uuid (al_env A) conv_id) time_bucket (ms_db ms) w of
        Inl err \<Rightarrow> (Inl err, ms)
      | Inr segs \<Rightarrow> (case hydrate_segments A keys conv_id wanted_ids segs hydrated ms of
            (Inl err, ms) \<Rightarrow> (Inl err, ms)
          | (Inr n, ms) \<Rightarrow> hydrate_buckets A R router keys w buckets n ms))"

definition hydrate_cold_search_results ::
  "archive_library \<Rightarrow> 'w remote \<Rightarrow> archive_backend \<Rightarrow> zk_fabric_sink_config option \<Rightarrow> (string \<Rightarrow> core_error + bytes) \<Rightarrow> 'w \<Rightarrow>
   cold_hit list \<Rightarrow> message_store \<Rightarrow> (core_error + nat) \<times> message_store" where
  "hydrate_cold_search_results A R backend installed keys w results ms =
     (let buckets = group_cold_results results in
      if buckets = [] then (Inr 0, ms)
      else (case build_router backend installed of
          Inl err \<Rightarrow> (Inl err, ms)
        | Inr router \<Rightarrow> hydrate_buckets A R router keys w buckets 0 ms))"

subsection \<open>Skeletons\<close>

definition archive_stub :: "message_env \<Rightarrow> uuid \<Rightarrow> int \<Rightarrow> uuid \<Rightarrow> archive_event \<Rightarrow> message_skeleton" where
  "archive_stub E conversation_id received_at mid e = \<lparr>sk_message_id = me_show_uuid E mid,
     sk_conversation_id = me_show_uuid E conversation_id, sk_sender_id = '''', sk_created_at_ms = ae_created_at_ms e,
     sk_received_at_ms = received_at, sk_kind = TextKind, sk_body_state = RemoteArchiveOnly, sk_media_state = None,
     sk_archive_state = ArchiveUploaded, sk_backup_state = NotBackedUp, sk_reply_to = None, sk_edited_at_ms = None,
     sk_deleted_at_ms = None\<rparr>"

fun land_skeletons ::
  "message_env \<Rightarrow> uuid \<Rightarrow> int \<Rightarrow> archive_event list \<Rightarrow> message_skeleton list \<Rightarrow> local_db \<Rightarrow>
   (core_error + message_skeleton list) \<times> local_db" where
  "land_skeletons E conversation_id received_at [] inserted db = (Inr inserted, db)"
| "land_skeletons E conversation_id received_at (e # es) inserted db = (case ae_message_id e of
      None \<Rightarrow> land_skeletons E conversation_id received_at es inserted db
    | Some mid \<Rightarrow>
        if ae_conversation_id e \<noteq> conversation_id then land_skeletons E conversation_id received_at es inserted db
        else let stub = archive_stub E conversation_id received_at mid e in
          (case upsert_skeleton_from_archive stub db of
             Inl err \<Rightarrow> (Inl (StorageFailure ''upsert_skeleton_from_archive''), db)
           | Inr (db, landed) \<Rightarrow>
               land_skeletons E conversation_id received_at es (if landed then inserted @ [stub] else inserted) db))"

fun land_segments ::
  "archive_library \<Rightarrow> (string \<Rightarrow> core_error + bytes) \<Rightarrow> uuid \<Rightarrow> int \<Rightarrow> prefetched_segment list \<Rightarrow> message_skeleton list \<Rightarrow>
   local_db \<Rightarrow> (core_error + message_skeleton list) \<times> local_db" where
  "land_segments A keys conversation_id received_at [] inserted db = (Inr inserted, db)"
| "land_segments A keys conversation_id received_at (seg # segs) inserted db = (case open_prefetched A keys seg of
      Inl err \<Rightarrow> (Inl err, db)
    | Inr payload \<Rightarrow> (case land_skeletons (al_env A) conversation_id received_at (sp_events payload) inserted db of
          (Inl err, db) \<Rightarrow> (Inl err, db)
        | (Inr inserted, db) \<Rightarrow> land_segments A keys conversation_id received_at segs inserted db))"

definition rehydrate_timeline_skeletons_with_router ::
  "archive_library \<Rightarrow> 'w remote \<Rightarrow> zk_fabric_sink_config option \<Rightarrow> (string \<Rightarrow> core_error + bytes) \<Rightarrow> 'w \<Rightarrow> int \<Rightarrow>
   uuid \<Rightarrow> string \<Rightarrow> local_db \<Rightarrow> (core_error + message_skeleton list) \<times> local_db" where
  "rehydrate_timeline_skeletons_with_router A R router keys w received_at conversation_id time_bucket db =
     (case batch_prefetch_bucket_with_router R router (me_show_uuid (al_env A) conversation_id) time_bucket db w of
        Inl err \<Rightarrow> (Inl err, db) | Inr segs \<Rightarrow> land_segments A keys conversation_id received_at segs [] db)"

definition rehydrate_timeline_skeletons ::
  "archive_library \<Rightarrow> 'w remote \<Rightarrow> archive_backend \<Rightarrow> zk_fabric_sink_config option \<Rightarrow> (string \<Rightarrow> core_error + bytes) \<Rightarrow> 'w \<Rightarrow>
   int \<Rightarrow> uuid \<Rightarrow> string \<Rightarrow> local_db \<Rightarrow> (core_error + message_skeleton list) \<times> local_db" where
  "rehydrate_timeline_skeletons A R backend installed keys w received_at conversation_id time_bucket db =
     (case build_router backend installed of
        Inl err \<Rightarrow> (Inl err, db)
      | Inr router \<Rightarrow> rehydrate_timeline_skeletons_with_router A R router keys w received_at conversation_id time_bucket db)"

subsection \<open>Compaction\<close>

record archive_compaction_result =
  cr_buckets_inspected :: nat
  cr_buckets_compacted :: nat
  cr_segments_superseded :: nat
  cr_segments_emitted :: nat
  cr_bytes_before :: nat
  cr_bytes_after :: nat

definition no_archive_compaction :: archive_compaction_result where
  "no_archive_compaction = \<lparr>cr_buckets_inspected = 1, cr_buckets_compacted = 0, cr_segments_superseded = 0,
     cr_segments_emitted = 0, cr_bytes_before = 0, cr_bytes_after = 0\<rparr>"

definition eligible_ids :: "string \<Rightarrow> string \<Rightarrow> local_db \<Rightarrow> string set" where
  "eligible_ids cid bucket db = sm_segment_id ` set (filter (\<lambda>r. sm_state r = ArchiveVerified) (bucket_rows cid bucket db))"

definition supersede :: "string \<Rightarrow> local_db \<Rightarrow> local_db" where
  "supersede sid db = db\<lparr>db_segment_map := update_where (\<lambda>r. sm_segment_id r = sid)
     (sm_state_update (\<lambda>_. ArchiveCompacted)) (db_segment_map db)\<rparr>"

text \<open>The fresh id and the nonce of the new segment are arguments, and so is the callback that uploads it and
  writes its row.\<close>

definition compact_archive_inner ::
  "archive_library \<Rightarrow> 'w remote \<Rightarrow> zk_fabric_sink_config option \<Rightarrow> 'w \<Rightarrow> uuid \<Rightarrow> string \<Rightarrow> uuid \<Rightarrow> bytes \<Rightarrow> bytes \<Rightarrow>
   (string \<Rightarrow> core_error + bytes) \<Rightarrow> (built_archive_segment \<Rightarrow> local_db \<Rightarrow> (core_error + unit) \<times> local_db) \<Rightarrow> local_db \<Rightarrow>
   (core_error + archive_compaction_result) \<times> local_db" where
  "compact_archive_inner A R router w conversation_id time_bucket new_id nonce k_compact keys commit db =
     (let cid = me_show_uuid (al_env A) conversation_id;
          eligible = eligible_ids cid time_bucket db
      in if card eligible < 2 then (Inr no_archive_compaction, db)
         else (case batch_prefetch_bucket_with_router R router cid time_bucket db w of
             Inl e \<Rightarrow> (Inl e, db)
           | Inr all_rows \<Rightarrow>
               let segs = filter (\<lambda>p. pf_segment_id p \<in> eligible) all_rows in
               if length segs < 2 then (Inr no_archive_compaction, db)
               else (case mapE (open_prefetched A keys) segs of
                   Inl e \<Rightarrow> (Inl e, db)
                 | Inr payloads \<Rightarrow>
                     let survivors = apply_archive_tombstones (concat (map sp_events payloads));
                         before = sum_list (map (length \<circ> pf_ciphertext) segs);
                         finish = (\<lambda>emitted after db. (Inr \<lparr>cr_buckets_inspected = 1, cr_buckets_compacted = 1,
                           cr_segments_superseded = length segs, cr_segments_emitted = emitted,
                           cr_bytes_before = before, cr_bytes_after = after\<rparr>, fold supersede (map pf_segment_id segs) db))
                     in if survivors = [] then finish 0 0 db
                        else (case build_segment A new_id nonce (message_delta conversation_id time_bucket survivors) k_compact of
                            Inl e \<Rightarrow> (Inl e, db)
                          | Inr built \<Rightarrow> (case commit built db of
                                (Inl e, db) \<Rightarrow> (Inl e, db)
                              | (Inr _, db) \<Rightarrow> finish 1 (length (bs_ciphertext built)) db)))))"

end
