(* ===== verification/Rehydration_Facts.thy ===== *)
theory Rehydration_Facts
  imports Rehydration
begin

text \<open>
  What comes back from the archive: on the map of \<open>Message_Facts\<close> a hydration sets the text of the wanted messages
  and makes them live, the skeletons of a bucket are added once, and a compaction of a bucket.
\<close>

subsection \<open>One body\<close>

definition hydrated_view :: "utext \<Rightarrow> message_view \<Rightarrow> message_view" where
  "hydrated_view t v = v\<lparr>mv_state := LocalPlainAvailable, mv_text := Some t, mv_body := Some t\<rparr>"

text \<open>Embeddings of searchable messages do not enter the relation.\<close>

lemma shows_vectors:
  assumes "shows_messages uc (db\<lparr>db_vectors := xs\<rparr>) M"
    and "vr_message_id ` set (db_vectors db) \<subseteq> {mid. searchable_text M mid \<noteq> None}"
  shows "shows_messages uc db M"
proof -
  have "db = (db\<lparr>db_vectors := xs\<rparr>)\<lparr>db_vectors := db_vectors db\<rparr>" by simp
  then have "db_wf db" using unindexed_update_wf(2)[OF showsD(1)[OF assms(1)]] by metis
  then show ?thesis
    using assms index_is_cong[of db "db\<lparr>db_vectors := xs\<rparr>"] by (simp add: shows_messages_def get_message_skeleton_def)
qed

lemma rehydrate_shows:
  assumes sh: "shows_messages (me_unicode E) (ms_db ms) M" and v: "M (me_show_uuid E mid) = Some v"
  shows "\<exists>ms'. rehydrate_message_body_locally E mid t LocalPlainAvailable ms = (Inr (), ms') \<and>
    shows_messages (me_unicode E) (ms_db ms') (M(me_show_uuid E mid \<mapsto> hydrated_view t v))"
proof -
  let ?uc = "me_unicode E" and ?m = "me_show_uuid E mid" and ?db = "ms_db ms" and ?v = "hydrated_view t v"
  let ?M = "M(?m \<mapsto> ?v)"
  obtain s where s: "get_message_skeleton ?m ?db = Some s"
    using shows_skeleton[OF sh, of ?m] v by (cases "get_message_skeleton ?m ?db") simp_all
  obtain mv: "sk_message_id s = ?m" "mv_conversation v = sk_conversation_id s" "mv_sender v = sk_sender_id s"
      "mv_created_at_ms v = sk_created_at_ms s" "mv_state v = sk_body_state s"
    using shows_SomeD[OF sh s] v by auto
  define db1 where "db1 = snd (rehydrate_message_body ?m t LocalPlainAvailable ?db)"
  define db2 where "db2 = index_message ?uc ?m t (unindex_message ?m db1)"
  have run: "rehydrate_message_body ?m t LocalPlainAvailable ?db = (Inr (), db1)"
    by (simp add: db1_def rehydrate_message_body_def s savepoint_def Let_def)
  have db1: "db1 = ?db\<lparr>db_bodies := db_bodies (upsert_body_text ?m t ?db),
      db_skeletons := update_where (\<lambda>s. sk_message_id s = ?m) (sk_body_state_update (\<lambda>_. LocalPlainAvailable)) (db_skeletons ?db),
      db_fts := delete_where (\<lambda>r. ft_message_id r = ?m) (db_fts ?db) @ [fts_view ?m ?v t]\<rparr>"
    by (simp add: db1_def rehydrate_message_body_def s savepoint_def Let_def upsert_body_text_def
        update_message_body_text_def update_body_state_def delete_fts_row_def fts_view_def hydrated_view_def mv)
  have wf1: "db_wf db1" using rehydrate_wf[OF showsD(1)[OF sh]] by (simp add: db1_def)
  have wf: "db_wf (db2\<lparr>db_vectors := x\<rparr>)" for x
    using unindexed_update_wf(2)[OF unindexed_update_wf(3)[OF wf1]] by (simp add: db2_def index_message_rows unindex_message_def)
  have bodies: "set (db_bodies (upsert_body_text ?m t ?db)) = {b \<in> set (db_bodies ?db). bd_message_id b \<noteq> ?m} \<union> {body_row ?m t}"
  proof -
    have old: "{b \<in> set (db_bodies ?db). bd_message_id b = ?m} = {body_row ?m u | u. mv_body v = Some u}"
      using v by (auto simp: showsD(4)[OF sh])
    show ?thesis
    proof (cases "mv_body v")
      case None
      then have "?m \<notin> bd_message_id ` set (db_bodies ?db)" using old by auto
      moreover from this have "b \<in> set (db_bodies ?db) \<Longrightarrow> bd_message_id b \<noteq> ?m" for b by (metis imageI)
      ultimately show ?thesis by (auto simp: upsert_body_text_def body_row_def)
    next
      case (Some u)
      then have "?m \<in> bd_message_id ` set (db_bodies ?db)" using old by force
      then have "set (db_bodies (upsert_body_text ?m t ?db)) = {b \<in> set (db_bodies ?db). bd_message_id b \<noteq> ?m} \<union>
          bd_text_update (\<lambda>_. Some t) ` {body_row ?m u | u. mv_body v = Some u}"
        by (simp add: upsert_body_text_def update_message_body_text_def set_update_where_split old)
      then show ?thesis using Some by auto
    qed
  qed
  have "shows_messages ?uc (db2\<lparr>db_vectors := delete_where (\<lambda>r. vr_message_id r = ?m) (db_vectors ?db)\<rparr>) ?M"
    using wf bodies
    by (intro shows_update[OF sh v, where f = "sk_body_state_update (\<lambda>_. LocalPlainAvailable)" and fs = "[fts_view ?m ?v t]"])
      (simp_all add: db2_def db1 index_message_rows unindex_message_def hydrated_view_def)
  moreover have "vr_message_id ` set (db_vectors db2) \<subseteq> {mid. searchable_text ?M mid \<noteq> None}"
    using showsD(6)[OF sh] by (auto simp: db2_def db1 index_message_rows unindex_message_def hydrated_view_def)
  ultimately have "shows_messages ?uc db2 ?M" by (rule shows_vectors)
  then show ?thesis by (simp add: rehydrate_message_body_locally_def savepoint_def run db2_def)
qed

lemma rehydrate_unknown:
  assumes "shows_messages (me_unicode E) (ms_db ms) M" "M (me_show_uuid E mid) = None"
  shows "\<exists>e. rehydrate_message_body_locally E mid t bst ms = (Inl e, ms)"
proof -
  have "get_message_skeleton (me_show_uuid E mid) (ms_db ms) = None"
    using shows_skeleton[OF assms(1), of "me_show_uuid E mid"] assms(2) by simp
  then show ?thesis by (simp add: rehydrate_message_body_locally_def savepoint_def rehydrate_message_body_def)
qed

subsection \<open>Cold results\<close>

text \<open>The specification of a script of texts: each is written at its id.\<close>

definition spec_hydrate :: "message_env \<Rightarrow> (uuid \<times> utext) list \<Rightarrow> message_map \<Rightarrow> message_map" where
  "spec_hydrate E = fold (\<lambda>(mid, t) M. M(me_show_uuid E mid := map_option (hydrated_view t) (M (me_show_uuid E mid))))"

definition bodies_of :: "message_env \<Rightarrow> uuid \<Rightarrow> uuid set \<Rightarrow> archive_event list \<Rightarrow> (uuid \<times> utext) list" where
  "bodies_of E conv wanted = List.map_filter (event_body E conv wanted)"

definition hydrates_to ::
  "message_env \<Rightarrow> message_map \<Rightarrow> nat \<Rightarrow> (core_error + nat) \<times> message_store \<Rightarrow> (uuid \<times> utext) list \<Rightarrow> bool" where
  "hydrates_to E M n r ps \<longleftrightarrow> shows_messages (me_unicode E) (ms_db (snd r)) (spec_hydrate E ps M) \<and>
     (case fst r of Inl _ \<Rightarrow> True | Inr n' \<Rightarrow> n' = n + length ps)"

lemma spec_hydrate_simps [simp]: "spec_hydrate E [] M = M"
  "spec_hydrate E ((mid, t) # ps) M = spec_hydrate E ps (M(me_show_uuid E mid := map_option (hydrated_view t) (M (me_show_uuid E mid))))"
  by (simp_all add: spec_hydrate_def)

lemma spec_hydrate_append: "spec_hydrate E (ps @ qs) M = spec_hydrate E qs (spec_hydrate E ps M)"
  by (simp add: spec_hydrate_def)

lemma bodies_of_simps [simp]: "bodies_of E conv wanted [] = []"
  "bodies_of E conv wanted (e # es) = (case event_body E conv wanted e of None \<Rightarrow> [] | Some p \<Rightarrow> [p]) @ bodies_of E conv wanted es"
  by (simp_all add: bodies_of_def map_filter_simps split: option.split)

lemma hydrate_events_run:
  assumes "shows_messages (me_unicode E) (ms_db ms) M"
  shows "\<exists>ps rest. bodies_of E conv wanted es = ps @ rest \<and> hydrates_to E M n (hydrate_events E conv wanted es n ms) ps \<and>
    (rest = [] \<longleftrightarrow> (\<exists>n'. fst (hydrate_events E conv wanted es n ms) = Inr n')) \<and>
    ((\<forall>p \<in> set (bodies_of E conv wanted es). M (me_show_uuid E (fst p)) \<noteq> None) \<longrightarrow> rest = [])"
  using assms
proof (induction es arbitrary: M n ms)
  case Nil
  then show ?case by (simp add: hydrates_to_def)
next
  case (Cons e es)
  show ?case
  proof (cases "event_body E conv wanted e")
    case None
    then show ?thesis using Cons.IH[OF Cons.prems, of n] by simp
  next
    case (Some p)
    obtain mid t where p: "p = (mid, t)" by (cases p)
    show ?thesis
    proof (cases "M (me_show_uuid E mid)")
      case None
      then obtain err where "rehydrate_message_body_locally E mid t LocalPlainAvailable ms = (Inl err, ms)"
        using rehydrate_unknown[OF Cons.prems] by blast
      then show ?thesis
        using Some Cons.prems None by (intro exI[of _ "[]"] exI[of _ "bodies_of E conv wanted (e # es)"])
          (simp add: p hydrates_to_def)
    next
      case (Some v)
      let ?M = "M(me_show_uuid E mid \<mapsto> hydrated_view t v)"
      obtain ms' where run: "rehydrate_message_body_locally E mid t LocalPlainAvailable ms = (Inr (), ms')"
        and sh: "shows_messages (me_unicode E) (ms_db ms') ?M"
        using rehydrate_shows[OF Cons.prems Some] by blast
      obtain ps rest where *: "bodies_of E conv wanted es = ps @ rest"
          "hydrates_to E ?M (n + 1) (hydrate_events E conv wanted es (n + 1) ms') ps"
          "rest = [] \<longleftrightarrow> (\<exists>n'. fst (hydrate_events E conv wanted es (n + 1) ms') = Inr n')"
          "(\<forall>p \<in> set (bodies_of E conv wanted es). ?M (me_show_uuid E (fst p)) \<noteq> None) \<longrightarrow> rest = []"
        using Cons.IH[OF sh, of "n + 1"] by blast
      have step: "hydrate_events E conv wanted (e # es) n ms = hydrate_events E conv wanted es (n + 1) ms'"
        using \<open>event_body E conv wanted e = Some p\<close> run by (simp add: p)
      have "bodies_of E conv wanted (e # es) = (p # ps) @ rest"
        using \<open>event_body E conv wanted e = Some p\<close> *(1) by simp
      moreover have "hydrates_to E M n (hydrate_events E conv wanted (e # es) n ms) (p # ps)"
        using *(2) Some unfolding step by (auto simp: hydrates_to_def p split: sum.splits)
      moreover have "(\<forall>q \<in> set (bodies_of E conv wanted (e # es)). M (me_show_uuid E (fst q)) \<noteq> None) \<longrightarrow> rest = []"
        using *(4) \<open>event_body E conv wanted e = Some p\<close> by auto
      ultimately show ?thesis using *(3) unfolding step by blast
    qed
  qed
qed

text \<open>A segment that does not open, or a prefetch that fails, ends the call with what was written before.\<close>

lemma hydrates_to_Inl: "shows_messages (me_unicode E) (ms_db ms) M \<Longrightarrow> hydrates_to E M n (Inl e, ms) []"
  by (simp add: hydrates_to_def)

lemma hydrates_to_trans:
  assumes "hydrates_to E M n (Inr n', ms') ps" "hydrates_to E (spec_hydrate E ps M) n' r qs"
  shows "hydrates_to E M n r (ps @ qs)"
  using assms by (auto simp: hydrates_to_def spec_hydrate_append split: sum.splits)

definition script_for :: "cold_hit list \<Rightarrow> (uuid \<times> utext) list \<Rightarrow> bool" where
  "script_for hits ps \<longleftrightarrow> (\<forall>(mid, t) \<in> set ps. \<exists>h \<in> set hits. ch_is_cold h \<and> ch_message_id h = mid)"

lemma bodies_of_wanted: "p \<in> set (bodies_of E conv wanted es) \<Longrightarrow> fst p \<in> wanted"
  by (auto simp: bodies_of_def map_filter_set event_body_def split: option.splits if_splits)

lemma hydrate_segments_run:
  assumes "shows_messages (me_unicode (al_env A)) (ms_db ms) M"
  shows "\<exists>ps. hydrates_to (al_env A) M n (hydrate_segments A keys conv wanted segs n ms) ps \<and> (\<forall>p \<in> set ps. fst p \<in> wanted)"
  using assms
proof (induction segs arbitrary: M n ms)
  case (Cons seg segs)
  show ?case
  proof (cases "open_prefetched A keys seg")
    case (Inl e)
    then show ?thesis using hydrates_to_Inl[OF Cons.prems] by (intro exI[of _ "[]"]) simp
  next
    case (Inr payload)
    obtain ps rest where ps: "bodies_of (al_env A) conv wanted (sp_events payload) = ps @ rest"
        "hydrates_to (al_env A) M n (hydrate_events (al_env A) conv wanted (sp_events payload) n ms) ps"
      using hydrate_events_run[OF Cons.prems] by blast
    have wanted: "\<forall>p \<in> set ps. fst p \<in> wanted"
      using bodies_of_wanted[of _ "al_env A" conv wanted "sp_events payload"] ps(1) by simp
    obtain r ms' where run: "hydrate_events (al_env A) conv wanted (sp_events payload) n ms = (r, ms')" by fastforce
    show ?thesis
    proof (cases r)
      case (Inl e)
      then show ?thesis using ps(2) wanted Inr run by auto
    next
      case (Inr n')
      have "shows_messages (me_unicode (al_env A)) (ms_db ms') (spec_hydrate (al_env A) ps M)"
        using ps(2) run by (simp add: hydrates_to_def)
      from Cons.IH[OF this, of n'] obtain qs where
          qs: "hydrates_to (al_env A) (spec_hydrate (al_env A) ps M) n' (hydrate_segments A keys conv wanted segs n' ms') qs"
            "\<forall>p \<in> set qs. fst p \<in> wanted" by blast
      have "hydrates_to (al_env A) M n (hydrate_segments A keys conv wanted (seg # segs) n ms) (ps @ qs)"
        using hydrates_to_trans[OF _ qs(1)] ps(2) run Inr \<open>open_prefetched A keys seg = Inr payload\<close> by simp
      then show ?thesis using wanted qs(2) by (intro exI[of _ "ps @ qs"]) auto
    qed
  qed
qed (use hydrates_to_def in \<open>auto intro: exI[of _ "[]"]\<close>)

lemma hydrate_buckets_run:
  assumes "shows_messages (me_unicode (al_env A)) (ms_db ms) M"
  shows "\<exists>ps. hydrates_to (al_env A) M n (hydrate_buckets A R router keys w buckets n ms) ps \<and>
    (\<forall>p \<in> set ps. \<exists>b \<in> set buckets. fst p \<in> snd b)"
  using assms
proof (induction buckets arbitrary: M n ms)
  case (Cons b buckets)
  obtain conv bucket wanted where b: "b = ((conv, bucket), wanted)" by (metis surj_pair)
  show ?case
  proof (cases "batch_prefetch_bucket_with_router R router (me_show_uuid (al_env A) conv) bucket (ms_db ms) w")
    case (Inl e)
    then show ?thesis using hydrates_to_Inl[OF Cons.prems] by (intro exI[of _ "[]"]) (simp add: b)
  next
    case (Inr segs)
    obtain ps where ps: "hydrates_to (al_env A) M n (hydrate_segments A keys conv wanted segs n ms) ps"
        "\<forall>p \<in> set ps. fst p \<in> wanted"
      using hydrate_segments_run[OF Cons.prems] by blast
    obtain r ms' where run: "hydrate_segments A keys conv wanted segs n ms = (r, ms')" by fastforce
    show ?thesis
    proof (cases r)
      case (Inl e)
      then show ?thesis using ps Inr run by (intro exI[of _ ps]) (auto simp: b)
    next
      case (Inr n')
      have "shows_messages (me_unicode (al_env A)) (ms_db ms') (spec_hydrate (al_env A) ps M)"
        using ps(1) run by (simp add: hydrates_to_def)
      from Cons.IH[OF this, of n'] obtain qs where
          qs: "hydrates_to (al_env A) (spec_hydrate (al_env A) ps M) n' (hydrate_buckets A R router keys w buckets n' ms') qs"
            "\<forall>p \<in> set qs. \<exists>b \<in> set buckets. fst p \<in> snd b" by blast
      have "hydrates_to (al_env A) M n (hydrate_buckets A R router keys w (b # buckets) n ms) (ps @ qs)"
        using hydrates_to_trans[OF _ qs(1)] ps(1) run Inr
          \<open>batch_prefetch_bucket_with_router R router (me_show_uuid (al_env A) conv) bucket (ms_db ms) w = Inr segs\<close> by (simp add: b)
      then show ?thesis using ps(2) qs(2) by (intro exI[of _ "ps @ qs"]) (auto simp: b)
    qed
  qed
qed (use hydrates_to_def in \<open>auto intro: exI[of _ "[]"]\<close>)

lemma btree_insert_entry: "x \<in> set (btree_insert k v xs) \<Longrightarrow> x = (k, v) \<or> x \<in> set xs"
  by (induction xs) (auto split: if_splits)

lemma group_cold_results_ids:
  assumes "b \<in> set (group_cold_results hits)" "mid \<in> snd b"
  shows "\<exists>h \<in> set hits. ch_is_cold h \<and> ch_message_id h = mid"
proof -
  define add where "add = (\<lambda>(r :: cold_hit) buckets. let key = (ch_conversation_id r, default_time_bucket_for_ms (ch_created_at_ms r));
        ids = (case map_of buckets key of None \<Rightarrow> {} | Some ids \<Rightarrow> ids)
      in btree_insert key (insert (ch_message_id r) ids) buckets)"
  have step: "snd b \<subseteq> S" if "b \<in> set (add h bs)" "\<forall>b \<in> set bs. snd b \<subseteq> S" "ch_message_id h \<in> S" for S h b bs
  proof -
    let ?key = "(ch_conversation_id h, default_time_bucket_for_ms (ch_created_at_ms h))"
    have "(case map_of bs ?key of None \<Rightarrow> {} | Some ids \<Rightarrow> ids) \<subseteq> S"
      using that(2) by (fastforce split: option.splits dest!: map_of_SomeD)
    then show ?thesis using that btree_insert_entry[of b ?key] by (fastforce simp: add_def Let_def)
  qed
  have "\<forall>b \<in> set (fold add hs bs). snd b \<subseteq> S" if "ch_message_id ` set hs \<subseteq> S" "\<forall>b \<in> set bs. snd b \<subseteq> S" for S hs bs
    using that by (induction hs arbitrary: bs) (auto dest: step)
  from this[of "filter ch_is_cold hits" "ch_message_id ` set (filter ch_is_cold hits)" "[]"] assms show ?thesis
    by (fastforce simp: group_cold_results_def add_def)
qed

text \<open>C3: Hydrating cold search results, whether it succeeds or stops at an error, leaves the tables showing the map with
  some texts written into it, each at the id of a cold result: those messages become live and searchable,
  no other message changes, and a success counts the texts.\<close>

theorem hydration_refines_map:
  assumes "shows_messages (me_unicode (al_env A)) (ms_db ms) M"
  shows "\<exists>ps. case hydrate_cold_search_results A R backend installed keys w hits ms of (r, ms') \<Rightarrow>
    shows_messages (me_unicode (al_env A)) (ms_db ms') (spec_hydrate (al_env A) ps M) \<and>
    (case r of Inl e \<Rightarrow> True | Inr n \<Rightarrow> n = length ps) \<and> script_for hits ps"
proof (cases "group_cold_results hits = []")
  case True
  then show ?thesis using assms by (intro exI[of _ "[]"]) (simp add: hydrate_cold_search_results_def script_for_def)
next
  case False
  show ?thesis
  proof (cases "build_router backend installed")
    case (Inl e)
    then show ?thesis using assms False by (intro exI[of _ "[]"]) (simp add: hydrate_cold_search_results_def script_for_def)
  next
    case (Inr router)
    obtain ps where "hydrates_to (al_env A) M 0 (hydrate_buckets A R router keys w (group_cold_results hits) 0 ms) ps"
        "\<forall>p \<in> set ps. \<exists>b \<in> set (group_cold_results hits). fst p \<in> snd b"
      using hydrate_buckets_run[OF assms, where n = 0 and R = R and router = router and keys = keys and w = w
          and buckets = "group_cold_results hits"] by blast
    moreover from this(2) have "script_for hits ps"
      using group_cold_results_ids[of _ hits] unfolding script_for_def by fastforce
    moreover obtain r ms' where "hydrate_buckets A R router keys w (group_cold_results hits) 0 ms = (r, ms')" by fastforce
    ultimately show ?thesis
      using False Inr
      by (intro exI[of _ ps]) (simp add: hydrate_cold_search_results_def Let_def hydrates_to_def split: sum.splits)
  qed
qed

lemma hydrated_twice [simp]: "hydrated_view t (hydrated_view u v) = hydrated_view t v"
  by (simp add: hydrated_view_def)

lemma spec_hydrate_at:
  assumes "\<forall>p \<in> set ps. me_show_uuid E (fst p) = m"
  shows "spec_hydrate E ps M m = (if ps = [] then M m else map_option (hydrated_view (snd (last ps))) (M m))"
  using assms
proof (induction ps arbitrary: M)
  case (Cons p ps)
  obtain mid t where p: "p = (mid, t)" by (cases p)
  then have "me_show_uuid E mid = m" using Cons.prems by simp
  then show ?case
    using Cons by (cases "M m") (simp_all add: p)
qed simp

lemma spec_hydrate_other:
  "\<forall>p \<in> set ps. me_show_uuid E (fst p) \<noteq> m \<Longrightarrow> spec_hydrate E ps M m = M m"
  by (induction ps arbitrary: M) auto

text \<open>C25: A cold result whose bucket has one segment, and whose blob is served as it was built, gets the text of the last
  receipt or edit of the message in that segment: the message is live and searchable again, whatever its state
  was before, a deletion for everyone included, and whatever deletions the segment holds.\<close>

theorem hydration_restores_text:
  assumes sh: "shows_messages (me_unicode (al_env A)) (ms_db ms) M" and known: "M (me_show_uuid (al_env A) mid) = Some v"
    and A: "archive_sound A" "segment_parts_ok A i nonce (message_delta conv (default_time_bucket_for_ms t0) events)" "length k = 32"
    and built: "build_segment A i nonce (message_delta conv (default_time_bucket_for_ms t0) events) k = Inr seg"
    and row: "bucket_rows (me_show_uuid (al_env A) conv) (default_time_bucket_for_ms t0) (ms_db ms) = [row]"
    and served: "rm_fetch_archive_segment R (sm_segment_id row) w = Inr (segment_blob seg)"
      "sm_storage_backend row = ''kchat_backend''" "keys (sm_segment_id row) = Inr k"
    and body: "bodies_of (al_env A) conv {mid} events = ps @ [(mid, t)]"
  shows "\<exists>ms'. hydrate_cold_search_results A R KChat installed keys w
      [\<lparr>ch_message_id = mid, ch_conversation_id = conv, ch_created_at_ms = t0, ch_is_cold = True\<rparr>] ms = (Inr (length ps + 1), ms') \<and>
    shows_messages (me_unicode (al_env A)) (ms_db ms') (M(me_show_uuid (al_env A) mid \<mapsto> hydrated_view t v))"
proof -
  let ?E = "al_env A" and ?b = "default_time_bucket_for_ms t0"
  obtain cbor where "decrypt_archive_segment A (segment_blob seg) k = Inr cbor"
      "decode_archive_segment_payload A cbor = Inr (payload_of A (message_delta conv ?b events))"
    using opened_segment(1)[OF A built] by blast
  then have seg: "open_prefetched A keys (prefetched row (segment_blob seg)) = Inr (payload_of A (message_delta conv ?b events))"
    by (simp add: open_prefetched_def prefetched_def served(3))
  have "backend_or_default ''kchat_backend'' = KChatBackend" by (simp add: backend_or_default_def parse_backend_def)
  then have fetch: "batch_prefetch_bucket_with_router R None (me_show_uuid ?E conv) ?b (ms_db ms) w =
      Inr [prefetched row (segment_blob seg)]"
    by (simp add: batch_prefetch_bucket_with_router_def row router_fetch_def served)
  have only: "fst p = mid" if "p \<in> set (ps @ [(mid, t)])" for p
    using bodies_of_wanted[of p ?E conv "{mid}" events] that body by auto
  obtain qs rest where run: "bodies_of ?E conv {mid} events = qs @ rest"
      "hydrates_to ?E M 0 (hydrate_events ?E conv {mid} events 0 ms) qs"
      "rest = [] \<longleftrightarrow> (\<exists>n'. fst (hydrate_events ?E conv {mid} events 0 ms) = Inr n')"
      "(\<forall>p \<in> set (bodies_of ?E conv {mid} events). M (me_show_uuid ?E (fst p)) \<noteq> None) \<longrightarrow> rest = []"
    using hydrate_events_run[OF sh, where conv = conv and wanted = "{mid}" and es = events and n = 0] by blast
  have "\<forall>p \<in> set (bodies_of ?E conv {mid} events). M (me_show_uuid ?E (fst p)) \<noteq> None"
    unfolding body using only known by (metis option.distinct(1))
  then have "rest = []" using run(4) by blast
  then have qs: "qs = ps @ [(mid, t)]" using run(1) body by simp
  then obtain n where "fst (hydrate_events ?E conv {mid} events 0 ms) = Inr n" using run(3) \<open>rest = []\<close> by blast
  then obtain ms' where ev: "hydrate_events ?E conv {mid} events 0 ms = (Inr n, ms')"
    by (cases "hydrate_events ?E conv {mid} events 0 ms") simp
  then have n: "n = length ps + 1" and sh': "shows_messages (me_unicode ?E) (ms_db ms') (spec_hydrate ?E qs M)"
    using run(2) qs by (simp_all add: hydrates_to_def)
  have "spec_hydrate ?E qs M = M(me_show_uuid ?E mid \<mapsto> hydrated_view t v)"
  proof
    fix m
    show "spec_hydrate ?E qs M m = (M(me_show_uuid ?E mid \<mapsto> hydrated_view t v)) m"
    proof (cases "m = me_show_uuid ?E mid")
      case True
      then have "\<forall>p \<in> set qs. me_show_uuid ?E (fst p) = m" using only qs by blast
      from spec_hydrate_at[OF this] show ?thesis using known True by (simp add: qs)
    next
      case False
      then have "\<forall>p \<in> set qs. me_show_uuid ?E (fst p) \<noteq> m" using only qs by blast
      from spec_hydrate_other[OF this] show ?thesis using False by simp
    qed
  qed
  moreover have "hydrate_cold_search_results A R KChat installed keys w
      [\<lparr>ch_message_id = mid, ch_conversation_id = conv, ch_created_at_ms = t0, ch_is_cold = True\<rparr>] ms = (Inr n, ms')"
    using fetch seg ev
    by (simp add: hydrate_cold_search_results_def group_cold_results_def build_router_def Let_def payload_of_def message_delta_def)
  ultimately show ?thesis using sh' n by auto
qed

subsection \<open>Skeletons\<close>

definition stub_ids :: "message_env \<Rightarrow> uuid \<Rightarrow> archive_event list \<Rightarrow> string list" where
  "stub_ids E conv events = List.map_filter (\<lambda>e. if ae_conversation_id e = conv
     then map_option (me_show_uuid E) (ae_message_id e) else None) events"

text \<open>What landing skeletons keeps: the rows there were, the new ones after them, each a stub of its own.\<close>

definition landed :: "local_db \<Rightarrow> message_skeleton list \<Rightarrow> local_db \<Rightarrow> bool" where
  "landed db new db' \<longleftrightarrow> db' = db\<lparr>db_skeletons := db_skeletons db @ new\<rparr> \<and>
     distinct (map sk_message_id new) \<and> sk_message_id ` set new \<inter> sk_message_id ` set (db_skeletons db) = {} \<and>
     (\<forall>s \<in> set new. sk_body_state s = RemoteArchiveOnly \<and> sk_conversation_id s \<in> cv_id ` set (db_conversations db))"

lemma landed_refl [simp]: "landed db [] db"
  by (simp add: landed_def)

lemma landed_trans: "landed db xs db1 \<Longrightarrow> landed db1 ys db2 \<Longrightarrow> landed db (xs @ ys) db2"
  unfolding landed_def by auto

lemma land_skeletons_run:
  "\<exists>new. landed db new (snd (land_skeletons E conv now es inserted db)) \<and>
     (case fst (land_skeletons E conv now es inserted db) of Inl e \<Rightarrow> True
      | Inr l \<Rightarrow> l = inserted @ new \<and>
          sk_message_id ` set (db_skeletons db) \<union> set (stub_ids E conv es) = sk_message_id ` set (db_skeletons db @ new))"
proof (induction es arbitrary: inserted db)
  case Nil
  then show ?case by (intro exI[of _ "[]"]) (simp add: stub_ids_def map_filter_simps)
next
  case (Cons e es)
  show ?case
  proof (cases "\<exists>mid. ae_message_id e = Some mid \<and> ae_conversation_id e = conv")
    case False
    then have "land_skeletons E conv now (e # es) inserted db = land_skeletons E conv now es inserted db"
        "stub_ids E conv (e # es) = stub_ids E conv es"
      by (cases "ae_message_id e"; simp add: stub_ids_def map_filter_simps)+
    then show ?thesis using Cons[of db inserted] by (simp only:)
  next
    case True
    then obtain mid where e: "ae_message_id e = Some mid" "ae_conversation_id e = conv" by blast
    let ?s = "archive_stub E conv now mid e"
    have ids: "stub_ids E conv (e # es) = sk_message_id ?s # stub_ids E conv es"
      using e by (simp add: stub_ids_def map_filter_simps archive_stub_def)
    consider (known) "upsert_skeleton_from_archive ?s db = Inr (db, False)" "sk_message_id ?s \<in> sk_message_id ` set (db_skeletons db)"
      | (refused) "upsert_skeleton_from_archive ?s db = Inl (Constraint ''conversation'')"
      | (fresh) "upsert_skeleton_from_archive ?s db = Inr (db\<lparr>db_skeletons := db_skeletons db @ [?s]\<rparr>, True)"
          "sk_message_id ?s \<notin> sk_message_id ` set (db_skeletons db)" "sk_conversation_id ?s \<in> cv_id ` set (db_conversations db)"
      by (cases "sk_message_id ?s \<in> sk_message_id ` set (db_skeletons db)";
          cases "sk_conversation_id ?s \<in> cv_id ` set (db_conversations db)") (simp_all add: upsert_skeleton_from_archive_def)
    then show ?thesis
    proof cases
      case known
      then have "land_skeletons E conv now (e # es) inserted db = land_skeletons E conv now es inserted db"
        using e by (simp add: Let_def)
      then show ?thesis using Cons[of db inserted] ids known(2) by (auto split: sum.splits)
    next
      case refused
      then have "land_skeletons E conv now (e # es) inserted db = (Inl (StorageFailure ''upsert_skeleton_from_archive''), db)"
        using e by (simp add: Let_def)
      then show ?thesis by (intro exI[of _ "[]"]) simp
    next
      case fresh
      let ?db = "db\<lparr>db_skeletons := db_skeletons db @ [?s]\<rparr>"
      have run: "land_skeletons E conv now (e # es) inserted db = land_skeletons E conv now es (inserted @ [?s]) ?db"
        using e fresh(1) by (simp add: Let_def)
      have one: "landed db [?s] ?db" using fresh(2,3) by (simp add: landed_def archive_stub_def)
      obtain new where new: "landed ?db new (snd (land_skeletons E conv now es (inserted @ [?s]) ?db))"
          "case fst (land_skeletons E conv now es (inserted @ [?s]) ?db) of Inl e \<Rightarrow> True
           | Inr l \<Rightarrow> l = (inserted @ [?s]) @ new \<and>
               sk_message_id ` set (db_skeletons ?db) \<union> set (stub_ids E conv es) = sk_message_id ` set (db_skeletons ?db @ new)"
        using Cons by blast
      show ?thesis
        unfolding run using landed_trans[OF one new(1)] new(2) ids
        by (intro exI[of _ "[?s] @ new"]) (auto split: sum.splits)
    qed
  qed
qed

lemma land_segments_run:
  "\<exists>new. landed db new (snd (land_segments A keys conv now segs inserted db)) \<and>
     (case fst (land_segments A keys conv now segs inserted db) of Inl e \<Rightarrow> True
      | Inr l \<Rightarrow> l = inserted @ new \<and> (\<exists>payloads. mapE (open_prefetched A keys) segs = Inr payloads \<and>
          sk_message_id ` set (db_skeletons db) \<union> set (stub_ids (al_env A) conv (concat (map sp_events payloads))) =
          sk_message_id ` set (db_skeletons db @ new)))"
proof (induction segs arbitrary: inserted db)
  case Nil
  then show ?case by (intro exI[of _ "[]"]) (simp add: stub_ids_def map_filter_simps)
next
  case (Cons seg segs)
  show ?case
  proof (cases "open_prefetched A keys seg")
    case (Inl e)
    then show ?thesis by (intro exI[of _ "[]"]) simp
  next
    case (Inr p)
    obtain r db1 where run: "land_skeletons (al_env A) conv now (sp_events p) inserted db = (r, db1)" by fastforce
    obtain new1 where n1: "landed db new1 db1"
        "case r of Inl e \<Rightarrow> True | Inr l \<Rightarrow> l = inserted @ new1 \<and>
          sk_message_id ` set (db_skeletons db) \<union> set (stub_ids (al_env A) conv (sp_events p)) = sk_message_id ` set (db_skeletons db @ new1)"
      using land_skeletons_run[of db "al_env A" conv now "sp_events p" inserted] run by auto
    show ?thesis
    proof (cases r)
      case (Inl e)
      then show ?thesis using n1(1) Inr run by (intro exI[of _ new1]) simp
    next
      case r: (Inr l)
      have l: "l = inserted @ new1" and ids: "sk_message_id ` set (db_skeletons db) \<union> set (stub_ids (al_env A) conv (sp_events p)) =
          sk_message_id ` set (db_skeletons db1)"
        using n1 r by (simp_all add: landed_def)
      have eq: "land_segments A keys conv now (seg # segs) inserted db = land_segments A keys conv now segs (inserted @ new1) db1"
        using Inr run r l by simp
      obtain new2 where n2: "landed db1 new2 (snd (land_segments A keys conv now segs (inserted @ new1) db1))"
          "case fst (land_segments A keys conv now segs (inserted @ new1) db1) of Inl e \<Rightarrow> True
           | Inr l \<Rightarrow> l = (inserted @ new1) @ new2 \<and> (\<exists>payloads. mapE (open_prefetched A keys) segs = Inr payloads \<and>
               sk_message_id ` set (db_skeletons db1) \<union> set (stub_ids (al_env A) conv (concat (map sp_events payloads))) =
               sk_message_id ` set (db_skeletons db1 @ new2))"
        using Cons[of db1 "inserted @ new1"] by blast
      have app: "stub_ids (al_env A) conv (xs @ ys) = stub_ids (al_env A) conv xs @ stub_ids (al_env A) conv ys" for xs ys
        by (simp add: stub_ids_def List.map_filter_def)
      have db1: "db_skeletons db1 = db_skeletons db @ new1" using n1(1) by (simp add: landed_def)
      have all: "sk_message_id ` set (db_skeletons db) \<union> set (stub_ids (al_env A) conv (sp_events p @ es)) =
          sk_message_id ` set (db_skeletons db1) \<union> set (stub_ids (al_env A) conv es)" for es
        using ids by (simp add: app flip: Un_assoc)
      show ?thesis
        unfolding eq using landed_trans[OF n1(1) n2(1)] n2(2)
        by (intro exI[of _ "new1 @ new2"]) (auto simp: Inr all db1 simp del: set_append split: sum.splits)
    qed
  qed
qed

lemma land_skeletons_known:
  assumes "set (stub_ids E conv es) \<subseteq> sk_message_id ` set (db_skeletons db)"
  shows "land_skeletons E conv now es inserted db = (Inr inserted, db)"
  using assms
proof (induction es)
  case (Cons e es)
  have sub: "set (stub_ids E conv es) \<subseteq> sk_message_id ` set (db_skeletons db)"
    using Cons.prems by (auto simp: stub_ids_def map_filter_simps split: option.splits if_splits)
  show ?case
  proof (cases "\<exists>mid. ae_message_id e = Some mid \<and> ae_conversation_id e = conv")
    case False
    then show ?thesis using Cons.IH[OF sub] by (auto split: option.splits)
  next
    case True
    then obtain mid where e: "ae_message_id e = Some mid" "ae_conversation_id e = conv" by blast
    then have "me_show_uuid E mid \<in> sk_message_id ` set (db_skeletons db)"
      using Cons.prems by (simp add: stub_ids_def map_filter_simps)
    then have "upsert_skeleton_from_archive (archive_stub E conv now mid e) db = Inr (db, False)"
      by (simp add: upsert_skeleton_from_archive_def archive_stub_def)
    then show ?thesis using e Cons.IH[OF sub] by (simp add: Let_def)
  qed
qed simp

lemma land_segments_known:
  assumes "mapE (open_prefetched A keys) segs = Inr payloads"
    and "set (stub_ids (al_env A) conv (concat (map sp_events payloads))) \<subseteq> sk_message_id ` set (db_skeletons db)"
  shows "land_segments A keys conv now segs inserted db = (Inr inserted, db)"
  using assms
proof (induction segs arbitrary: payloads)
  case (Cons seg segs)
  obtain p ps where p: "open_prefetched A keys seg = Inr p" "mapE (open_prefetched A keys) segs = Inr ps" "payloads = p # ps"
    using Cons.prems(1) by (auto simp: err_simps)
  have "set (stub_ids (al_env A) conv (sp_events p)) \<subseteq> sk_message_id ` set (db_skeletons db)"
      "set (stub_ids (al_env A) conv (concat (map sp_events ps))) \<subseteq> sk_message_id ` set (db_skeletons db)"
    using Cons.prems(2) by (auto simp: p(3) stub_ids_def List.map_filter_def)
  then show ?case using Cons.IH[OF p(2)] land_skeletons_known p(1) by simp
qed simp


end
