(* ===== verification/Archive_Compaction.thy ===== *)
theory Archive_Compaction
  imports Rehydration_Facts
begin

text \<open>
  What a compaction of an archive bucket does to the segment map: it replaces the verified segments by one
  with the surviving events, it takes nothing away from later fetches, and no history of the
  operations on the map lets it start.
\<close>

subsection \<open>Tombstones\<close>

text \<open>The specification, event by event: a tombstone and what it names are dropped, wherever the two stand.\<close>

definition is_archive_tombstone :: "archive_event \<Rightarrow> bool" where
  "is_archive_tombstone e \<longleftrightarrow> ae_event_type e = AMessageDeleted \<or> ae_event_type e = AConversationDeleted"

definition buries :: "archive_event \<Rightarrow> archive_event \<Rightarrow> bool" where
  "buries t e \<longleftrightarrow> ae_conversation_id t = ae_conversation_id e \<and>
     (ae_event_type t = AConversationDeleted \<or>
      ae_event_type t = AMessageDeleted \<and> ae_message_id t \<noteq> None \<and> ae_message_id t = ae_message_id e)"

definition spec_survivors :: "archive_event list \<Rightarrow> archive_event list" where
  "spec_survivors es = filter (\<lambda>e. \<not> is_archive_tombstone e \<and> \<not> (\<exists>t \<in> set es. buries t e)) es"

lemma archive_tombstones_spec: "apply_archive_tombstones es = spec_survivors es"
proof -
  have "(ae_conversation_id e, mid) \<in> set (List.map_filter (\<lambda>t. if ae_event_type t = AMessageDeleted
        then map_option (Pair (ae_conversation_id t)) (ae_message_id t) else None) es) \<longleftrightarrow>
      (\<exists>t \<in> set es. ae_event_type t = AMessageDeleted \<and> ae_conversation_id t = ae_conversation_id e \<and> ae_message_id t = Some mid)" for e mid
    by (auto simp: map_filter_set)
  moreover have "c \<in> ae_conversation_id ` set (filter (\<lambda>e. ae_event_type e = AConversationDeleted) es) \<longleftrightarrow>
      (\<exists>t \<in> set es. ae_event_type t = AConversationDeleted \<and> ae_conversation_id t = c)" for c
    by auto
  ultimately show ?thesis
    unfolding apply_archive_tombstones_def spec_survivors_def Let_def
    by (intro filter_cong refl) (auto simp: is_archive_tombstone_def buries_def simp del: set_filter split: option.splits, metis option.distinct(1))
qed

subsection \<open>One run\<close>

definition persist_commit :: "archive_library \<Rightarrow> string \<Rightarrow> string \<Rightarrow> built_archive_segment \<Rightarrow> local_db \<Rightarrow> (core_error + unit) \<times> local_db" where
  "persist_commit A blob_id backend built db = (case persist_segment_map_row A built blob_id backend db of
      Inl e \<Rightarrow> (Inl e, db) | Inr db' \<Rightarrow> (Inr (), db'))"

definition compacted_row :: "string \<Rightarrow> string \<Rightarrow> segment_map_row \<Rightarrow> segment_map_row" where
  "compacted_row cid bucket r = (if sm_conversation_id r = cid \<and> sm_time_bucket r = bucket \<and> sm_state r = ArchiveVerified
     then r\<lparr>sm_state := ArchiveCompacted\<rparr> else r)"

lemma fold_supersede: "fold supersede ids db = db\<lparr>db_segment_map :=
    map (\<lambda>r. if sm_segment_id r \<in> set ids then r\<lparr>sm_state := ArchiveCompacted\<rparr> else r) (db_segment_map db)\<rparr>"
proof (induction ids arbitrary: db)
  case (Cons i ids)
  show ?case unfolding fold_Cons comp_apply Cons by (simp add: supersede_def update_where_def comp_def)
qed simp

lemma mapE_prefetch_ids:
  "mapE (\<lambda>r. map_sum id (prefetched r) (f r)) rows = Inr segs \<Longrightarrow> map pf_segment_id segs = map sm_segment_id rows"
  by (auto simp: mapE_fetch_iff prefetched_def)

lemma supersede_eligible:
  assumes keys: "distinct (map sm_segment_id (db_segment_map db))"
    and segs: "batch_prefetch_bucket_with_router R router cid bucket db w = Inr segs"
    and fresh: "new \<inter> sm_segment_id ` set (db_segment_map db) = {}" "sm_segment_id ` set rows \<subseteq> new"
  shows "db_segment_map (fold supersede (map pf_segment_id (filter (\<lambda>p. pf_segment_id p \<in> eligible_ids cid bucket db) segs))
      (db\<lparr>db_segment_map := db_segment_map db @ rows\<rparr>)) = map (compacted_row cid bucket) (db_segment_map db) @ rows"
proof -
  let ?ids = "eligible_ids cid bucket db"
  have "sm_segment_id ` set (bucket_rows cid bucket db) = pf_segment_id ` set segs"
    using mapE_prefetch_ids[OF segs[unfolded batch_prefetch_bucket_with_router_def]] by (metis list.set_map)
  then have "?ids \<subseteq> pf_segment_id ` set segs" by (auto simp: eligible_ids_def)
  then have ids: "pf_segment_id ` {p \<in> set segs. pf_segment_id p \<in> ?ids} = ?ids" by blast
  have row: "sm_segment_id r \<in> ?ids \<longleftrightarrow> sm_conversation_id r = cid \<and> sm_time_bucket r = bucket \<and> sm_state r = ArchiveVerified"
    if "r \<in> set (db_segment_map db)" for r
    using that keys by (auto simp: eligible_ids_def bucket_rows_def distinct_map dest: inj_onD)
  have "sm_segment_id r \<notin> ?ids" if "r \<in> set rows" for r
    using that fresh by (auto simp: eligible_ids_def bucket_rows_def)
  then show ?thesis
    by (auto simp: fold_supersede ids row compacted_row_def intro!: map_idI)
qed

text \<open>What a run that compacts does, whatever the keys are.\<close>

lemma compacting_run:
  assumes run: "compact_archive_inner A R router w conv bucket i nonce k keys (persist_commit A blob backend) db = (Inr res, db')"
    and fin: "cr_buckets_compacted res = 1" and keys: "distinct (map sm_segment_id (db_segment_map db))"
  obtains segs payloads where
    "batch_prefetch_bucket_with_router R router (me_show_uuid (al_env A) conv) bucket db w = Inr segs"
    "mapE (open_prefetched A keys) (filter (\<lambda>p. pf_segment_id p \<in> eligible_ids (me_show_uuid (al_env A) conv) bucket db) segs) = Inr payloads"
    "\<exists>rows. db_segment_map db' = map (compacted_row (me_show_uuid (al_env A) conv) bucket) (db_segment_map db) @ rows \<and>
      (if spec_survivors (concat (map sp_events payloads)) = [] then rows = []
       else \<exists>built row. build_segment A i nonce (message_delta conv bucket (spec_survivors (concat (map sp_events payloads)))) k = Inr built \<and>
         rows = [row] \<and> sm_segment_id row = me_show_uuid (al_env A) i \<and> sm_state row = ArchiveUploaded)"
proof -
  let ?cid = "me_show_uuid (al_env A) conv"
  let ?mine = "filter (\<lambda>p. pf_segment_id p \<in> eligible_ids ?cid bucket db)"
  have not_idle: "res \<noteq> no_archive_compaction" using fin by (auto simp: no_archive_compaction_def)
  note def = compact_archive_inner_def Let_def
  obtain segs where segs: "batch_prefetch_bucket_with_router R router ?cid bucket db w = Inr segs"
    using run not_idle by (auto simp: def split: if_splits sum.splits)
  obtain payloads where payloads: "mapE (open_prefetched A keys) (?mine segs) = Inr payloads"
    using run not_idle by (auto simp: def segs split: if_splits sum.splits)
  let ?es = "spec_survivors (concat (map sp_events payloads))"
  have out: "(if ?es = [] then db' = fold supersede (map pf_segment_id (?mine segs)) db
     else (\<exists>built db1. build_segment A i nonce (message_delta conv bucket ?es) k = Inr built \<and>
       persist_segment_map_row A built blob backend db = Inr db1 \<and> db' = fold supersede (map pf_segment_id (?mine segs)) db1))"
    using run not_idle
    by (auto simp: def segs payloads archive_tombstones_spec persist_commit_def split: if_splits sum.splits prod.splits)
  show thesis
  proof (rule that[OF segs payloads], cases "?es = []")
    case True
    then show "\<exists>rows. db_segment_map db' = map (compacted_row ?cid bucket) (db_segment_map db) @ rows \<and> (if ?es = [] then rows = []
       else \<exists>built row. build_segment A i nonce (message_delta conv bucket ?es) k = Inr built \<and> rows = [row] \<and>
         sm_segment_id row = me_show_uuid (al_env A) i \<and> sm_state row = ArchiveUploaded)"
      using out supersede_eligible[OF keys segs, of "{}" "[]"] by simp
  next
    case False
    then obtain built db1 where built: "build_segment A i nonce (message_delta conv bucket ?es) k = Inr built"
        "persist_segment_map_row A built blob backend db = Inr db1" "db' = fold supersede (map pf_segment_id (?mine segs)) db1"
      using out by auto
    have "bs_segment_id built = i" using build_segmentE[OF built(1)] by (metis built_archive_segment.select_convs(1))
    then obtain row where row: "db1 = db\<lparr>db_segment_map := db_segment_map db @ [row]\<rparr>"
        "sm_segment_id row = me_show_uuid (al_env A) i" "sm_state row = ArchiveUploaded"
        "me_show_uuid (al_env A) i \<notin> sm_segment_id ` set (db_segment_map db)"
      using built(2) by (auto simp: persist_segment_map_row_def Let_def split: if_splits)
    then have "db_segment_map db' = map (compacted_row ?cid bucket) (db_segment_map db) @ [row]"
      using supersede_eligible[OF keys segs, of "{me_show_uuid (al_env A) i}" "[row]"] built(3) by simp
    then show "\<exists>rows. db_segment_map db' = map (compacted_row ?cid bucket) (db_segment_map db) @ rows \<and> (if ?es = [] then rows = []
       else \<exists>built row. build_segment A i nonce (message_delta conv bucket ?es) k = Inr built \<and> rows = [row] \<and>
         sm_segment_id row = me_show_uuid (al_env A) i \<and> sm_state row = ArchiveUploaded)"
      using False built(1) row(2,3) by auto
  qed
qed

text \<open>C13: A compaction that succeeds reseals, as one segment that opens under the new key, exactly the events of the verified
  segments that are no tombstone and that no tombstone among them names, in order; the sources become
  \<open>archive_compacted\<close>, every other row stays, and without survivors nothing is emitted.\<close>

theorem compaction_reseals:
  assumes A: "archive_sound A" "length k = 32" "length nonce = 24" "\<forall>cbor z. al_compress A cbor = Some z \<longrightarrow> length z < 2 ^ 38"
    and run: "compact_archive_inner A R router w conv bucket i nonce k keys (persist_commit A blob backend) db = (Inr res, db')"
    and compacted: "cr_buckets_compacted res = 1" and pk: "distinct (map sm_segment_id (db_segment_map db))"
  shows "\<exists>segs payloads rows.
    batch_prefetch_bucket_with_router R router (me_show_uuid (al_env A) conv) bucket db w = Inr segs \<and>
    mapE (open_prefetched A keys) (filter (\<lambda>p. pf_segment_id p \<in> eligible_ids (me_show_uuid (al_env A) conv) bucket db) segs) = Inr payloads \<and>
    db_segment_map db' = map (compacted_row (me_show_uuid (al_env A) conv) bucket) (db_segment_map db) @ rows \<and>
    (let es = spec_survivors (concat (map sp_events payloads)) in
     if es = [] then rows = []
     else map sm_segment_id rows = [me_show_uuid (al_env A) i] \<and>
       (\<exists>built. build_segment A i nonce (message_delta conv bucket es) k = Inr built \<and>
          decrypt_segment A built k = Inr (payload_of A (message_delta conv bucket es))))"
proof -
  have parts: "segment_parts_ok A i nonce req" for req using A(3,4) by (simp add: segment_parts_ok_def)
  obtain segs payloads rows where
    "batch_prefetch_bucket_with_router R router (me_show_uuid (al_env A) conv) bucket db w = Inr segs"
    "mapE (open_prefetched A keys) (filter (\<lambda>p. pf_segment_id p \<in> eligible_ids (me_show_uuid (al_env A) conv) bucket db) segs) = Inr payloads"
    "db_segment_map db' = map (compacted_row (me_show_uuid (al_env A) conv) bucket) (db_segment_map db) @ rows"
    "if spec_survivors (concat (map sp_events payloads)) = [] then rows = []
     else \<exists>built row. build_segment A i nonce (message_delta conv bucket (spec_survivors (concat (map sp_events payloads)))) k = Inr built \<and>
       rows = [row] \<and> sm_segment_id row = me_show_uuid (al_env A) i \<and> sm_state row = ArchiveUploaded"
    using compacting_run[OF run compacted pk] by metis
  then show ?thesis
    using opened_segment(2)[OF A(1) parts A(2)]
    by (intro exI[of _ segs] exI[of _ payloads] exI[of _ rows]) (auto simp: Let_def split: if_splits)
qed

subsection \<open>What later fetches see\<close>

definition stateless :: "segment_map_row \<Rightarrow> segment_map_row" where
  "stateless r = r\<lparr>sm_state := NotArchived\<rparr>"

lemma compaction_appends:
  "\<exists>rows. map stateless (db_segment_map (snd (compact_archive_inner A R router w conv bucket i nonce k keys
     (persist_commit A blob backend) db))) = map stateless (db_segment_map db) @ rows"
proof -
  have sup: "map stateless (db_segment_map (fold supersede ids db)) = map stateless (db_segment_map db)" for ids db
    by (simp add: fold_supersede stateless_def)
  have commit: "\<exists>rows. map stateless (db_segment_map db1) = map stateless (db_segment_map db) @ rows"
    if "persist_commit A blob backend built db = (r, db1)" for built r db1
    using that by (auto simp: persist_commit_def persist_segment_map_row_def Let_def split: if_splits sum.splits)
  show ?thesis
    by (auto simp: compact_archive_inner_def Let_def sup split: sum.split prod.split dest: commit)
qed

lemma bucket_rows_stateless:
  assumes "map stateless (db_segment_map db') = map stateless (db_segment_map db) @ rows"
  shows "map stateless (bucket_rows cid bucket db') = map stateless (bucket_rows cid bucket db) @
    filter (\<lambda>r. sm_conversation_id r = cid \<and> sm_time_bucket r = bucket) rows"
proof -
  have "map stateless (bucket_rows cid bucket d) =
      filter (\<lambda>r. sm_conversation_id r = cid \<and> sm_time_bucket r = bucket) (map stateless (db_segment_map d))" for d
    by (simp add: bucket_rows_def filter_map comp_def stateless_def)
  then show ?thesis by (simp add: assms)
qed

lemma prefetch_stateless:
  "batch_prefetch_bucket_with_router R router cid bucket db w =
     mapE (\<lambda>r. map_sum id (prefetched r) (router_fetch R router (backend_or_default (sm_storage_backend r)) (sm_segment_id r) w))
       (map stateless (bucket_rows cid bucket db))"
proof -
  have "mapE f (map stateless xs) = mapE (\<lambda>r. f (stateless r)) xs" for f :: "segment_map_row \<Rightarrow> core_error + prefetched_segment" and xs
    by (induction xs) simp_all
  moreover have "prefetched (stateless r) = prefetched r" for r by (simp add: fun_eq_iff stateless_def prefetched_def)
  ultimately show ?thesis
    by (simp add: batch_prefetch_bucket_with_router_def) (simp add: stateless_def)
qed

text \<open>Compacting takes no segment out of any later fetch: whatever a bucket's prefetch returns before, it returns first
  after it, the superseded segments with the events that the compaction dropped included.\<close>

theorem compaction_keeps_sources:
  "case batch_prefetch_bucket_with_router R' router' cid bucket' db w' of
     Inl e \<Rightarrow> batch_prefetch_bucket_with_router R' router' cid bucket'
        (snd (compact_archive_inner A R router w conv bucket i nonce k keys (persist_commit A blob backend) db)) w' = Inl e
   | Inr segs \<Rightarrow> (case batch_prefetch_bucket_with_router R' router' cid bucket'
        (snd (compact_archive_inner A R router w conv bucket i nonce k keys (persist_commit A blob backend) db)) w' of
        Inl e \<Rightarrow> True | Inr segs' \<Rightarrow> take (length segs) segs' = segs)"
proof -
  have app: "mapE f (xs @ ys) = bindE (mapE f xs) (\<lambda>us. bindE (mapE f ys) (\<lambda>vs. Inr (us @ vs)))"
    for f :: "segment_map_row \<Rightarrow> core_error + prefetched_segment" and xs ys
    by (induction xs) (auto simp: bindE_def split: sum.splits)
  obtain rows where "map stateless (db_segment_map (snd (compact_archive_inner A R router w conv bucket i nonce k keys
      (persist_commit A blob backend) db))) = map stateless (db_segment_map db) @ rows"
    by (rule exE[OF compaction_appends])
  from bucket_rows_stateless[OF this, of cid bucket'] show ?thesis
    by (simp add: prefetch_stateless app bindE_def split: sum.split)
qed

subsection \<open>Whether it starts\<close>

text \<open>Everything that writes the segment map: the store's operations, the row of an uploaded segment, a compaction.\<close>

datatype segment_op =
    StoreOp store_op
  | PersistSegment built_archive_segment string string
  | CompactBucket uuid string uuid bytes bytes string string

fun run_segment_op ::
  "archive_library \<Rightarrow> 'w remote \<Rightarrow> zk_fabric_sink_config option \<Rightarrow> 'w \<Rightarrow> (string \<Rightarrow> core_error + bytes) \<Rightarrow> segment_op \<Rightarrow>
   local_db \<Rightarrow> local_db" where
  "run_segment_op A R router w keys (StoreOp op) db = run_op op db"
| "run_segment_op A R router w keys (PersistSegment seg blob_id backend) db = snd (persist_commit A blob_id backend seg db)"
| "run_segment_op A R router w keys (CompactBucket conv bucket i nonce k blob_id backend) db =
     snd (compact_archive_inner A R router w conv bucket i nonce k keys (persist_commit A blob_id backend) db)"

lemma ledger_fold_segment_map: "foldE insert_ledger_row rows db = Inr db' \<Longrightarrow> db_segment_map db' = db_segment_map db"
  by (induction rows arbitrary: db) (auto simp: bindE_Inr_iff insert_ledger_row_def split: if_splits)

lemma savepoint_segment_map:
  "(\<And>db' x. f db = Inr (db', x) \<Longrightarrow> db_segment_map db' = db_segment_map db) \<Longrightarrow>
     db_segment_map (snd (savepoint f db)) = db_segment_map db"
  by (auto simp: savepoint_def split: sum.splits)

lemma or_keep_segment_map:
  "(\<And>db'. r = Inr db' \<Longrightarrow> db_segment_map db' = db_segment_map db) \<Longrightarrow> db_segment_map (or_keep db r) = db_segment_map db"
  by (auto simp: or_keep_def split: sum.splits)

lemma run_op_segment_map:
  assumes "\<And>sid b. op \<noteq> SetSegmentBackend sid b"
  shows "db_segment_map (run_op op db) = db_segment_map db"
proof (cases op)
  case (SetSegmentBackend sid b)
  then show ?thesis using assms by blast
next
  case (DropConversation cid)
  then show ?thesis
    by (auto simp: delete_conversation_def delete_conversation_inner_def Let_def bindE_Inr_iff delete_conversation_row_def
        delete_skeleton_rows_def delete_media_rows_def split: if_splits intro!: savepoint_segment_map)
next
  case (ReplaceLedger rows)
  then show ?thesis
    by (auto simp: replace_backup_segment_ledger_def bindE_Inr_iff dest!: ledger_fold_segment_map intro!: savepoint_segment_map)
next
  case (CompactLedger rows cbor g now)
  then show ?thesis
    by (auto simp: atomic_replace_ledger_and_manifest_def bindE_Inr_iff save_backup_manifest_def
        dest!: ledger_fold_segment_map intro!: savepoint_segment_map)
next
  case (AppendSegment r cbor g c now)
  then show ?thesis
    by (auto simp: atomic_append_segment_and_manifest_def bindE_Inr_iff Let_def save_backup_manifest_def insert_ledger_row_def
        split: if_splits intro!: savepoint_segment_map)
next
  case (SetArchiveState mids st)
  then show ?thesis
    by (auto simp: map_sum_Inr_iff dest!: update_archive_state_Inr intro!: or_keep_segment_map)
next
  case (RehydrateBody mid t st)
  then show ?thesis
    by (cases "get_message_skeleton mid db")
      (simp_all add: rehydrate_message_body_def savepoint_def Let_def delete_fts_row_def
        update_body_state_def upsert_body_text_def update_message_body_text_def)
qed (auto simp: insert_conversation_def insert_message_skeleton_def
    upsert_skeleton_from_archive_def insert_message_body_def insert_media_asset_def
    insert_media_search_index_def insert_backup_event_def Let_def
    update_conversation_pin_def update_conversation_mute_def update_conversation_last_message_def
    update_body_state_def update_message_body_text_def update_skeleton_edited_def
    update_skeleton_deleted_def delete_message_body_def delete_fts_row_def delete_vector_row_def
    update_media_storage_sink_def update_media_state_def
    save_backup_manifest_def map_sum_Inr_iff intro!: or_keep_segment_map split: if_splits)

definition unverified :: "local_db \<Rightarrow> bool" where
  "unverified db \<longleftrightarrow> ArchiveVerified \<notin> sm_state ` set (db_segment_map db)"

lemma compaction_idle:
  assumes "unverified db"
  shows "compact_archive_inner A R router w conv bucket i nonce k keys commit db = (Inr no_archive_compaction, db)"
proof -
  have "eligible_ids (me_show_uuid (al_env A) conv) bucket db = {}"
    using assms by (auto simp: eligible_ids_def unverified_def bucket_rows_def image_iff)
  then show ?thesis by (simp add: compact_archive_inner_def Let_def)
qed

lemma segment_op_unverified:
  assumes "unverified db"
  shows "unverified (run_segment_op A R router w keys op db)"
proof (cases op)
  case (StoreOp sop)
  show ?thesis
  proof (cases "\<exists>sid b. sop = SetSegmentBackend sid b")
    case True
    then show ?thesis
      using assms StoreOp by (auto simp: unverified_def update_segment_storage_backend_def update_where_def image_iff)
  next
    case False
    then show ?thesis using assms StoreOp run_op_segment_map[of sop db] by (simp add: unverified_def)
  qed
next
  case (PersistSegment seg blob_id backend)
  then show ?thesis
    using assms by (auto simp: unverified_def persist_commit_def persist_segment_map_row_def Let_def split: sum.splits if_splits)
next
  case (CompactBucket conv bucket i nonce k blob_id backend)
  then show ?thesis using assms by (simp add: compaction_idle)
qed

text \<open>C29: After any sequence of the operations that write the segment map, on an empty store, no row is
  \<open>archive_verified\<close>: a compaction finds no segment and changes nothing.\<close>

theorem compaction_never_starts:
  "let db = fold (run_segment_op A R router w keys) ops empty_db
   in compact_archive_inner A R' router' w' conv bucket i nonce k keys' (persist_commit A blob backend) db = (Inr no_archive_compaction, db)"
proof -
  have "unverified db \<Longrightarrow> unverified (fold (run_segment_op A R router w keys) ops db)" for db
    by (induction ops arbitrary: db) (auto intro: segment_op_unverified)
  moreover have "unverified empty_db" by (simp add: unverified_def empty_db_def)
  ultimately show ?thesis by (simp add: Let_def compaction_idle)
qed

end
