(* ===== verification/Journal_Drain.thy ===== *)
theory Journal_Drain
  imports Message_Histories Backup_Histories
begin

text \<open>
  The message processor and the backup together: the rows that sending a message writes into the backup
  journal have types the drain skips, and it never moves its cursor past skipped rows alone.
\<close>

definition skipped :: "backup_event \<Rightarrow> bool" where
  "skipped r \<longleftrightarrow> be_event_type r = ''outbox_pending'' \<or> be_event_type r = ''outbox_sent''"

lemma read_skipped: "skipped r \<Longrightarrow> read_row L r = Inr None"
  by (auto simp: skipped_def read_row_def parse_backup_type_def)

lemma drain_skips:
  assumes "list_all skipped (rows_since (read_cursor db) n db)"
  shows "read_unsegmented L n db = Inr []"
proof -
  have "mapE (read_row L) (rows_since (read_cursor db) n db) = Inr (map (\<lambda>_. None) (rows_since (read_cursor db) n db))"
    using assms by (intro mapE_all_ok) (simp add: list_all_iff read_skipped)
  moreover have "List.map_filter id (map (\<lambda>_. None) xs) = []" for xs :: "backup_event list"
    by (induction xs) (simp_all add: map_filter_simps)
  ultimately show ?thesis by (simp add: read_unsegmented_def read_events_since_def)
qed

subsection \<open>Sent messages\<close>

definition sending :: "message_op \<Rightarrow> bool" where
  "sending op = (case op of AddConversation c \<Rightarrow> True | Send e j \<Rightarrow> True | ConfirmSent mid now \<Rightarrow> True | _ \<Rightarrow> False)"

lemma sending_rows:
  assumes "list_all sending ops"
  shows "list_all skipped (db_events (ms_db (fst (messages_after E ops))))"
proof -
  have "fst (messages_after E []) = empty_message_store" by (simp add: messages_after_def)
  then have "list_all skipped (db_events (ms_db (fst (messages_after E []))))"
    by (simp add: empty_message_store_def empty_db_def)
  then have "list_all skipped (db_events (ms_db (fst (messages_after E ([] @ ops)))))"
  proof (rule history_induct[where P = "\<lambda>st. list_all skipped (db_events (ms_db st))"])
    fix op and st :: message_store
    assume st: "list_all skipped (db_events (ms_db st))" and op: "op \<in> set ops"
    show "list_all skipped (db_events (ms_db (snd (run_message E op st))))"
    proof (cases "run_message E op st")
      case (Pair r st')
      show ?thesis
      proof (cases r)
        case (Inl e)
        then show ?thesis using Pair st failed_message_keeps by fastforce
      next
        case (Inr u)
        then obtain evs rows where "journals st st' evs rows" and ty: "map be_event_type evs = op_backup_types op (ms_db st)"
          using journal_types Pair by blast
        moreover have "set (op_backup_types op (ms_db st)) \<subseteq> {''outbox_pending'', ''outbox_sent''}"
          using assms op by (auto simp: list_all_iff sending_def op_backup_types_def split: message_op.splits)
        then have "list_all skipped evs" unfolding ty[symmetric] by (auto simp: list_all_iff skipped_def)
        ultimately show ?thesis using st Pair by (simp add: journals_def)
      qed
    qed
  qed
  then show ?thesis by simp
qed

text \<open>The backup of a device that adds conversations, sends messages and gets them confirmed: an incremental
  run finds nothing to do.  The messages are in the store and in the archive journal, and in no backup
  segment.\<close>

theorem sent_messages_never_backed_up:
  assumes "list_all sending ops"
  shows "run_incremental_backup L i (c\<lparr>bc_db := ms_db (fst (messages_after E ops))\<rparr>) =
     (Inr no_backup, c\<lparr>bc_db := ms_db (fst (messages_after E ops))\<rparr>)"
proof -
  have "set (rows_since a n db) \<subseteq> set (db_events db)" for a n db
    using set_take_subset[of n "sort_key be_event_seq (filter (\<lambda>r. be_event_seq r > a) (db_events db))"]
    by (auto simp: rows_since_def)
  then have "list_all skipped (rows_since a n (ms_db (fst (messages_after E ops))))" for a n
    using sending_rows[OF assms, of E] unfolding list_all_iff by (meson subset_iff)
  then show ?thesis by (simp add: run_incremental_backup_def drain_skips)
qed

subsection \<open>The drain stops\<close>

definition unread :: "local_db \<Rightarrow> backup_event list" where
  "unread db = filter (\<lambda>r. be_event_seq r > read_cursor db) (db_events db)"

definition stalled :: "local_db \<Rightarrow> bool" where
  "stalled db \<longleftrightarrow> journal_in_order db \<and> max_events_per_backup_segment \<le> length (unread db) \<and>
     list_all skipped (take max_events_per_backup_segment (unread db))"

lemma stalled_reads_nothing:
  assumes "stalled (bc_db c)"
  shows "run_incremental_backup L i c = (Inr no_backup, c)"
proof -
  have "list_all skipped (rows_since (read_cursor (bc_db c)) max_events_per_backup_segment (bc_db c))"
    using assms rows_in_order[of "bc_db c"] by (simp add: stalled_def unread_def)
  from drain_skips[OF this] show ?thesis by (simp add: run_incremental_backup_def)
qed

lemma stalled_journal:
  assumes "stalled db"
  shows "stalled (or_keep db (insert_backup_event (r\<lparr>be_event_seq := 0\<rparr>) db))"
proof -
  let ?db' = "or_keep db (insert_backup_event (r\<lparr>be_event_seq := 0\<rparr>) db)"
  have "journal_in_order ?db'"
    using assms by (auto simp: stalled_def journal_in_order_def journal_appends sorted_wrt_append)
  moreover obtain new where "unread ?db' = unread db @ new"
    by (simp add: unread_def read_cursor_def journal_appends)
  ultimately show ?thesis using assms by (auto simp: stalled_def)
qed

lemma stalled_cong:
  "stalled db \<Longrightarrow> db_events db' = db_events db \<Longrightarrow> db_event_seq db' = db_event_seq db \<Longrightarrow>
   db_cursor db' = db_cursor db \<Longrightarrow> stalled db'"
  by (simp add: stalled_def unread_def journal_in_order_def read_cursor_def)

lemma opened_db:
  assumes "open_backup L keys sink db = Inr c'"
  shows "bc_db c' = db"
  using assms by (auto simp: open_backup_def err_simps hydrate_backup_manifest_from_db_def install_backup_keys_def
      split: option.splits if_splits)

lemma stalled_step:
  assumes "stalled (bc_db c)"
  shows "stalled (bc_db (backup_step L keys op c))"
proof (cases op)
  case (Journal r)
  then show ?thesis using stalled_journal[OF assms] by simp
next
  case (RunBackup i)
  then show ?thesis using stalled_reads_nothing[OF assms] assms by simp
next
  case (CompactBackup i)
  obtain r c' where c': "compact_backup L i c = (r, c')" by fastforce
  have "db_events (bc_db c') = db_events (bc_db c) \<and> db_event_seq (bc_db c') = db_event_seq (bc_db c) \<and>
      db_cursor (bc_db c') = db_cursor (bc_db c)"
    using compact_effect[OF c'] by (auto dest: persist_compaction_Inr)
  then show ?thesis using CompactBackup c' stalled_cong[OF assms] by simp
next
  case Restart
  then show ?thesis using assms opened_db by (auto split: sum.splits)
qed

text \<open>C26: Once 4096 rows in a row after the cursor have skipped types, the backup is over: under every later
  history of journal writes, runs, compactions and restarts each incremental run reports that there is
  nothing to back up and changes nothing, whatever typed events the journal has behind those rows.\<close>

theorem backup_stalls:
  assumes "stalled (bc_db c)"
  shows "run_incremental_backup L i (fold (backup_step L keys) ops c) = (Inr no_backup, fold (backup_step L keys) ops c)"
proof -
  have "stalled (bc_db (fold (backup_step L keys) ops c))"
    using assms by (induction ops arbitrary: c) (simp_all add: stalled_step)
  then show ?thesis by (rule stalled_reads_nothing)
qed

subsection \<open>Examples\<close>

text \<open>2048 messages sent and confirmed, then one received: nothing is ever backed up.\<close>

definition sent_row :: "nat \<Rightarrow> backup_event" where
  "sent_row k = \<lparr>be_event_seq = int k, be_event_type = (if odd k then ''outbox_pending'' else ''outbox_sent''),
     be_conversation_id = None, be_message_id = None, be_payload = [], be_created_at_ms = 1000\<rparr>"

definition sent_db :: "nat \<Rightarrow> local_db" where
  "sent_db n = empty_db\<lparr>db_events := map sent_row [1..<Suc n], db_event_seq := int n\<rparr>"

lemma sent_db_stalled:
  assumes "max_events_per_backup_segment \<le> n"
  shows "stalled (sent_db n)"
proof -
  have "sorted_wrt (<) (map be_event_seq (map sent_row xs))" if "sorted_wrt (<) xs" for xs
    using that by (induction xs) (simp_all add: sent_row_def)
  moreover have "sorted_wrt (<) [1..<Suc n]" by (rule sorted_wrt_upt)
  ultimately have order: "journal_in_order (sent_db n)"
    unfolding journal_in_order_def sent_db_def by (auto simp: sent_row_def simp del: upt_Suc)
  have "unread (sent_db n) = map sent_row [1..<Suc n]"
    by (auto simp: unread_def sent_db_def read_cursor_def empty_db_def sent_row_def filter_id_conv simp del: upt_Suc)
  moreover have "list_all skipped (map sent_row xs)" for xs
    by (induction xs) (simp_all add: skipped_def sent_row_def)
  ultimately show ?thesis
    using order assms by (simp add: stalled_def take_map del: upt_Suc)
qed

theorem backup_stalls_witness:
  "run_incremental_backup toy_library toy_inputs
     (fold (backup_step toy_library toy_backup_keys) toy_history ((new_backup toy_backup_keys None)\<lparr>bc_db := sent_db 4096\<rparr>)) =
   (Inr no_backup, fold (backup_step toy_library toy_backup_keys) toy_history ((new_backup toy_backup_keys None)\<lparr>bc_db := sent_db 4096\<rparr>))"
  by (rule backup_stalls) (simp add: sent_db_stalled max_events_per_backup_segment_def)

end
