(* ===== verification/Message_Examples.thy ===== *)
theory Message_Examples
  imports Journal_Drain
begin

text \<open>One concrete library for the message processor, and the properties of \<open>Message_Histories\<close> and
  \<open>Journal_Drain\<close> on small histories over it.\<close>

definition toy_encode_body :: "archive_message_body_payload \<Rightarrow> bytes option" where
  "toy_encode_body p = (if ab_magic p \<noteq> archive_body_payload_magic then None
     else case ab_text_content p of None \<Rightarrow> Some []
       | Some t \<Rightarrow> if list_all (\<lambda>ch. ch < 256) t then Some (1 # map of_nat t) else None)"

definition toy_decode_body :: "bytes \<Rightarrow> archive_message_body_payload option" where
  "toy_decode_body b = Some \<lparr>ab_magic = archive_body_payload_magic,
     ab_text_content = (case b of [] \<Rightarrow> None | _ # t \<Rightarrow> Some (map unat t))\<rparr>"

definition toy_env :: message_env where
  "toy_env = \<lparr>me_unicode = ascii_only, me_show_uuid = show_bits, me_parse_uuid = parse_bits,
     me_encode_body = toy_encode_body, me_decode_body = toy_decode_body, me_embedder = Some (\<lambda>t. Some [1])\<rparr>"

lemma toy_env_sound: "env_sound toy_env"
proof -
  have "map (unat \<circ> (of_nat :: nat \<Rightarrow> byte)) t = t" if "list_all (\<lambda>ch. ch < 256) t" for t
    using that by (induction t) (simp_all add: unat_of_nat)
  then have "toy_decode_body b = Some p" if "toy_encode_body p = Some b" for p b
    using that by (cases p) (auto simp: toy_encode_body_def toy_decode_body_def split: if_splits option.splits)
  then show ?thesis by (simp add: env_sound_def toy_env_def parse_show_bits)
qed

lemma show_bits_inject [simp]: "show_bits u = show_bits v \<longleftrightarrow> u = v"
  by (metis option.inject parse_show_bits)

definition toy_conversation :: conversation where
  "toy_conversation = legacy_conversation (show_bits 3) None False False None 0"

definition toy_message :: ingested_message where
  "toy_message = \<lparr>im_message_id = 5, im_conversation_id = 3, im_sender_id = ''ann'', im_created_at_ms = 1000,
     im_text_content = Some [104, 105], im_media_descriptors = [], im_reply_to = None\<rparr>"

definition toy_photo :: ingested_message where
  "toy_photo = toy_message\<lparr>im_message_id := 6, im_text_content := None,
     im_media_descriptors := [\<lparr>dsc_asset_id = 7, dsc_mime_type = ''image/jpeg'', dsc_bytes_total = 9, dsc_chunk_count = 1,
       dsc_merkle_root = [], dsc_blob_id = 8, dsc_wrapped_k_asset = [], dsc_storage_sink = None\<rparr>]\<rparr>"

definition toy_outgoing :: outbox_entry where
  "toy_outgoing = \<lparr>ob_client_message_id = push_bit 76 7, ob_conversation_id = 3, ob_text_content = [104, 105],
     ob_reply_to = None, ob_created_at_ms = 1000, ob_status = Pending\<rparr>"

lemma toy_tokens: "generate_tokens ascii_only [104, 105] = []"
  by code_simp

lemmas toy_defs = toy_env_def toy_conversation_def toy_message_def toy_photo_def toy_outgoing_def legacy_conversation_def

lemma toy_start: "messages_after toy_env [AddConversation toy_conversation] =
    (empty_message_store\<lparr>ms_db := empty_db\<lparr>db_conversations := [toy_conversation]\<rparr>\<rparr>, Map.empty)"
  by (simp add: messages_after_def message_step_def just_db_def on_db_def insert_conversation_def empty_message_store_def empty_db_def)

lemmas toy_eval = validate_ingest_def skeleton_exists_iff in_savepoint_def savepoint_def Let_def
  persist_ingested_message_def persist_ingested_message_inner_def ingest_skeleton_def on_db_def with_db_def
  insert_message_skeleton_def insert_text_def insert_message_body_def insert_fts_row_def bump_conversation_def
  update_conversation_last_message_def row_count_def insert_backup_event_def journal_entry_def encode_body_payload_def
  write_archive_event_def index_message_def toy_encode_body_def maybe_embed_text_message_def cache_put_def
  empty_message_store_def empty_db_def insert_media_asset_def asset_of_def edit_message_def edit_message_inner_def
  get_message_skeleton_def select_one_def stored_id_def delete_for_everyone_def delete_inner_def delete_inner_tx_def
  update_skeleton_edited_def update_message_body_text_def delete_fts_row_def delete_vector_row_def unindex_message_def
  update_skeleton_deleted_def delete_message_body_def delete_where_def body_try_transition_def list_media_assets_by_message_def
  parse_show_bits toy_tokens

lemma toy_ingest: "\<exists>st1. run_message toy_env (Ingest toy_message 1 2) (fst (messages_after toy_env [AddConversation toy_conversation])) = (Inr (), st1)"
  unfolding toy_start by (simp add: toy_defs toy_eval)

lemma toy_erase: "\<exists>st1. run_message toy_env (EraseForEveryone (show_bits 5) 9)
    (fst (messages_after toy_env ([AddConversation toy_conversation] @ Ingest toy_message 1 2 # []))) = (Inr (), st1)"
  unfolding append_Cons append_Nil using toy_start by (simp add: messages_after_def message_step_def toy_defs toy_eval)

theorem ingest_replay_witness:
  "\<exists>res st'. ingest_messages toy_env [(toy_message, 1, 2)] (fst (messages_after toy_env [AddConversation toy_conversation])) = (Inr res, st') \<and>
     ir_new_messages res = 1 \<and>
     ingest_messages toy_env [(toy_message, 1, 2)] st' = (Inr (no_ingest\<lparr>ir_duplicate_count := 1\<rparr>), st')"
proof -
  have "\<exists>res st'. ingest_messages toy_env [(toy_message, 1, 2)] (fst (messages_after toy_env [AddConversation toy_conversation])) =
      (Inr res, st') \<and> ir_new_messages res = 1"
    unfolding toy_start by (simp add: toy_defs toy_eval ingest_messages_def no_ingest_def)
  then obtain res st' where run: "ingest_messages toy_env [(toy_message, 1, 2)]
      (fst (messages_after toy_env [AddConversation toy_conversation])) = (Inr res, st')" and one: "ir_new_messages res = 1"
    by blast
  show ?thesis using ingest_replay[OF run] run one by auto
qed

theorem erased_text_stays_in_archive_witness:
  "\<exists>st2 row. run_message toy_env (EraseForEveryone (show_bits 5) 9)
       (fst (messages_after toy_env ([AddConversation toy_conversation] @ Ingest toy_message 1 2 # []))) = (Inr (), st2) \<and>
     get_message_body (show_bits 5) (ms_db st2) = None \<and> row \<in> set (ms_archive st2) \<and>
     try_decode_text toy_env (ar_payload row) = Some [104, 105]"
proof -
  obtain st1 where ingest: "run_message toy_env (Ingest toy_message 1 2)
      (fst (messages_after toy_env [AddConversation toy_conversation])) = (Inr (), st1)"
    using toy_ingest by blast
  obtain st2 where erase: "run_message toy_env (EraseForEveryone (show_bits 5) 9)
      (fst (messages_after toy_env ([AddConversation toy_conversation] @ Ingest toy_message 1 2 # []))) = (Inr (), st2)"
    using toy_erase by blast
  have "im_text_content toy_message = Some [104, 105]" "show_bits 5 = me_show_uuid toy_env (im_message_id toy_message)"
    by (simp_all add: toy_defs)
  from erased_text_stays_in_archive[OF toy_env_sound this ingest erase] show ?thesis using erase by auto
qed

theorem edit_without_body_not_stored_witness:
  "\<exists>st'. run_message toy_env (EditText (show_bits 6) [104, 105] 9)
       (fst (messages_after toy_env [AddConversation toy_conversation, Ingest toy_photo 1 2])) = (Inr (), st') \<and>
     get_message_body (show_bits 6) (ms_db st') = None \<and>
     (\<exists>f. f \<in> set (db_fts (ms_db st')) \<and> ft_message_id f = show_bits 6 \<and> ft_text f = [104, 105])"
proof -
  have "\<exists>st'. run_message toy_env (EditText (show_bits 6) [104, 105] 9)
       (fst (messages_after toy_env [AddConversation toy_conversation, Ingest toy_photo 1 2])) = (Inr (), st')"
    using toy_start by (simp add: messages_after_def message_step_def toy_defs toy_eval)
  then obtain st' where edit: "run_message toy_env (EditText (show_bits 6) [104, 105] 9)
       (fst (messages_after toy_env [AddConversation toy_conversation, Ingest toy_photo 1 2])) = (Inr (), st')"
    by blast
  have "get_message_body (show_bits 6) (ms_db (fst (messages_after toy_env [AddConversation toy_conversation, Ingest toy_photo 1 2]))) = None"
    using toy_start by (simp add: messages_after_def message_step_def toy_defs toy_eval get_message_body_def)
  from edit_without_body_not_stored[OF this edit] show ?thesis using edit by auto
qed

theorem edited_message_never_embedded_witness:
  "\<exists>st'. run_message toy_env (EditText (show_bits 5) [104, 105] 9)
       (fst (messages_after toy_env [AddConversation toy_conversation, Ingest toy_message 1 2])) = (Inr (), st') \<and>
     show_bits 5 \<notin> vr_message_id ` set (db_vectors (ms_db (fst (messages_after toy_env
       ([AddConversation toy_conversation, Ingest toy_message 1 2] @ EditText (show_bits 5) [104, 105] 9 # [Ingest toy_message 3 4])))))"
proof -
  have "\<exists>st'. run_message toy_env (EditText (show_bits 5) [104, 105] 9)
       (fst (messages_after toy_env [AddConversation toy_conversation, Ingest toy_message 1 2])) = (Inr (), st')"
    using toy_start by (simp add: messages_after_def message_step_def toy_defs toy_eval)
  then obtain st' where edit: "run_message toy_env (EditText (show_bits 5) [104, 105] 9)
       (fst (messages_after toy_env [AddConversation toy_conversation, Ingest toy_message 1 2])) = (Inr (), st')"
    by blast
  show ?thesis using edit edited_message_never_embedded[OF edit, of "[Ingest toy_message 3 4]"] by blast
qed

theorem sent_messages_never_backed_up_witness:
  "let ops = [AddConversation toy_conversation, Send toy_outgoing 5, ConfirmSent (show_bits (push_bit 76 7)) 6];
       db = ms_db (fst (messages_after toy_env ops)); c = (new_backup toy_backup_keys None)\<lparr>bc_db := db\<rparr>
   in length (db_skeletons db) = 1 \<and> map be_event_type (db_events db) = [''outbox_pending'', ''outbox_sent''] \<and>
      run_incremental_backup toy_library toy_inputs c = (Inr no_backup, c)"
proof -
  let ?ops = "[AddConversation toy_conversation, Send toy_outgoing 5, ConfirmSent (show_bits (push_bit 76 7)) 6]"
  have "get_version_num (push_bit 76 7) = 7" by code_simp
  then have "length (db_skeletons (ms_db (fst (messages_after toy_env ?ops)))) = 1 \<and>
      map be_event_type (db_events (ms_db (fst (messages_after toy_env ?ops)))) = [''outbox_pending'', ''outbox_sent'']"
    using toy_start by (simp add: messages_after_def message_step_def toy_defs toy_eval persist_outbox_entry_def
        persist_outbox_entry_inner_def outbox_skeleton_def mark_sent_def)
  moreover have "list_all sending ?ops" by (simp add: sending_def)
  note sent_messages_never_backed_up[OF this, where L = toy_library and i = toy_inputs and c = "new_backup toy_backup_keys None" and E = toy_env]
  ultimately show ?thesis unfolding Let_def by blast
qed

end
