(* ===== verification/Archive_Examples.thy ===== *)
theory Archive_Examples
  imports Archive_Compaction Message_Examples
begin

text \<open>One concrete archive, with a service that keeps what it is sent, and the properties of \<open>Archive_Facts\<close>,
  \<open>Rehydration_Facts\<close> and \<open>Archive_Compaction\<close> on it.\<close>

subsection \<open>The library and the service\<close>

definition toy_received :: "uuid \<Rightarrow> archive_event" where
  "toy_received mid = \<lparr>ae_event_type = AMessageReceived, ae_conversation_id = 3, ae_message_id = Some mid,
     ae_payload = [1, 104, 105], ae_created_at_ms = 1000\<rparr>"

definition toy_deleted :: archive_event where
  "toy_deleted = (toy_received 5)\<lparr>ae_event_type := AMessageDeleted, ae_payload := []\<rparr>"

definition toy_bucket :: string where "toy_bucket = default_time_bucket_for_ms 1000"

definition toy_segment_payload :: "archive_event list \<Rightarrow> archive_segment_payload" where
  "toy_segment_payload es = \<lparr>sp_magic = archive_segment_payload_magic, sp_conversation_id = show_bits 3,
     sp_time_bucket = toy_bucket, sp_events = es\<rparr>"

text \<open>The events of the two segments, and those that survive their compaction.\<close>

definition toy_first :: "archive_event list" where "toy_first = [toy_received 5, toy_received 6]"
definition toy_second :: "archive_event list" where "toy_second = [toy_received 5, toy_deleted]"
definition toy_rest :: "archive_event list" where "toy_rest = [toy_received 6]"

lemma toy_events_differ: "toy_segment_payload toy_first \<noteq> toy_segment_payload toy_second" "toy_segment_payload toy_rest \<noteq> toy_segment_payload toy_first"
    "toy_segment_payload toy_rest \<noteq> toy_segment_payload toy_second"
  by (simp_all add: toy_segment_payload_def toy_first_def toy_second_def toy_rest_def toy_deleted_def toy_received_def)

definition toy_archive :: archive_library where
  "toy_archive = \<lparr>al_env = toy_env, al_crypto = tag_crypto, al_keys = toy_keys,
     al_encode = (\<lambda>p. if p = toy_segment_payload toy_first then Some [1] else if p = toy_segment_payload toy_second then Some [2]
       else if p = toy_segment_payload toy_rest then Some [3] else None),
     al_decode = (\<lambda>b. if b = [1] then Some (toy_segment_payload toy_first) else if b = [2] then Some (toy_segment_payload toy_second)
       else if b = [3] then Some (toy_segment_payload toy_rest) else None),
     al_compress = (\<lambda>b. if length b < 2 ^ 38 then Some b else None), al_decompress = Some\<rparr>"

lemma toy_archive_sel [simp]: "al_env toy_archive = toy_env" "al_crypto toy_archive = tag_crypto" "al_keys toy_archive = toy_keys"
  by (simp_all add: toy_archive_def)

lemma toy_archive_sound: "archive_sound toy_archive"
proof -
  have "length (cr_blake3 tag_crypto b) = 32" for b by (simp add: tag_crypto_def toy_crypto_def min_def)
  then show ?thesis
    unfolding archive_sound_def toy_archive_sel
    by (auto simp: toy_env_sound toy_keys_sound tag_crypto_sound toy_archive_def split: if_splits)
qed

text \<open>The service keeps objects and uploaded chunks under their names.\<close>

type_synonym toy_store = "string \<Rightarrow> bytes option"

definition toy_remote :: "toy_store remote" where
  "toy_remote = \<lparr>rm_init_blob_upload = (\<lambda>n root w. (Inr ''blob'', w)),
     rm_upload_chunk = (\<lambda>h i c sha w. (Inr (), w(h \<mapsto> c))),
     rm_commit_blob = (\<lambda>h w. case w h of None \<Rightarrow> (Inl (StorageFailure ''missing''), w) | Some c \<Rightarrow> (Inr (cr_blake3 tag_crypto c), w)),
     rm_fetch_archive_segment = (\<lambda>i w. case w i of None \<Rightarrow> Inl (StorageFailure ''missing'') | Some c \<Rightarrow> Inr c),
     rm_put_object = (\<lambda>b k x w. (Inr (), w(b @ k \<mapsto> x))),
     rm_get_object = (\<lambda>b k w. case w (b @ k) of None \<Rightarrow> Inl (StorageFailure ''missing'') | Some c \<Rightarrow> Inr c)\<rparr>"

definition toy_nonce :: bytes where "toy_nonce = replicate 24 9"

definition toy_segment :: "uuid \<Rightarrow> archive_event list \<Rightarrow> built_archive_segment" where
  "toy_segment i es = (case build_segment toy_archive i toy_nonce (message_delta 3 toy_bucket es) toy_root of
     Inr seg \<Rightarrow> seg | Inl e \<Rightarrow> undefined)"

lemma payload_of_toy: "payload_of toy_archive (message_delta 3 toy_bucket es) = toy_segment_payload es"
  by (simp add: payload_of_def message_delta_def toy_segment_payload_def toy_env_def)

lemma toy_built:
  assumes "es = toy_first \<or> es = toy_second \<or> es = toy_rest"
  shows "build_segment toy_archive i toy_nonce (message_delta 3 toy_bucket es) toy_root = Inr (toy_segment i es)"
proof -
  have "es \<noteq> []" using assms by (auto simp: toy_first_def toy_second_def toy_rest_def)
  moreover have "al_encode toy_archive (toy_segment_payload es) \<noteq> None" using assms by (auto simp: toy_archive_def)
  moreover have "length (the (al_encode toy_archive (toy_segment_payload es))) < 2 ^ 38"
    using assms by (auto simp: toy_archive_def toy_events_differ)
  then have "al_compress toy_archive (the (al_encode toy_archive (toy_segment_payload es))) \<noteq> None"
    by (simp add: toy_archive_def)
  ultimately have "\<exists>seg. build_segment toy_archive i toy_nonce (message_delta 3 toy_bucket es) toy_root = Inr seg"
    using payload_of_toy[of es]
    by (auto simp: build_segment_def payload_of_def message_delta_def is_archive_segment_def is_backup_segment_def
        Let_def bindE_def aead_seal_def tag_crypto_def)
  then show ?thesis by (auto simp: toy_segment_def)
qed

lemma toy_parts: "segment_parts_ok toy_archive i toy_nonce req" "length toy_root = 32"
  by (auto simp: segment_parts_ok_def toy_nonce_def toy_archive_def toy_root_def split: if_splits)

subsection \<open>Segments and uploads\<close>

theorem segment_opens_witness:
  "decrypt_segment toy_archive (toy_segment 11 toy_first) toy_root = Inr (toy_segment_payload toy_first)"
  using segment_opens[OF toy_archive_sound toy_parts toy_built, of toy_first] by (simp add: payload_of_toy)

definition toy_adapter :: s3_zkof_archive_adapter where
  "toy_adapter = \<lparr>za_config = \<lparr>zf_endpoint_url = ''https://s3'', zf_access_key = ''a'', zf_secret_key = ''s'',
     zf_bucket = ''kchat''\<rparr>, za_tenant_id = ''acme''\<rparr>"


lemma toy_ciphertext: "bs_ciphertext (toy_segment 11 toy_first) = replicate 16 0 @ [1]"
proof -
  have "toy_first = toy_first \<or> toy_first = toy_second \<or> toy_first = toy_rest" by simp
  from toy_built[OF this, of 11] obtain cbor z c where "al_encode toy_archive (toy_segment_payload toy_first) = Some cbor"
      "al_compress toy_archive cbor = Some z"
      "cr_seal tag_crypto toy_root toy_nonce z (archive_segment_aad 11 (cr_blake3 tag_crypto cbor)) = Some c"
      "bs_ciphertext (toy_segment 11 toy_first) = c"
    by (elim build_segmentE) (simp add: payload_of_toy)
  then show ?thesis by (auto simp: toy_archive_def tag_crypto_def split: if_splits)
qed

theorem kchat_upload_lacks_header_witness:
  "\<exists>w'. route_archive_upload toy_archive toy_remote KChat toy_adapter (toy_segment 11 toy_first) Map.empty = (Inr ''blob'', w') \<and>
     router_fetch toy_remote None KChatBackend ''blob'' w' = Inr (bs_ciphertext (toy_segment 11 toy_first)) \<and>
     decode_archive_segment_blob (bs_ciphertext (toy_segment 11 toy_first)) = Inl (StorageFailure ''archive segment blob too short'') \<and>
     length (bs_ciphertext (toy_segment 11 toy_first)) = 17"
proof -
  let ?c = "bs_ciphertext (toy_segment 11 toy_first)" and ?w = "[''blob'' \<mapsto> bs_ciphertext (toy_segment 11 toy_first)]"
  have up: "route_archive_upload toy_archive toy_remote KChat toy_adapter (toy_segment 11 toy_first) Map.empty = (Inr ''blob'', ?w)"
    by (simp add: route_archive_upload_def upload_archive_segment_def Let_def toy_remote_def)
  have served: "rm_fetch_archive_segment toy_remote ''blob'' ?w = Inr ?c" by (simp add: toy_remote_def)
  have "length ?c = 17" by (simp add: toy_ciphertext)
  moreover from this have "decode_archive_segment_blob ?c = Inl (StorageFailure ''archive segment blob too short'')"
    by (simp add: decode_archive_segment_blob_def archive_segment_blob_header_len_def)
  ultimately show ?thesis
    using kchat_upload_lacks_header[OF served up, where cfg = None] up served
    by (intro exI[of _ ?w]) (simp add: router_fetch_def)
qed

subsection \<open>Rows\<close>

definition toy_row :: "string \<Rightarrow> archive_state \<Rightarrow> segment_map_row" where
  "toy_row sid st = \<lparr>sm_segment_id = sid, sm_conversation_id = show_bits 3, sm_time_bucket = toy_bucket,
     sm_segment_type = ''message_delta'', sm_blob_id = sid, sm_storage_backend = ''kchat_backend'', sm_merkle_root = [], sm_state = st\<rparr>"

definition toy_rows_db :: local_db where
  "toy_rows_db = empty_db\<lparr>db_segment_map := [toy_row (show_bits 11) ArchiveVerified, toy_row (show_bits 12) ArchiveVerified]\<rparr>"

definition toy_served :: toy_store where
  "toy_served = [show_bits 11 \<mapsto> segment_blob (toy_segment 11 toy_first), show_bits 12 \<mapsto> segment_blob (toy_segment 12 toy_second)]"

lemma toy_bucket_rows: "bucket_rows (show_bits 3) toy_bucket toy_rows_db = db_segment_map toy_rows_db"
  by (simp add: bucket_rows_def toy_rows_db_def toy_row_def)

lemma toy_backend [simp]: "backend_or_default ''kchat_backend'' = KChatBackend"
  by (simp add: backend_or_default_def parse_backend_def)

lemma toy_keys_distinct: "distinct (map sm_segment_id (db_segment_map toy_rows_db))"
  by (simp add: toy_rows_db_def toy_row_def)

theorem padding_is_transparent_witness:
  "\<exists>segs. batch_prefetch_bucket_with_padding toy_remote HighPrivacy [''d''] rev (show_bits 3) toy_bucket toy_rows_db toy_served = Inr segs \<and>
     length segs = 2"
proof -
  obtain segs where segs: "batch_prefetch_bucket toy_remote (show_bits 3) toy_bucket toy_rows_db toy_served = Inr segs" "length segs = 2"
    by (simp add: batch_prefetch_bucket_def toy_bucket_rows ensure_all_kchat_backend_def)
      (simp add: toy_rows_db_def toy_row_def toy_remote_def toy_served_def)
  have "length (show_bits 11) \<noteq> 1" "length (show_bits 12) \<noteq> 1" by (simp_all add: show_bits_def)
  then have "set [''d''] \<inter> sm_segment_id ` set (db_segment_map toy_rows_db) = {}" by (auto simp: toy_rows_db_def toy_row_def)
  from padding_is_transparent[OF toy_keys_distinct this _ segs(1), of rev HighPrivacy]
  obtain segs' where "batch_prefetch_bucket_with_padding toy_remote HighPrivacy [''d''] rev (show_bits 3) toy_bucket toy_rows_db toy_served = Inr segs'"
      "mset segs' = mset segs"
    by auto
  then show ?thesis using segs(2) by (metis size_mset)
qed

subsection \<open>Hydration\<close>

lemma shows_segment_map:
  assumes "shows_messages uc db M"
  shows "shows_messages uc (db\<lparr>db_segment_map := rows\<rparr>) M"
  using assms unindexed_update_wf[OF showsD(1)[OF assms]] index_is_cong[of "db\<lparr>db_segment_map := rows\<rparr>" db]
  by (simp add: shows_messages_def get_message_skeleton_def)

text \<open>A message that was received and then erased, and the row of a segment that holds both events.\<close>

definition toy_erased :: "message_store \<times> message_map" where
  "toy_erased = messages_after toy_env [AddConversation toy_conversation, Ingest toy_message 1 2, EraseForEveryone (show_bits 5) 9]"

definition toy_cold_store :: message_store where
  "toy_cold_store = (fst toy_erased)\<lparr>ms_db := (ms_db (fst toy_erased))\<lparr>db_segment_map := [toy_row (show_bits 12) ArchiveUploaded]\<rparr>\<rparr>"

definition toy_hit :: cold_hit where
  "toy_hit = \<lparr>ch_message_id = 5, ch_conversation_id = 3, ch_created_at_ms = 1000, ch_is_cold = True\<rparr>"

lemma toy_env_sel [simp]: "me_show_uuid toy_env = show_bits" "me_unicode toy_env = ascii_only"
  by (simp_all add: toy_env_def)

lemma toy_cold_shows: "shows_messages (me_unicode (al_env toy_archive)) (ms_db toy_cold_store) (snd toy_erased)"
  using shows_segment_map[OF history_shows[of toy_env "[AddConversation toy_conversation, Ingest toy_message 1 2, EraseForEveryone (show_bits 5) 9]"]]
  by (simp add: toy_cold_store_def toy_erased_def)

lemma toy_erased_view:
  obtains v where "snd toy_erased (show_bits 5) = Some v" "mv_state v = DeletedForEveryone"
proof -
  have "\<exists>v. snd toy_erased (show_bits 5) = Some v \<and> mv_state v = DeletedForEveryone"
    by (simp add: toy_erased_def messages_after_def message_step_def toy_defs toy_eval delete_view_def view_of_def just_db_def insert_conversation_def)
  then show thesis using that by blast
qed

theorem hydration_refines_map_witness:
  "\<exists>ps r ms'. hydrate_cold_search_results toy_archive toy_remote KChat None (\<lambda>_. Inr toy_root) toy_served [toy_hit] toy_cold_store = (r, ms') \<and>
     shows_messages ascii_only (ms_db ms') (spec_hydrate toy_env ps (snd toy_erased)) \<and> script_for [toy_hit] ps"
proof -
  obtain r ms' where run: "hydrate_cold_search_results toy_archive toy_remote KChat None (\<lambda>_. Inr toy_root) toy_served [toy_hit] toy_cold_store = (r, ms')"
    by fastforce
  then show ?thesis
    using hydration_refines_map[OF toy_cold_shows, where R = toy_remote and backend = KChat and installed = None and keys = "\<lambda>_. Inr toy_root" and w = toy_served and hits = "[toy_hit]"]
    by auto
qed

theorem hydration_restores_text_witness:
  "\<exists>v ms'. snd toy_erased (show_bits 5) = Some v \<and> mv_state v = DeletedForEveryone \<and>
     hydrate_cold_search_results toy_archive toy_remote KChat None (\<lambda>_. Inr toy_root) toy_served [toy_hit] toy_cold_store = (Inr 1, ms') \<and>
     shows_messages ascii_only (ms_db ms') ((snd toy_erased)(show_bits 5 \<mapsto> hydrated_view [104, 105] v))"
proof -
  obtain v where v: "snd toy_erased (show_bits 5) = Some v" "mv_state v = DeletedForEveryone" by (rule toy_erased_view)
  have row: "bucket_rows (me_show_uuid (al_env toy_archive) 3) (default_time_bucket_for_ms 1000) (ms_db toy_cold_store) = [toy_row (show_bits 12) ArchiveUploaded]"
    by (simp add: bucket_rows_def toy_cold_store_def toy_row_def toy_bucket_def)
  have served: "rm_fetch_archive_segment toy_remote (sm_segment_id (toy_row (show_bits 12) ArchiveUploaded)) toy_served =
      Inr (segment_blob (toy_segment 12 toy_second))"
    "sm_storage_backend (toy_row (show_bits 12) ArchiveUploaded) = ''kchat_backend''"
    by (simp_all add: toy_remote_def toy_served_def toy_row_def)
  have body: "bodies_of (al_env toy_archive) 3 {5} toy_second = [] @ [(5, [104, 105])]"
    by (simp add: toy_second_def toy_received_def toy_deleted_def event_body_def try_decode_text_def toy_env_def toy_decode_body_def)
  have built: "build_segment toy_archive 12 toy_nonce (message_delta 3 (default_time_bucket_for_ms 1000) toy_second) toy_root =
      Inr (toy_segment 12 toy_second)"
    using toy_built[of toy_second 12] by (simp add: toy_bucket_def)
  show ?thesis
    using hydration_restores_text[OF toy_cold_shows _ toy_archive_sound toy_parts built row served _ body] v
    by (simp add: toy_hit_def)
qed

subsection \<open>Compaction\<close>

lemma toy_compaction:
  obtains res db' where "compact_archive_inner toy_archive toy_remote None toy_served 3 toy_bucket 13 toy_nonce toy_root
      (\<lambda>_. Inr toy_root) (persist_commit toy_archive ''b'' ''kchat_backend'') toy_rows_db = (Inr res, db')"
    "cr_buckets_compacted res = 1"
proof -
  have opened: "open_prefetched toy_archive (\<lambda>_. Inr toy_root) (prefetched r (segment_blob (toy_segment i es))) = Inr (toy_segment_payload es)"
    if "es = toy_first \<or> es = toy_second" for r i es
  proof -
    have "es = toy_first \<or> es = toy_second \<or> es = toy_rest" using that by blast
    from opened_segment(1)[OF toy_archive_sound toy_parts toy_built[OF this, of i]] show ?thesis
      by (auto simp: open_prefetched_def prefetched_def payload_of_toy)
  qed
  have eligible: "eligible_ids (show_bits 3) toy_bucket toy_rows_db = {show_bits 11, show_bits 12}"
    by (simp add: eligible_ids_def toy_bucket_rows del: set_filter) (simp add: toy_rows_db_def toy_row_def del: set_filter)
  have fetched: "batch_prefetch_bucket_with_router toy_remote None (show_bits 3) toy_bucket toy_rows_db toy_served =
      Inr [prefetched (toy_row (show_bits 11) ArchiveVerified) (segment_blob (toy_segment 11 toy_first)),
           prefetched (toy_row (show_bits 12) ArchiveVerified) (segment_blob (toy_segment 12 toy_second))]"
    by (simp add: batch_prefetch_bucket_with_router_def toy_bucket_rows)
      (simp add: toy_rows_db_def toy_row_def router_fetch_def toy_remote_def toy_served_def)
  have rest: "apply_archive_tombstones (toy_first @ toy_second) = toy_rest"
    by (simp add: archive_tombstones_spec spec_survivors_def toy_first_def toy_second_def toy_rest_def toy_received_def toy_deleted_def
        is_archive_tombstone_def buries_def)
  have built: "build_segment toy_archive 13 toy_nonce (message_delta 3 toy_bucket toy_rest) toy_root = Inr (toy_segment 13 toy_rest)"
    by (rule toy_built) simp
  have "bs_segment_id (toy_segment 13 toy_rest) = 13" using built by (rule build_segmentE) simp
  then have "\<exists>db1. persist_segment_map_row toy_archive (toy_segment 13 toy_rest) ''b'' ''kchat_backend'' toy_rows_db = Inr db1"
    by (simp add: persist_segment_map_row_def Let_def toy_rows_db_def toy_row_def)
  then obtain db1 where "persist_segment_map_row toy_archive (toy_segment 13 toy_rest) ''b'' ''kchat_backend'' toy_rows_db = Inr db1" by blast
  then have "\<exists>res db'. compact_archive_inner toy_archive toy_remote None toy_served 3 toy_bucket 13 toy_nonce toy_root
      (\<lambda>_. Inr toy_root) (persist_commit toy_archive ''b'' ''kchat_backend'') toy_rows_db = (Inr res, db') \<and> cr_buckets_compacted res = 1"
    using rest built
    by (simp add: compact_archive_inner_def Let_def eligible fetched opened persist_commit_def)
      (simp add: prefetched_def toy_row_def opened toy_segment_payload_def toy_rest_def persist_commit_def)
  then show thesis using that by blast
qed

theorem compaction_reseals_witness:
  "\<exists>res db'. compact_archive_inner toy_archive toy_remote None toy_served 3 toy_bucket 13 toy_nonce toy_root
      (\<lambda>_. Inr toy_root) (persist_commit toy_archive ''b'' ''kchat_backend'') toy_rows_db = (Inr res, db') \<and>
     take 2 (map sm_state (db_segment_map db')) = [ArchiveCompacted, ArchiveCompacted]"
proof -
  obtain res db' where run: "compact_archive_inner toy_archive toy_remote None toy_served 3 toy_bucket 13 toy_nonce toy_root
      (\<lambda>_. Inr toy_root) (persist_commit toy_archive ''b'' ''kchat_backend'') toy_rows_db = (Inr res, db')"
    and one: "cr_buckets_compacted res = 1"
    by (rule toy_compaction)
  have small: "\<forall>cbor z. al_compress toy_archive cbor = Some z \<longrightarrow> length z < 2 ^ 38"
    by (auto simp: toy_archive_def split: if_splits)
  have "length toy_nonce = 24" by (simp add: toy_nonce_def)
  from compaction_reseals[OF toy_archive_sound toy_parts(2) this small run one toy_keys_distinct]
  obtain rows where "db_segment_map db' = map (compacted_row (show_bits 3) toy_bucket) (db_segment_map toy_rows_db) @ rows" by auto
  then have "take 2 (map sm_state (db_segment_map db')) = [ArchiveCompacted, ArchiveCompacted]"
    by (simp add: toy_rows_db_def toy_row_def compacted_row_def)
  then show ?thesis using run by blast
qed

end
