(* ===== verification/Scheduler.thy ===== *)
theory Scheduler
  imports Prelude "HOL-Library.Multiset"
begin

text \<open>
  The scheduler: task types, descriptors and constraints (\<open>scheduler/mod.rs\<close>) and the thread-per-task scheduler of
  \<open>scheduler/in_process.rs\<close>.  The one-off queue is a list.  The recurring tasks are a step relation: the threads
  that were spawned, the map of workers, and the calls of \<open>cancel_all\<close> in progress, any of which may step
  next; a thread's deadline may pass at any time, so every interval is covered.  Handlers are names; a handler returns, with
  or without an error, and does not panic.
\<close>

subsection \<open>Descriptors\<close>

datatype task_type = IncrementalBackup | ArchiveCompaction | IndexMaintenance | MediaCacheEviction | ModelWarmup | ShardCacheWarming

primrec default_task_id :: "task_type \<Rightarrow> string" where
  "default_task_id IncrementalBackup = ''kchat.scheduler.incremental_backup''"
| "default_task_id ArchiveCompaction = ''kchat.scheduler.archive_compaction''"
| "default_task_id IndexMaintenance = ''kchat.scheduler.index_maintenance''"
| "default_task_id MediaCacheEviction = ''kchat.scheduler.media_cache_eviction''"
| "default_task_id ModelWarmup = ''kchat.scheduler.model_warmup''"
| "default_task_id ShardCacheWarming = ''kchat.scheduler.shard_cache_warming''"

record scheduled_task =
  st_task_id :: string
  st_task_type :: task_type
  st_interval_ms :: "64 word"
  st_last_run_ms :: "int option"
  st_next_run_ms :: int

definition i64_max :: int where "i64_max = 2 ^ 63 - 1"
definition i64_min :: int where "i64_min = - (2 ^ 63)"

definition new_scheduled_task :: "task_type \<Rightarrow> 64 word \<Rightarrow> int \<Rightarrow> scheduled_task" where
  "new_scheduled_task ty interval_ms now_ms =
     (let interval_i64 = (if uint interval_ms \<le> i64_max then uint interval_ms else i64_max)
      in \<lparr>st_task_id = default_task_id ty, st_task_type = ty, st_interval_ms = interval_ms, st_last_run_ms = None,
          st_next_run_ms = max i64_min (min i64_max (now_ms + interval_i64))\<rparr>)"

record media_migration_plan_snapshot =
  mp_source_sink :: string
  mp_target_sink :: string
  mp_item_count :: nat

datatype one_off_task =
    MediaMigration media_migration_plan_snapshot
  | ShardWarming "string list" "string list"

record task_constraints =
  tc_require_wifi :: bool
  tc_require_charging :: bool
  tc_require_idle :: bool
  tc_max_retry_count :: nat

definition default_constraints :: task_constraints where
  "default_constraints = \<lparr>tc_require_wifi = False, tc_require_charging = False, tc_require_idle = False, tc_max_retry_count = 3\<rparr>"

definition wifi_and_charging :: task_constraints where
  "wifi_and_charging = \<lparr>tc_require_wifi = True, tc_require_charging = True, tc_require_idle = False, tc_max_retry_count = 3\<rparr>"

record resource_probe =
  rp_has_wifi :: bool
  rp_is_charging :: bool
  rp_is_idle :: bool

definition satisfies :: "resource_probe \<Rightarrow> task_constraints \<Rightarrow> bool" where
  "satisfies p c =
     (if tc_require_wifi c \<and> \<not> rp_has_wifi p then False
      else if tc_require_charging c \<and> \<not> rp_is_charging p then False
      else if tc_require_idle c \<and> \<not> rp_is_idle p then False
      else True)"

subsection \<open>One-off tasks\<close>

type_synonym one_off_entry = "one_off_task \<times> task_constraints"

definition schedule_one_off_task :: "one_off_task \<Rightarrow> task_constraints \<Rightarrow> one_off_entry list \<Rightarrow> one_off_entry list" where
  "schedule_one_off_task task constraints q = q @ [(task, constraints)]"

definition pending_one_off_count :: "one_off_entry list \<Rightarrow> nat" where
  "pending_one_off_count q = length q"

text \<open>The handler's results are dropped; the entries it is run on are returned with the count.\<close>

definition run_pending_one_off_tasks ::
  "bool \<Rightarrow> resource_probe \<Rightarrow> one_off_entry list \<Rightarrow> nat \<times> one_off_entry list \<times> one_off_entry list" where
  "run_pending_one_off_tasks has_handler probe q =
     (let ready = filter (\<lambda>e. satisfies probe (snd e)) q;
          deferred = filter (\<lambda>e. \<not> satisfies probe (snd e)) q
      in if has_handler then (length ready, ready, deferred) else (0, [], deferred @ ready))"

datatype one_off_op = Enqueue one_off_task task_constraints | Drain bool resource_probe

text \<open>The queue and everything handed to the handler so far.\<close>

fun run_one_off :: "one_off_op \<Rightarrow> one_off_entry list \<times> one_off_entry list \<Rightarrow> one_off_entry list \<times> one_off_entry list" where
  "run_one_off (Enqueue t c) (q, executed) = (schedule_one_off_task t c q, executed)"
| "run_one_off (Drain h p) (q, executed) = (case run_pending_one_off_tasks h p q of (n, now, q') \<Rightarrow> (q', executed @ now))"

definition enqueued :: "one_off_op list \<Rightarrow> one_off_entry list" where
  "enqueued ops = List.map_filter (\<lambda>op. case op of Enqueue t c \<Rightarrow> Some (t, c) | Drain h p \<Rightarrow> None) ops"

text \<open>Every one-off task handed in is, after any sequence of calls, either still queued or has been handed to the
  handler, exactly once; a drain with a handler runs the tasks whose constraints hold and only them, and keeps
  the others in order.\<close>

theorem one_off_tasks_run_once:
  "case fold run_one_off ops ([], []) of (q, executed) \<Rightarrow>
     mset q + mset executed = mset (enqueued ops) \<and>
     (case run_pending_one_off_tasks True p q of (n, now, q') \<Rightarrow>
        n = length now \<and> now = filter (\<lambda>e. satisfies p (snd e)) q \<and> q' = filter (\<lambda>e. \<not> satisfies p (snd e)) q)"
proof -
  have "case fold run_one_off ops (q0, r0) of (q, executed) \<Rightarrow> mset q + mset executed = mset q0 + mset r0 + mset (enqueued ops)" for q0 r0
  proof (induction ops arbitrary: q0 r0)
    case (Cons x xs)
    obtain q1 r1 where one: "run_one_off x (q0, r0) = (q1, r1)" by fastforce
    have "mset q1 + mset r1 = mset q0 + mset r0 + mset (enqueued [x])"
      using one by (cases x)
        (auto simp: schedule_one_off_task_def enqueued_def map_filter_simps run_pending_one_off_tasks_def Let_def
          multiset_partition split: if_splits)
    moreover have "enqueued (x # xs) = enqueued [x] @ enqueued xs"
      by (simp add: enqueued_def map_filter_simps split: option.split)
    ultimately show ?case using Cons[of q1 r1] one by (auto split: prod.splits)
  qed (simp add: enqueued_def map_filter_simps)
  from this[of "[]" "[]"] show ?thesis by (auto simp: run_pending_one_off_tasks_def Let_def split: prod.splits)
qed

subsection \<open>Recurring tasks\<close>

record task_state =
  ts_shutdown :: bool
  ts_tick_count :: nat

datatype worker_phase = Sleeping | RunningHandler | Exited

record worker =
  wk_task :: task_type
  wk_handler :: "string option"
  wk_state :: task_state
  wk_phase :: worker_phase

text \<open>A call of \<open>cancel_all\<close>: the workers it still has to signal, after the one it is joining.\<close>

record cancel_call =
  cc_joining :: "nat option"
  cc_rest :: "nat list"

record scheduler =
  sc_handlers :: "task_type \<Rightarrow> string option"
  sc_workers :: "task_type \<Rightarrow> nat option"
  sc_threads :: "worker list"
  sc_cancels :: "cancel_call list"

definition new_scheduler :: scheduler where
  "new_scheduler = \<lparr>sc_handlers = Map.empty, sc_workers = Map.empty, sc_threads = [], sc_cancels = []\<rparr>"

definition set_handler :: "task_type \<Rightarrow> string \<Rightarrow> scheduler \<Rightarrow> scheduler" where
  "set_handler task handler s = s\<lparr>sc_handlers := (sc_handlers s)(task \<mapsto> handler)\<rparr>"

definition spawn_worker :: "task_type \<Rightarrow> nat \<Rightarrow> scheduler \<Rightarrow> (string + unit) \<times> scheduler" where
  "spawn_worker task interval_ms s =
     (if interval_ms = 0 then (Inl ''scheduler interval_ms must be > 0'', s)
      else if sc_workers s task \<noteq> None then (Inr (), s)
      else (Inr (), s\<lparr>sc_threads := sc_threads s @ [\<lparr>wk_task = task, wk_handler = sc_handlers s task,
              wk_state = \<lparr>ts_shutdown = False, ts_tick_count = 0\<rparr>, wk_phase = Sleeping\<rparr>],
            sc_workers := (sc_workers s)(task \<mapsto> length (sc_threads s))\<rparr>))"

definition schedule_backup :: "nat \<Rightarrow> scheduler \<Rightarrow> (string + unit) \<times> scheduler" where
  "schedule_backup = spawn_worker IncrementalBackup"
definition schedule_archive_compaction :: "nat \<Rightarrow> scheduler \<Rightarrow> (string + unit) \<times> scheduler" where
  "schedule_archive_compaction = spawn_worker ArchiveCompaction"
definition schedule_index_maintenance :: "nat \<Rightarrow> scheduler \<Rightarrow> (string + unit) \<times> scheduler" where
  "schedule_index_maintenance = spawn_worker IndexMaintenance"
definition schedule_media_cache_eviction :: "nat \<Rightarrow> scheduler \<Rightarrow> (string + unit) \<times> scheduler" where
  "schedule_media_cache_eviction = spawn_worker MediaCacheEviction"

definition is_task_pending_kind :: "task_type \<Rightarrow> scheduler \<Rightarrow> bool" where
  "is_task_pending_kind task s \<longleftrightarrow> sc_workers s task \<noteq> None"

definition all_task_types :: "task_type list" where
  "all_task_types = [IncrementalBackup, ArchiveCompaction, IndexMaintenance, MediaCacheEviction, ModelWarmup, ShardCacheWarming]"

definition is_task_pending :: "string \<Rightarrow> scheduler \<Rightarrow> bool" where
  "is_task_pending task_id s \<longleftrightarrow> list_ex (\<lambda>t. sc_workers s t \<noteq> None \<and> default_task_id t = task_id) all_task_types"

definition tick_count :: "task_type \<Rightarrow> scheduler \<Rightarrow> nat" where
  "tick_count task s = (case sc_workers s task of None \<Rightarrow> 0 | Some i \<Rightarrow> ts_tick_count (wk_state (sc_threads s ! i)))"

text \<open>The drain of the map, in any order, which starts a call of \<open>cancel_all\<close>.\<close>

definition drain_workers :: "nat list \<Rightarrow> scheduler \<Rightarrow> scheduler" where
  "drain_workers ids s = s\<lparr>sc_workers := Map.empty, sc_cancels := sc_cancels s @ [\<lparr>cc_joining = None, cc_rest = ids\<rparr>]\<rparr>"

definition on_thread :: "nat \<Rightarrow> (worker \<Rightarrow> worker) \<Rightarrow> scheduler \<Rightarrow> scheduler" where
  "on_thread i f s = s\<lparr>sc_threads := (sc_threads s)[i := f (sc_threads s ! i)]\<rparr>"

definition signal_shutdown :: "worker \<Rightarrow> worker" where
  "signal_shutdown w = w\<lparr>wk_state := (wk_state w)\<lparr>ts_shutdown := True\<rparr>\<rparr>"

definition bump_tick :: "worker \<Rightarrow> worker" where
  "bump_tick w = w\<lparr>wk_state := (wk_state w)\<lparr>ts_tick_count := sat_add (ts_tick_count (wk_state w)) 1\<rparr>, wk_phase := Sleeping\<rparr>"

inductive sched_step :: "scheduler \<Rightarrow> scheduler \<Rightarrow> bool" where
  handler: "sched_step s (set_handler task h s)"
| schedule: "sched_step s (snd (spawn_worker task interval s))"
| tick: "\<lbrakk>i < length (sc_threads s); wk_phase (sc_threads s ! i) = Sleeping; \<not> ts_shutdown (wk_state (sc_threads s ! i))\<rbrakk>
    \<Longrightarrow> sched_step s (on_thread i (wk_phase_update (\<lambda>_. RunningHandler)) s)"
| tock: "\<lbrakk>i < length (sc_threads s); wk_phase (sc_threads s ! i) = RunningHandler\<rbrakk> \<Longrightarrow> sched_step s (on_thread i bump_tick s)"
| leave: "\<lbrakk>i < length (sc_threads s); wk_phase (sc_threads s ! i) = Sleeping; ts_shutdown (wk_state (sc_threads s ! i))\<rbrakk>
    \<Longrightarrow> sched_step s (on_thread i (wk_phase_update (\<lambda>_. Exited)) s)"
| cancel: "\<lbrakk>distinct ids; set ids = ran (sc_workers s)\<rbrakk> \<Longrightarrow> sched_step s (drain_workers ids s)"
| signal: "\<lbrakk>c < length (sc_cancels s); cc_joining (sc_cancels s ! c) = None; cc_rest (sc_cancels s ! c) = i # is\<rbrakk>
    \<Longrightarrow> sched_step s (on_thread i signal_shutdown (s\<lparr>sc_cancels := (sc_cancels s)[c := \<lparr>cc_joining = Some i, cc_rest = is\<rparr>]\<rparr>))"
| join: "\<lbrakk>c < length (sc_cancels s); cc_joining (sc_cancels s ! c) = Some i; wk_phase (sc_threads s ! i) = Exited\<rbrakk>
    \<Longrightarrow> sched_step s (s\<lparr>sc_cancels := (sc_cancels s)[c := (sc_cancels s ! c)\<lparr>cc_joining := None\<rparr>]\<rparr>)"

definition reachable_schedule :: "scheduler \<Rightarrow> bool" where
  "reachable_schedule s \<longleftrightarrow> sched_step\<^sup>*\<^sup>* new_scheduler s"

text \<open>The workers a call still owns.\<close>

definition owned_by :: "cancel_call \<Rightarrow> nat set" where
  "owned_by c = set_option (cc_joining c) \<union> set (cc_rest c)"

definition live :: "scheduler \<Rightarrow> nat \<Rightarrow> bool" where
  "live s i \<longleftrightarrow> i < length (sc_threads s) \<and> wk_phase (sc_threads s ! i) \<noteq> Exited"

text \<open>The invariant: the map names live, unsignalled threads of their own type; every other live thread is in a call of
  \<open>cancel_all\<close>; a call owns threads that are there, that the map does not name, and that it signals before it joins;
  and only a signalled thread ends.\<close>

definition workers_ok :: "scheduler \<Rightarrow> bool" where
  "workers_ok s \<longleftrightarrow> (\<forall>t i. sc_workers s t = Some i \<longrightarrow>
     live s i \<and> wk_task (sc_threads s ! i) = t \<and> \<not> ts_shutdown (wk_state (sc_threads s ! i)))"

definition live_covered :: "scheduler \<Rightarrow> bool" where
  "live_covered s \<longleftrightarrow> (\<forall>i. live s i \<longrightarrow> i \<in> ran (sc_workers s) \<or> (\<exists>c \<in> set (sc_cancels s). i \<in> owned_by c))"

definition call_ok :: "scheduler \<Rightarrow> cancel_call \<Rightarrow> bool" where
  "call_ok s c \<longleftrightarrow> owned_by c \<subseteq> {..<length (sc_threads s)} \<and> owned_by c \<inter> ran (sc_workers s) = {} \<and> distinct (cc_rest c) \<and>
     (case cc_joining c of None \<Rightarrow> True | Some i \<Rightarrow> i \<notin> set (cc_rest c) \<and> ts_shutdown (wk_state (sc_threads s ! i)))"

definition exits_signalled :: "scheduler \<Rightarrow> bool" where
  "exits_signalled s \<longleftrightarrow> (\<forall>i < length (sc_threads s). wk_phase (sc_threads s ! i) = Exited \<longrightarrow> ts_shutdown (wk_state (sc_threads s ! i)))"

definition scheduler_ok :: "scheduler \<Rightarrow> bool" where
  "scheduler_ok s \<longleftrightarrow> workers_ok s \<and> live_covered s \<and> (\<forall>c \<in> set (sc_cancels s). call_ok s c) \<and> exits_signalled s"

lemmas scheduler_defs = workers_ok_def live_covered_def call_ok_def exits_signalled_def live_def owned_by_def

lemma new_scheduler_ok: "scheduler_ok new_scheduler"
  by (simp add: scheduler_ok_def scheduler_defs new_scheduler_def)

lemma spawn_ok:
  assumes "scheduler_ok s"
  shows "scheduler_ok (snd (spawn_worker task interval s))"
proof (cases "interval = 0 \<or> sc_workers s task \<noteq> None")
  case True
  then show ?thesis using assms by (auto simp: spawn_worker_def)
next
  case False
  let ?w = "\<lparr>wk_task = task, wk_handler = sc_handlers s task, wk_state = \<lparr>ts_shutdown = False, ts_tick_count = 0\<rparr>, wk_phase = Sleeping\<rparr>"
  let ?s = "s\<lparr>sc_threads := sc_threads s @ [?w], sc_workers := (sc_workers s)(task \<mapsto> length (sc_threads s))\<rparr>"
  have w: "workers_ok s" and l: "live_covered s" and c: "\<forall>c \<in> set (sc_cancels s). call_ok s c" and e: "exits_signalled s"
    using assms by (simp_all add: scheduler_ok_def)
  have ran: "ran ((sc_workers s)(task \<mapsto> length (sc_threads s))) = insert (length (sc_threads s)) (ran (sc_workers s))"
    using False by (simp add: ran_map_upd)
  have live: "live ?s i \<longleftrightarrow> live s i \<or> i = length (sc_threads s)" for i
    by (auto simp: live_def nth_append)
  have "workers_ok ?s" using w by (fastforce simp: workers_ok_def live_def nth_append)
  moreover have "live_covered ?s" using l by (auto simp: live_covered_def live ran)
  moreover have "\<forall>c \<in> set (sc_cancels ?s). call_ok ?s c"
    using c ran by (fastforce simp: call_ok_def owned_by_def nth_append split: option.splits)
  moreover have "exits_signalled ?s" using e by (auto simp: exits_signalled_def nth_append less_Suc_eq)
  ultimately show ?thesis using False by (simp add: spawn_worker_def scheduler_ok_def)
qed

text \<open>A step of one thread that keeps its task and never takes the signal back.\<close>

lemma on_thread_ok:
  assumes ok: "scheduler_ok s" and i: "i < length (sc_threads s)"
    and f: "wk_task (f (sc_threads s ! i)) = wk_task (sc_threads s ! i)"
      "ts_shutdown (wk_state (sc_threads s ! i)) \<Longrightarrow> ts_shutdown (wk_state (f (sc_threads s ! i)))"
      "wk_phase (f (sc_threads s ! i)) = Exited \<Longrightarrow> ts_shutdown (wk_state (f (sc_threads s ! i)))"
      "wk_phase (sc_threads s ! i) = Exited \<Longrightarrow> wk_phase (f (sc_threads s ! i)) = Exited"
    and mapped: "i \<in> ran (sc_workers s) \<Longrightarrow> \<not> ts_shutdown (wk_state (sc_threads s ! i)) \<Longrightarrow>
        \<not> ts_shutdown (wk_state (f (sc_threads s ! i)))"
  shows "scheduler_ok (on_thread i f s)"
proof -
  let ?s = "on_thread i f s"
  have w: "workers_ok s" and l: "live_covered s" and c: "\<forall>c \<in> set (sc_cancels s). call_ok s c" and e: "exits_signalled s"
    using ok by (simp_all add: scheduler_ok_def)
  have same: "sc_workers ?s = sc_workers s" "sc_cancels ?s = sc_cancels s" "length (sc_threads ?s) = length (sc_threads s)"
    by (simp_all add: on_thread_def)
  have at: "sc_threads ?s ! j = (if j = i then f (sc_threads s ! i) else sc_threads s ! j)" for j
    using i by (simp add: on_thread_def nth_list_update)
  have shut: "ts_shutdown (wk_state (sc_threads s ! j)) \<Longrightarrow> ts_shutdown (wk_state (sc_threads ?s ! j))" for j
    using f(2) by (auto simp: at)
  have live: "live ?s j \<Longrightarrow> live s j" for j using f(4) by (auto simp: live_def same at split: if_splits)
  have "workers_ok ?s"
    using w mapped f(1,3) by (auto simp: workers_ok_def live_def same at ranI)
  moreover have "live_covered ?s" using l live by (auto simp: live_covered_def same)
  moreover have "\<forall>c \<in> set (sc_cancels ?s). call_ok ?s c"
    using c shut by (auto simp: call_ok_def same split: option.splits)
  moreover have "exits_signalled ?s" using e f(3) by (auto simp: exits_signalled_def same at)
  ultimately show ?thesis by (simp add: scheduler_ok_def)
qed

lemma drain_ok:
  assumes "scheduler_ok s" "distinct ids" "set ids = ran (sc_workers s)"
  shows "scheduler_ok (drain_workers ids s)"
  using assms by (auto simp: scheduler_ok_def scheduler_defs drain_workers_def ran_def split: option.splits)

lemma move_call:
  assumes ok: "scheduler_ok s" and call: "c < length (sc_cancels s)" "call_ok s call"
    and owned: "\<And>i. i \<in> owned_by (sc_cancels s ! c) \<Longrightarrow> i \<in> owned_by call \<or> wk_phase (sc_threads s ! i) = Exited"
  shows "scheduler_ok (s\<lparr>sc_cancels := (sc_cancels s)[c := call]\<rparr>)"
proof -
  let ?s = "s\<lparr>sc_cancels := (sc_cancels s)[c := call]\<rparr>"
  have live: "live ?s i = live s i" for i by (simp add: live_def)
  have "\<exists>d \<in> set (sc_cancels ?s). i \<in> owned_by d" if prem: "live s i" "d \<in> set (sc_cancels s)" "i \<in> owned_by d" for i d
  proof -
    obtain e where e: "e < length (sc_cancels s)" "d = sc_cancels s ! e" using prem(2) by (metis in_set_conv_nth)
    show ?thesis
    proof (cases "e = c")
      case True
      then have "i \<in> owned_by call" using owned[of i] prem e by (auto simp: live_def)
      then show ?thesis using call(1) by (auto intro: set_update_memI)
    next
      case False
      then have "d \<in> set (sc_cancels ?s)" using e by (auto simp: in_set_conv_nth nth_list_update intro!: exI[of _ e])
      then show ?thesis using prem(3) by blast
    qed
  qed
  then have "live_covered ?s" using ok by (fastforce simp: scheduler_ok_def live_covered_def live)
  moreover have "call_ok ?s d = call_ok s d" for d by (simp add: call_ok_def split: option.split)
  then have "\<forall>d \<in> set (sc_cancels ?s). call_ok ?s d"
    using ok call(2) set_update_subset_insert[of "sc_cancels s" c call] by (auto simp: scheduler_ok_def)
  moreover have "workers_ok ?s = workers_ok s" "exits_signalled ?s = exits_signalled s"
    by (simp_all add: workers_ok_def live_def exits_signalled_def)
  ultimately show ?thesis using ok by (simp add: scheduler_ok_def)
qed

lemma step_ok:
  assumes "sched_step s s'" "scheduler_ok s"
  shows "scheduler_ok s'"
  using assms
proof (induction rule: sched_step.induct)
  case (handler s task h)
  then show ?case by (auto simp: scheduler_ok_def scheduler_defs set_handler_def split: option.splits)
next
  case (schedule s task interval)
  then show ?case by (rule spawn_ok)
next
  case (tick i s)
  then show ?case by (intro on_thread_ok) simp_all
next
  case (tock i s)
  then show ?case by (intro on_thread_ok) (simp_all add: bump_tick_def)
next
  case (leave i s)
  then show ?case by (intro on_thread_ok) simp_all
next
  case (cancel ids s)
  then show ?case by (intro drain_ok)
next
  case (signal c s i "is")
  have "sc_cancels s ! c \<in> set (sc_cancels s)" using signal(1) by simp
  then have c: "call_ok s (sc_cancels s ! c)" using signal(4) by (simp add: scheduler_ok_def)
  then have i: "i < length (sc_threads s)" "i \<notin> ran (sc_workers s)" using signal(3) by (auto simp: call_ok_def owned_by_def)
  let ?t = "on_thread i signal_shutdown s" and ?call = "\<lparr>cc_joining = Some i, cc_rest = is\<rparr>"
  have t: "scheduler_ok ?t"
  proof (rule on_thread_ok[OF signal(4) i(1)])
  qed (use i(2) in \<open>simp_all add: signal_shutdown_def\<close>)
  have "call_ok ?t ?call"
    using c i signal(2,3) by (auto simp: call_ok_def owned_by_def on_thread_def signal_shutdown_def)
  moreover have "owned_by (sc_cancels ?t ! c) \<subseteq> owned_by ?call"
    using signal(2,3) by (auto simp: on_thread_def owned_by_def)
  ultimately have "scheduler_ok (?t\<lparr>sc_cancels := (sc_cancels ?t)[c := ?call]\<rparr>)"
    using signal(1) by (intro move_call[OF t]) (auto simp: on_thread_def)
  moreover have "?t\<lparr>sc_cancels := (sc_cancels ?t)[c := ?call]\<rparr> =
      on_thread i signal_shutdown (s\<lparr>sc_cancels := (sc_cancels s)[c := ?call]\<rparr>)"
    by (cases s) (simp add: on_thread_def)
  ultimately show ?case by simp
next
  case (join c s i)
  have "sc_cancels s ! c \<in> set (sc_cancels s)" using join(1) by simp
  then have "call_ok s (sc_cancels s ! c)" using join(4) by (simp add: scheduler_ok_def)
  then show ?case
    using join by (intro move_call) (auto simp: call_ok_def owned_by_def)
qed

lemma reachable_ok: "reachable_schedule s \<Longrightarrow> scheduler_ok s"
  unfolding reachable_schedule_def by (induction rule: rtranclp_induct) (auto intro: new_scheduler_ok step_ok)

text \<open>C8: In every reachable state the map of workers is well formed: it names live threads of their own task type that no
  one has signalled, the other live threads are being shut down, and with no \<open>cancel_all\<close> under way the map is
  exactly the live threads, one at most per task type.\<close>

theorem schedule_well_formed:
  assumes "reachable_schedule s"
  shows "scheduler_ok s \<and> ((\<forall>c \<in> set (sc_cancels s). owned_by c = {}) \<longrightarrow>
    {i. live s i} = ran (sc_workers s) \<and>
    (\<forall>i j. live s i \<and> live s j \<and> wk_task (sc_threads s ! i) = wk_task (sc_threads s ! j) \<longrightarrow> i = j))"
proof -
  have ok: "workers_ok s" "live_covered s" "scheduler_ok s" using reachable_ok[OF assms] by (simp_all add: scheduler_ok_def)
  have live: "{i. live s i} = ran (sc_workers s)" if "\<forall>c \<in> set (sc_cancels s). owned_by c = {}"
    using ok(1,2) that by (auto simp: workers_ok_def live_covered_def ran_def)
  have "i = j" if prem: "\<forall>c \<in> set (sc_cancels s). owned_by c = {}" "live s i" "live s j"
      "wk_task (sc_threads s ! i) = wk_task (sc_threads s ! j)" for i j
  proof -
    obtain t u where "sc_workers s t = Some i" "sc_workers s u = Some j"
      using live[OF prem(1)] prem(2,3) unfolding ran_def by blast
    then show ?thesis using ok(1) prem(4) by (auto simp: workers_ok_def)
  qed
  then show ?thesis using ok(3) live by blast
qed

text \<open>Two calls of one task at once: a call of \<open>cancel_all\<close> empties the map before the thread has ended.\<close>

definition overlap_states :: "scheduler list" where
  "overlap_states =
     (let s1 = snd (spawn_worker IncrementalBackup 1000 new_scheduler);
          s2 = on_thread 0 (wk_phase_update (\<lambda>_. RunningHandler)) s1;
          s3 = drain_workers [0] s2;
          s4 = snd (spawn_worker IncrementalBackup 1000 s3);
          s5 = on_thread 1 (wk_phase_update (\<lambda>_. RunningHandler)) s4
      in [s1, s2, s3, s4, s5])"

lemmas overlap_simps = overlap_states_def Let_def spawn_worker_def new_scheduler_def on_thread_def drain_workers_def

lemma overlap_reachable:
  "reachable_schedule (overlap_states ! 0)" "reachable_schedule (overlap_states ! 2)" "reachable_schedule (overlap_states ! 4)"
proof -
  have s1: "sched_step new_scheduler (overlap_states ! 0)"
    using sched_step.schedule[of new_scheduler IncrementalBackup 1000] by (simp add: overlap_states_def Let_def)
  have s2: "sched_step (overlap_states ! 0) (overlap_states ! 1)"
    using sched_step.tick[of 0 "overlap_states ! 0"] by (simp add: overlap_simps)
  have s3: "sched_step (overlap_states ! 1) (overlap_states ! 2)"
    using sched_step.cancel[of "[0]" "overlap_states ! 1"] by (simp add: overlap_simps)
  have s4: "sched_step (overlap_states ! 2) (overlap_states ! 3)"
    using sched_step.schedule[of "overlap_states ! 2" IncrementalBackup 1000] by (simp add: overlap_simps)
  have s5: "sched_step (overlap_states ! 3) (overlap_states ! 4)"
    using sched_step.tick[of 1 "overlap_states ! 3"] by (simp add: overlap_simps)
  show "reachable_schedule (overlap_states ! 0)" "reachable_schedule (overlap_states ! 2)" "reachable_schedule (overlap_states ! 4)"
    unfolding reachable_schedule_def using s1 s2 s3 s4 s5 by (meson rtranclp.rtrancl_refl rtranclp.rtrancl_into_rtrancl)+
qed

text \<open>Two threads of the same task can run its handler at the same time: the map is emptied by \<open>cancel_all\<close> while a
  handler still runs, and a task that is scheduled then gets a second thread.\<close>

theorem backup_can_overlap:
  "reachable_schedule (last overlap_states) \<and> map wk_phase (sc_threads (last overlap_states)) = [RunningHandler, RunningHandler] \<and>
   map wk_task (sc_threads (last overlap_states)) = [IncrementalBackup, IncrementalBackup] \<and>
   list_all (\<lambda>w. \<not> ts_shutdown (wk_state w)) (sc_threads (last overlap_states))"
proof -
  have "last overlap_states = overlap_states ! 4" by (simp add: overlap_states_def Let_def)
  then show ?thesis using overlap_reachable(3) by (simp add: overlap_simps)
qed

theorem schedule_well_formed_witness:
  "scheduler_ok (overlap_states ! 0) \<and> {i. live (overlap_states ! 0) i} = {0} \<and> is_task_pending_kind IncrementalBackup (overlap_states ! 0)"
proof -
  have "sc_cancels (overlap_states ! 0) = []" "sc_workers (overlap_states ! 0) = [IncrementalBackup \<mapsto> 0]"
    by (simp_all add: overlap_simps)
  then show ?thesis using schedule_well_formed[OF overlap_reachable(1)] by (simp add: is_task_pending_kind_def)
qed

subsection \<open>Shutting down\<close>

lemma reachable_step: "reachable_schedule s \<Longrightarrow> sched_step\<^sup>*\<^sup>* s s' \<Longrightarrow> reachable_schedule s'"
  unfolding reachable_schedule_def by (rule rtranclp_trans)

text \<open>What a call still has to do.\<close>

definition call_work :: "cancel_call \<Rightarrow> nat" where
  "call_work c = 2 * length (cc_rest c) + (case cc_joining c of None \<Rightarrow> 0 | Some _ \<Rightarrow> 1)"

definition cancel_work :: "scheduler \<Rightarrow> nat" where
  "cancel_work s = sum_list (map call_work (sc_cancels s))"

lemma cancel_work_drops:
  assumes "c < length (sc_cancels s)" "call_work call < call_work (sc_cancels s ! c)" "sc_cancels s' = (sc_cancels s)[c := call]"
  shows "cancel_work s' < cancel_work s"
proof -
  have split: "sc_cancels s = take c (sc_cancels s) @ sc_cancels s ! c # drop (Suc c) (sc_cancels s)"
    using assms(1) by (rule id_take_nth_drop)
  have "cancel_work s = sum_list (map call_work (take c (sc_cancels s))) + call_work (sc_cancels s ! c) +
      sum_list (map call_work (drop (Suc c) (sc_cancels s)))"
    unfolding cancel_work_def by (subst split) simp
  moreover have "cancel_work s' = sum_list (map call_work (take c (sc_cancels s))) + call_work call +
      sum_list (map call_work (drop (Suc c) (sc_cancels s)))"
    using assms(1) by (simp add: cancel_work_def assms(3) upd_conv_take_nth_drop)
  ultimately show ?thesis using assms(2) by simp
qed

lemma signalled_thread_ends:
  assumes "i < length (sc_threads s)" "ts_shutdown (wk_state (sc_threads s ! i))"
  shows "\<exists>s'. sched_step\<^sup>*\<^sup>* s s' \<and> sc_cancels s' = sc_cancels s \<and> sc_workers s' = sc_workers s \<and>
    wk_phase (sc_threads s' ! i) = Exited"
proof -
  have asleep: "\<exists>s'. sched_step\<^sup>*\<^sup>* s s' \<and> sc_cancels s' = sc_cancels s \<and> sc_workers s' = sc_workers s \<and>
      wk_phase (sc_threads s' ! i) = Exited"
    if "i < length (sc_threads s)" "ts_shutdown (wk_state (sc_threads s ! i))" "wk_phase (sc_threads s ! i) = Sleeping" for s
    using sched_step.leave[OF that(1,3,2)] that(1)
    by (intro exI[of _ "on_thread i (wk_phase_update (\<lambda>_. Exited)) s"]) (auto simp: on_thread_def)
  show ?thesis
  proof (cases "wk_phase (sc_threads s ! i)")
    case Sleeping
    then show ?thesis using asleep assms by blast
  next
    case RunningHandler
    let ?s = "on_thread i bump_tick s"
    have "sched_step s ?s" using assms(1) RunningHandler by (rule sched_step.tock)
    moreover obtain s' where "sched_step\<^sup>*\<^sup>* ?s s'" "sc_cancels s' = sc_cancels ?s" "sc_workers s' = sc_workers ?s"
        "wk_phase (sc_threads s' ! i) = Exited"
      using asleep[of ?s] assms by (auto simp: on_thread_def bump_tick_def)
    ultimately show ?thesis
      by (intro exI[of _ s']) (auto simp: on_thread_def intro: converse_rtranclp_into_rtranclp)
  next
    case Exited
    then show ?thesis by blast
  qed
qed

lemma cancel_progress:
  assumes reach: "reachable_schedule s" and c: "c < length (sc_cancels s)" "owned_by (sc_cancels s ! c) \<noteq> {}"
  shows "\<exists>s'. sched_step\<^sup>*\<^sup>* s s' \<and> sc_workers s' = sc_workers s \<and> cancel_work s' < cancel_work s"
proof (cases "cc_joining (sc_cancels s ! c)")
  case None
  then obtain i "is" where rest: "cc_rest (sc_cancels s ! c) = i # is" using c(2) by (cases "cc_rest (sc_cancels s ! c)") (auto simp: owned_by_def)
  let ?call = "\<lparr>cc_joining = Some i, cc_rest = is\<rparr>"
  let ?s = "on_thread i signal_shutdown (s\<lparr>sc_cancels := (sc_cancels s)[c := ?call]\<rparr>)"
  have "sched_step s ?s" using c(1) None rest by (rule sched_step.signal)
  moreover have "call_work ?call < call_work (sc_cancels s ! c)" using None rest by (simp add: call_work_def)
  then have "cancel_work ?s < cancel_work s" using c(1) by (intro cancel_work_drops) (simp_all add: on_thread_def)
  moreover have "sc_workers ?s = sc_workers s" by (simp add: on_thread_def)
  ultimately show ?thesis by blast
next
  case (Some i)
  have "call_ok s (sc_cancels s ! c)" using reachable_ok[OF reach] c(1) by (simp add: scheduler_ok_def)
  then obtain s1 where s1: "sched_step\<^sup>*\<^sup>* s s1" "sc_cancels s1 = sc_cancels s" "sc_workers s1 = sc_workers s"
      "wk_phase (sc_threads s1 ! i) = Exited"
    using signalled_thread_ends[of i s] Some by (auto simp: call_ok_def owned_by_def)
  let ?s = "s1\<lparr>sc_cancels := (sc_cancels s1)[c := (sc_cancels s1 ! c)\<lparr>cc_joining := None\<rparr>]\<rparr>"
  have "sched_step s1 ?s" using c(1) Some s1(2,4) by (intro sched_step.join) simp_all
  then have "sched_step\<^sup>*\<^sup>* s ?s" using s1(1) by simp
  moreover have "cancel_work ?s < cancel_work s"
    using c(1) Some s1(2) by (intro cancel_work_drops[where call = "(sc_cancels s ! c)\<lparr>cc_joining := None\<rparr>"]) (simp_all add: call_work_def)
  ultimately show ?thesis using s1(3) by (intro exI[of _ ?s]) simp
qed

text \<open>C31: From every reachable state all calls of \<open>cancel_all\<close> can run to their end, without any new call, and then every
  thread that is not in the map has exited.\<close>

theorem cancel_all_finishes:
  assumes "reachable_schedule s"
  shows "\<exists>s'. sched_step\<^sup>*\<^sup>* s s' \<and> sc_workers s' = sc_workers s \<and> (\<forall>c \<in> set (sc_cancels s'). owned_by c = {}) \<and>
    {i. live s' i} = ran (sc_workers s')"
  using assms
proof (induction "cancel_work s" arbitrary: s rule: less_induct)
  case less
  show ?case
  proof (cases "\<forall>c \<in> set (sc_cancels s). owned_by c = {}")
    case True
    then have "{i. live s i} = ran (sc_workers s)"
      using reachable_ok[OF less.prems] by (auto simp: scheduler_ok_def workers_ok_def live_covered_def ran_def)
    then show ?thesis using True by blast
  next
    case False
    then obtain c where "c < length (sc_cancels s)" "owned_by (sc_cancels s ! c) \<noteq> {}" by (metis in_set_conv_nth)
    then obtain s1 where s1: "sched_step\<^sup>*\<^sup>* s s1" "sc_workers s1 = sc_workers s" "cancel_work s1 < cancel_work s"
      using cancel_progress[OF less.prems] by blast
    from less.hyps[OF s1(3) reachable_step[OF less.prems s1(1)]] s1(1,2) show ?thesis by (metis rtranclp_trans)
  qed
qed

theorem cancel_all_finishes_witness:
  "live (overlap_states ! 2) 0 \<and> (\<exists>s'. sched_step\<^sup>*\<^sup>* (overlap_states ! 2) s' \<and> {i. live s' i} = {})"
proof -
  have "sc_workers (overlap_states ! 2) = Map.empty" "live (overlap_states ! 2) 0" by (simp_all add: overlap_simps live_def)
  then show ?thesis using cancel_all_finishes[OF overlap_reachable(2)] by auto
qed

end
