(* ===== verification/Media_Chunks.thy ===== *)
theory Media_Chunks
  imports Convergent Messages
begin

text \<open>
  Media on the wire: the chunker (\<open>media/chunker.rs\<close>) with the additional data of \<open>crypto/aead.rs\<close>, the upload and
  its resumption (\<open>media/upload.rs\<close>), the download and the rehydration of an asset (\<open>media/download.rs\<close>, and the
  state changes of \<open>media/processor.rs\<close>), and \<open>process_media\<close>.  The blob service is the
  record \<open>media_transport\<close> over a state \<open>'w\<close> of its own; \<open>usize\<close> is a natural.
\<close>

subsection \<open>Size classes\<close>

definition size_class_prefix_len :: nat where "size_class_prefix_len = 8"

definition media_chunk_size :: nat where "media_chunk_size = 16 * 1024 * 1024"

definition size_classes :: "nat list" where
  "size_classes = [1024, 4 * 1024, 16 * 1024, 64 * 1024, 256 * 1024, 1024 * 1024, 4 * 1024 * 1024,
     16 * 1024 * 1024, 64 * 1024 * 1024, 256 * 1024 * 1024, 1024 * 1024 * 1024]"

text \<open>The least power of two that is not below the argument, from \<open>p\<close> on.\<close>

function next_power_of_two :: "nat \<Rightarrow> nat \<Rightarrow> nat" where
  "next_power_of_two p n = (if n \<le> p \<or> p = 0 then p else next_power_of_two (2 * p) n)"
  by pat_completeness auto
termination by (relation "measure (\<lambda>(p, n). n - p)") auto

declare next_power_of_two.simps [simp del]

definition next_size_class :: "nat \<Rightarrow> nat" where
  "next_size_class target = (case find (\<lambda>c. target \<le> c) size_classes of
      Some c \<Rightarrow> c | None \<Rightarrow> next_power_of_two 1 target)"

definition pad_to_size_class :: "bytes \<Rightarrow> bytes" where
  "pad_to_size_class plaintext =
     (let target = next_size_class (length plaintext + size_class_prefix_len);
          out = be_bytes 8 (length plaintext) @ plaintext
      in take target out @ replicate (target - length out) 0)"

definition unpad_from_size_class :: "bytes \<Rightarrow> core_error + bytes" where
  "unpad_from_size_class padded =
     (if length padded < size_class_prefix_len
      then Inl (StorageFailure ''unpad_from_size_class: padded buffer shorter than 8-byte length prefix'')
      else let original_len = be_value (take 8 padded); payload = drop size_class_prefix_len padded in
        if original_len > length payload
        then Inl (StorageFailure ''unpad_from_size_class: recorded length exceeds padded payload'')
        else Inr (take original_len payload))"

subsection \<open>Chunks\<close>

datatype blob_class = Media | ArchiveSegmentBlob | SearchIndexShard | BackupSegmentBlob | ManifestBlob

primrec blob_class_tag :: "blob_class \<Rightarrow> nat" where
  "blob_class_tag Media = 1"
| "blob_class_tag ArchiveSegmentBlob = 2"
| "blob_class_tag SearchIndexShard = 3"
| "blob_class_tag BackupSegmentBlob = 4"
| "blob_class_tag ManifestBlob = 5"

function write_varint :: "nat \<Rightarrow> bytes" where
  "write_varint v = (if v div 128 \<noteq> 0 then (word_of_nat (v mod 128) OR 0x80) # write_varint (v div 128)
     else [word_of_nat (v mod 128)])"
  by pat_completeness auto
termination by (relation "measure id") auto

declare write_varint.simps [simp del]

definition kchat_blob_chunk_aad_magic :: bytes where
  "kchat_blob_chunk_aad_magic = ascii_bytes ''KCHAT_BLOB_CHUNK_V1''"

definition build_kchat_chunk_aad :: "bytes \<Rightarrow> blob_class \<Rightarrow> nat \<Rightarrow> nat \<Rightarrow> bytes \<Rightarrow> bytes" where
  "build_kchat_chunk_aad blob_id cls chunk_no chunk_count merkle_root =
     kchat_blob_chunk_aad_magic @ blob_id @ write_varint (blob_class_tag cls) @ be_bytes 4 chunk_no @
     be_bytes 4 chunk_count @ merkle_root"

definition chunk_nonce :: "nat \<Rightarrow> bytes" where
  "chunk_nonce chunk_idx = replicate 16 0 @ be_bytes 8 chunk_idx"

record sealed_chunk =
  sc_ciphertext :: bytes
  sc_chunk_sha256 :: bytes

record chunked_media =
  cm_sealed_chunks :: "sealed_chunk list"
  cm_merkle_root :: bytes
  cm_chunk_count :: nat

definition seal_chunk ::
  "crypto \<Rightarrow> bytes \<Rightarrow> bytes \<Rightarrow> blob_class \<Rightarrow> nat \<Rightarrow> bytes \<Rightarrow> nat \<Rightarrow> bytes \<Rightarrow> core_error + sealed_chunk" where
  "seal_chunk cr k blob_id cls chunk_count merkle_root chunk_idx chunk_pt =
     bindE (aead_seal cr k (chunk_nonce chunk_idx) chunk_pt
       (build_kchat_chunk_aad blob_id cls chunk_idx chunk_count merkle_root)) (\<lambda>ciphertext.
     Inr \<lparr>sc_ciphertext = ciphertext, sc_chunk_sha256 = cr_sha256 cr ciphertext\<rparr>)"

definition piece :: "nat \<Rightarrow> bytes \<Rightarrow> nat \<Rightarrow> bytes" where
  "piece chunk_size padded chunk_idx = take chunk_size (drop (chunk_idx * chunk_size) padded)"

definition total_chunks :: "nat \<Rightarrow> bytes \<Rightarrow> nat" where
  "total_chunks chunk_size padded = (if padded = [] then 1 else (length padded + chunk_size - 1) div chunk_size)"

definition chunk_and_encrypt ::
  "crypto \<Rightarrow> bytes \<Rightarrow> bytes \<Rightarrow> bytes \<Rightarrow> blob_class \<Rightarrow> nat \<Rightarrow> bool \<Rightarrow> core_error + chunked_media" where
  "chunk_and_encrypt cr plaintext k blob_id cls chunk_size pad =
     (if chunk_size = 0 then Inl (StorageFailure ''chunk_and_encrypt: chunk_size must be non-zero'')
      else let padded = (if pad then pad_to_size_class plaintext else plaintext);
               merkle_root = cr_blake3 cr padded;
               total = total_chunks chunk_size padded in
        if total \<ge> 2 ^ 32 then Inl (StorageFailure ''chunk_and_encrypt: chunk_count exceeds u32::MAX'')
        else bindE (mapE (\<lambda>i. seal_chunk cr k blob_id cls total merkle_root i (piece chunk_size padded i)) [0..<total]) (\<lambda>chunks.
          Inr \<lparr>cm_sealed_chunks = chunks, cm_merkle_root = merkle_root, cm_chunk_count = total\<rparr>))"

definition open_chunk ::
  "crypto \<Rightarrow> bytes \<Rightarrow> bytes \<Rightarrow> blob_class \<Rightarrow> nat \<Rightarrow> bytes \<Rightarrow> nat \<Rightarrow> bytes \<Rightarrow> core_error + bytes" where
  "open_chunk cr k blob_id cls chunk_count merkle_root chunk_idx ciphertext =
     aead_open cr k (chunk_nonce chunk_idx) ciphertext
       (build_kchat_chunk_aad blob_id cls chunk_idx chunk_count merkle_root)"

definition verify_and_decrypt ::
  "crypto \<Rightarrow> sealed_chunk list \<Rightarrow> bytes \<Rightarrow> bytes \<Rightarrow> bytes \<Rightarrow> blob_class \<Rightarrow> core_error + bytes" where
  "verify_and_decrypt cr chunks expected_merkle_root k blob_id cls =
     (if chunks = [] then Inl (StorageFailure ''verify_and_decrypt: sealed_chunks must contain at least one chunk'')
      else if length chunks \<ge> 2 ^ 32 then Inl (StorageFailure ''verify_and_decrypt: chunk_count exceeds u32::MAX'')
      else if \<not> list_all (\<lambda>c. cr_sha256 cr (sc_ciphertext c) = sc_chunk_sha256 c) chunks
      then Inl (StorageFailure ''verify_and_decrypt: ciphertext SHA-256 mismatch'')
      else bindE (mapE (\<lambda>(i, c). open_chunk cr k blob_id cls (length chunks) expected_merkle_root i (sc_ciphertext c))
          (enumerate 0 chunks)) (\<lambda>parts.
        let plaintext = concat parts in
        if cr_blake3 cr plaintext \<noteq> expected_merkle_root
        then Inl (StorageFailure ''verify_and_decrypt: whole-object BLAKE3 root mismatch'') else Inr plaintext))"

subsection \<open>Processing\<close>

text \<open>The key of the asset and the two ids are fresh; they are arguments, and so is the thumbnail generator, which
  decodes and scales with a library.\<close>

record media_process_result =
  mp_descriptor :: media_descriptor
  mp_sealed_chunks :: "sealed_chunk list"
  mp_k_asset_raw :: bytes
  mp_initial_media_state :: media_state
  mp_thumbnail_bytes :: "bytes option"

definition process_media ::
  "crypto \<Rightarrow> key_library \<Rightarrow> (bytes \<Rightarrow> string \<Rightarrow> bytes option) \<Rightarrow> bytes \<Rightarrow> uuid \<Rightarrow> uuid \<Rightarrow> bytes \<Rightarrow> string \<Rightarrow> bytes \<Rightarrow>
   blob_class \<Rightarrow> bool \<Rightarrow> core_error + media_process_result" where
  "process_media cr K thumbnail k_asset asset_id blob_id plaintext mime_type wrapping_key cls pad =
     bindE (chunk_and_encrypt cr plaintext k_asset (uuid_bytes blob_id) cls media_chunk_size pad) (\<lambda>chunked.
     bindE (lift_crypto (wrap_key K wrapping_key k_asset)) (\<lambda>wrapped.
     Inr \<lparr>mp_descriptor = \<lparr>dsc_asset_id = asset_id, dsc_mime_type = mime_type,
             dsc_bytes_total = word_of_nat (length plaintext),
             dsc_chunk_count = word_of_nat (cm_chunk_count chunked), dsc_merkle_root = cm_merkle_root chunked,
             dsc_blob_id = blob_id, dsc_wrapped_k_asset = wrapped, dsc_storage_sink = None\<rparr>,
           mp_sealed_chunks = cm_sealed_chunks chunked, mp_k_asset_raw = k_asset,
           mp_initial_media_state = ThumbnailOnly, mp_thumbnail_bytes = thumbnail plaintext mime_type\<rparr>))"

definition transition_media_state :: "string \<Rightarrow> media_state \<Rightarrow> media_state \<Rightarrow> local_db \<Rightarrow> core_error + local_db" where
  "transition_media_state aid f t db = (case media_try_transition f t of
      Inl _ \<Rightarrow> Inl (StorageFailure ''media_state transition'')
    | Inr _ \<Rightarrow> (case get_media_asset aid db of
          None \<Rightarrow> Inl (StorageFailure ''transition_media_state: no media_asset row'')
        | Some a \<Rightarrow>
            if ma_media_state a \<noteq> f then Inl (StorageFailure ''transition_media_state: unexpected media_state'')
            else (case update_media_state aid t db of (db', n) \<Rightarrow>
              if n = 0 then Inl (StorageFailure ''transition_media_state: update affected 0 rows'') else Inr db')))"

definition mark_downloaded :: "string \<Rightarrow> local_db \<Rightarrow> core_error + local_db" where
  "mark_downloaded aid = transition_media_state aid DownloadInProgress OriginalLocal"
definition mark_evicted :: "string \<Rightarrow> local_db \<Rightarrow> core_error + local_db" where
  "mark_evicted aid = transition_media_state aid OriginalLocal Evicted"
definition mark_deleted :: "string \<Rightarrow> local_db \<Rightarrow> core_error + local_db" where
  "mark_deleted aid = transition_media_state aid OriginalLocal media_state.Deleted"

subsection \<open>Upload\<close>

record chunk_receipt =
  cr_chunk_idx :: nat
  cr_receipt_sha256 :: bytes

record 'w media_transport =
  mt_init_blob_upload :: "nat \<Rightarrow> blob_class \<Rightarrow> bytes \<Rightarrow> 'w \<Rightarrow> (core_error + string) \<times> 'w"
  mt_upload_chunk :: "string \<Rightarrow> nat \<Rightarrow> bytes \<Rightarrow> bytes \<Rightarrow> 'w \<Rightarrow> (core_error + chunk_receipt) \<times> 'w"
  mt_commit_blob :: "string \<Rightarrow> 'w \<Rightarrow> (core_error + bytes) \<times> 'w"
  mt_fetch_blob_range :: "string \<Rightarrow> nat \<Rightarrow> nat \<Rightarrow> 'w \<Rightarrow> core_error + bytes"

record upload_result =
  ur_blob_id :: string
  ur_merkle_root :: bytes
  ur_server_merkle_root :: bytes

fun push_chunks :: "'w media_transport \<Rightarrow> string \<Rightarrow> nat \<Rightarrow> sealed_chunk list \<Rightarrow> 'w \<Rightarrow> (core_error + unit) \<times> 'w" where
  "push_chunks T blob_id idx [] w = (Inr (), w)"
| "push_chunks T blob_id idx (c # cs) w =
     (if idx \<ge> 2 ^ 32 then (Inl (StorageFailure ''upload_chunked_media: chunk_idx exceeds u32::MAX''), w)
      else (case mt_upload_chunk T blob_id idx (sc_ciphertext c) (sc_chunk_sha256 c) w of
          (Inl e, w) \<Rightarrow> (Inl e, w)
        | (Inr receipt, w) \<Rightarrow>
            if cr_chunk_idx receipt \<noteq> idx
            then (Inl (StorageFailure ''upload_chunked_media: server echoed another chunk_idx''), w)
            else if cr_receipt_sha256 receipt \<noteq> sc_chunk_sha256 c
            then (Inl (StorageFailure ''upload_chunked_media: server echoed mismatched SHA-256''), w)
            else push_chunks T blob_id (idx + 1) cs w))"

definition upload_chunked_media ::
  "'w media_transport \<Rightarrow> sealed_chunk list \<Rightarrow> bytes \<Rightarrow> blob_class \<Rightarrow> 'w \<Rightarrow> (core_error + upload_result) \<times> 'w" where
  "upload_chunked_media T chunks merkle_root cls w =
     (if chunks = [] then (Inl (StorageFailure ''upload_chunked_media: sealed_chunks must contain at least one chunk''), w)
      else (case mt_init_blob_upload T (sum_list (map (length \<circ> sc_ciphertext) chunks)) cls merkle_root w of
          (Inl e, w) \<Rightarrow> (Inl e, w)
        | (Inr blob_id, w) \<Rightarrow> (case push_chunks T blob_id 0 chunks w of
              (Inl e, w) \<Rightarrow> (Inl e, w)
            | (Inr _, w) \<Rightarrow> (case mt_commit_blob T blob_id w of
                  (Inl e, w) \<Rightarrow> (Inl e, w)
                | (Inr server_root, w) \<Rightarrow>
                    if server_root \<noteq> merkle_root
                    then (Inl (StorageFailure ''upload_chunked_media: server-side BLAKE3 root mismatch on commit''), w)
                    else (Inr \<lparr>ur_blob_id = blob_id, ur_merkle_root = merkle_root, ur_server_merkle_root = server_root\<rparr>, w)))))"

record upload_state =
  us_blob_id :: string
  us_completed_chunks :: "bool list"
  us_merkle_root :: bytes

text \<open>The marks of the chunks from \<open>idx\<close> on; an error keeps those set so far.\<close>

fun push_pending ::
  "'w media_transport \<Rightarrow> string \<Rightarrow> nat \<Rightarrow> sealed_chunk list \<Rightarrow> bool list \<Rightarrow> 'w \<Rightarrow> (core_error + unit) \<times> bool list \<times> 'w" where
  "push_pending T blob_id idx (c # cs) (mark # marks) w =
     (if mark then (case push_pending T blob_id (idx + 1) cs marks w of (r, marks, w) \<Rightarrow> (r, True # marks, w))
      else if idx \<ge> 2 ^ 32 then (Inl (StorageFailure ''resume_upload: chunk_idx exceeds u32::MAX''), False # marks, w)
      else (case mt_upload_chunk T blob_id idx (sc_ciphertext c) (sc_chunk_sha256 c) w of
          (Inl e, w) \<Rightarrow> (Inl e, False # marks, w)
        | (Inr receipt, w) \<Rightarrow>
            if cr_receipt_sha256 receipt \<noteq> sc_chunk_sha256 c \<or> cr_chunk_idx receipt \<noteq> idx
            then (Inl (StorageFailure ''resume_upload: receipt mismatch''), False # marks, w)
            else (case push_pending T blob_id (idx + 1) cs marks w of (r, marks, w) \<Rightarrow> (r, True # marks, w))))"
| "push_pending T blob_id idx [] marks w = (Inr (), marks, w)"
| "push_pending T blob_id idx (c # cs) [] w = (Inr (), [], w)"

definition resume_upload ::
  "'w media_transport \<Rightarrow> upload_state \<Rightarrow> sealed_chunk list \<Rightarrow> blob_class \<Rightarrow> 'w \<Rightarrow> (core_error + upload_result) \<times> upload_state \<times> 'w" where
  "resume_upload T st chunks cls w =
     (if chunks = [] then (Inl (StorageFailure ''resume_upload: sealed_chunks must contain at least one chunk''), st, w)
      else if length (us_completed_chunks st) \<noteq> length chunks
      then (Inl (StorageFailure ''resume_upload: completed_chunks length''), st, w)
      else (case push_pending T (us_blob_id st) 0 chunks (us_completed_chunks st) w of
          (Inl e, marks, w) \<Rightarrow> (Inl e, st\<lparr>us_completed_chunks := marks\<rparr>, w)
        | (Inr _, marks, w) \<Rightarrow> let st = st\<lparr>us_completed_chunks := marks\<rparr> in
            (case mt_commit_blob T (us_blob_id st) w of
               (Inl e, w) \<Rightarrow> (Inl e, st, w)
             | (Inr server_root, w) \<Rightarrow>
                 if server_root \<noteq> us_merkle_root st
                 then (Inl (StorageFailure ''resume_upload: server-side BLAKE3 root mismatch on commit''), st, w)
                 else (Inr \<lparr>ur_blob_id = us_blob_id st, ur_merkle_root = us_merkle_root st, ur_server_merkle_root = server_root\<rparr>, st, w))))"

subsection \<open>Download\<close>

definition chunk_ciphertext_size :: nat where "chunk_ciphertext_size = media_chunk_size + tag_len"

definition chunk_range :: "nat \<Rightarrow> nat \<times> nat" where
  "chunk_range chunk_idx = (let start = chunk_idx * chunk_ciphertext_size in (start, start + chunk_ciphertext_size))"

definition blob_id_to_aad_bytes :: "message_env \<Rightarrow> string \<Rightarrow> core_error + bytes" where
  "blob_id_to_aad_bytes E blob_id = (case me_parse_uuid E blob_id of
      None \<Rightarrow> Inl (StorageFailure ''download: blob_id is not a valid UUID'') | Some u \<Rightarrow> Inr (uuid_bytes u))"

definition fetch_chunk ::
  "string \<Rightarrow> crypto \<Rightarrow> 'w media_transport \<Rightarrow> 'w \<Rightarrow> string \<Rightarrow> bytes \<Rightarrow> nat \<Rightarrow> bytes \<Rightarrow> bytes \<Rightarrow> blob_class \<Rightarrow> nat \<Rightarrow> core_error + bytes" where
  "fetch_chunk who cr T w blob_id blob_id_bytes chunk_count mroot k cls chunk_idx =
     bindE (mt_fetch_blob_range T blob_id (fst (chunk_range chunk_idx)) (snd (chunk_range chunk_idx)) w) (\<lambda>ciphertext.
     if ciphertext = [] then Inl (StorageFailure (who @ '': chunk returned an empty range''))
     else open_chunk cr k blob_id_bytes cls chunk_count mroot chunk_idx ciphertext)"

definition download_chunked_media ::
  "message_env \<Rightarrow> crypto \<Rightarrow> 'w media_transport \<Rightarrow> 'w \<Rightarrow> string \<Rightarrow> nat \<Rightarrow> bytes \<Rightarrow> bytes \<Rightarrow> blob_class \<Rightarrow> core_error + bytes" where
  "download_chunked_media E cr T w blob_id chunk_count expected_merkle_root k cls =
     (if blob_id = [] then Inl (StorageFailure ''download_chunked_media: blob_id must be non-empty'')
      else if chunk_count = 0 then Inl (StorageFailure ''download_chunked_media: chunk_count must be at least 1'')
      else bindE (blob_id_to_aad_bytes E blob_id) (\<lambda>blob_id_bytes.
        bindE (mapE (fetch_chunk ''download_chunked_media'' cr T w blob_id blob_id_bytes chunk_count expected_merkle_root k cls) [0..<chunk_count]) (\<lambda>parts.
        let plaintext = concat parts in
        if cr_blake3 cr plaintext \<noteq> expected_merkle_root
        then Inl (StorageFailure ''download_chunked_media: whole-object BLAKE3 root mismatch'') else Inr plaintext)))"

definition download_single_chunk ::
  "message_env \<Rightarrow> crypto \<Rightarrow> 'w media_transport \<Rightarrow> 'w \<Rightarrow> string \<Rightarrow> nat \<Rightarrow> nat \<Rightarrow> bytes \<Rightarrow> bytes \<Rightarrow> blob_class \<Rightarrow> core_error + bytes" where
  "download_single_chunk E cr T w blob_id chunk_idx chunk_count expected_merkle_root k cls =
     (if blob_id = [] then Inl (StorageFailure ''download_single_chunk: blob_id must be non-empty'')
      else if chunk_count = 0 then Inl (StorageFailure ''download_single_chunk: chunk_count must be at least 1'')
      else if chunk_idx \<ge> chunk_count then Inl (StorageFailure ''download_single_chunk: chunk_idx out of range'')
      else bindE (blob_id_to_aad_bytes E blob_id) (\<lambda>blob_id_bytes.
        fetch_chunk ''download_single_chunk'' cr T w blob_id blob_id_bytes chunk_count expected_merkle_root k cls chunk_idx))"

subsection \<open>Rehydration\<close>

record rehydration_plan =
  rp_asset_id :: string
  rp_blob_id :: string
  rp_storage_sink :: string
  rp_chunk_count :: nat
  rp_merkle_root :: bytes
  rp_wrapped_k_asset :: bytes
  rp_from_state :: media_state

text \<open>\<open>chunk_count\<close> is a 32-bit column; a negative one counts as zero.\<close>

definition prepare_rehydration :: "string \<Rightarrow> local_db \<Rightarrow> core_error + rehydration_plan" where
  "prepare_rehydration aid db = (case get_media_asset aid db of
      None \<Rightarrow> Inl (StorageFailure ''rehydrate_media_asset: no media_asset row'')
    | Some a \<Rightarrow>
        if ma_media_state a \<noteq> Evicted \<and> ma_media_state a \<noteq> RemoteOriginal
        then Inl (StorageFailure (if ma_media_state a = OriginalLocal
          then ''rehydrate_media_asset: asset is already original_local'' else ''rehydrate_media_asset: asset cannot rehydrate''))
        else if length (ma_merkle_root a) \<noteq> 32 then Inl (StorageFailure ''rehydrate_media_asset: merkle_root length'')
        else Inr \<lparr>rp_asset_id = ma_asset_id a, rp_blob_id = ma_blob_id a, rp_storage_sink = ma_storage_sink a,
          rp_chunk_count = nat (ma_chunk_count a), rp_merkle_root = ma_merkle_root a,
          rp_wrapped_k_asset = ma_wrapped_k_asset a, rp_from_state = ma_media_state a\<rparr>)"

datatype media_error = NotImplementedError string | MediaError core_error

definition execute_rehydration_download ::
  "message_env \<Rightarrow> crypto \<Rightarrow> key_library \<Rightarrow> 'w media_transport \<Rightarrow> 'w \<Rightarrow> bytes \<Rightarrow> rehydration_plan \<Rightarrow> media_error + bytes" where
  "execute_rehydration_download E cr K T w wrapping_key plan =
     (case unwrap_key K wrapping_key (rp_wrapped_k_asset plan) of
        Inl e \<Rightarrow> Inl (MediaError (CryptoFailure e))
      | Inr k_asset \<Rightarrow>
          if rp_storage_sink plan = ''kchat_backend''
          then map_sum MediaError id (download_chunked_media E cr T w (rp_blob_id plan) (rp_chunk_count plan)
                 (rp_merkle_root plan) k_asset Media)
          else if rp_storage_sink plan \<in> {''icloud'', ''google_drive'', ''zk_object_fabric''}
          then Inl (NotImplementedError ''rehydrate_media_asset: MediaBlobSink rehydration'')
          else Inl (MediaError (StorageFailure ''rehydrate_media_asset: unknown storage_sink'')))"

definition set_bytes_local :: "string \<Rightarrow> int \<Rightarrow> local_db \<Rightarrow> local_db" where
  "set_bytes_local aid n db =
     db\<lparr>db_media := update_where (\<lambda>a. ma_asset_id a = aid) (ma_bytes_local_update (\<lambda>_. n)) (db_media db)\<rparr>"

definition commit_rehydration :: "string \<Rightarrow> media_state \<Rightarrow> nat \<Rightarrow> local_db \<Rightarrow> (core_error + unit) \<times> local_db" where
  "commit_rehydration aid from_state plaintext_len =
     savepoint (\<lambda>db.
       bindE (transition_media_state aid from_state DownloadInProgress db) (\<lambda>db.
       bindE (transition_media_state aid DownloadInProgress OriginalLocal db) (\<lambda>db.
       if plaintext_len \<ge> 2 ^ 63 then Inl (StorageFailure ''rehydrate_media_asset: plaintext_len does not fit in i64'')
       else Inr (set_bytes_local aid (int plaintext_len) db, ()))))"

definition rehydrate_media_asset ::
  "message_env \<Rightarrow> crypto \<Rightarrow> key_library \<Rightarrow> 'w media_transport \<Rightarrow> 'w \<Rightarrow> bytes \<Rightarrow> string \<Rightarrow> local_db \<Rightarrow> (media_error + bytes) \<times> local_db" where
  "rehydrate_media_asset E cr K T w wrapping_key aid db =
     (case prepare_rehydration aid db of
        Inl e \<Rightarrow> (Inl (MediaError e), db)
      | Inr plan \<Rightarrow> (case execute_rehydration_download E cr K T w wrapping_key plan of
            Inl e \<Rightarrow> (Inl e, db)
          | Inr plaintext \<Rightarrow> (case commit_rehydration (rp_asset_id plan) (rp_from_state plan) (length plaintext) db of
                (Inl e, db) \<Rightarrow> (Inl (MediaError e), db) | (Inr _, db) \<Rightarrow> (Inr plaintext, db))))"

text \<open>The method of the core, without the models that read the plaintext afterwards.  Its three phases are those
  of \<open>rehydrate_media_asset\<close> with the lock released in between.\<close>

definition rehydrate_media_for_message ::
  "message_env \<Rightarrow> crypto \<Rightarrow> key_library \<Rightarrow> 'w media_transport \<Rightarrow> 'w \<Rightarrow> bytes \<Rightarrow> uuid \<Rightarrow> local_db \<Rightarrow>
   (media_error + bytes option) \<times> local_db" where
  "rehydrate_media_for_message E cr K T w wrapping_key mid db =
     (case get_media_asset_by_message (me_show_uuid E mid) db of
        None \<Rightarrow> (Inr None, db)
      | Some a \<Rightarrow> (case rehydrate_media_asset E cr K T w wrapping_key (ma_asset_id a) db of
            (Inl e, db) \<Rightarrow> (Inl e, db) | (Inr p, db) \<Rightarrow> (Inr (Some p), db)))"

subsection \<open>Sending\<close>

text \<open>\<open>send_media\<close> of \<open>core_impl.rs\<close> with no model installed; the key is the store's, the clock and the fresh
  values are arguments.\<close>

definition sent_media_skeleton :: "message_env \<Rightarrow> uuid \<Rightarrow> uuid \<Rightarrow> int \<Rightarrow> media_state \<Rightarrow> message_skeleton" where
  "sent_media_skeleton E cid mid now initial = \<lparr>sk_message_id = me_show_uuid E mid,
     sk_conversation_id = me_show_uuid E cid, sk_sender_id = ''self'', sk_created_at_ms = now, sk_received_at_ms = now,
     sk_kind = MediaKind, sk_body_state = LocalPlainAvailable, sk_media_state = Some initial,
     sk_archive_state = NotArchived, sk_backup_state = NotBackedUp, sk_reply_to = None,
     sk_edited_at_ms = None, sk_deleted_at_ms = None\<rparr>"

definition sent_media_asset :: "message_env \<Rightarrow> message_skeleton \<Rightarrow> string \<Rightarrow> media_process_result \<Rightarrow> media_asset" where
  "sent_media_asset E s mime_type r = (let d = mp_descriptor r in
     \<lparr>ma_asset_id = me_show_uuid E (dsc_asset_id d), ma_message_id = sk_message_id s,
      ma_mime_type = mime_type, ma_bytes_total = sint (dsc_bytes_total d), ma_bytes_local = sint (dsc_bytes_total d),
      ma_media_state = mp_initial_media_state r, ma_wrapped_k_asset = dsc_wrapped_k_asset d,
      ma_chunk_count = sint (dsc_chunk_count d), ma_merkle_root = dsc_merkle_root d,
      ma_blob_id = me_show_uuid E (dsc_blob_id d),
      ma_storage_sink = (case dsc_storage_sink d of Some k \<Rightarrow> k | None \<Rightarrow> ''kchat_backend'')\<rparr>)"

definition send_media_rows ::
  "message_env \<Rightarrow> message_skeleton \<Rightarrow> media_asset \<Rightarrow> utext option \<Rightarrow> message_store \<Rightarrow> processor_error + message_store" where
  "send_media_rows E s asset caption st =
     bindE (on_db (insert_message_skeleton s) st) (\<lambda>st.
     bindE (case caption of None \<Rightarrow> Inr st | Some c \<Rightarrow> insert_text E s c st) (\<lambda>st.
     on_db (insert_media_asset asset) st))"

definition send_media_journals ::
  "message_env \<Rightarrow> uuid \<Rightarrow> uuid \<Rightarrow> message_skeleton \<Rightarrow> message_store \<Rightarrow> processor_error + message_store" where
  "send_media_journals E cid mid s st =
     (let st = with_db (bump_conversation s) st;
          payload = encode_event_payload (sk_message_id s) (sk_conversation_id s) (sk_sender_id s) (sk_created_at_ms s)
      in bindE (on_db (insert_backup_event (journal_entry ''outbox_pending'' (sk_conversation_id s)
           (sk_message_id s) payload (sk_created_at_ms s))) st) (\<lambda>st.
         Inr (write_archive_event E \<lparr>ae_event_type = AMediaReceived, ae_conversation_id = cid,
           ae_message_id = Some mid, ae_payload = payload, ae_created_at_ms = sk_created_at_ms s\<rparr> st)))"

definition send_media_inner ::
  "message_env \<Rightarrow> uuid \<Rightarrow> uuid \<Rightarrow> message_skeleton \<Rightarrow> media_asset \<Rightarrow> utext option \<Rightarrow> message_store \<Rightarrow>
   processor_error + message_store" where
  "send_media_inner E cid mid s asset caption st =
     bindE (send_media_rows E s asset caption st) (send_media_journals E cid mid s)"

definition send_media ::
  "message_env \<Rightarrow> crypto \<Rightarrow> key_library \<Rightarrow> (bytes \<Rightarrow> string \<Rightarrow> bytes option) \<Rightarrow> bytes \<Rightarrow> bytes \<Rightarrow> uuid \<Rightarrow> uuid \<Rightarrow> int \<Rightarrow>
   uuid \<Rightarrow> uuid \<Rightarrow> bytes \<Rightarrow> string \<Rightarrow> utext option \<Rightarrow> message_store \<Rightarrow>
   (processor_error + media_descriptor) \<times> message_store" where
  "send_media E cr K thumbnail key k_asset asset_id blob_id now cid mid plaintext mime_type caption st =
     (if plaintext = [] then (Inl (InvalidMessage ''send_media: plaintext must not be empty''), st)
      else if mime_type = [] then (Inl (InvalidMessage ''send_media: mime_type must not be empty''), st)
      else (case process_media cr K thumbnail k_asset asset_id blob_id plaintext mime_type key Media True of
          Inl e \<Rightarrow> (Inl (StoreFailure e), st)
        | Inr r \<Rightarrow> let s = sent_media_skeleton E cid mid now (mp_initial_media_state r) in
            (case in_savepoint (send_media_inner E cid mid s (sent_media_asset E s mime_type r) caption) st of
               (Inl e, st) \<Rightarrow> (Inl e, st) | (Inr _, st) \<Rightarrow> (Inr (mp_descriptor r), st))))"

end
