(* ===== verification/Media_Facts.thy ===== *)
theory Media_Facts
  imports Media_Chunks
begin

text \<open>
  What the media pipeline guarantees: padding and chunking are undone by their inverses, the additional data
  determines the blob, the class, the index, the count and the root, a download of what was uploaded opens, an
  interrupted upload loses no progress, and a rehydration changes the row only when it has the plaintext.
\<close>

subsection \<open>Padding\<close>

lemma next_power_of_two_ge: "0 < p \<Longrightarrow> n \<le> next_power_of_two p n"
proof (induction p n rule: next_power_of_two.induct)
  case (1 p n)
  then show ?case by (subst next_power_of_two.simps) auto
qed

lemma next_size_class_ge: "n \<le> next_size_class n"
  unfolding next_size_class_def
  by (auto simp: find_Some_iff next_power_of_two_ge split: option.splits)

lemma pad_padding:
  "pad_to_size_class p = be_bytes 8 (length p) @ p @ replicate (next_size_class (length p + 8) - (length p + 8)) 0"
  using next_size_class_ge[of "length p + 8"]
  by (simp add: pad_to_size_class_def size_class_prefix_len_def Let_def)

lemma length_pad: "length (pad_to_size_class p) = next_size_class (length p + 8)"
  using next_size_class_ge[of "length p + 8"] by (simp add: pad_padding)

lemma unpad_pad: "length p < 2 ^ 64 \<Longrightarrow> unpad_from_size_class (pad_to_size_class p) = Inr p"
  using be_value_be_bytes[of "length p" 8]
  by (simp add: unpad_from_size_class_def pad_padding size_class_prefix_len_def Let_def)

subsection \<open>The additional data\<close>

lemma write_varint_small: "v < 128 \<Longrightarrow> write_varint v = [word_of_nat v]"
  by (subst write_varint.simps) simp

lemma tag_varint: "write_varint (blob_class_tag c) = [word_of_nat (blob_class_tag c)]"
  by (cases c) (simp_all add: write_varint_small)

lemma tag_inj: "(word_of_nat (blob_class_tag c) :: byte) = word_of_nat (blob_class_tag d) \<longleftrightarrow> c = d"
  by (cases c; cases d) simp_all

lemma be_bytes_inj: "be_bytes k m = be_bytes k n \<Longrightarrow> m < 256 ^ k \<Longrightarrow> n < 256 ^ k \<Longrightarrow> m = n"
  by (metis be_value_be_bytes)

lemma chunk_aad_inj:
  assumes "build_kchat_chunk_aad b c i n r = build_kchat_chunk_aad b' c' i' n' r'"
    and "length b = 16" "length b' = 16" "i < 2 ^ 32" "i' < 2 ^ 32" "n < 2 ^ 32" "n' < 2 ^ 32"
  shows "b = b' \<and> c = c' \<and> i = i' \<and> n = n' \<and> r = r'"
proof -
  have eq: "b @ word_of_nat (blob_class_tag c) # be_bytes 4 i @ be_bytes 4 n @ r =
      b' @ word_of_nat (blob_class_tag c') # be_bytes 4 i' @ be_bytes 4 n' @ r'"
    using assms(1) by (simp add: build_kchat_chunk_aad_def tag_varint)
  then have "b = b'" "(word_of_nat (blob_class_tag c) :: byte) = word_of_nat (blob_class_tag c')"
      "be_bytes 4 i = be_bytes 4 i'" "be_bytes 4 n = be_bytes 4 n'" "r = r'"
    using assms(2,3) by simp_all
  then show ?thesis
    using assms(4-7) be_bytes_inj[of 4 i i'] be_bytes_inj[of 4 n n'] by (simp add: tag_inj)
qed

text \<open>The additional data of a chunk determines the blob, the class, the index, the number of chunks and the
  root of the object, so that no two chunks of one or of two objects share it.\<close>

theorem chunk_aad_binds:
  assumes "length b = 16" "length b' = 16" "i < 2 ^ 32" "i' < 2 ^ 32" "n < 2 ^ 32" "n' < 2 ^ 32"
  shows "build_kchat_chunk_aad b c i n r = build_kchat_chunk_aad b' c' i' n' r' \<longleftrightarrow>
    b = b' \<and> c = c' \<and> i = i' \<and> n = n' \<and> r = r'"
  using chunk_aad_inj[OF _ assms] by blast

theorem chunk_aad_binds_witness:
  "build_kchat_chunk_aad (replicate 16 3) Media 7 9 [1] \<noteq> build_kchat_chunk_aad (replicate 16 3) Media 8 9 [1]"
  using chunk_aad_binds[of "replicate 16 3" "replicate 16 3" 7 8 9 9 Media "[1]" Media "[1]"] by simp

subsection \<open>Chunks\<close>

lemma take_pieces: "concat (map (piece cs p) [0..<n]) = take (n * cs) p"
proof (induction n)
  case (Suc n)
  have "take (n * cs + cs) p = take (n * cs) p @ take cs (drop (n * cs) p)" by (rule take_add)
  then show ?case using Suc by (simp add: piece_def add.commute)
qed simp

lemma total_chunks_frames: "p \<noteq> [] \<Longrightarrow> total_chunks cs p = frames cs (length p)"
  by (simp add: total_chunks_def frames_def)

lemma frames_covers: "0 < cs \<Longrightarrow> n \<le> frames cs n * cs"
proof (induction n rule: less_induct)
  case (less n)
  show ?case
  proof (cases "n = 0")
    case False
    then have "n - cs \<le> frames cs (n - cs) * cs" using less by simp
    then show ?thesis using frames_step[of cs n] less.prems False by simp
  qed simp
qed

lemma frames_tight: "0 < cs \<Longrightarrow> Suc i < frames cs n \<Longrightarrow> Suc i * cs < n"
proof (induction n arbitrary: i rule: less_induct)
  case (less n)
  have "0 < n" using less.prems by (cases n) (simp_all add: frames_def)
  then have step: "frames cs n = Suc (frames cs (n - cs))" using frames_step less.prems(1) by simp
  then have pos: "0 < n - cs" using less.prems by (cases "n - cs") (simp_all add: frames_def)
  show ?case
  proof (cases i)
    case 0
    then show ?thesis using pos by simp
  next
    case (Suc j)
    then have "Suc j * cs < n - cs" using less.IH[of "n - cs" j] less.prems step pos by simp
    then show ?thesis using Suc by simp
  qed
qed

lemma pieces_whole:
  assumes "0 < cs"
  shows "concat (map (piece cs p) [0..<total_chunks cs p]) = p"
proof (cases "p = []")
  case True
  then show ?thesis by (simp add: take_pieces)
next
  case False
  then show ?thesis using frames_covers[OF assms, of "length p"] by (simp add: take_pieces total_chunks_frames)
qed

lemma length_piece_full:
  assumes "0 < cs" "Suc i < total_chunks cs p"
  shows "length (piece cs p i) = cs"
proof -
  have "p \<noteq> []" using assms(2) by (auto simp: total_chunks_def)
  then have "Suc i * cs < length p" using frames_tight assms by (simp add: total_chunks_frames)
  then show ?thesis by (simp add: piece_def)
qed

lemma total_chunks_pos: "0 < cs \<Longrightarrow> 0 < total_chunks cs p"
  using frames_step[of cs "length p"] by (cases "p = []") (simp_all add: total_chunks_frames, simp add: total_chunks_def)

text \<open>Every chunk seals, to 16 bytes more than its plaintext, and opens to it.\<close>

lemma uuid_bytes_len: "length (chunk_nonce i) = 24"
  by (simp add: chunk_nonce_def)

definition sealed_ok :: "crypto \<Rightarrow> bytes \<Rightarrow> bytes \<Rightarrow> blob_class \<Rightarrow> nat \<Rightarrow> bytes \<Rightarrow> nat \<Rightarrow> bytes \<Rightarrow> sealed_chunk \<Rightarrow> bool" where
  "sealed_ok cr k b cls n r i p c \<longleftrightarrow> open_chunk cr k b cls n r i (sc_ciphertext c) = Inr p \<and>
     length (sc_ciphertext c) = length p + 16 \<and> sc_chunk_sha256 c = cr_sha256 cr (sc_ciphertext c)"

lemma seal_chunk_ok:
  assumes "xchacha_sound cr" "length k = 32" "length p < 2 ^ 38"
  shows "\<exists>c. seal_chunk cr k b cls n r i p = Inr c \<and> sealed_ok cr k b cls n r i p c"
proof -
  obtain c where "cr_seal cr k (chunk_nonce i) p (build_kchat_chunk_aad b cls i n r) = Some c" "length c = length p + 16"
      "cr_open cr k (chunk_nonce i) c (build_kchat_chunk_aad b cls i n r) = Some p"
    using xchacha_soundE[OF assms(1,2) uuid_bytes_len assms(3)] .
  then show ?thesis by (simp add: seal_chunk_def aead_seal_def sealed_ok_def open_chunk_def aead_open_def)
qed

definition padded_input :: "bool \<Rightarrow> bytes \<Rightarrow> bytes" where
  "padded_input pad p = (if pad then pad_to_size_class p else p)"

definition chunked_ok :: "crypto \<Rightarrow> bytes \<Rightarrow> bytes \<Rightarrow> blob_class \<Rightarrow> nat \<Rightarrow> bytes \<Rightarrow> chunked_media \<Rightarrow> bool" where
  "chunked_ok cr k b cls cs p m \<longleftrightarrow> cm_merkle_root m = cr_blake3 cr p \<and> cm_chunk_count m = total_chunks cs p \<and>
     cm_chunk_count m < 2 ^ 32 \<and> length (cm_sealed_chunks m) = cm_chunk_count m \<and>
     (\<forall>i < cm_chunk_count m. sealed_ok cr k b cls (cm_chunk_count m) (cm_merkle_root m) i (piece cs p i) (cm_sealed_chunks m ! i))"

lemma chunk_and_encrypt_ok:
  assumes "xchacha_sound cr" "length k = 32" "0 < cs" "cs < 2 ^ 38" "total_chunks cs (padded_input pad p) < 2 ^ 32"
  shows "\<exists>m. chunk_and_encrypt cr p k b cls cs pad = Inr m \<and> chunked_ok cr k b cls cs (padded_input pad p) m"
proof -
  let ?p = "padded_input pad p"
  let ?n = "total_chunks cs ?p" and ?r = "cr_blake3 cr ?p"
  have "\<exists>c. seal_chunk cr k b cls ?n ?r i (piece cs ?p i) = Inr c \<and> sealed_ok cr k b cls ?n ?r i (piece cs ?p i) c" for i
    using seal_chunk_ok[OF assms(1,2), of "piece cs ?p i"] assms(4) by (simp add: piece_def min_def)
  then obtain g where g: "\<And>i. seal_chunk cr k b cls ?n ?r i (piece cs ?p i) = Inr (g i)"
      "\<And>i. sealed_ok cr k b cls ?n ?r i (piece cs ?p i) (g i)"
    by metis
  have "mapE (\<lambda>i. seal_chunk cr k b cls ?n ?r i (piece cs ?p i)) [0..<?n] = Inr (map g [0..<?n])"
    by (rule mapE_all_ok) (rule g(1))
  then show ?thesis
    using assms(3,5) g(2) by (auto simp: chunk_and_encrypt_def padded_input_def Let_def chunked_ok_def)
qed

lemma chunk_and_encryptD:
  assumes "xchacha_sound cr" "length k = 32" "cs < 2 ^ 38" "chunk_and_encrypt cr p k b cls cs pad = Inr m"
  shows "0 < cs \<and> chunked_ok cr k b cls cs (padded_input pad p) m"
proof -
  have "0 < cs" "total_chunks cs (padded_input pad p) < 2 ^ 32"
    using assms(4) by (auto simp: chunk_and_encrypt_def padded_input_def Let_def split: if_splits)
  then show ?thesis using chunk_and_encrypt_ok[OF assms(1,2) _ assms(3), of pad p b cls] assms(4) by auto
qed

text \<open>Opening the chunks in order gives the pieces, and so the object.\<close>

lemma chunked_okD:
  assumes "chunked_ok cr k b cls cs p m" "0 < cs"
  shows "cm_sealed_chunks m \<noteq> []" "length (cm_sealed_chunks m) < 2 ^ 32"
    "list_all (\<lambda>c. cr_sha256 cr (sc_ciphertext c) = sc_chunk_sha256 c) (cm_sealed_chunks m)"
    "mapE (\<lambda>(i, c). open_chunk cr k b cls (cm_chunk_count m) (cm_merkle_root m) i (sc_ciphertext c))
       (enumerate 0 (cm_sealed_chunks m)) = Inr (map (piece cs p) [0..<cm_chunk_count m])"
    "concat (map (piece cs p) [0..<cm_chunk_count m]) = p"
proof -
  let ?cs = "cm_sealed_chunks m"
  have len: "length ?cs = cm_chunk_count m" "cm_chunk_count m = total_chunks cs p"
    using assms(1) by (simp_all add: chunked_ok_def)
  show "?cs \<noteq> []" using total_chunks_pos[OF assms(2), of p] len by auto
  show "length ?cs < 2 ^ 32" using assms(1) by (simp add: chunked_ok_def)
  show "list_all (\<lambda>c. cr_sha256 cr (sc_ciphertext c) = sc_chunk_sha256 c) ?cs"
    using assms(1) by (auto simp: chunked_ok_def sealed_ok_def list_all_length)
  show "mapE (\<lambda>(i, c). open_chunk cr k b cls (cm_chunk_count m) (cm_merkle_root m) i (sc_ciphertext c))
       (enumerate 0 ?cs) = Inr (map (piece cs p) [0..<cm_chunk_count m])"
    using assms(1)
    by (auto simp: mapE_Inr_iff list_all2_conv_all_nth nth_enumerate_eq chunked_ok_def sealed_ok_def)
  show "concat (map (piece cs p) [0..<cm_chunk_count m]) = p" using pieces_whole[OF assms(2)] len by simp
qed

lemma verify_chunked:
  assumes "chunked_ok cr k b cls cs p m" "0 < cs"
  shows "verify_and_decrypt cr (cm_sealed_chunks m) (cm_merkle_root m) k b cls = Inr p"
proof -
  have n: "length (cm_sealed_chunks m) = cm_chunk_count m" "cm_merkle_root m = cr_blake3 cr p"
    using assms(1) by (simp_all add: chunked_ok_def)
  show ?thesis
    using chunked_okD[OF assms] n by (simp add: verify_and_decrypt_def Let_def)
qed



subsection \<open>Download\<close>

text \<open>The service's documented behaviour: a range read returns the bytes of the committed blob, clamped to its end.\<close>

definition serves :: "'w media_transport \<Rightarrow> 'w \<Rightarrow> string \<Rightarrow> bytes \<Rightarrow> bool" where
  "serves T w blob_id blob \<longleftrightarrow> (\<forall>a b. mt_fetch_blob_range T blob_id a b w = Inr (take (b - a) (drop a blob)))"

lemma chunk_of_concat:
  assumes "i < length xs" "\<forall>j. Suc j < length xs \<longrightarrow> length (xs ! j) = L" "\<forall>x \<in> set xs. length x \<le> L"
  shows "take L (drop (i * L) (concat xs)) = xs ! i"
  using assms
proof (induction xs arbitrary: i)
  case (Cons x xs)
  have full: "length x = L" if "xs \<noteq> []" using Cons.prems(2) that by (cases xs) auto
  show ?case
  proof (cases i)
    case 0
    then show ?thesis using full Cons.prems(3) by (cases "xs = []") simp_all
  next
    case (Suc j)
    then have "j < length xs" "xs \<noteq> []" using Cons.prems(1) by auto
    moreover have "\<forall>j. Suc j < length xs \<longrightarrow> length (xs ! j) = L" using Cons.prems(2) by force
    ultimately have "take L (drop (j * L) (concat xs)) = xs ! j" using Cons by simp
    then show ?thesis using full[OF \<open>xs \<noteq> []\<close>] Suc by simp
  qed
qed simp

lemma length_piece: "length (piece cs p i) \<le> cs"
  by (simp add: piece_def)

lemma served_chunk:
  assumes "chunked_ok cr k b cls media_chunk_size p m" "i < cm_chunk_count m"
    and "serves T w blob_id (concat (map sc_ciphertext (cm_sealed_chunks m)))"
  shows "mt_fetch_blob_range T blob_id (fst (chunk_range i)) (snd (chunk_range i)) w =
    Inr (sc_ciphertext (cm_sealed_chunks m ! i))"
proof -
  let ?xs = "map sc_ciphertext (cm_sealed_chunks m)"
  have n: "length (cm_sealed_chunks m) = cm_chunk_count m" "cm_chunk_count m = total_chunks media_chunk_size p"
      "\<forall>i < cm_chunk_count m. length (sc_ciphertext (cm_sealed_chunks m ! i)) = length (piece media_chunk_size p i) + 16"
    using assms(1) by (simp_all add: chunked_ok_def sealed_ok_def)
  have "\<forall>j. Suc j < length ?xs \<longrightarrow> length (?xs ! j) = chunk_ciphertext_size"
    using n length_piece_full[of media_chunk_size _ p]
    by (simp add: chunk_ciphertext_size_def tag_len_def) (simp add: media_chunk_size_def)
  moreover have "\<forall>x \<in> set ?xs. length x \<le> chunk_ciphertext_size"
    using n length_piece[of media_chunk_size p] by (auto simp: in_set_conv_nth chunk_ciphertext_size_def tag_len_def)
  ultimately have "take chunk_ciphertext_size (drop (i * chunk_ciphertext_size) (concat ?xs)) = ?xs ! i"
    using assms(2) n(1) by (intro chunk_of_concat) simp_all
  then show ?thesis using assms(2,3) n(1) by (simp add: serves_def chunk_range_def Let_def)
qed

lemma download_chunked:
  assumes ok: "chunked_ok cr k (uuid_bytes u) cls media_chunk_size p m"
    and "serves T w blob_id (concat (map sc_ciphertext (cm_sealed_chunks m)))"
    and "me_parse_uuid E blob_id = Some u" "blob_id \<noteq> []"
  shows "download_chunked_media E cr T w blob_id (cm_chunk_count m) (cm_merkle_root m) k cls = Inr p"
proof -
  have pos: "0 < media_chunk_size" by (simp add: media_chunk_size_def)
  have n: "0 < cm_chunk_count m" "cm_merkle_root m = cr_blake3 cr p"
    using ok total_chunks_pos[OF pos, of p] by (simp_all add: chunked_ok_def)
  have "fetch_chunk who cr T w blob_id (uuid_bytes u) (cm_chunk_count m) (cm_merkle_root m) k cls i =
      Inr (piece media_chunk_size p i)" if "i \<in> set [0..<cm_chunk_count m]" for who i
  proof -
    have i: "i < cm_chunk_count m" using that by simp
    have "open_chunk cr k (uuid_bytes u) cls (cm_chunk_count m) (cm_merkle_root m) i (sc_ciphertext (cm_sealed_chunks m ! i)) =
        Inr (piece media_chunk_size p i)" "sc_ciphertext (cm_sealed_chunks m ! i) \<noteq> []"
      using ok i by (auto simp: chunked_ok_def sealed_ok_def)
    then show ?thesis using served_chunk[OF ok i assms(2)] by (simp add: fetch_chunk_def)
  qed
  then have "mapE (fetch_chunk who cr T w blob_id (uuid_bytes u) (cm_chunk_count m) (cm_merkle_root m) k cls)
      [0..<cm_chunk_count m] = Inr (map (piece media_chunk_size p) [0..<cm_chunk_count m])" for who
    by (rule mapE_all_ok)
  then show ?thesis
    using chunked_okD(5)[OF ok pos] n assms(3,4)
    by (simp add: download_chunked_media_def blob_id_to_aad_bytes_def Let_def)
qed

subsection \<open>Rehydration\<close>

lemma transition_media_state_ok:
  assumes "get_media_asset aid db = Some a" "ma_media_state a = f" "media_try_transition f t = Inr t'"
  shows "transition_media_state aid f t db = Inr (fst (update_media_state aid t db))"
proof -
  have "a \<in> set (db_media db)" "ma_asset_id a = aid"
    using assms(1) by (auto simp: get_media_asset_def dest: select_one_SomeD)
  then have "0 < row_count (\<lambda>a. ma_asset_id a = aid) (db_media db)"
    by (auto simp: row_count_def filter_empty_conv)
  then show ?thesis using assms by (simp add: transition_media_state_def update_media_state_def)
qed

lemma get_media_updated:
  assumes "\<And>a. ma_asset_id (f a) = ma_asset_id a" "get_media_asset aid db = Some a"
  shows "get_media_asset aid (db\<lparr>db_media := update_where (\<lambda>a. ma_asset_id a = aid) f (db_media db)\<rparr>) = Some (f a)"
  using assms(2) select_one_SomeD[of ma_asset_id aid "db_media db" a]
  by (simp add: get_media_asset_def select_one_update_where[where key = ma_asset_id and f = f, OF assms(1)])

lemma update_where_twice:
  assumes "\<And>r. P (f r) = P r"
  shows "update_where P g (update_where P f rows) = update_where P (g \<circ> f) rows"
  using assms by (induction rows) auto

lemma savepoint_failed: "fst (savepoint f d) = Inl e \<Longrightarrow> snd (savepoint f d) = d"
  by (auto simp: savepoint_def split: sum.splits)

definition rehydrated_row :: "nat \<Rightarrow> media_asset \<Rightarrow> media_asset" where
  "rehydrated_row n a = a\<lparr>ma_media_state := OriginalLocal, ma_bytes_local := int n\<rparr>"

definition with_original :: "string \<Rightarrow> nat \<Rightarrow> local_db \<Rightarrow> local_db" where
  "with_original aid n db =
     db\<lparr>db_media := update_where (\<lambda>a. ma_asset_id a = aid) (rehydrated_row n) (db_media db)\<rparr>"

lemma rehydration_writes:
  "set_bytes_local aid (int n) (fst (update_media_state aid OriginalLocal (fst (update_media_state aid t db)))) =
     with_original aid n db"
  unfolding set_bytes_local_def update_media_state_def with_original_def
  by (simp add: update_where_def rehydrated_row_def)

lemma commit_rehydration_ok:
  assumes "get_media_asset aid db = Some a" "ma_media_state a \<in> {Evicted, RemoteOriginal}" "n < 2 ^ 63"
  shows "commit_rehydration aid (ma_media_state a) n db = (Inr (), with_original aid n db)"
proof -
  let ?db = "fst (update_media_state aid DownloadInProgress db)"
  have "transition_media_state aid (ma_media_state a) DownloadInProgress db = Inr ?db"
    using assms(1,2) by (intro transition_media_state_ok) (auto simp: media_try_transition_def)
  moreover have "get_media_asset aid ?db = Some (a\<lparr>ma_media_state := DownloadInProgress\<rparr>)"
    using get_media_updated[OF _ assms(1), of "ma_media_state_update (\<lambda>_. DownloadInProgress)"]
    by (simp add: update_media_state_def)
  then have "transition_media_state aid DownloadInProgress OriginalLocal ?db = Inr (fst (update_media_state aid OriginalLocal ?db))"
    by (rule transition_media_state_ok) (simp_all add: media_try_transition_def)
  ultimately show ?thesis
    using assms(3) by (simp add: commit_rehydration_def savepoint_def rehydration_writes)
qed

lemma rehydration_outcome:
  "(\<forall>e db'. rehydrate_media_asset E cr K T w key aid db = (Inl e, db') \<longrightarrow> db' = db) \<and>
   (\<forall>q db'. rehydrate_media_asset E cr K T w key aid db = (Inr q, db') \<longrightarrow>
      (\<exists>a. get_media_asset aid db = Some a \<and> ma_media_state a \<in> {Evicted, RemoteOriginal} \<and>
         ma_storage_sink a = ''kchat_backend'' \<and> cr_blake3 cr q = ma_merkle_root a \<and> db' = with_original aid (length q) db))"
proof -
  let ?R = "rehydrate_media_asset E cr K T w key aid db"
  have "snd ?R = db" if "\<exists>e. fst ?R = Inl e"
  proof -
    have "snd (commit_rehydration i f n db) = db" if "fst (commit_rehydration i f n db) = Inl e" for i f n e
      using that unfolding commit_rehydration_def by (rule savepoint_failed)
    then show ?thesis using that
      by (auto simp: rehydrate_media_asset_def split: sum.splits prod.splits) (metis fst_conv snd_conv)+
  qed
  moreover have "\<exists>a. get_media_asset aid db = Some a \<and> ma_media_state a \<in> {Evicted, RemoteOriginal} \<and>
      ma_storage_sink a = ''kchat_backend'' \<and> cr_blake3 cr q = ma_merkle_root a \<and> db' = with_original aid (length q) db"
    if R: "?R = (Inr q, db')" for q db'
  proof -
    obtain plan where plan: "prepare_rehydration aid db = Inr plan"
        "execute_rehydration_download E cr K T w key plan = Inr q"
        "commit_rehydration (rp_asset_id plan) (rp_from_state plan) (length q) db = (Inr (), db')"
      using R by (auto simp: rehydrate_media_asset_def split: sum.splits prod.splits)
    obtain a where a: "get_media_asset aid db = Some a" "ma_media_state a \<in> {Evicted, RemoteOriginal}"
        "rp_asset_id plan = ma_asset_id a" "rp_from_state plan = ma_media_state a"
        "rp_storage_sink plan = ma_storage_sink a" "rp_merkle_root plan = ma_merkle_root a"
      using plan(1) by (auto simp: prepare_rehydration_def split: option.splits if_splits)
    have id: "ma_asset_id a = aid" using a(1) by (auto simp: get_media_asset_def dest: select_one_SomeD)
    have q: "ma_storage_sink a = ''kchat_backend''" "cr_blake3 cr q = ma_merkle_root a"
      using plan(2) a(5,6)
      by (auto simp: execute_rehydration_download_def download_chunked_media_def bindE_Inr_iff Let_def map_sum_Inr_iff
          split: sum.splits if_splits)
    have "length q < 2 ^ 63"
    proof (rule ccontr)
      assume "\<not> length q < 2 ^ 63"
      then have "fst (commit_rehydration (rp_asset_id plan) (rp_from_state plan) (length q) db) \<noteq> Inr ()"
        by (auto simp: commit_rehydration_def savepoint_def bindE_Inr_iff split: sum.splits prod.splits)
      then show False using plan(3) by simp
    qed
    then show ?thesis using commit_rehydration_ok[OF a(1,2)] plan(3) a id q by auto
  qed
  ultimately show ?thesis by (metis fst_conv snd_conv)
qed

text \<open>C10: A rehydration is all or nothing: it either hands out bytes whose hash is the row's root, and the row
  alone becomes the local original of that many bytes, or fails and leaves the database as it was; it fails for every row
  that is not evicted or remote, and for every row that another sink than the backend holds.\<close>

theorem rehydration_all_or_nothing:
  "(\<forall>e db'. rehydrate_media_asset E cr K T w key aid db = (Inl e, db') \<longrightarrow> db' = db) \<and>
   (\<forall>q db'. rehydrate_media_asset E cr K T w key aid db = (Inr q, db') \<longrightarrow>
      (\<exists>a. get_media_asset aid db = Some a \<and> ma_media_state a \<in> {Evicted, RemoteOriginal} \<and>
         ma_storage_sink a = ''kchat_backend'' \<and> cr_blake3 cr q = ma_merkle_root a \<and> db' = with_original aid (length q) db))"
  by (rule rehydration_outcome)

subsection \<open>From sending to rehydrating\<close>

lemma process_media_total:
  assumes "xchacha_sound cr" "keys_sound K" "length k = 32" "total_chunks media_chunk_size (padded_input pad p) < 2 ^ 32"
  shows "\<exists>r. process_media cr K th k aid bid p mime key cls pad = Inr r"
proof -
  obtain m where "chunk_and_encrypt cr p k (uuid_bytes bid) cls media_chunk_size pad = Inr m"
    using chunk_and_encrypt_ok[OF assms(1,3) _ _ assms(4)] by (auto simp: media_chunk_size_def)
  moreover obtain w where "wrap_key K key k = Inr w" using wrap_key_total[OF assms(2), of k key] assms(3) by (metis key_len_def)
  ultimately show ?thesis by (simp add: process_media_def)
qed

lemma process_mediaD:
  assumes "xchacha_sound cr" "keys_sound K" "length k = 32" "process_media cr K th k aid bid p mime key cls pad = Inr r"
  obtains m where "chunked_ok cr k (uuid_bytes bid) cls media_chunk_size (padded_input pad p) m"
    "mp_sealed_chunks r = cm_sealed_chunks m" "dsc_merkle_root (mp_descriptor r) = cm_merkle_root m"
    "dsc_chunk_count (mp_descriptor r) = word_of_nat (cm_chunk_count m)" "dsc_blob_id (mp_descriptor r) = bid"
    "dsc_asset_id (mp_descriptor r) = aid" "dsc_storage_sink (mp_descriptor r) = None"
    "unwrap_key K key (dsc_wrapped_k_asset (mp_descriptor r)) = Inr k" "mp_initial_media_state r = ThumbnailOnly"
proof -
  obtain m where m: "chunk_and_encrypt cr p k (uuid_bytes bid) cls media_chunk_size pad = Inr m"
    using assms(4) by (auto simp: process_media_def bindE_Inr_iff)
  obtain w where w: "wrap_key K key k = Inr w" "unwrap_key K key w = Inr k"
    using wrap_key_total[OF assms(2), of k key] assms(3) by (metis key_len_def)
  have "chunked_ok cr k (uuid_bytes bid) cls media_chunk_size (padded_input pad p) m"
    using chunk_and_encryptD[OF assms(1,3) _ m] by (simp add: media_chunk_size_def)
  then show thesis using that[of m] assms(4) m w by (auto simp: process_media_def)
qed

lemma sint_count: "n < 2 ^ 31 \<Longrightarrow> nat (sint (word_of_nat n :: 32 word)) = n"
  using sint_sbintrunc'[of "int n", where 'a = 32] by (simp add: signed_take_bit_int_eq_self)

lemma length_from_chunks: "total_chunks media_chunk_size p < 2 ^ 31 \<Longrightarrow> length p < 2 ^ 63"
  using frames_covers[of media_chunk_size "length p"]
  by (cases "p = []") (simp_all add: total_chunks_frames media_chunk_size_def)

lemma rehydrates_padded:
  assumes "xchacha_sound cr" "keys_sound K" "env_sound E" "\<forall>b. length (cr_blake3 cr b) = 32" "length k_asset = 32"
    and "process_media cr K th k_asset asset_id blob_id plaintext mime key Media True = Inr r"
    and "get_media_asset aid db = Some ((sent_media_asset E s mime r)\<lparr>ma_media_state := Evicted, ma_bytes_local := 0\<rparr>)"
    and "serves T w (me_show_uuid E blob_id) (concat (map sc_ciphertext (mp_sealed_chunks r)))"
    and "length (mp_sealed_chunks r) < 2 ^ 31" "length plaintext < 2 ^ 64" "me_show_uuid E blob_id \<noteq> []"
  shows "rehydrate_media_asset E cr K T w key aid db =
      (Inr (pad_to_size_class plaintext), with_original aid (length (pad_to_size_class plaintext)) db) \<and>
    length plaintext < length (pad_to_size_class plaintext) \<and>
    unpad_from_size_class (pad_to_size_class plaintext) = Inr plaintext"
proof -
  let ?p = "pad_to_size_class plaintext" and ?a = "(sent_media_asset E s mime r)\<lparr>ma_media_state := Evicted, ma_bytes_local := 0\<rparr>"
  obtain m where m: "chunked_ok cr k_asset (uuid_bytes blob_id) Media media_chunk_size ?p m"
      "mp_sealed_chunks r = cm_sealed_chunks m" "dsc_merkle_root (mp_descriptor r) = cm_merkle_root m"
      "dsc_chunk_count (mp_descriptor r) = word_of_nat (cm_chunk_count m)" "dsc_blob_id (mp_descriptor r) = blob_id"
      "dsc_asset_id (mp_descriptor r) = asset_id" "dsc_storage_sink (mp_descriptor r) = None"
      "unwrap_key K key (dsc_wrapped_k_asset (mp_descriptor r)) = Inr k_asset" "mp_initial_media_state r = ThumbnailOnly"
    using process_mediaD[OF assms(1,2,5,6)] by (auto simp: padded_input_def)
  have n: "cm_chunk_count m < 2 ^ 31" "length (cm_merkle_root m) = 32" "cm_chunk_count m = total_chunks media_chunk_size ?p"
    using m(1,2) assms(4,9) by (simp_all add: chunked_ok_def)
  have aid: "ma_asset_id ?a = aid" using assms(7) by (auto simp: get_media_asset_def dest: select_one_SomeD)
  have plan: "prepare_rehydration aid db = Inr \<lparr>rp_asset_id = aid, rp_blob_id = me_show_uuid E blob_id,
      rp_storage_sink = ''kchat_backend'', rp_chunk_count = cm_chunk_count m, rp_merkle_root = cm_merkle_root m,
      rp_wrapped_k_asset = dsc_wrapped_k_asset (mp_descriptor r), rp_from_state = Evicted\<rparr>"
    using assms(7) m n(2) aid sint_count[OF n(1)] by (simp add: prepare_rehydration_def sent_media_asset_def Let_def)
  have "download_chunked_media E cr T w (me_show_uuid E blob_id) (cm_chunk_count m) (cm_merkle_root m) k_asset Media = Inr ?p"
    using assms(8,11) m(2) env_soundD(1)[OF assms(3)] by (intro download_chunked[OF m(1)]) simp_all
  moreover have "commit_rehydration aid Evicted (length ?p) db = (Inr (), with_original aid (length ?p) db)"
    using commit_rehydration_ok[OF assms(7), of "length ?p"] length_from_chunks[of ?p] n by simp
  ultimately have "rehydrate_media_asset E cr K T w key aid db = (Inr ?p, with_original aid (length ?p) db)"
    using m(8) by (simp add: rehydrate_media_asset_def plan execute_rehydration_download_def)
  moreover have "length plaintext < length ?p" by (simp add: pad_padding)
  ultimately show ?thesis using unpad_pad[OF assms(10)] by simp
qed

text \<open>C11: When the photo that was sent comes back from the backend, after its row was evicted, the bytes handed out and
  counted as local are not those that were sent but the size-class padding of them, with the length prefix in
  front: \<open>send_media\<close> pads and no step of the rehydration unpads.\<close>

theorem rehydrated_media_stays_padded:
  assumes "xchacha_sound cr" "keys_sound K" "env_sound E" "\<forall>b. length (cr_blake3 cr b) = 32" "length k_asset = 32"
    and "process_media cr K th k_asset asset_id blob_id plaintext mime key Media True = Inr r"
    and "get_media_asset aid db = Some ((sent_media_asset E s mime r)\<lparr>ma_media_state := Evicted, ma_bytes_local := 0\<rparr>)"
    and "serves T w (me_show_uuid E blob_id) (concat (map sc_ciphertext (mp_sealed_chunks r)))"
    and "length (mp_sealed_chunks r) < 2 ^ 31" "length plaintext < 2 ^ 64" "me_show_uuid E blob_id \<noteq> []"
  shows "rehydrate_media_asset E cr K T w key aid db =
      (Inr (pad_to_size_class plaintext), with_original aid (length (pad_to_size_class plaintext)) db) \<and>
    length plaintext < length (pad_to_size_class plaintext) \<and>
    unpad_from_size_class (pad_to_size_class plaintext) = Inr plaintext"
  by (rule rehydrates_padded[OF assms])

subsection \<open>Interrupted uploads\<close>

lemma push_pending_marks:
  assumes "length marks = length cs" "push_pending T b i cs marks w = (r, marks', w')"
  shows "list_all2 (\<longrightarrow>) marks marks' \<and> (r = Inr () \<longrightarrow> marks' = replicate (length cs) True)"
  using assms
proof (induction cs arbitrary: i marks w marks')
  case (Cons c cs)
  obtain m ms where m: "marks = m # ms" "length ms = length cs" using Cons.prems(1) by (cases marks) auto
  have refl: "list_all2 (\<longrightarrow>) ms ms" by (rule list_all2_refl) simp
  have step: "list_all2 (\<longrightarrow>) (m # ms) (True # ms') \<and> (r = Inr () \<longrightarrow> True # ms' = replicate (length (c # cs)) True)"
    if "push_pending T b (i + 1) cs ms v = (r, ms', w')" for v ms'
    using Cons.IH[OF m(2) that] by simp
  show ?case
    using Cons.prems(2) step refl
    by (auto simp: m(1) split: if_splits prod.splits sum.splits)
qed simp

lemma push_pending_done: "push_pending T b i cs (replicate (length cs) True) w = (Inr (), replicate (length cs) True, w)"
  by (induction cs arbitrary: i) simp_all

lemma push_pending_all:
  "case push_pending T b i cs (replicate (length cs) False) w of (r, marks, w') \<Rightarrow>
     \<exists>r'. push_chunks T b i cs w = (r', w') \<and> (r = Inr () \<longleftrightarrow> r' = Inr ())"
proof (induction cs arbitrary: i w)
  case (Cons c cs)
  obtain r w1 where up: "mt_upload_chunk T b i (sc_ciphertext c) (sc_chunk_sha256 c) w = (r, w1)" by fastforce
  show ?case
  proof (cases r)
    case (Inl e)
    then show ?thesis by (simp add: up)
  next
    case (Inr receipt)
    obtain q marks w2 where rest: "push_pending T b (i + 1) cs (replicate (length cs) False) w1 = (q, marks, w2)"
      using prod_cases3 by blast
    then show ?thesis using Cons.IH[of "i + 1" w1] Inr by (auto simp: up)
  qed
qed simp

text \<open>C20: A resumed upload keeps every mark it has and sets more, whatever the transport answers; it succeeds only with
  every chunk marked and the root confirmed; with every chunk marked it sends none; with none marked it makes
  the calls of a first upload.\<close>

theorem resumed_upload_progresses:
  assumes "length (us_completed_chunks st) = length chunks" "chunks \<noteq> []"
  shows "(case resume_upload T st chunks cls w of (r, st', w') \<Rightarrow>
      us_blob_id st' = us_blob_id st \<and> us_merkle_root st' = us_merkle_root st \<and>
      list_all2 (\<longrightarrow>) (us_completed_chunks st) (us_completed_chunks st') \<and>
      (case r of Inl e \<Rightarrow> True | Inr res \<Rightarrow> us_completed_chunks st' = replicate (length chunks) True \<and>
         ur_blob_id res = us_blob_id st \<and> ur_server_merkle_root res = us_merkle_root st)) \<and>
    push_pending T (us_blob_id st) 0 chunks (replicate (length chunks) True) w = (Inr (), replicate (length chunks) True, w) \<and>
    snd (snd (push_pending T (us_blob_id st) 0 chunks (replicate (length chunks) False) w)) =
      snd (push_chunks T (us_blob_id st) 0 chunks w)"
proof -
  obtain r marks w1 where push: "push_pending T (us_blob_id st) 0 chunks (us_completed_chunks st) w = (r, marks, w1)"
    using prod_cases3 by blast
  have marks: "list_all2 (\<longrightarrow>) (us_completed_chunks st) marks" "r = Inr () \<Longrightarrow> marks = replicate (length chunks) True"
    using push_pending_marks[OF assms(1) push] by simp_all
  obtain c w2 where commit: "mt_commit_blob T (us_blob_id st) w1 = (c, w2)" by fastforce
  have "case resume_upload T st chunks cls w of (r, st', w') \<Rightarrow>
      us_blob_id st' = us_blob_id st \<and> us_merkle_root st' = us_merkle_root st \<and>
      list_all2 (\<longrightarrow>) (us_completed_chunks st) (us_completed_chunks st') \<and>
      (case r of Inl e \<Rightarrow> True | Inr res \<Rightarrow> us_completed_chunks st' = replicate (length chunks) True \<and>
         ur_blob_id res = us_blob_id st \<and> ur_server_merkle_root res = us_merkle_root st)"
    using assms marks by (cases r; cases c) (simp_all add: resume_upload_def push commit Let_def)
  moreover have "snd (snd (push_pending T (us_blob_id st) 0 chunks (replicate (length chunks) False) w)) =
      snd (push_chunks T (us_blob_id st) 0 chunks w)"
    using push_pending_all[of T "us_blob_id st" 0 chunks w] by (auto split: prod.splits)
  ultimately show ?thesis by (intro conjI push_pending_done)
qed

end
