(* ===== verification/Media_Histories.thy ===== *)
theory Media_Histories
  imports Media_Facts Message_Histories Eviction
begin

text \<open>
  Media in the life of the store: what \<open>send_media\<close> writes, and what becomes of an asset under every history of
  the message operations, sends, rehydrations and eviction sweeps.
\<close>

subsection \<open>What a send writes\<close>

text \<open>The payload of the two journal rows of a send; the caption is no part of it.\<close>

definition send_payload :: "message_skeleton \<Rightarrow> bytes" where
  "send_payload s = encode_event_payload (sk_message_id s) (sk_conversation_id s) (sk_sender_id s) (sk_created_at_ms s)"

lemma send_media_writes:
  assumes "send_media_inner E cid mid s asset caption st = Inr st'"
  shows "adds_message (me_unicode E) s caption (ms_db st) (ms_db st') \<and>
    db_media (ms_db st') = db_media (ms_db st) @ [asset] \<and>
    journals st st' [(journal_entry ''outbox_pending'' (sk_conversation_id s) (sk_message_id s) (send_payload s)
        (sk_created_at_ms s))\<lparr>be_event_seq := db_event_seq (ms_db st) + 1\<rparr>]
      [\<lparr>ar_event_seq = ms_archive_seq st + 1, ar_event_type = ''media_received'', ar_conversation_id = me_show_uuid E cid,
        ar_message_id = Some (me_show_uuid E mid), ar_payload = send_payload s, ar_created_at_ms = sk_created_at_ms s\<rparr>]"
proof -
  obtain db1 st2 db3 db4 where s: "insert_message_skeleton s (ms_db st) = Inr db1"
    and t: "(case caption of None \<Rightarrow> Inr (st\<lparr>ms_db := db1\<rparr>) | Some c \<Rightarrow> insert_text E s c (st\<lparr>ms_db := db1\<rparr>)) = Inr st2"
    and a: "insert_media_asset asset (ms_db st2) = Inr db3"
    and ev: "insert_backup_event (journal_entry ''outbox_pending'' (sk_conversation_id s) (sk_message_id s)
        (send_payload s) (sk_created_at_ms s)) (bump_conversation s db3) = Inr db4"
    and st': "st' = write_archive_event E \<lparr>ae_event_type = AMediaReceived, ae_conversation_id = cid,
        ae_message_id = Some mid, ae_payload = send_payload s, ae_created_at_ms = sk_created_at_ms s\<rparr>
        ((with_db (bump_conversation s) (st2\<lparr>ms_db := db3\<rparr>))\<lparr>ms_db := db4\<rparr>)"
    using assms by (auto simp: send_media_inner_def send_media_rows_def send_media_journals_def send_payload_def Let_def err_simps)
  have db1: "db1 = (ms_db st)\<lparr>db_skeletons := db_skeletons (ms_db st) @ [s]\<rparr>"
      "sk_message_id s \<notin> sk_message_id ` set (db_skeletons (ms_db st))" "db_wf (ms_db st) \<Longrightarrow> db_wf db1"
    using insert_skeleton_effect[OF s] insert_skeleton_wf[OF s] by simp_all
  have st2: "ms_archive st2 = ms_archive st \<and> ms_archive_seq st2 = ms_archive_seq st \<and> (db_wf db1 \<longrightarrow> db_wf (ms_db st2)) \<and>
      db_media (ms_db st2) = db_media (ms_db st) \<and> db_events (ms_db st2) = db_events (ms_db st) \<and>
      db_event_seq (ms_db st2) = db_event_seq (ms_db st) \<and> db_skeletons (ms_db st2) = db_skeletons db1 \<and>
      db_vectors (ms_db st2) = db_vectors (ms_db st) \<and>
      db_bodies (ms_db st2) = db_bodies (ms_db st) @ (case caption of None \<Rightarrow> [] | Some t \<Rightarrow> [body_row (sk_message_id s) t]) \<and>
      db_fts (ms_db st2) = db_fts (ms_db st) @ (case caption of None \<Rightarrow> [] | Some t \<Rightarrow> [fts_of s t]) \<and>
      db_fuzzy (ms_db st2) = (case caption of None \<Rightarrow> db_fuzzy (ms_db st)
         | Some t \<Rightarrow> db_fuzzy (index_message (me_unicode E) (sk_message_id s) t (ms_db st)))"
  proof (cases caption)
    case None
    then show ?thesis using t db1(1) by auto
  next
    case (Some c)
    then have "insert_text E s c (st\<lparr>ms_db := db1\<rparr>) = Inr st2" using t by simp
    from insert_text_effect[OF this] show ?thesis using Some db1(1) by (auto simp: index_message_rows)
  qed
  have wf: "db_wf (ms_db st) \<longrightarrow> db_wf db4"
    using db1(3) st2 insert_media_wf[OF a] bump_conversation_effect(2)[of db3 s] insert_backup_event_wf[OF ev] by blast
  show ?thesis
    using st2 db1 wf insert_media_effect[OF a] insert_event_effect[OF ev]
    by (auto simp: st' adds_message_def journals_def write_archive_event_def Let_def)
qed

subsection \<open>Histories\<close>

record media_send =
  sd_k_asset :: bytes
  sd_asset_id :: uuid
  sd_blob_id :: uuid
  sd_now :: int
  sd_conversation_id :: uuid
  sd_message_id :: uuid
  sd_plaintext :: bytes
  sd_mime_type :: string
  sd_caption :: "utext option"

text \<open>The calls that read or write assets: the message operations, a send, a rehydration of the asset of a message
  under a state of the service, and an eviction sweep.\<close>

datatype 'w media_op =
    OnMessages message_op
  | SendMedia media_send
  | Rehydrate uuid bytes 'w
  | EvictionSweep int int nat pressure_level

record 'w media_system =
  sy_env :: message_env
  sy_crypto :: crypto
  sy_keys :: key_library
  sy_thumbnail :: "bytes \<Rightarrow> string \<Rightarrow> bytes option"
  sy_transport :: "'w media_transport"
  sy_key :: bytes
  sy_parse_uuid :: "string \<Rightarrow> nat option"
  sy_show_uuid :: "nat \<Rightarrow> string"

definition send_of :: "'w media_system \<Rightarrow> media_send \<Rightarrow> message_store \<Rightarrow> (processor_error + media_descriptor) \<times> message_store" where
  "send_of S m = send_media (sy_env S) (sy_crypto S) (sy_keys S) (sy_thumbnail S) (sy_key S) (sd_k_asset m) (sd_asset_id m)
     (sd_blob_id m) (sd_now m) (sd_conversation_id m) (sd_message_id m) (sd_plaintext m) (sd_mime_type m) (sd_caption m)"

definition rehydrate_of :: "'w media_system \<Rightarrow> uuid \<Rightarrow> bytes \<Rightarrow> 'w \<Rightarrow> message_store \<Rightarrow> (media_error + bytes option) \<times> message_store" where
  "rehydrate_of S mid key w st =
     (case rehydrate_media_for_message (sy_env S) (sy_crypto S) (sy_keys S) (sy_transport S) w key mid (ms_db st) of
        (r, db) \<Rightarrow> (r, st\<lparr>ms_db := db\<rparr>))"

definition sweep_of :: "'w media_system \<Rightarrow> int \<Rightarrow> int \<Rightarrow> nat \<Rightarrow> pressure_level \<Rightarrow> message_store \<Rightarrow> message_store" where
  "sweep_of S min_age now target p st = (case collect_eviction_candidates (sy_parse_uuid S) (ms_db st) min_age now of
      Inl _ \<Rightarrow> st
    | Inr cs \<Rightarrow> with_db (\<lambda>db. fst (execute_eviction (sy_show_uuid S) (plan_eviction_with_pressure cs target now p) db)) st)"

fun media_op_step :: "'w media_system \<Rightarrow> 'w media_op \<Rightarrow> message_store \<Rightarrow> message_store" where
  "media_op_step S (OnMessages op) st = snd (run_message (sy_env S) op st)"
| "media_op_step S (SendMedia m) st = snd (send_of S m st)"
| "media_op_step S (Rehydrate mid key w) st = snd (rehydrate_of S mid key w st)"
| "media_op_step S (EvictionSweep min_age now target p) st = sweep_of S min_age now target p st"

definition media_after :: "'w media_system \<Rightarrow> 'w media_op list \<Rightarrow> message_store" where
  "media_after S ops = fold (media_op_step S) ops empty_message_store"

definition all_thumbnails :: "local_db \<Rightarrow> bool" where
  "all_thumbnails db \<longleftrightarrow> (\<forall>a \<in> set (db_media db). ma_media_state a = ThumbnailOnly)"

lemma all_thumbnails_cong: "db_media db' = db_media db \<Longrightarrow> all_thumbnails db' = all_thumbnails db"
  by (simp add: all_thumbnails_def)

subsection \<open>No asset leaves its first state\<close>

lemma event_media: "insert_backup_event (journal_entry ty cid mid p t) db = Inr db' \<Longrightarrow> db_media db' = db_media db"
  by (drule insert_event_effect) simp

lemma events_media:
  "foldE (\<lambda>a. on_db (insert_backup_event (journal_entry ty cid mid (p a) t))) as st = Inr st' \<Longrightarrow>
     db_media (ms_db st') = db_media (ms_db st)"
  by (induction as arbitrary: st) (auto simp: err_simps dest!: event_media)

lemma ingest_media:
  assumes "persist_ingested_message_inner E m r j st = Inr st'"
  shows "db_media (ms_db st') = db_media (ms_db st) @ map (asset_of E (ingest_skeleton E m r)) (im_media_descriptors m)"
  using assms
  by (auto simp: persist_ingested_message_inner_def Let_def err_simps split: if_splits option.splits
      dest!: event_media insert_skeleton_effect insert_media_fold insert_text_effect)

lemma outbox_media: "persist_outbox_entry_inner E e j st = Inr st' \<Longrightarrow> db_media (ms_db st') = db_media (ms_db st)"
  by (auto simp: persist_outbox_entry_inner_def Let_def err_simps
      dest!: event_media insert_skeleton_effect insert_text_effect)

lemmas untouched_media = delete_vector_row_def index_message_rows unindex_message_def insert_fts_row_def
  delete_fts_row_def update_skeleton_edited_def update_message_body_text_def update_skeleton_deleted_def delete_message_body_def

lemma edit_media: "edit_message_inner E s t now st = Inr st' \<Longrightarrow> db_media (ms_db st') = db_media (ms_db st)"
  by (auto simp: edit_message_inner_def Let_def err_simps untouched_media dest!: event_media)

lemma delete_media: "delete_inner_tx E s scope target t st = Inr st' \<Longrightarrow> db_media (ms_db st') = db_media (ms_db st)"
  by (auto simp: delete_inner_tx_def Let_def err_simps untouched_media dest!: event_media events_media split: if_splits)

lemma embed_media: "db_media (ms_db (maybe_embed_text_message E m st)) = db_media (ms_db st)"
  by (simp add: maybe_embed_text_message_def Let_def cache_put_def split: option.splits)

lemma message_op_media:
  assumes "run_message E op st = (Inr u, st')"
  shows "\<exists>as. db_media (ms_db st') = db_media (ms_db st) @ as \<and> (\<forall>a \<in> set as. ma_media_state a = ThumbnailOnly)"
proof (cases op)
  case (AddConversation c)
  then have "db_media (ms_db st') = db_media (ms_db st)"
    using assms by (auto simp: just_db_def err_simps insert_conversation_def split: sum.splits if_splits)
  then show ?thesis by simp
next
  case (Ingest m r j)
  then obtain st1 where "persist_ingested_message_inner E m r j st = Inr st1" "st' = maybe_embed_text_message E m st1"
    using assms by (auto simp: persist_ingested_message_def in_savepoint_Inr split: sum.splits prod.splits if_splits)
  then show ?thesis using ingest_media[of E m r j st st1] by (auto simp: embed_media asset_of_def)
next
  case (Send e j)
  then have "persist_outbox_entry_inner E e j st = Inr st'"
    using assms by (auto simp: persist_outbox_entry_def in_savepoint_Inr split: sum.splits prod.splits if_splits)
  then show ?thesis by (simp add: outbox_media)
next
  case (ConfirmSent mid now)
  then show ?thesis
    using assms by (auto simp: mark_sent_def err_simps dest!: event_media split: option.splits sum.splits)
next
  case (EditText mid t now)
  then obtain s where "edit_message_inner E s t now st = Inr st'"
    using assms by (auto simp: edit_message_def in_savepoint_Inr split: option.splits if_splits sum.splits)
  then show ?thesis by (simp add: edit_media)
next
  case (HideForMe mid now)
  then obtain s sc tg where "delete_inner_tx E s sc tg now st = Inr st'"
    using assms by (auto simp: delete_for_me_def delete_inner_def in_savepoint_Inr Let_def split: option.splits sum.splits)
  then show ?thesis by (simp add: delete_media)
next
  case (EraseForEveryone mid now)
  then obtain s sc tg where "delete_inner_tx E s sc tg now st = Inr st'"
    using assms by (auto simp: delete_for_everyone_def delete_inner_def in_savepoint_Inr Let_def split: option.splits sum.splits)
  then show ?thesis by (simp add: delete_media)
qed

lemma message_op_thumbnails:
  assumes "all_thumbnails (ms_db st)"
  shows "all_thumbnails (ms_db (snd (run_message E op st)))"
proof (cases "run_message E op st")
  case (Pair r st')
  show ?thesis
  proof (cases r)
    case (Inl e)
    then show ?thesis using failed_message_keeps[of E op st e st'] Pair assms by simp
  next
    case (Inr u)
    then show ?thesis using message_op_media[of E op st u st'] Pair assms by (auto simp: all_thumbnails_def)
  qed
qed

lemma process_media_initial: "process_media cr K th k aid bid p mime key cls pad = Inr r \<Longrightarrow> mp_initial_media_state r = ThumbnailOnly"
  by (auto simp: process_media_def bindE_Inr_iff)

lemma send_mediaD:
  assumes "send_media E cr K th key k aid bid now cid mid p mime caption st = (Inr d, st')"
  obtains r where "process_media cr K th k aid bid p mime key Media True = Inr r" "d = mp_descriptor r"
    "send_media_inner E cid mid (sent_media_skeleton E cid mid now ThumbnailOnly)
       (sent_media_asset E (sent_media_skeleton E cid mid now ThumbnailOnly) mime r) caption st = Inr st'"
    "ma_media_state (sent_media_asset E (sent_media_skeleton E cid mid now ThumbnailOnly) mime r) = ThumbnailOnly"
proof -
  obtain r where r: "process_media cr K th k aid bid p mime key Media True = Inr r"
    using assms by (auto simp: send_media_def split: if_splits sum.splits)
  show thesis
    using assms process_media_initial[OF r]
    by (intro that[OF r])
      (auto simp: send_media_def r in_savepoint_Inr Let_def sent_media_asset_def split: if_splits sum.splits prod.splits)
qed

lemma send_media_failed: "send_media E cr K th key k aid bid now cid mid p mime caption st = (Inl e, st') \<Longrightarrow> st' = st"
  by (auto simp: send_media_def Let_def dest: in_savepoint_Inl split: if_splits sum.splits prod.splits)

lemma send_thumbnails:
  assumes "all_thumbnails (ms_db st)"
  shows "all_thumbnails (ms_db (snd (send_of S m st)))"
proof (cases "send_of S m st")
  case (Pair r st')
  show ?thesis
  proof (cases r)
    case (Inl e)
    then show ?thesis using send_media_failed Pair assms unfolding send_of_def by fastforce
  next
    case (Inr d)
    then show ?thesis
      using Pair assms
      by (auto simp: send_of_def all_thumbnails_def elim!: send_mediaD dest!: send_media_writes)
  qed
qed

lemma rehydrate_thumbnails:
  assumes "all_thumbnails (ms_db st)"
  shows "snd (rehydrate_of S mid key w st) = st \<and> fst (rehydrate_of S mid key w st) \<noteq> Inr (Some p)"
proof -
  have prep: "\<exists>e. prepare_rehydration aid (ms_db st) = Inl e" for aid
    using assms by (auto simp: prepare_rehydration_def get_media_asset_def all_thumbnails_def
        dest!: select_one_SomeD split: option.splits)
  have fails: "\<exists>e. rehydrate_media_asset (sy_env S) (sy_crypto S) (sy_keys S) (sy_transport S) w key aid (ms_db st) =
      (Inl e, ms_db st)" for aid
  proof -
    obtain e where "prepare_rehydration aid (ms_db st) = Inl e" using prep by blast
    then show ?thesis by (simp add: rehydrate_media_asset_def)
  qed
  show ?thesis
  proof (cases "get_media_asset_by_message (me_show_uuid (sy_env S) mid) (ms_db st)")
    case None
    then show ?thesis by (simp add: rehydrate_of_def rehydrate_media_for_message_def)
  next
    case (Some a)
    obtain e where "rehydrate_media_asset (sy_env S) (sy_crypto S) (sy_keys S) (sy_transport S) w key (ma_asset_id a) (ms_db st) =
      (Inl e, ms_db st)" using fails by blast
    then show ?thesis using Some by (simp add: rehydrate_of_def rehydrate_media_for_message_def)
  qed
qed

lemma sweep_thumbnails:
  assumes "all_thumbnails (ms_db st)"
  shows "sweep_of S min_age now target p st = st"
proof -
  have "set (eviction_rows (ms_db st) min_age now) = {}"
    using assms by (auto simp: eviction_rows_def Let_def all_thumbnails_def)
  then have "eviction_rows (ms_db st) min_age now = []" by simp
  then show ?thesis
    by (simp add: sweep_of_def collect_eviction_candidates_def plan_eviction_with_pressure_def execute_eviction_def
        sort_desc_def with_db_def)
qed

lemma media_op_step_thumbnails: "all_thumbnails (ms_db st) \<Longrightarrow> all_thumbnails (ms_db (media_op_step S op st))"
  by (cases op)
    (simp_all add: message_op_thumbnails send_thumbnails rehydrate_thumbnails[THEN conjunct1] sweep_thumbnails)

lemma history_thumbnails: "all_thumbnails (ms_db (media_after S ops))"
proof (induction ops rule: rev_induct)
  case Nil
  show ?case by (simp add: media_after_def empty_message_store_def empty_db_def all_thumbnails_def)
next
  case (snoc op ops)
  then show ?case by (simp add: media_after_def media_op_step_thumbnails)
qed

text \<open>C6: After every history of the message operations, sends, rehydrations and eviction sweeps, every asset is still in
  the state it was inserted in: nothing in the program moves one to a state from which it could be evicted or
  fetched, so that no sweep frees anything and no message's media is ever downloaded, whatever the service
  holds.\<close>

theorem no_asset_leaves_thumbnail_only:
  "let st = media_after S ops in
     ma_media_state ` set (db_media (ms_db st)) \<subseteq> {ThumbnailOnly} \<and>
     sweep_of S min_age now target p st = st \<and>
     snd (rehydrate_of S mid key w st) = st \<and> fst (rehydrate_of S mid key w st) \<noteq> Inr (Some q)"
  using history_thumbnails[of S ops] sweep_thumbnails[of "media_after S ops" S min_age now target p]
    rehydrate_thumbnails[of "media_after S ops" S mid key w q]
  by (auto simp: Let_def all_thumbnails_def)

text \<open>C23: A send adds one message and one asset and journals it once in each journal; what it tells the two journals is
  the same for every caption, so that a caption, which is searchable and shown, is in no archive segment built
  from the row.\<close>

theorem sent_captions_are_not_archived:
  assumes "send_media E cr K th key k aid bid now cid mid p mime caption st = (Inr d, st')"
  shows "let s = sent_media_skeleton E cid mid now ThumbnailOnly in
    adds_message (me_unicode E) s caption (ms_db st) (ms_db st') \<and>
    map ma_asset_id (db_media (ms_db st')) = map ma_asset_id (db_media (ms_db st)) @ [me_show_uuid E (dsc_asset_id d)] \<and>
    journals st st' [(journal_entry ''outbox_pending'' (sk_conversation_id s) (sk_message_id s) (send_payload s) now)
        \<lparr>be_event_seq := db_event_seq (ms_db st) + 1\<rparr>]
      [\<lparr>ar_event_seq = ms_archive_seq st + 1, ar_event_type = ''media_received'', ar_conversation_id = me_show_uuid E cid,
        ar_message_id = Some (me_show_uuid E mid), ar_payload = send_payload s, ar_created_at_ms = now\<rparr>]"
proof -
  let ?s = "sent_media_skeleton E cid mid now ThumbnailOnly"
  obtain r where d: "d = mp_descriptor r"
    and inner: "send_media_inner E cid mid ?s (sent_media_asset E ?s mime r) caption st = Inr st'"
    using assms by (elim send_mediaD)
  have "ma_asset_id (sent_media_asset E ?s mime r) = me_show_uuid E (dsc_asset_id d)"
    by (simp add: sent_media_asset_def d Let_def)
  moreover have "sk_created_at_ms ?s = now" by (simp add: sent_media_skeleton_def)
  ultimately show ?thesis using send_media_writes[OF inner] by (simp add: Let_def)
qed

end
