(* ===== verification/Media_Sinks.thy ===== *)
theory Media_Sinks
  imports Media_Facts Archive_Segments
begin

text \<open>
  Where the chunks of an asset can live (\<open>media/sinks\<close>) and how an upload or a download finds its place
  (\<open>media/routing.rs\<close>): the iCloud and Google Drive sinks over a bridge of the platform, the object store over an S3
  client.  Bridge and client are records of functions over a state \<open>'w\<close>; strings are their bytes.
\<close>

subsection \<open>References\<close>

record media_blob_reference =
  br_blob_id :: string
  br_storage_sink :: string
  br_sink_metadata :: "bytes option"

record 'w media_blob_sink =
  snk_upload_media_chunks :: "string \<Rightarrow> blob_class \<Rightarrow> bytes list \<Rightarrow> bytes \<Rightarrow> 'w \<Rightarrow> (media_error + media_blob_reference) \<times> 'w"
  snk_fetch_media_chunk :: "media_blob_reference \<Rightarrow> nat \<Rightarrow> 'w \<Rightarrow> media_error + bytes"
  snk_delete_media_blob :: "media_blob_reference \<Rightarrow> 'w \<Rightarrow> (media_error + unit) \<times> 'w"

definition noop_media_blob_sink :: "'w media_blob_sink" where
  "noop_media_blob_sink = \<lparr>
     snk_upload_media_chunks = (\<lambda>_ _ _ _ w. (Inl (NotImplementedError ''media_blob_sink''), w)),
     snk_fetch_media_chunk = (\<lambda>_ _ _. Inl (NotImplementedError ''media_blob_sink'')),
     snk_delete_media_blob = (\<lambda>_ w. (Inl (NotImplementedError ''media_blob_sink''), w))\<rparr>"

abbreviation sink_error :: "string \<Rightarrow> media_error" where
  "sink_error s \<equiv> MediaError (StorageFailure s)"

text \<open>\<open>str::from_utf8\<close>: the well-formed sequences of the Unicode standard.\<close>

definition byte_between :: "nat \<Rightarrow> nat \<Rightarrow> byte \<Rightarrow> bool" where
  "byte_between lo hi b \<longleftrightarrow> lo \<le> unat b \<and> unat b \<le> hi"

fun well_formed_utf8 :: "bytes \<Rightarrow> bool" where
  "well_formed_utf8 [] = True"
| "well_formed_utf8 (a # bs) =
     (if byte_between 0 0x7f a then well_formed_utf8 bs
      else case bs of
          [] \<Rightarrow> False
        | b # cs \<Rightarrow>
            if byte_between 0xc2 0xdf a then byte_between 0x80 0xbf b \<and> well_formed_utf8 cs
            else (case cs of
                [] \<Rightarrow> False
              | c # ds \<Rightarrow>
                  if byte_between 0xe0 0xef a then
                    byte_between (if a = 0xe0 then 0xa0 else 0x80) (if a = 0xed then 0x9f else 0xbf) b \<and> byte_between 0x80 0xbf c \<and>
                    well_formed_utf8 ds
                  else (case ds of
                      [] \<Rightarrow> False
                    | d # es \<Rightarrow> byte_between 0xf0 0xf4 a \<and>
                        byte_between (if a = 0xf0 then 0x90 else 0x80) (if a = 0xf4 then 0x8f else 0xbf) b \<and>
                        byte_between 0x80 0xbf c \<and> byte_between 0x80 0xbf d \<and> well_formed_utf8 es)))"

definition encode_metadata :: "string \<Rightarrow> nat \<Rightarrow> bytes \<Rightarrow> bytes" where
  "encode_metadata name chunk_count merkle_root = be_bytes 4 chunk_count @ merkle_root @ ascii_bytes name"

definition decode_metadata :: "string \<Rightarrow> bytes \<Rightarrow> media_error + string \<times> nat \<times> bytes" where
  "decode_metadata who metadata =
     (if length metadata < 4 + 32 then Inl (sink_error (who @ '': sink_metadata too short''))
      else if \<not> well_formed_utf8 (drop 36 metadata) then Inl (sink_error (who @ '': name not valid UTF-8''))
      else Inr (map (\<lambda>b. char_of (unat b)) (drop 36 metadata), be_value (take 4 metadata), take 32 (drop 4 metadata)))"

text \<open>The name the sink looks the blob up by: the recorded one, or else the id.\<close>

definition blob_name :: "string \<Rightarrow> media_blob_reference \<Rightarrow> media_error + string" where
  "blob_name who ref = (case br_sink_metadata ref of
      Some meta \<Rightarrow> bindE (decode_metadata who meta) (\<lambda>(name, _). Inr name) | None \<Rightarrow> Inr (br_blob_id ref))"

subsection \<open>iCloud and Google Drive\<close>

record 'w blob_bridge =
  bb_upload_file :: "string \<Rightarrow> bytes \<Rightarrow> 'w \<Rightarrow> (media_error + string) \<times> 'w"
  bb_download_file_range :: "string \<Rightarrow> nat \<Rightarrow> nat \<Rightarrow> 'w \<Rightarrow> media_error + bytes"
  bb_delete_file :: "string \<Rightarrow> 'w \<Rightarrow> (media_error + unit) \<times> 'w"

text \<open>The two sinks have the same text but for their names.\<close>

definition bridge_upload ::
  "string \<Rightarrow> string \<Rightarrow> 'w blob_bridge \<Rightarrow> string \<Rightarrow> bytes list \<Rightarrow> bytes \<Rightarrow> 'w \<Rightarrow> (media_error + media_blob_reference) \<times> 'w" where
  "bridge_upload who tag B asset_id chunks expected_merkle_root w =
     (if length chunks \<ge> 2 ^ 32 then (Inl (sink_error (who @ ''::upload_media_chunks: too many chunks'')), w)
      else (case bb_upload_file B asset_id (concat chunks) w of
          (Inl e, w) \<Rightarrow> (Inl e, w)
        | (Inr name, w) \<Rightarrow> (Inr \<lparr>br_blob_id = asset_id, br_storage_sink = tag,
            br_sink_metadata = Some (encode_metadata name (length chunks) expected_merkle_root)\<rparr>, w)))"

definition bridge_fetch :: "string \<Rightarrow> string \<Rightarrow> 'w blob_bridge \<Rightarrow> media_blob_reference \<Rightarrow> nat \<Rightarrow> 'w \<Rightarrow> media_error + bytes" where
  "bridge_fetch who tag B ref chunk_idx w =
     (if br_storage_sink ref \<noteq> tag then Inl (sink_error (who @ ''::fetch_media_chunk: storage_sink mismatch''))
      else bindE (blob_name who ref) (\<lambda>name.
        bb_download_file_range B name (fst (chunk_range chunk_idx)) (snd (chunk_range chunk_idx)) w))"

definition bridge_delete :: "string \<Rightarrow> string \<Rightarrow> 'w blob_bridge \<Rightarrow> media_blob_reference \<Rightarrow> 'w \<Rightarrow> (media_error + unit) \<times> 'w" where
  "bridge_delete who tag B ref w =
     (if br_storage_sink ref \<noteq> tag then (Inl (sink_error (who @ ''::delete_media_blob: storage_sink mismatch'')), w)
      else (case blob_name who ref of Inl e \<Rightarrow> (Inl e, w) | Inr name \<Rightarrow> bb_delete_file B name w))"

definition bridge_sink :: "string \<Rightarrow> string \<Rightarrow> 'w blob_bridge \<Rightarrow> 'w media_blob_sink" where
  "bridge_sink who tag B = \<lparr>snk_upload_media_chunks = (\<lambda>aid _ cs r w. bridge_upload who tag B aid cs r w),
     snk_fetch_media_chunk = bridge_fetch who tag B, snk_delete_media_blob = bridge_delete who tag B\<rparr>"

definition icloud_media_blob_sink :: "'w blob_bridge \<Rightarrow> 'w media_blob_sink" where
  "icloud_media_blob_sink = bridge_sink ''ICloudMediaBlobSink'' ''icloud''"

definition google_drive_media_blob_sink :: "'w blob_bridge \<Rightarrow> 'w media_blob_sink" where
  "google_drive_media_blob_sink = bridge_sink ''GoogleDriveMediaBlobSink'' ''google_drive''"

subsection \<open>The object store\<close>

text \<open>Its configuration and the check of it are those of the archive.\<close>

record 'w s3_client =
  s3_put_object :: "string \<Rightarrow> string \<Rightarrow> bytes \<Rightarrow> 'w \<Rightarrow> (media_error + unit) \<times> 'w"
  s3_get_object_range :: "string \<Rightarrow> string \<Rightarrow> nat \<Rightarrow> nat \<Rightarrow> 'w \<Rightarrow> media_error + bytes"
  s3_delete_object :: "string \<Rightarrow> string \<Rightarrow> 'w \<Rightarrow> (media_error + unit) \<times> 'w"
  s3_head_object :: "string \<Rightarrow> string \<Rightarrow> 'w \<Rightarrow> media_error + nat option"

datatype dedup_event = ObjectUploaded nat bool | ObjectDeleted nat

text \<open>The probe, when there is one, sees the events; what it answers is ignored.\<close>

record 'w zk_object_fabric_sink =
  zs_s3 :: "'w s3_client"
  zs_config :: zk_fabric_sink_config
  zs_dedup_analytics :: "(dedup_event \<Rightarrow> 'w \<Rightarrow> 'w) option"

definition zk_object_fabric_sink_new :: "'w s3_client \<Rightarrow> zk_fabric_sink_config \<Rightarrow> media_error + 'w zk_object_fabric_sink" where
  "zk_object_fabric_sink_new s3 config = bindE (map_sum MediaError id (validate_zk_config config)) (\<lambda>_.
     Inr \<lparr>zs_s3 = s3, zs_config = config, zs_dedup_analytics = None\<rparr>)"

definition record_event :: "'w zk_object_fabric_sink \<Rightarrow> dedup_event \<Rightarrow> 'w \<Rightarrow> 'w" where
  "record_event Z e w = (case zs_dedup_analytics Z of None \<Rightarrow> w | Some probe \<Rightarrow> probe e w)"

definition asset_key :: "string \<Rightarrow> string" where "asset_key asset_id = ''media/'' @ asset_id"

definition zk_upload ::
  "'w zk_object_fabric_sink \<Rightarrow> string \<Rightarrow> bytes list \<Rightarrow> bytes \<Rightarrow> 'w \<Rightarrow> (media_error + media_blob_reference) \<times> 'w" where
  "zk_upload Z asset_id chunks expected_merkle_root w =
     (if length chunks \<ge> 2 ^ 32 then (Inl (sink_error ''ZkObjectFabricSink::upload_media_chunks: too many chunks''), w)
      else (case s3_put_object (zs_s3 Z) (zf_bucket (zs_config Z)) (asset_key asset_id) (concat chunks) w of
          (Inl e, w) \<Rightarrow> (Inl e, w)
        | (Inr _, w) \<Rightarrow> (Inr \<lparr>br_blob_id = asset_id, br_storage_sink = ''zk_object_fabric'',
            br_sink_metadata = Some (encode_metadata asset_id (length chunks) expected_merkle_root)\<rparr>,
            record_event Z (ObjectUploaded (length (concat chunks)) False) w)))"

definition zk_fetch :: "'w zk_object_fabric_sink \<Rightarrow> media_blob_reference \<Rightarrow> nat \<Rightarrow> 'w \<Rightarrow> media_error + bytes" where
  "zk_fetch Z ref chunk_idx w =
     (if br_storage_sink ref \<noteq> ''zk_object_fabric''
      then Inl (sink_error ''ZkObjectFabricSink::fetch_media_chunk: storage_sink mismatch'')
      else bindE (blob_name ''ZkObjectFabricSink'' ref) (\<lambda>asset_id.
        s3_get_object_range (zs_s3 Z) (zf_bucket (zs_config Z)) (asset_key asset_id)
          (fst (chunk_range chunk_idx)) (snd (chunk_range chunk_idx)) w))"

definition zk_delete :: "'w zk_object_fabric_sink \<Rightarrow> media_blob_reference \<Rightarrow> 'w \<Rightarrow> (media_error + unit) \<times> 'w" where
  "zk_delete Z ref w =
     (if br_storage_sink ref \<noteq> ''zk_object_fabric''
      then (Inl (sink_error ''ZkObjectFabricSink::delete_media_blob: storage_sink mismatch''), w)
      else (case (case br_sink_metadata ref of
            Some meta \<Rightarrow> bindE (decode_metadata ''ZkObjectFabricSink'' meta) (\<lambda>(aid, n, _). Inr (aid, Some n))
          | None \<Rightarrow> Inr (br_blob_id ref, None)) of
          Inl e \<Rightarrow> (Inl e, w)
        | Inr (aid, chunk_count_estimate) \<Rightarrow>
            let bucket = zf_bucket (zs_config Z);
                size = (if zs_dedup_analytics Z = None then 0
                  else (case s3_head_object (zs_s3 Z) bucket (asset_key aid) w of
                      Inr (Some n) \<Rightarrow> n
                    | _ \<Rightarrow> (case chunk_count_estimate of
                          Some n \<Rightarrow> min (n * chunk_ciphertext_size) u64_max | None \<Rightarrow> 0)))
            in (case s3_delete_object (zs_s3 Z) bucket (asset_key aid) w of
                (Inl e, w) \<Rightarrow> (Inl e, w) | (Inr _, w) \<Rightarrow> (Inr (), record_event Z (ObjectDeleted size) w))))"

definition zk_media_blob_sink :: "'w zk_object_fabric_sink \<Rightarrow> 'w media_blob_sink" where
  "zk_media_blob_sink Z = \<lparr>snk_upload_media_chunks = (\<lambda>aid _ cs r w. zk_upload Z aid cs r w),
     snk_fetch_media_chunk = zk_fetch Z, snk_delete_media_blob = zk_delete Z\<rparr>"

subsection \<open>Routing\<close>

definition route_media_upload ::
  "bool \<Rightarrow> 'w media_transport \<Rightarrow> 'w media_blob_sink option \<Rightarrow> string \<Rightarrow> sealed_chunk list \<Rightarrow> bytes \<Rightarrow> blob_class \<Rightarrow> bool \<Rightarrow>
   'w \<Rightarrow> (media_error + media_blob_reference) \<times> 'w" where
  "route_media_upload sink_configured T media_blob_sink asset_id chunks merkle_root cls is_thumbnail w =
     (case (if \<not> is_thumbnail \<and> sink_configured then media_blob_sink else None) of
        Some snk \<Rightarrow> snk_upload_media_chunks snk asset_id cls (map sc_ciphertext chunks) merkle_root w
      | None \<Rightarrow> (case upload_chunked_media T chunks merkle_root cls w of
            (Inl e, w) \<Rightarrow> (Inl (MediaError e), w)
          | (Inr r, w) \<Rightarrow> (Inr \<lparr>br_blob_id = ur_blob_id r, br_storage_sink = ''kchat_backend'', br_sink_metadata = None\<rparr>, w)))"

definition route_media_download ::
  "string \<Rightarrow> 'w media_transport \<Rightarrow> 'w media_blob_sink option \<Rightarrow> media_blob_reference \<Rightarrow> nat \<Rightarrow> 'w \<Rightarrow> media_error + bytes" where
  "route_media_download storage_sink T media_blob_sink ref chunk_idx w =
     (if br_storage_sink ref \<noteq> storage_sink
      then Inl (sink_error ''route_media_download: blob_ref.storage_sink does not match'')
      else if storage_sink = ''kchat_backend''
      then map_sum MediaError id (mt_fetch_blob_range T (br_blob_id ref) (fst (chunk_range chunk_idx)) (snd (chunk_range chunk_idx)) w)
      else (case media_blob_sink of
          None \<Rightarrow> Inl (sink_error ''route_media_download: storage_sink requires a MediaBlobSink but none was provided'')
        | Some snk \<Rightarrow> snk_fetch_media_chunk snk ref chunk_idx w))"

subsection \<open>What a sink keeps\<close>

definition is_rust_string :: "string \<Rightarrow> bool" where
  "is_rust_string s \<longleftrightarrow> well_formed_utf8 (ascii_bytes s)"

lemma decode_encode_metadata:
  assumes "length r = 32" "n < 2 ^ 32" "is_rust_string s"
  shows "decode_metadata who (encode_metadata s n r) = Inr (s, n, r)"
  using assms be_value_be_bytes[of n 4]
  by (simp add: decode_metadata_def encode_metadata_def is_rust_string_def ascii_roundtrip)

text \<open>Chunks that fill their ranges, all but the last exactly, as the chunker makes them.\<close>

definition fit_ranges :: "bytes list \<Rightarrow> bool" where
  "fit_ranges cs \<longleftrightarrow> (\<forall>j. Suc j < length cs \<longrightarrow> length (cs ! j) = chunk_ciphertext_size) \<and>
     (\<forall>c \<in> set cs. length c \<le> chunk_ciphertext_size)"

lemma fit_chunk:
  "fit_ranges cs \<Longrightarrow> i < length cs \<Longrightarrow>
     take (snd (chunk_range i) - fst (chunk_range i)) (drop (fst (chunk_range i)) (concat cs)) = cs ! i"
  using chunk_of_concat[of i cs chunk_ciphertext_size] by (simp add: fit_ranges_def chunk_range_def Let_def)

text \<open>Documented behaviour: a bridge answers an upload with the name of the file and a client stores under the key;
  a range read gives the bytes of the range, clamped to the end; a probe touches no object.\<close>

definition bridge_sound :: "'w blob_bridge \<Rightarrow> bool" where
  "bridge_sound B \<longleftrightarrow> (\<forall>aid blob w name w'. bb_upload_file B aid blob w = (Inr name, w') \<longrightarrow>
     is_rust_string name \<and> (\<forall>a b. bb_download_file_range B name a b w' = Inr (take (b - a) (drop a blob))))"

definition s3_sound :: "'w zk_object_fabric_sink \<Rightarrow> bool" where
  "s3_sound Z \<longleftrightarrow> (\<forall>key blob w w' e. s3_put_object (zs_s3 Z) (zf_bucket (zs_config Z)) key blob w = (Inr (), w') \<longrightarrow>
     (\<forall>a b. s3_get_object_range (zs_s3 Z) (zf_bucket (zs_config Z)) key a b (record_event Z e w') = Inr (take (b - a) (drop a blob))))"

definition sink_keeps :: "string \<Rightarrow> 'w media_blob_sink \<Rightarrow> bool" where
  "sink_keeps tag snk \<longleftrightarrow> (\<forall>aid cls cs r w ref w'. is_rust_string aid \<longrightarrow> fit_ranges cs \<longrightarrow> length r = 32 \<longrightarrow>
     snk_upload_media_chunks snk aid cls cs r w = (Inr ref, w') \<longrightarrow>
     br_storage_sink ref = tag \<and> br_blob_id ref = aid \<and> (\<forall>i < length cs. snk_fetch_media_chunk snk ref i w' = Inr (cs ! i)))"

lemma bridge_sink_keeps: "bridge_sound B \<Longrightarrow> sink_keeps tag (bridge_sink who tag B)"
  by (auto simp: sink_keeps_def bridge_sink_def bridge_upload_def bridge_fetch_def blob_name_def bridge_sound_def
      decode_encode_metadata fit_chunk split: if_splits prod.splits sum.splits)

lemma zk_sink_keeps: "s3_sound Z \<Longrightarrow> sink_keeps ''zk_object_fabric'' (zk_media_blob_sink Z)"
  by (auto simp: sink_keeps_def zk_media_blob_sink_def zk_upload_def zk_fetch_def blob_name_def s3_sound_def
      decode_encode_metadata fit_chunk split: if_splits prod.splits sum.splits)

text \<open>C22: Whatever sink the chunks of an asset are routed to, iCloud, Google Drive or the object store, the reference the
  upload returns fetches each chunk again, provided the store behind the sink keeps what is put there.\<close>

theorem sinks_keep_chunks:
  assumes "bridge_sound B" "s3_sound Z"
  shows "sink_keeps ''icloud'' (icloud_media_blob_sink B) \<and> sink_keeps ''google_drive'' (google_drive_media_blob_sink B) \<and>
    sink_keeps ''zk_object_fabric'' (zk_media_blob_sink Z)"
  using assms by (simp add: bridge_sink_keeps zk_sink_keeps icloud_media_blob_sink_def google_drive_media_blob_sink_def)

text \<open>A shelf with room for one file, which it names itself.\<close>

definition shelf_bridge :: "bytes blob_bridge" where
  "shelf_bridge = \<lparr>bb_upload_file = (\<lambda>aid blob w. (Inr (''r-'' @ ''1''), blob)),
     bb_download_file_range = (\<lambda>name a b w. if name = ''r-1'' then Inr (take (b - a) (drop a w))
        else Inl (sink_error ''no such file'')),
     bb_delete_file = (\<lambda>name w. (Inr (), []))\<rparr>"

definition shelf_store :: "bytes zk_object_fabric_sink" where
  "shelf_store = \<lparr>zs_s3 = \<lparr>s3_put_object = (\<lambda>_ _ blob w. (Inr (), blob)),
       s3_get_object_range = (\<lambda>_ _ a b w. Inr (take (b - a) (drop a w))),
       s3_delete_object = (\<lambda>_ _ w. (Inr (), [])), s3_head_object = (\<lambda>_ _ w. Inr (Some (length w)))\<rparr>,
     zs_config = \<lparr>zf_endpoint_url = ''https://zkof'', zf_access_key = ''a'', zf_secret_key = ''s'', zf_bucket = ''media''\<rparr>,
     zs_dedup_analytics = None\<rparr>"

lemma shelf_bridge_sound: "bridge_sound shelf_bridge"
  by (auto simp: bridge_sound_def shelf_bridge_def is_rust_string_def ascii_bytes_def byte_between_def of_char_def)

lemma shelf_store_sound: "s3_sound shelf_store"
  by (auto simp: s3_sound_def shelf_store_def record_event_def)

theorem sinks_keep_chunks_witness:
  "sink_keeps ''icloud'' (icloud_media_blob_sink shelf_bridge) \<and> sink_keeps ''google_drive'' (google_drive_media_blob_sink shelf_bridge) \<and>
   sink_keeps ''zk_object_fabric'' (zk_media_blob_sink shelf_store)"
  by (rule sinks_keep_chunks[OF shelf_bridge_sound shelf_store_sound])

end
