(* ===== verification/Media_Migration.thy ===== *)
theory Media_Migration
  imports Media_Sinks
begin

text \<open>
  Moving assets from one sink to another (\<open>media/migration.rs\<close>): the plan, one item, the run and what it reports.
  Both sinks live in one state \<open>'w\<close>; a fetch reads it, an upload and a delete change it.  The lock that the code takes
  for each call on the database is not modelled.
\<close>

subsection \<open>The plan\<close>

record media_migration_item =
  mi_asset_id :: string
  mi_blob_id :: string
  mi_chunk_count :: nat
  mi_merkle_root :: bytes
  mi_sink_metadata :: "bytes option"

record media_migration_plan =
  mg_source_sink :: string
  mg_target_sink :: string
  mg_items :: "media_migration_item list"

definition migration_item :: "media_asset \<Rightarrow> media_migration_item option" where
  "migration_item a = (if length (ma_merkle_root a) \<noteq> 32 then None
     else Some \<lparr>mi_asset_id = ma_asset_id a, mi_blob_id = ma_blob_id a,
       mi_chunk_count = (if 0 \<le> ma_chunk_count a then nat (ma_chunk_count a) else 0),
       mi_merkle_root = ma_merkle_root a, mi_sink_metadata = None\<rparr>)"

definition plan_media_migration :: "local_db \<Rightarrow> string \<Rightarrow> string \<Rightarrow> media_migration_plan" where
  "plan_media_migration db source_sink target_sink =
     \<lparr>mg_source_sink = source_sink, mg_target_sink = target_sink,
      mg_items = (if source_sink = target_sink then []
        else sort_key mi_asset_id (List.map_filter migration_item (list_media_assets_by_storage_sink source_sink db)))\<rparr>"

definition total_chunks_of_plan :: "media_migration_plan \<Rightarrow> nat" where
  "total_chunks_of_plan plan = (\<Sum>i \<leftarrow> mg_items plan. mi_chunk_count i)"

subsection \<open>One item\<close>

datatype migration_item_outcome = Migrated | AlreadyOnTarget | MigrationFailed string

definition source_reference :: "string \<Rightarrow> media_migration_item \<Rightarrow> media_blob_reference" where
  "source_reference source_sink item =
     \<lparr>br_blob_id = mi_blob_id item, br_storage_sink = source_sink, br_sink_metadata = mi_sink_metadata item\<rparr>"

definition migrate_one ::
  "crypto \<Rightarrow> media_migration_item \<Rightarrow> string \<Rightarrow> string \<Rightarrow> 'w media_blob_sink \<Rightarrow> 'w media_blob_sink \<Rightarrow> bool \<Rightarrow>
   local_db \<Rightarrow> 'w \<Rightarrow> migration_item_outcome \<times> local_db \<times> 'w" where
  "migrate_one cr item source_sink target_sink source target delete_source db w =
     (if (case get_media_asset (mi_asset_id item) db of Some a \<Rightarrow> ma_storage_sink a = target_sink | None \<Rightarrow> False)
      then (AlreadyOnTarget, db, w)
      else let ref = source_reference source_sink item in
        (case mapE (\<lambda>i. snk_fetch_media_chunk source ref i w) [0..<mi_chunk_count item] of
           Inl e \<Rightarrow> (MigrationFailed ''source fetch_media_chunk'', db, w)
         | Inr buffers \<Rightarrow>
             (case snk_upload_media_chunks target (mi_asset_id item) Media buffers (mi_merkle_root item) w of
                (Inl e, w) \<Rightarrow> (MigrationFailed ''target upload'', db, w)
              | (Inr new_ref, w) \<Rightarrow>
                  if br_storage_sink new_ref \<noteq> target_sink
                  then (MigrationFailed ''target sink reference returned another storage_sink'', db, w)
                  else (case mapE (\<lambda>i. snk_fetch_media_chunk target new_ref i w) [0..<mi_chunk_count item] of
                      Inl e \<Rightarrow> (MigrationFailed ''target fetch_media_chunk'', db, w)
                    | Inr back \<Rightarrow>
                        if cr_blake3 cr (concat back) \<noteq> cr_blake3 cr (concat buffers)
                        then (MigrationFailed ''transit-integrity hash mismatch after roundtrip'', db, w)
                        else let db = fst (update_media_storage_sink (mi_asset_id item) (br_storage_sink new_ref)
                               (br_blob_id new_ref) db)
                          in (Migrated, db, if delete_source then snd (snk_delete_media_blob source ref w) else w)))))"

subsection \<open>The run\<close>

datatype migration_notice =
    ItemStarted string nat nat
  | ItemCompleted string nat nat migration_item_outcome
  | RunCompleted "(string \<times> migration_item_outcome) list"

fun migrate_items ::
  "crypto \<Rightarrow> media_migration_plan \<Rightarrow> 'w media_blob_sink \<Rightarrow> 'w media_blob_sink \<Rightarrow> bool \<Rightarrow> nat \<Rightarrow> media_migration_item list \<Rightarrow>
   local_db \<Rightarrow> 'w \<Rightarrow> (string \<times> migration_item_outcome) list \<times> migration_notice list \<times> local_db \<times> 'w" where
  "migrate_items cr plan source target delete_source idx [] db w = ([], [], db, w)"
| "migrate_items cr plan source target delete_source idx (item # items) db w =
     (case migrate_one cr item (mg_source_sink plan) (mg_target_sink plan) source target delete_source db w of
        (outcome, db, w) \<Rightarrow>
          (case migrate_items cr plan source target delete_source (idx + 1) items db w of
             (report, notices, db, w) \<Rightarrow>
               ((mi_asset_id item, outcome) # report,
                ItemStarted (mi_asset_id item) idx (length (mg_items plan)) #
                ItemCompleted (mi_asset_id item) idx (length (mg_items plan)) outcome # notices, db, w)))"

definition execute_media_migration ::
  "crypto \<Rightarrow> media_migration_plan \<Rightarrow> 'w media_blob_sink \<Rightarrow> 'w media_blob_sink \<Rightarrow> bool \<Rightarrow> local_db \<Rightarrow> 'w \<Rightarrow>
   (string \<times> migration_item_outcome) list \<times> migration_notice list \<times> local_db \<times> 'w" where
  "execute_media_migration cr plan source target delete_source db w =
     (case migrate_items cr plan source target delete_source 0 (mg_items plan) db w of
        (report, notices, db, w) \<Rightarrow> (report, notices @ [RunCompleted report], db, w))"

definition migrated_count :: "(string \<times> migration_item_outcome) list \<Rightarrow> nat" where
  "migrated_count report = length (filter (\<lambda>(_, r). r = Migrated) report)"

definition already_on_target_count :: "(string \<times> migration_item_outcome) list \<Rightarrow> nat" where
  "already_on_target_count report = length (filter (\<lambda>(_, r). r = AlreadyOnTarget) report)"

definition failed_count :: "(string \<times> migration_item_outcome) list \<Rightarrow> nat" where
  "failed_count report = length (filter (\<lambda>(_, r). \<exists>s. r = MigrationFailed s) report)"

definition migration_log :: "migration_notice list \<Rightarrow> (string \<times> nat \<times> nat) list \<times> (string \<times> nat \<times> nat \<times> migration_item_outcome) list" where
  "migration_log notices =
     (List.map_filter (\<lambda>n. case n of ItemStarted a i t \<Rightarrow> Some (a, i, t) | _ \<Rightarrow> None) notices,
      List.map_filter (\<lambda>n. case n of ItemCompleted a i t r \<Rightarrow> Some (a, i, t, r) | _ \<Rightarrow> None) notices)"

subsection \<open>One item, in full\<close>

definition moved :: "string \<Rightarrow> media_blob_reference \<Rightarrow> local_db \<Rightarrow> local_db" where
  "moved aid ref db = fst (update_media_storage_sink aid (br_storage_sink ref) (br_blob_id ref) db)"

text \<open>An item moves only after its chunks, read from the source, were read back from the target with the same hash.\<close>

lemma migrated_onlyD:
  assumes "migrate_one cr item ss ts source target del db w = (r, db', w')"
  shows "(r \<noteq> Migrated \<longrightarrow> db' = db) \<and> (r = Migrated \<longrightarrow> (\<exists>buffers back ref w1.
      mapE (\<lambda>i. snk_fetch_media_chunk source (source_reference ss item) i w) [0..<mi_chunk_count item] = Inr buffers \<and>
      snk_upload_media_chunks target (mi_asset_id item) Media buffers (mi_merkle_root item) w = (Inr ref, w1) \<and>
      br_storage_sink ref = ts \<and> mapE (\<lambda>i. snk_fetch_media_chunk target ref i w1) [0..<mi_chunk_count item] = Inr back \<and>
      cr_blake3 cr (concat back) = cr_blake3 cr (concat buffers) \<and> db' = moved (mi_asset_id item) ref db \<and>
      w' = (if del then snd (snk_delete_media_blob source (source_reference ss item) w1) else w1)))"
  using assms by (auto simp: migrate_one_def moved_def Let_def split: if_splits sum.splits prod.splits)

lemma get_moved:
  assumes "get_media_asset aid db = Some a"
  shows "get_media_asset aid (moved aid ref db) = Some (a\<lparr>ma_storage_sink := br_storage_sink ref, ma_blob_id := br_blob_id ref\<rparr>)"
  using get_media_updated[OF _ assms, of "\<lambda>a. a\<lparr>ma_storage_sink := br_storage_sink ref, ma_blob_id := br_blob_id ref\<rparr>"]
  by (simp add: moved_def update_media_storage_sink_def)

text \<open>With a target that keeps what is put there, an item whose chunks can be read moves.\<close>

lemma migrate_one_moves:
  assumes "get_media_asset (mi_asset_id item) db = Some a" "ma_storage_sink a \<noteq> ts"
    and "mapE (\<lambda>i. snk_fetch_media_chunk source (source_reference ss item) i w) [0..<mi_chunk_count item] = Inr chunks"
    and "snk_upload_media_chunks target (mi_asset_id item) Media chunks (mi_merkle_root item) w = (Inr ref, w1)"
    and "sink_keeps ts target" "is_rust_string (mi_asset_id item)" "fit_ranges chunks" "length (mi_merkle_root item) = 32"
  shows "migrate_one cr item ss ts source target False db w = (Migrated, moved (mi_asset_id item) ref db, w1) \<and>
    br_storage_sink ref = ts \<and> br_blob_id ref = mi_asset_id item \<and>
    (\<forall>i < length chunks. snk_fetch_media_chunk target ref i w1 = Inr (chunks ! i))"
proof -
  have keeps: "br_storage_sink ref = ts" "br_blob_id ref = mi_asset_id item"
      "\<forall>i < length chunks. snk_fetch_media_chunk target ref i w1 = Inr (chunks ! i)"
    using assms(4-8) unfolding sink_keeps_def by blast+
  have "length chunks = mi_chunk_count item" using mapE_Inr_length[OF assms(3)] by simp
  then have "mapE (\<lambda>i. snk_fetch_media_chunk target ref i w1) [0..<mi_chunk_count item] = Inr chunks"
    using keeps(3) by (simp add: mapE_Inr_iff list_all2_conv_all_nth)
  then show ?thesis
    using assms(1-4) keeps by (simp add: migrate_one_def moved_def Let_def)
qed

subsection \<open>The report\<close>

lemma migrate_one_row:
  assumes "migrate_one cr item ss ts source target del db w = (r, db', w')"
  shows "\<exists>b. get_media_asset aid db' = (if r = Migrated \<and> aid = mi_asset_id item
      then map_option (\<lambda>a. a\<lparr>ma_storage_sink := ts, ma_blob_id := b\<rparr>) (get_media_asset aid db)
      else get_media_asset aid db)"
proof (cases "r = Migrated")
  case True
  then obtain ref where ref: "br_storage_sink ref = ts" "db' = moved (mi_asset_id item) ref db"
    using migrated_onlyD[OF assms] by blast
  have "get_media_asset aid db' = map_option (\<lambda>a. if ma_asset_id a = mi_asset_id item
      then a\<lparr>ma_storage_sink := ts, ma_blob_id := br_blob_id ref\<rparr> else a) (get_media_asset aid db)"
    using ref by (simp add: get_media_asset_def moved_def update_media_storage_sink_def select_one_update_where)
  moreover have "ma_asset_id a = aid" if "get_media_asset aid db = Some a" for a
    using that by (auto simp: get_media_asset_def dest: select_one_SomeD)
  ultimately show ?thesis using True by (cases "get_media_asset aid db") auto
qed (use migrated_onlyD[OF assms] in simp)

lemma migrate_items_report:
  assumes "migrate_items cr plan source target del idx items db w = (report, notices, db', w')"
  shows "map fst report = map mi_asset_id items \<and>
    migration_log notices = (map (\<lambda>(i, item). (mi_asset_id item, i, length (mg_items plan))) (enumerate idx items),
      map (\<lambda>(i, (a, r)). (a, i, length (mg_items plan), r)) (enumerate idx report)) \<and>
    ((aid, Migrated) \<notin> set report \<longrightarrow> get_media_asset aid db' = get_media_asset aid db) \<and>
    (\<forall>a. (aid, Migrated) \<in> set report \<and> get_media_asset aid db' = Some a \<longrightarrow> ma_storage_sink a = mg_target_sink plan)"
  using assms
proof (induction items arbitrary: idx db w report notices)
  case (Cons item items)
  obtain r db1 w1 where one: "migrate_one cr item (mg_source_sink plan) (mg_target_sink plan) source target del db w = (r, db1, w1)"
    using prod_cases3 by blast
  obtain report' notices' where rest: "migrate_items cr plan source target del (idx + 1) items db1 w1 = (report', notices', db', w')"
    and eqs: "report = (mi_asset_id item, r) # report'"
      "notices = ItemStarted (mi_asset_id item) idx (length (mg_items plan)) #
         ItemCompleted (mi_asset_id item) idx (length (mg_items plan)) r # notices'"
    using Cons.prems one by (auto split: prod.splits)
  note IH = Cons.IH[OF rest]
  have row: "get_media_asset aid db1 = get_media_asset aid db" if "\<not> (r = Migrated \<and> aid = mi_asset_id item)"
    using migrate_one_row[OF one, of aid] that by auto
  have sink: "ma_storage_sink a = mg_target_sink plan"
    if prem: "r = Migrated" "aid = mi_asset_id item" "get_media_asset aid db1 = Some a" for a
  proof -
    obtain b where "get_media_asset aid db1 =
        map_option (\<lambda>a. a\<lparr>ma_storage_sink := mg_target_sink plan, ma_blob_id := b\<rparr>) (get_media_asset aid db)"
      using migrate_one_row[OF one, of aid] prem(1,2) by auto
    then show ?thesis using prem(3) by (cases "get_media_asset aid db") auto
  qed
  have log: "migration_log notices = ((mi_asset_id item, idx, length (mg_items plan)) # fst (migration_log notices'),
      (mi_asset_id item, idx, length (mg_items plan), r) # snd (migration_log notices'))"
    by (simp add: eqs migration_log_def List.map_filter_def)
  show ?case
  proof (intro conjI)
    show "map fst report = map mi_asset_id (item # items)" using IH eqs by simp
    show "migration_log notices = (map (\<lambda>(i, item). (mi_asset_id item, i, length (mg_items plan))) (enumerate idx (item # items)),
      map (\<lambda>(i, (a, r)). (a, i, length (mg_items plan), r)) (enumerate idx report))"
      unfolding log using IH by (simp add: eqs(1))
    show "(aid, Migrated) \<notin> set report \<longrightarrow> get_media_asset aid db' = get_media_asset aid db"
      using IH row by (auto simp: eqs)
    show "\<forall>a. (aid, Migrated) \<in> set report \<and> get_media_asset aid db' = Some a \<longrightarrow> ma_storage_sink a = mg_target_sink plan"
      using IH sink by (auto simp: eqs)
  qed
qed (simp add: migration_log_def List.map_filter_def)

lemma outcome_counts: "migrated_count report + already_on_target_count report + failed_count report = length report"
proof (induction report)
  case (Cons x report)
  then show ?case
    by (cases x; cases "snd x") (auto simp: migrated_count_def already_on_target_count_def failed_count_def)
qed (simp add: migrated_count_def already_on_target_count_def failed_count_def)

text \<open>C21: A migration accounts for every item of its plan, once and in order: the callbacks and the report agree, the three
  counts add up, a row changes only when its item is reported as migrated, and then it names the target.\<close>

theorem migration_accounts:
  assumes "execute_media_migration cr plan source target del db w = (report, notices, db', w')"
  shows "map fst report = map mi_asset_id (mg_items plan) \<and>
    migrated_count report + already_on_target_count report + failed_count report = length (mg_items plan) \<and>
    snd (migration_log notices) = map (\<lambda>(i, (a, r)). (a, i, length (mg_items plan), r)) (enumerate 0 report) \<and>
    (if (aid, Migrated) \<in> set report
     then map_option ma_storage_sink (get_media_asset aid db') \<in> {None, Some (mg_target_sink plan)}
     else get_media_asset aid db' = get_media_asset aid db)"
proof -
  obtain notices' where items: "migrate_items cr plan source target del 0 (mg_items plan) db w = (report, notices', db', w')"
    and n: "notices = notices' @ [RunCompleted report]"
    using assms by (auto simp: execute_media_migration_def split: prod.splits)
  have "length report = length (mg_items plan)"
    using migrate_items_report[OF items] by (metis length_map)
  moreover have "migration_log notices = migration_log notices'" by (simp add: n migration_log_def List.map_filter_def)
  ultimately show ?thesis
    using migrate_items_report[OF items, of aid] outcome_counts[of report]
    by (cases "get_media_asset aid db'") auto
qed

subsection \<open>After a migration\<close>

lemma rehydrate_other_sink:
  assumes "get_media_asset aid db = Some a" "ma_storage_sink a \<noteq> ''kchat_backend''"
  shows "\<exists>e. rehydrate_media_asset E cr K T v key aid db = (Inl e, db)"
proof (cases "rehydrate_media_asset E cr K T v key aid db")
  case (Pair r db')
  show ?thesis
  proof (cases r)
    case (Inl e)
    then show ?thesis using rehydration_outcome[of E cr K T v key aid db] Pair by auto
  next
    case (Inr q)
    then show ?thesis using rehydration_outcome[of E cr K T v key aid db] Pair assms by auto
  qed
qed

lemma planned_again:
  assumes "get_media_asset aid db = Some a" "ma_storage_sink a = ts" "ts \<noteq> other" "length (ma_merkle_root a) = 32"
  shows "\<exists>item \<in> set (mg_items (plan_media_migration db ts other)). mi_asset_id item = aid \<and>
    mi_blob_id item = ma_blob_id a \<and> mi_sink_metadata item = None"
proof -
  have "a \<in> set (db_media db)" "ma_asset_id a = aid"
    using assms(1) by (auto simp: get_media_asset_def dest: select_one_SomeD)
  then show ?thesis
    using assms(2-4)
    by (auto simp: plan_media_migration_def list_media_assets_by_storage_sink_def migration_item_def List.map_filter_def
        intro!: bexI[of _ a])
qed


end
