(* ===== verification/Media_Examples.thy ===== *)
theory Media_Examples
  imports Media_Histories Media_Migration Message_Examples
begin

text \<open>The properties of the media theories on one photo, one service that holds one blob, and one cloud.\<close>

subsection \<open>One photo\<close>

definition photo :: bytes where "photo = [1, 2, 3]"

definition shelf_transport :: "bytes media_transport" where
  "shelf_transport = \<lparr>mt_init_blob_upload = (\<lambda>n c r w. (Inr (show_bits 9), [])),
     mt_upload_chunk = (\<lambda>b i c h w. (Inr \<lparr>cr_chunk_idx = i, cr_receipt_sha256 = h\<rparr>, w @ c)),
     mt_commit_blob = (\<lambda>b w. (Inr (replicate 32 0), w)),
     mt_fetch_blob_range = (\<lambda>name a b w. Inr (take (b - a) (drop a w)))\<rparr>"

lemma shelf_serves: "serves shelf_transport w name w"
  by (simp add: serves_def shelf_transport_def)

lemma one_chunk: "total_chunks media_chunk_size (padded_input True photo) = 1"
proof -
  have len: "length (pad_to_size_class photo) = 1024"
    by (simp add: length_pad photo_def next_size_class_def size_classes_def)
  then have "pad_to_size_class photo \<noteq> []" by auto
  then show ?thesis using len by (simp add: padded_input_def total_chunks_def media_chunk_size_def)
qed

lemma tag_blake3_length: "\<forall>b. length (cr_blake3 tag_crypto b) = 32"
  by (auto simp: tag_crypto_def toy_crypto_def min_def)

abbreviation process_photo :: "core_error + media_process_result" where
  "process_photo \<equiv> process_media tag_crypto toy_keys (\<lambda>_ _. None) toy_root 7 9 photo ''image/png'' toy_root Media True"

lemma photo_processed: "\<exists>r. process_photo = Inr r"
  using process_media_total[OF tag_crypto_sound toy_keys_sound] one_chunk by (simp add: toy_root_def)

lemma photo_chunks: "process_photo = Inr r \<Longrightarrow> length (mp_sealed_chunks r) = 1"
  using one_chunk
  by (elim process_mediaD[OF tag_crypto_sound toy_keys_sound, rotated]) (simp_all add: toy_root_def chunked_ok_def)

definition photo_row :: "media_process_result \<Rightarrow> media_asset" where
  "photo_row r = (sent_media_asset toy_env (sent_media_skeleton toy_env 3 5 1000 ThumbnailOnly) ''image/png'' r)
     \<lparr>ma_media_state := Evicted, ma_bytes_local := 0\<rparr>"

definition photo_db :: "media_process_result \<Rightarrow> local_db" where
  "photo_db r = empty_db\<lparr>db_media := [photo_row r]\<rparr>"

lemma photo_row_id: "process_photo = Inr r \<Longrightarrow> ma_asset_id (photo_row r) = show_bits 7"
  by (elim process_mediaD[OF tag_crypto_sound toy_keys_sound, rotated])
    (simp_all add: toy_root_def photo_row_def sent_media_asset_def Let_def toy_env_def)

lemma photo_row_stored: "process_photo = Inr r \<Longrightarrow> get_media_asset (show_bits 7) (photo_db r) = Some (photo_row r)"
  using photo_row_id by (simp add: photo_db_def get_media_asset_def select_one_def)

lemma photo_sizes:
  "length toy_root = 32" "length photo < 2 ^ 64" "process_photo = Inr r \<Longrightarrow> length (mp_sealed_chunks r) < 2 ^ 31"
  "me_show_uuid toy_env 9 \<noteq> []"
  using photo_chunks by (simp_all add: toy_root_def photo_def toy_env_def show_bits_def)

abbreviation rehydrate_photo :: "media_process_result \<Rightarrow> (media_error + bytes) \<times> local_db" where
  "rehydrate_photo r \<equiv> rehydrate_media_asset toy_env tag_crypto toy_keys shelf_transport
     (concat (map sc_ciphertext (mp_sealed_chunks r))) toy_root (show_bits 7) (photo_db r)"

theorem rehydrated_media_stays_padded_witness:
  "\<exists>r. process_photo = Inr r \<and>
     rehydrate_photo r = (Inr (pad_to_size_class photo), with_original (show_bits 7) (length (pad_to_size_class photo)) (photo_db r)) \<and>
     length photo < length (pad_to_size_class photo) \<and> unpad_from_size_class (pad_to_size_class photo) = Inr photo"
proof -
  obtain r where r: "process_photo = Inr r" using photo_processed by blast
  from rehydrated_media_stays_padded[OF tag_crypto_sound toy_keys_sound toy_env_sound tag_blake3_length photo_sizes(1) r
      photo_row_stored[OF r, unfolded photo_row_def] shelf_serves photo_sizes(3)[OF r] photo_sizes(2,4)] r
  show ?thesis by blast
qed

theorem rehydration_all_or_nothing_witness:
  "(\<exists>r q db'. process_photo = Inr r \<and> rehydrate_photo r = (Inr q, db') \<and>
      (\<exists>a. get_media_asset (show_bits 7) (photo_db r) = Some a \<and> ma_media_state a \<in> {Evicted, RemoteOriginal} \<and>
         ma_storage_sink a = ''kchat_backend'' \<and> cr_blake3 tag_crypto q = ma_merkle_root a \<and>
         db' = with_original (show_bits 7) (length q) (photo_db r))) \<and>
   rehydrate_media_asset toy_env tag_crypto toy_keys shelf_transport [] toy_root ''x'' empty_db =
     (Inl (MediaError (StorageFailure ''rehydrate_media_asset: no media_asset row'')), empty_db)"
proof
  obtain r where r: "process_photo = Inr r" using photo_processed by blast
  from rehydrates_padded[OF tag_crypto_sound toy_keys_sound toy_env_sound tag_blake3_length photo_sizes(1) r
      photo_row_stored[OF r, unfolded photo_row_def] shelf_serves photo_sizes(3)[OF r] photo_sizes(2,4)]
  obtain q db' where run: "rehydrate_photo r = (Inr q, db')" by blast
  from rehydration_all_or_nothing[of toy_env tag_crypto toy_keys shelf_transport "concat (map sc_ciphertext (mp_sealed_chunks r))"
      toy_root "show_bits 7" "photo_db r"] run
  show "\<exists>r q db'. process_photo = Inr r \<and> rehydrate_photo r = (Inr q, db') \<and>
      (\<exists>a. get_media_asset (show_bits 7) (photo_db r) = Some a \<and> ma_media_state a \<in> {Evicted, RemoteOriginal} \<and>
         ma_storage_sink a = ''kchat_backend'' \<and> cr_blake3 tag_crypto q = ma_merkle_root a \<and>
         db' = with_original (show_bits 7) (length q) (photo_db r))"
    using r by blast
next
  have "\<exists>db. rehydrate_media_asset toy_env tag_crypto toy_keys shelf_transport [] toy_root ''x'' empty_db =
     (Inl (MediaError (StorageFailure ''rehydrate_media_asset: no media_asset row'')), db)"
    by (simp add: rehydrate_media_asset_def prepare_rehydration_def get_media_asset_def empty_db_def select_one_def)
  then show "rehydrate_media_asset toy_env tag_crypto toy_keys shelf_transport [] toy_root ''x'' empty_db =
     (Inl (MediaError (StorageFailure ''rehydrate_media_asset: no media_asset row'')), empty_db)"
    using rehydration_all_or_nothing[of toy_env tag_crypto toy_keys shelf_transport "[]" toy_root "''x''" empty_db] by blast
qed

subsection \<open>Sending it\<close>

abbreviation photo_store :: message_store where
  "photo_store \<equiv> fst (messages_after toy_env [AddConversation toy_conversation])"

theorem sent_captions_are_not_archived_witness:
  "\<exists>d st'. send_media toy_env tag_crypto toy_keys (\<lambda>_ _. None) toy_root toy_root 7 9 1000 3 5 photo ''image/png''
      (Some [104, 105]) photo_store = (Inr d, st') \<and>
    (let s = sent_media_skeleton toy_env 3 5 1000 ThumbnailOnly in
     adds_message (me_unicode toy_env) s (Some [104, 105]) (ms_db photo_store) (ms_db st') \<and>
     map ma_asset_id (db_media (ms_db st')) = map ma_asset_id (db_media (ms_db photo_store)) @ [me_show_uuid toy_env (dsc_asset_id d)] \<and>
     journals photo_store st' [(journal_entry ''outbox_pending'' (sk_conversation_id s) (sk_message_id s) (send_payload s) 1000)
         \<lparr>be_event_seq := db_event_seq (ms_db photo_store) + 1\<rparr>]
       [\<lparr>ar_event_seq = ms_archive_seq photo_store + 1, ar_event_type = ''media_received'', ar_conversation_id = me_show_uuid toy_env 3,
         ar_message_id = Some (me_show_uuid toy_env 5), ar_payload = send_payload s, ar_created_at_ms = 1000\<rparr>])"
proof -
  obtain r where r: "process_photo = Inr r" using photo_processed by blast
  let ?s = "sent_media_skeleton toy_env 3 5 1000 (mp_initial_media_state r)"
  have "\<exists>st'. in_savepoint (send_media_inner toy_env 3 5 ?s (sent_media_asset toy_env ?s ''image/png'' r) (Some [104, 105])) photo_store
      = (Inr (), st')"
    unfolding toy_start by (simp add: toy_defs toy_eval send_media_inner_def send_media_rows_def send_media_journals_def sent_media_skeleton_def sent_media_asset_def)
  then obtain st' where "send_media toy_env tag_crypto toy_keys (\<lambda>_ _. None) toy_root toy_root 7 9 1000 3 5 photo ''image/png''
      (Some [104, 105]) photo_store = (Inr (mp_descriptor r), st')"
    using r by (auto simp: send_media_def photo_def Let_def)
  from this sent_captions_are_not_archived[OF this] show ?thesis by blast
qed

subsection \<open>Moving it\<close>

definition cloud_item :: media_migration_item where
  "cloud_item = \<lparr>mi_asset_id = ''a'', mi_blob_id = ''a'', mi_chunk_count = 1, mi_merkle_root = replicate 32 0, mi_sink_metadata = None\<rparr>"

definition cloud_row :: media_asset where
  "cloud_row = \<lparr>ma_asset_id = ''a'', ma_message_id = ''m'', ma_mime_type = ''image/png'', ma_bytes_total = 3, ma_bytes_local = 0,
     ma_media_state = Evicted, ma_wrapped_k_asset = [], ma_chunk_count = 1, ma_merkle_root = replicate 32 0, ma_blob_id = ''a'',
     ma_storage_sink = ''zk_object_fabric''\<rparr>"

definition cloud_db :: local_db where "cloud_db = empty_db\<lparr>db_media := [cloud_row]\<rparr>"

abbreviation move_photo :: "migration_item_outcome \<times> local_db \<times> bytes" where
  "move_photo \<equiv> migrate_one tag_crypto cloud_item ''zk_object_fabric'' ''icloud'' (zk_media_blob_sink shelf_store)
     (icloud_media_blob_sink shelf_bridge) False cloud_db photo"

lemma shelf_range: "take (snd (chunk_range 0) - fst (chunk_range 0)) (drop (fst (chunk_range 0)) photo) = photo"
  by (simp add: chunk_range_def chunk_ciphertext_size_def media_chunk_size_def photo_def)

lemma cloud_get: "get_media_asset ''a'' cloud_db = Some cloud_row"
  by (simp add: get_media_asset_def cloud_db_def cloud_row_def select_one_def)

lemma photo_moves: "\<exists>db'. move_photo = (Migrated, db', photo)"
proof -
  let ?ref = "\<lparr>br_blob_id = ''a'', br_storage_sink = ''icloud'', br_sink_metadata = Some (encode_metadata ''r-1'' 1 (replicate 32 0))\<rparr>"
  have "mapE (\<lambda>i. snk_fetch_media_chunk (zk_media_blob_sink shelf_store) (source_reference ''zk_object_fabric'' cloud_item) i photo)
      [0..<mi_chunk_count cloud_item] = Inr [photo]"
    using shelf_range
    by (simp add: cloud_item_def zk_media_blob_sink_def zk_fetch_def source_reference_def blob_name_def shelf_store_def)
  moreover have "snk_upload_media_chunks (icloud_media_blob_sink shelf_bridge) (mi_asset_id cloud_item) Media [photo]
      (mi_merkle_root cloud_item) photo = (Inr ?ref, photo)"
    by (simp add: icloud_media_blob_sink_def bridge_sink_def bridge_upload_def shelf_bridge_def cloud_item_def)
  moreover have "fit_ranges [photo]"
    by (simp add: fit_ranges_def photo_def chunk_ciphertext_size_def media_chunk_size_def)
  ultimately show ?thesis
    using migrate_one_moves[of cloud_item cloud_db cloud_row "''icloud''" "zk_media_blob_sink shelf_store" "''zk_object_fabric''"
        photo "[photo]" "icloud_media_blob_sink shelf_bridge" ?ref photo tag_crypto] cloud_get
      bridge_sink_keeps[OF shelf_bridge_sound, of "''icloud''" "''ICloudMediaBlobSink''"]
    by (simp add: cloud_item_def cloud_row_def icloud_media_blob_sink_def is_rust_string_def ascii_bytes_def byte_between_def of_char_def)
qed


theorem migration_accounts_witness:
  "\<exists>report notices db'. execute_media_migration tag_crypto (plan_media_migration cloud_db ''zk_object_fabric'' ''icloud'')
       (zk_media_blob_sink shelf_store) (icloud_media_blob_sink shelf_bridge) False cloud_db photo = (report, notices, db', photo) \<and>
     report = [(''a'', Migrated)] \<and> migrated_count report + already_on_target_count report + failed_count report = 1 \<and>
     map_option ma_storage_sink (get_media_asset ''a'' db') \<in> {None, Some ''icloud''}"
proof -
  obtain db' where m: "move_photo = (Migrated, db', photo)" using photo_moves by blast
  have plan: "plan_media_migration cloud_db ''zk_object_fabric'' ''icloud'' = \<lparr>mg_source_sink = ''zk_object_fabric'',
      mg_target_sink = ''icloud'', mg_items = [cloud_item]\<rparr>"
    by (simp add: plan_media_migration_def list_media_assets_by_storage_sink_def cloud_db_def cloud_row_def cloud_item_def
        migration_item_def List.map_filter_def)
  obtain notices where "execute_media_migration tag_crypto (plan_media_migration cloud_db ''zk_object_fabric'' ''icloud'')
      (zk_media_blob_sink shelf_store) (icloud_media_blob_sink shelf_bridge) False cloud_db photo =
      ([(''a'', Migrated)], notices, db', photo)"
    using m by (simp add: execute_media_migration_def plan) (simp add: cloud_item_def)
  from this migration_accounts[OF this, of "''a''"] show ?thesis by (simp add: plan cloud_item_def)
qed

theorem resumed_upload_progresses_witness:
  "us_completed_chunks (fst (snd (resume_upload shelf_transport
     \<lparr>us_blob_id = ''b'', us_completed_chunks = [True, False], us_merkle_root = replicate 32 0\<rparr>
     [\<lparr>sc_ciphertext = [1], sc_chunk_sha256 = []\<rparr>, \<lparr>sc_ciphertext = [2], sc_chunk_sha256 = []\<rparr>] Media [1]))) = [True, True]"
proof -
  let ?st = "\<lparr>us_blob_id = ''b'', us_completed_chunks = [True, False], us_merkle_root = replicate 32 0\<rparr>"
  let ?cs = "[\<lparr>sc_ciphertext = [1], sc_chunk_sha256 = []\<rparr>, \<lparr>sc_ciphertext = [2], sc_chunk_sha256 = []\<rparr>] :: sealed_chunk list"
  have "\<exists>res. fst (resume_upload shelf_transport ?st ?cs Media [1]) = Inr res"
    by (simp add: resume_upload_def shelf_transport_def Let_def)
  then show ?thesis
    using resumed_upload_progresses[of ?st ?cs shelf_transport Media "[1]"] by (auto split: prod.splits sum.splits)
qed

end
