(* ===== verification/Spec2Isabelle.thy ===== *)
theory Spec2Isabelle
  imports State_Machines Store_Traces Eviction Resource_Gate Media_Cache Shard_Cache Hydration
    Restore_Pipeline Backup_Histories
    Parallel_Fetch Archive_Examples Scheduler Media_Examples
begin

text \<open>
  A verification development for the Rust crate \<open>kchat-core\<close> (\<open>src/crates/core\<close>), the client core of a
  chat that keeps old messages as sealed, searchable shards outside the device.  File names below are
  relative to \<open>src/crates/core/src\<close>; functions keep their Rust names where HOL allows it.

  \<^bold>\<open>The program.\<close>  A local SQLite store holds conversations, message skeletons, bodies, media, full-text
  and fuzzy index rows and journals.  Each message, body, asset, archive entry and restore run has a
  lifecycle state in it.  When storage is short, the offload planner scores media and evicts what the
  archive already has; a hydration queue and two caches bring content back.  A search runs over the
  local index and then over the shards of the archive, filed by conversation and month, each with a
  bloom filter in front.  Events of a conversation and month are sealed into archive segments under keys that
  rotate, sent to one of two services, and read back to fill in bodies, to list skeletons or to be compacted;
  media is padded, cut into sealed chunks, held by the backend or by a cloud of the user, moved between them and
  fetched again;
  recurring tasks run on threads of an in-process scheduler.

  \<^bold>\<open>Theories and code.\<close>
    \<^item> \<open>Prelude\<close>: fallible sequencing over sums, saturating arithmetic, stable sorting, tables as lists of rows
      with the statements the store uses, savepoints.
    \<^item> \<open>State_Machines\<close>: \<open>local_store/state_machines.rs\<close> (the enums, their texts, \<open>try_transition\<close>) and
      \<open>restore/state_machine.rs\<close> (the persisted row).  The locale \<open>transition_system\<close> is the contract of the
      five machines; each machine interprets it.
    \<^item> \<open>Schema\<close>, \<open>Local_Store\<close>, \<open>Store_Traces\<close>: \<open>local_store/schema.rs\<close> and \<open>local_store/db.rs\<close>.  The state is
      \<open>local_db\<close>, one list of rows per table in insertion order; a method is a function from a state to an
      error or a new state.  \<open>db_wf\<close> is the invariant (keys, foreign keys, journal counter); a history is a
      list of \<open>store_op\<close>.
    \<^item> \<open>Budget\<close>, \<open>Eviction\<close>: \<open>offload/budget.rs\<close>, \<open>offload/scoring.rs\<close>, \<open>offload/eviction.rs\<close>, on top of the store.
    \<^item> \<open>Bloom\<close>: the filter of \<open>search/shard_builder.rs\<close>.
    \<^item> \<open>Resource_Gate\<close>: \<open>models/resource_gate.rs\<close>.
    \<^item> \<open>Lru_Cache\<close>: the specification of a byte-budgeted LRU cache and the locale \<open>lru_cache\<close>, its contract;
      \<open>Media_Cache\<close> (\<open>media/cache.rs\<close>) and \<open>Shard_Cache\<close> (\<open>search/shard_cache.rs\<close>) interpret it.
    \<^item> \<open>Hydration\<close>: \<open>offload/hydration.rs\<close>, an interpretation of the locale \<open>priority_map\<close>.
    \<^item> \<open>Time_Buckets\<close>: the month a message is filed under (\<open>archive/segment_builder.rs\<close>) and the range of
      instants a month stands for (\<open>search/query_engine.rs\<close>).
    \<^item> \<open>Tokenizer\<close>, \<open>Fuzzy_Search\<close>: \<open>search/tokenizer.rs\<close>, \<open>search/fuzzy_search.rs\<close>, over the store's fuzzy table.
    \<^item> \<open>Cold_Search\<close>, \<open>Search_Facts\<close>: the sequential, parallel and streaming search of \<open>search/query_engine.rs\<close>,
      built from the buckets, the tokenizer, the bloom filter, the shard cache and the store.
    \<^item> \<open>Parallel_Fetch\<close>: the worker pool \<open>parallel_fetch_buckets\<close>, a step relation over the atomic cursor, the
      cache mutex and the result slots, any worker stepping next.
    \<^item> \<open>Manifests\<close>, \<open>Manifest_Chain\<close>: \<open>formats/manifest.rs\<close>, \<open>crypto/signing.rs\<close>, the two manifest builders and
      \<open>restore/manifest_verifier.rs\<close>.  The trait \<open>Manifest\<close> is the record \<open>manifest_ops\<close> and the locale
      \<open>signed_manifest\<close>, interpreted for both manifests.
    \<^item> \<open>Backup_Journal\<close>, \<open>Compaction\<close>, \<open>Backup_Run\<close>: \<open>backup/event_journal.rs\<close>, \<open>backup/segment_builder.rs\<close>,
      \<open>backup/wire.rs\<close>, \<open>backup/compaction.rs\<close>, \<open>backup/coordinator.rs\<close> and the backup methods of
      \<open>core_impl.rs\<close>.  The state \<open>backup_core\<close> is the database, the in-memory tail and ledger, and the sink.
    \<^item> \<open>Restore_Pipeline\<close>: \<open>restore/pipeline.rs\<close> and its driver in \<open>core_impl.rs\<close>.
    \<^item> \<open>Backup_Facts\<close>, \<open>Backup_Histories\<close>: what holds of the backup under every history of \<open>backup_op\<close>s.
    \<^item> \<open>Event_Cbor\<close>, \<open>Archive_Journal\<close>, \<open>Messages\<close>: \<open>message/processor.rs\<close> with the CBOR it writes byte by byte,
      \<open>archive/event_journal.rs\<close>, \<open>archive/body_payload.rs\<close>, and the batch ingest of \<open>core_impl.rs\<close>.  The state
      \<open>message_store\<close> is the database with the two tables of the archive journal; each operation runs in a
      savepoint over the store, the fuzzy index and both journals.
    \<^item> \<open>Message_Facts\<close>, \<open>Message_Histories\<close>: the specification \<open>message_map\<close>, the relation \<open>shows_messages\<close> of
      the tables to it, and what holds after every history of \<open>message_op\<close>s.
    \<^item> \<open>Journal_Drain\<close>: messages and backup together.  \<open>Message_Examples\<close>: a concrete library and its histories.
    \<^item> \<open>Keys\<close>, \<open>Epoch_Keys\<close>, \<open>Convergent\<close>: \<open>crypto/key_hierarchy.rs\<close>, \<open>crypto/key_wrap.rs\<close>, \<open>archive/epoch_keys.rs\<close>,
      the slot of \<open>archive/coordinator.rs\<close>, \<open>crypto/convergent.rs\<close>.  A key is a list of bytes; the manager's state is
      the current epoch with its key and the wrapped keys of the retired ones.
    \<^item> \<open>Archive_Segments\<close>, \<open>Archive_Facts\<close>: \<open>archive/segment_builder.rs\<close>, \<open>archive/download.rs\<close>, \<open>archive/upload.rs\<close>,
      \<open>archive/routing.rs\<close>, \<open>archive/prefetch.rs\<close>, \<open>archive/privacy.rs\<close>, \<open>archive/compaction.rs\<close> and the configuration check of
      \<open>media/sinks/zk_fabric.rs\<close>.  An upload is a function over the state of the services.
    \<^item> \<open>Rehydration\<close>, \<open>Rehydration_Facts\<close>, \<open>Archive_Compaction\<close>: the methods of \<open>core_impl.rs\<close> over the two before
      and the message store; what they do is stated on \<open>message_map\<close> and on the segment map.  \<open>Archive_Examples\<close>: a
      concrete archive and service.
    \<^item> \<open>Media_Chunks\<close>, \<open>Media_Facts\<close>: \<open>media/chunker.rs\<close>, \<open>crypto/aead.rs\<close>, \<open>media/processor.rs\<close>, \<open>media/upload.rs\<close>,
      \<open>media/download.rs\<close>, and \<open>send_media\<close> and \<open>rehydrate_media_for_message\<close> of \<open>core_impl.rs\<close>.  The service is the record
      \<open>media_transport\<close> over a state of its own.
    \<^item> \<open>Media_Sinks\<close>, \<open>Media_Migration\<close>: \<open>media/sinks\<close>, \<open>media/routing.rs\<close>, \<open>media/migration.rs\<close>.  \<open>sink_keeps\<close> is the
      contract of a sink; a run changes the database and the state of both sinks.
    \<^item> \<open>Media_Histories\<close>: sends, rehydrations and sweeps among the message operations.  \<open>Media_Examples\<close>: one photo.
    \<^item> \<open>Scheduler\<close>: \<open>scheduler/mod.rs\<close>, \<open>scheduler/in_process.rs\<close>; the threads, the map of workers and the calls
      of \<open>cancel_all\<close> are one state under the step relation \<open>sched_step\<close>.

  \<^bold>\<open>What the lemmas show.\<close>  Of the lifecycle machines: which states are reachable from which, and that a
  restore is complete only after all its stages.  Of the store: its integrity under every history of
  calls, the exact effect of the cascading delete, the batch transition and the rehydration, and when
  paging is complete.  Of offloading: the planner's safety, order and stopping point, and the whole
  sweep composed from the three steps.  Of the caches and the queue: refinement of their
  specifications.  Of search: no false negatives of the filter, exactness of the bucket pruning, the
  fuzzy search against its specification, soundness of every cold result, transparency of the shard
  cache, agreement of the three entry points, and that the worker pool, under every schedule, stops
  with exactly the sequential result.  Of the backup: which manifest chains are accepted, that a chain is
  pinned by its head, that what is built is accepted, that the tail only extends such a chain, that
  every typed event of the journal is sealed once whatever fails on the way, that a restart loses
  nothing, and what compaction groups and what tombstones remove.  Of messages: the tables and the
  search indexes are functions of a map that each operation changes at one id, a batch can be delivered twice, what
  the journals get, and that the payloads decode.  Of the archive: keys of different uses have different infos, the
  manager opens exactly the epochs it should, segments and convergent ciphertexts open to what they were
  made of, dummy requests change nothing, a hydration writes wanted texts into the map and nothing else, skeletons
  land once, and a compaction keeps exactly what no tombstone names.  Of media: chunks open to what was sealed,
  the additional data tells all chunks apart, a resumed upload loses nothing, a rehydration is all or nothing, every
  sink returns what it was given, and a migration accounts for each item.  Of the scheduler: one-off tasks run once, its
  state stays well formed, and a shutdown can always finish.  Where the code falls short of its comments the theorems say so:
  the critical threshold can wrap, paging loses ties, a date filter can lose messages, the bloom gate
  loses substring matches, sent messages are in no backup and enough of them stop it, an erased text stays in
  the archive journal, an edited caption is not stored, an edited message is never embedded again, a deleted
  epoch key can be derived again, neither upload leaves what the download expects, hydration
  brings an erased text back, no compaction of the archive ever starts and one would take nothing out of later
  fetches, a task can run twice at the same time, no asset ever leaves its first state, a rehydrated one stays padded,
  a migrated one cannot be fetched, and captions are in no archive.

  \<^bold>\<open>Bounds and fuel.\<close>  Nothing runs on fuel; the loops of the code are structural recursions or folds, and
  paging is a \<open>function\<close> with a measure.  Byte counts whose overflow matters are 64-bit words; time stamps
  and sizes elsewhere are integers.  \<open>f64\<close> scores are reals, so rounding is not modelled.

  \<^bold>\<open>Parameters.\<close>  Code that is not in the repository is an argument: the keyed hash of the bloom filter,
  the Unicode tables of the Rust standard library, the printed form of UUIDs, the sizes of structs,
  the source of cold shards, and SQLite's full-text search.  The records \<open>crypto\<close>, \<open>codec\<close> and \<open>library\<close>
  collect the primitives, codecs, compression and key derivation of the backup, \<open>message_env\<close> the UUID text, the
  payload codec and the embedder of the message processor (\<open>env_sound\<close>), \<open>key_library\<close> HKDF and AES key wrap
  (\<open>keys_sound\<close>), \<open>archive_library\<close> the codec of segments and zstd (\<open>archive_sound\<close>), \<open>remote\<close> the two services
  (\<open>object_store\<close>), \<open>media_transport\<close>, \<open>blob_bridge\<close> and \<open>s3_client\<close> are the services of media (\<open>serves\<close>, \<open>bridge_sound\<close>,
  \<open>s3_sound\<close>); \<open>aead_sound\<close>, \<open>xchacha_sound\<close>,
  \<open>signs_soundly\<close>, \<open>decodes_backup\<close> and \<open>library_sound\<close> are what is assumed of them, and the toy instances
  show that it can hold.

  \<^bold>\<open>Not modelled.\<close>  Thumbnails and the models that read media, the replay of search shards, and the remaining methods of
  \<open>core_impl.rs\<close>, which mostly pass calls on to the modules above with traces around them.  The cryptographic
  primitives, HTTP transport, the sinks of the backup, SQLCipher connections, machine-learning runtimes and the
  platform bridges are calls to libraries and services.
\<close>

end
